(* ===== verification/C_Prelude.thy ===== *)
theory C_Prelude
  imports Main "HOL-Library.Word"
begin

text \<open>
  Shared vocabulary of the development: the C integer types as fixed-width words, the
  faults a C statement can end in (a failed \<open>assert\<close>, \<open>abort()\<close>, an access outside an
  array, a use of freed memory), the run type \<open>fault + 'a\<close> with its sequencing, the
  search loops \<open>for (i = 0; i < n; i++) if (p) return i;\<close>, the C string functions the
  sources call (\<open>strncpy\<close> with its terminator, \<open>strtok_r\<close>, \<open>strtol\<close>, \<open>%u\<close>), and the
  lemmas about them that the components use.
\<close>

section \<open>Machine types\<close>

type_synonym byte = "8 word"
type_synonym u16 = "16 word"
type_synonym u32 = "32 word"
type_synonym u64 = "64 word"

lemma unat_pred: "(b :: 'a::len word) \<noteq> 0 \<Longrightarrow> unat (b - 1) = unat b - 1"
  by (metis One_nat_def Suc_pred unat_gt_0 unat_minus_one)

lemma unat_byte_less: "unat (b :: byte) < 256"
  using unsigned_less [of b, where 'a = nat] by simp

named_theorems run_simps \<open>evaluation of sequenced runs\<close>
named_theorems inv_intros \<open>an operation keeps the invariant of its component\<close>

section \<open>Faults and runs\<close>

datatype fault =
    Assert_failed       \<comment> \<open>\<open>assert(...)\<close> does not hold\<close>
  | Abort_called        \<comment> \<open>\<open>abort()\<close>\<close>
  | Out_of_bounds       \<comment> \<open>read or write outside the object\<close>
  | Null_pointer        \<comment> \<open>dereference of \<open>NULL\<close>\<close>
  | Use_after_free      \<comment> \<open>access to an object after \<open>free\<close>\<close>
  | Bad_argument        \<comment> \<open>library call outside its documented domain\<close>
  | No_return           \<comment> \<open>a loop that is never left\<close>
  | Uninitialised       \<comment> \<open>read of an object that was never written\<close>

type_synonym 'a run = "fault + 'a"

fun run_bind :: "'a run \<Rightarrow> ('a \<Rightarrow> 'b run) \<Rightarrow> 'b run" where
  "run_bind (Inl e) f = Inl e"
| "run_bind (Inr x) f = f x"

definition ensure :: "bool \<Rightarrow> fault \<Rightarrow> unit run" where
  "ensure b e = (if b then Inr () else Inl e)"

lemma run_bind_cong [fundef_cong]:
  "m = m' \<Longrightarrow> (\<And>x. m' = Inr x \<Longrightarrow> f x = g x) \<Longrightarrow> run_bind m f = run_bind m' g"
  by (cases m') auto

lemma run_bind_assoc: "run_bind (run_bind m f) g = run_bind m (\<lambda>x. run_bind (f x) g)"
  by (cases m) auto

lemma run_bind_eq_Inr [run_simps]:
  "run_bind m f = Inr y \<longleftrightarrow> (\<exists>x. m = Inr x \<and> f x = Inr y)"
  by (cases m) auto

lemma run_bind_eq_Inl [run_simps]:
  "run_bind m f = Inl e \<longleftrightarrow> m = Inl e \<or> (\<exists>x. m = Inr x \<and> f x = Inl e)"
  by (cases m) auto

lemma run_bind_Inr_right [simp]: "run_bind m Inr = m"
  by (cases m) auto

lemma ensure_holds [simp]: "b \<Longrightarrow> ensure b e = Inr ()"
  by (simp add: ensure_def)

lemma ensure_fails [simp]: "\<not> b \<Longrightarrow> ensure b e = Inl e"
  by (simp add: ensure_def)

lemma ensure_eq_Inr [run_simps]: "ensure b e = Inr u \<longleftrightarrow> b"
  by (simp add: ensure_def)

lemma ensure_eq_Inl [run_simps]: "ensure b e = Inl e' \<longleftrightarrow> \<not> b \<and> e' = e"
  by (auto simp: ensure_def)

text \<open>A run that ends without a fault in a value that satisfies \<open>P\<close>.\<close>

definition run_ok :: "'a run \<Rightarrow> ('a \<Rightarrow> bool) \<Rightarrow> bool" where
  "run_ok m P \<longleftrightarrow> (case m of Inl e \<Rightarrow> False | Inr x \<Rightarrow> P x)"

lemma run_ok_simps [simp]:
  "run_ok (Inr x) P = P x" "\<not> run_ok (Inl e) P"
  by (simp_all add: run_ok_def)

lemma run_ok_bind [simp]: "run_ok (run_bind m f) P = run_ok m (\<lambda>x. run_ok (f x) P)"
  by (cases m) simp_all

lemma run_ok_iff: "run_ok m P \<longleftrightarrow> (\<exists>x. m = Inr x \<and> P x)"
  by (cases m) simp_all

lemma run_okD: "run_ok m P \<Longrightarrow> m = Inr x \<Longrightarrow> P x"
  by simp

lemma run_ok_mono: "run_ok m P \<Longrightarrow> (\<And>x. P x \<Longrightarrow> Q x) \<Longrightarrow> run_ok m Q"
  by (cases m) simp_all

section \<open>Search loops over arrays\<close>

text \<open>
  \<^verbatim>\<open>for (i = 0; i < n; i++) if (p(a[i])) return i;\<close> is \<open>first_idx p a\<close>: the least index
  that satisfies the test, \<open>None\<close> when the loop falls through.
\<close>

fun first_idx :: "('a \<Rightarrow> bool) \<Rightarrow> 'a list \<Rightarrow> nat option" where
  "first_idx p [] = None"
| "first_idx p (x # xs) = (if p x then Some 0 else map_option Suc (first_idx p xs))"

lemma first_idx_None [simp]: "first_idx p xs = None \<longleftrightarrow> (\<forall>x \<in> set xs. \<not> p x)"
  by (induction xs) auto

lemma first_idx_SomeD:
  "first_idx p xs = Some i \<Longrightarrow> i < length xs \<and> p (xs ! i) \<and> (\<forall>j < i. \<not> p (xs ! j))"
proof (induction xs arbitrary: i)
  case (Cons x xs)
  show ?case
  proof (cases "p x")
    case False
    with Cons.prems obtain k where k: "first_idx p xs = Some k" "i = Suc k"
      by auto
    from Cons.IH [OF k(1)] k(2) False show ?thesis
      by (auto simp: nth_Cons split: nat.splits)
  qed (use Cons.prems in auto)
qed simp

lemma first_idx_SomeI:
  "i < length xs \<Longrightarrow> p (xs ! i) \<Longrightarrow> (\<And>j. j < i \<Longrightarrow> \<not> p (xs ! j)) \<Longrightarrow> first_idx p xs = Some i"
proof (induction xs arbitrary: i)
  case (Cons x xs)
  show ?case
  proof (cases i)
    case (Suc k)
    have "\<not> p x" using Cons.prems(3) [of 0] Suc by simp
    moreover have "first_idx p xs = Some k"
      using Cons.prems Suc by (intro Cons.IH) force+
    ultimately show ?thesis using Suc by simp
  qed (use Cons.prems in simp)
qed simp

lemma first_idx_less: "first_idx p xs = Some i \<Longrightarrow> i < length xs"
  by (simp add: first_idx_SomeD)

lemma first_idx_holds: "first_idx p xs = Some i \<Longrightarrow> p (xs ! i)"
  by (simp add: first_idx_SomeD)

lemma first_idx_cong:
  "(\<And>x. x \<in> set xs \<Longrightarrow> p x = q x) \<Longrightarrow> first_idx p xs = first_idx q xs"
  by (induction xs) auto

lemma first_idx_update:
  "p y = p (xs ! i) \<Longrightarrow> first_idx p (xs[i := y]) = first_idx p xs"
  by (induction xs arbitrary: i) (auto split: nat.splits)

section \<open>Counting array slots\<close>

lemma count_update:
  assumes "i < length xs"
  shows "length (filter p (xs[i := y])) + (if p (xs ! i) then 1 else 0)
       = length (filter p xs) + (if p y then 1 else 0)"
proof -
  have "xs = take i xs @ xs ! i # drop (Suc i) xs"
    using assms by (rule id_take_nth_drop)
  then have "filter p xs = filter p (take i xs) @ filter p [xs ! i] @ filter p (drop (Suc i) xs)"
    by (metis append_Cons append_Nil filter_append)
  moreover have "xs[i := y] = take i xs @ y # drop (Suc i) xs"
    using assms by (rule upd_conv_take_nth_drop)
  ultimately show ?thesis by auto
qed

lemma count_update_on [simp]:
  "i < length xs \<Longrightarrow> \<not> p (xs ! i) \<Longrightarrow> p y \<Longrightarrow>
    length (filter p (xs[i := y])) = Suc (length (filter p xs))"
  using count_update [of i xs p y] by simp

lemma count_update_off:
  "i < length xs \<Longrightarrow> p (xs ! i) \<Longrightarrow> \<not> p y \<Longrightarrow>
    length (filter p xs) = Suc (length (filter p (xs[i := y])))"
  using count_update [of i xs p y] by simp

lemma count_update_same [simp]:
  "i < length xs \<Longrightarrow> p (xs ! i) = p y \<Longrightarrow>
    length (filter p (xs[i := y])) = length (filter p xs)"
  using count_update [of i xs p y] by (simp split: if_splits)

lemma count_pos: "i < length xs \<Longrightarrow> p (xs ! i) \<Longrightarrow> 0 < length (filter p xs)"
  by (auto simp: filter_empty_conv)

section \<open>Characters, C strings and decimal text\<close>

text \<open>
  A C \<open>char\<close> and a \<open>uint8_t\<close> are the same octet; the casts between them are
  \<open>char_of_byte\<close> and \<open>byte_of_char\<close>. A value of type \<open>string\<close> is the content of a C
  string, the octets before the terminating \<open>'\0'\<close>; \<open>cstr\<close> reads the content off an
  array that may hold a \<open>'\0'\<close> in the middle.
\<close>

definition char_of_byte :: "byte \<Rightarrow> char" where
  "char_of_byte b = char_of (unat b)"

definition byte_of_char :: "char \<Rightarrow> byte" where
  "byte_of_char c = of_nat (of_char c)"

abbreviation bytes_of :: "string \<Rightarrow> byte list" where
  "bytes_of s \<equiv> map byte_of_char s"

abbreviation chars_of :: "byte list \<Rightarrow> string" where
  "chars_of bs \<equiv> map char_of_byte bs"

lemma char_of_byte_of_char [simp]: "char_of_byte (byte_of_char c) = c"
proof -
  have "take_bit 8 (of_char c :: nat) = of_char c"
    by (simp add: take_bit_nat_eq_self)
  then show ?thesis
    by (simp add: char_of_byte_def byte_of_char_def unsigned_of_nat)
qed

lemma byte_of_char_of_byte [simp]: "byte_of_char (char_of_byte b) = b"
proof -
  have "unat b < 256" using unsigned_less [of b, where 'a = nat] by simp
  then show ?thesis
    by (simp add: char_of_byte_def byte_of_char_def)
qed

lemma chars_of_bytes_of [simp]: "chars_of (bytes_of s) = s"
  by (induction s) auto

lemma bytes_of_chars_of [simp]: "bytes_of (chars_of bs) = bs"
  by (induction bs) auto

definition cstr :: "string \<Rightarrow> string" where
  "cstr s = takeWhile (\<lambda>c. c \<noteq> CHR 0x00) s"

lemma cstr_id: "CHR 0x00 \<notin> set s \<Longrightarrow> cstr s = s"
  by (auto simp: cstr_def takeWhile_eq_all_conv)

lemma cstr_no_nul [simp]: "CHR 0x00 \<notin> set (cstr s)"
  by (auto simp: cstr_def dest: set_takeWhileD)

lemma cstr_cstr [simp]: "cstr (cstr s) = cstr s"
  by (simp add: cstr_id)

lemma length_cstr: "length (cstr s) \<le> length s"
  by (simp add: cstr_def length_takeWhile_le)

text \<open>
  \<^verbatim>\<open>strncpy(dst, src, n); dst[n] = '\0';\<close> stores the first \<open>n\<close> characters.
\<close>

definition strncpy_term :: "nat \<Rightarrow> string \<Rightarrow> string" where
  "strncpy_term n s = take n (cstr s)"

lemma strncpy_term_no_nul [simp]: "CHR 0x00 \<notin> set (strncpy_term n s)"
  by (metis cstr_no_nul in_set_takeD strncpy_term_def)

lemma length_strncpy_term: "length (strncpy_term n s) \<le> n"
  by (simp add: strncpy_term_def)

lemma strncpy_term_fits:
  "CHR 0x00 \<notin> set s \<Longrightarrow> length s \<le> n \<Longrightarrow> strncpy_term n s = s"
  by (simp add: strncpy_term_def cstr_id)

text \<open>\<open>%u\<close> and \<open>%llu\<close>.\<close>

definition dec_digit :: "nat \<Rightarrow> char" where
  "dec_digit d = char_of (48 + d)"

fun dec :: "nat \<Rightarrow> string" where
  "dec n = (if n < 10 then [dec_digit n] else dec (n div 10) @ [dec_digit (n mod 10)])"

declare dec.simps [simp del]

definition is_digit :: "char \<Rightarrow> bool" where
  "is_digit c \<longleftrightarrow> 48 \<le> (of_char c :: nat) \<and> (of_char c :: nat) \<le> 57"

definition digit_val :: "char \<Rightarrow> nat" where
  "digit_val c = of_char c - 48"

lemma is_digit_dec_digit [simp]: "d < 10 \<Longrightarrow> is_digit (dec_digit d)"
  by (simp add: is_digit_def dec_digit_def)

lemma digit_val_dec_digit [simp]: "d < 10 \<Longrightarrow> digit_val (dec_digit d) = d"
  by (simp add: digit_val_def dec_digit_def)

lemma dec_digits: "\<forall>c \<in> set (dec n). is_digit c"
proof (induction n rule: dec.induct)
  case (1 n)
  then show ?case
    by (cases "n < 10") (simp_all add: dec.simps [of n])
qed

lemma dec_nonempty [simp]: "dec n \<noteq> []"
  by (simp add: dec.simps [of n])

lemma length_dec: "n < 10 ^ Suc k \<Longrightarrow> length (dec n) \<le> Suc k"
proof (induction k arbitrary: n)
  case 0
  then show ?case by (simp add: dec.simps [of n])
next
  case (Suc k)
  show ?case
  proof (cases "n < 10")
    case False
    have "n div 10 < 10 ^ Suc k" using Suc.prems by (simp add: div_less_iff_less_mult mult.commute)
    with Suc.IH False show ?thesis by (simp add: dec.simps [of n])
  qed (simp add: dec.simps [of n])
qed

definition digits_val :: "nat \<Rightarrow> string \<Rightarrow> nat" where
  "digits_val acc s = foldl (\<lambda>a c. 10 * a + digit_val c) acc s"

lemma digits_val_dec [simp]: "digits_val 0 (dec n) = n"
proof (induction n rule: dec.induct)
  case (1 n)
  show ?case
  proof (cases "n < 10")
    case True
    then show ?thesis by (simp add: dec.simps [of n] digits_val_def)
  next
    case False
    with 1 have "digits_val 0 (dec (n div 10)) = n div 10" by simp
    then have "digits_val 0 (dec n) = 10 * (n div 10) + n mod 10"
      using False by (subst dec.simps) (simp add: digits_val_def)
    then show ?thesis by simp
  qed
qed

text \<open>
  \<^verbatim>\<open>strtol(s, &end, 10)\<close>: leading white space, an optional sign, digits; the value
  saturates at \<open>LONG_MIN\<close> and \<open>LONG_MAX\<close>. The result is the value and the rest of the
  text at \<open>end\<close>; without a digit \<open>end\<close> is the start of the text.
\<close>

definition LONG_MAX :: int where "LONG_MAX = 2 ^ 63 - 1"

definition is_space :: "char \<Rightarrow> bool" where
  "is_space c \<longleftrightarrow> (of_char c :: nat) = 32 \<or> 9 \<le> (of_char c :: nat) \<and> (of_char c :: nat) \<le> 13"

definition strtol_sign :: "string \<Rightarrow> bool \<times> string" where
  "strtol_sign s = (case s of
      [] \<Rightarrow> (False, [])
    | c # cs \<Rightarrow> if c = CHR ''-'' then (True, cs) else if c = CHR ''+'' then (False, cs)
        else (False, c # cs))"

definition strtol :: "string \<Rightarrow> int \<times> string" where
  "strtol s =
     (let (neg, ds) = strtol_sign (dropWhile is_space s);
          digs = takeWhile is_digit ds;
          v = int (digits_val 0 digs)
      in if digs = [] then (0, s)
         else (if neg then max (- LONG_MAX - 1) (- v) else min LONG_MAX v, dropWhile is_digit ds))"

lemma digit_not_space: "is_digit c \<Longrightarrow> \<not> is_space c"
  by (auto simp: is_digit_def is_space_def)

lemma digit_not_sign: "is_digit c \<Longrightarrow> c \<noteq> CHR ''-'' \<and> c \<noteq> CHR ''+''"
  by (auto simp: is_digit_def)

lemma strtol_dec:
  assumes "int n \<le> LONG_MAX"
  shows "strtol (dec n) = (int n, [])"
proof -
  obtain c cs where d: "dec n = c # cs" by (cases "dec n") auto
  then have c: "is_digit c" using dec_digits [of n] by simp
  have "dropWhile is_space (dec n) = dec n"
    using c by (simp add: d digit_not_space)
  moreover have "strtol_sign (dec n) = (False, dec n)"
    using digit_not_sign [OF c] by (simp add: strtol_sign_def d)
  moreover have "takeWhile is_digit (dec n) = dec n" "dropWhile is_digit (dec n) = []"
    using dec_digits [of n] by (simp_all add: takeWhile_eq_all_conv dropWhile_eq_Nil_conv)
  ultimately show ?thesis
    using assms by (simp add: strtol_def Let_def del: takeWhile_eq_all_conv)
qed

text \<open>
  \<^verbatim>\<open>strtok_r(line, " ", &save)\<close> called until it returns \<open>NULL\<close>: the maximal runs of
  characters other than the blank.
\<close>

function tokens :: "string \<Rightarrow> string list" where
  "tokens s =
     (let t = dropWhile (\<lambda>c. c = CHR '' '') s
      in if t = [] then []
         else takeWhile (\<lambda>c. c \<noteq> CHR '' '') t # tokens (dropWhile (\<lambda>c. c \<noteq> CHR '' '') t))"
  by pat_completeness auto
termination
proof (relation "measure length")
  fix s t :: string
  assume t: "t = dropWhile (\<lambda>c. c = CHR '' '') s" and ne: "t \<noteq> []"
  have "hd t \<noteq> CHR '' ''"
    using hd_dropWhile [of "\<lambda>c. c = CHR '' ''" s] ne by (simp only: t) simp
  with ne obtain c cs where c: "t = c # cs" "c \<noteq> CHR '' ''"
    by (cases t) auto
  have "length (dropWhile (\<lambda>c. c \<noteq> CHR '' '') t) \<le> length cs"
    using c by (simp add: length_dropWhile_le)
  also have "length cs < length t" using c by simp
  also have "length t \<le> length s" by (simp only: t length_dropWhile_le)
  finally show "(dropWhile (\<lambda>c. c \<noteq> CHR '' '') t, s) \<in> measure length" by simp
qed simp

declare tokens.simps [simp del]

lemma tokens_Nil [simp]: "tokens [] = []"
  by (simp add: tokens.simps)

lemma tokens_word:
  assumes "w \<noteq> []" and "CHR '' '' \<notin> set w" and "rest = [] \<or> hd rest = CHR '' ''"
  shows "tokens (w @ rest) = w # tokens rest"
proof -
  obtain c cs where w: "w = c # cs" using assms(1) by (cases w) auto
  have c: "c \<noteq> CHR '' ''" using assms(2) w by auto
  have tw: "takeWhile (\<lambda>c. c \<noteq> CHR '' '') (w @ rest) = w"
    and dw: "dropWhile (\<lambda>c. c \<noteq> CHR '' '') (w @ rest) = rest"
    using assms(2,3) by (cases rest; auto simp: takeWhile_append dropWhile_append)+
  show ?thesis
    using tw dw c by (subst tokens.simps) (simp add: w)
qed

lemma tokens_blank [simp]: "tokens (CHR '' '' # s) = tokens s"
  by (subst (1 2) tokens.simps) simp

end
