(* ===== verification/Parser_Engine.thy ===== *)
theory Parser_Engine
  imports C_Prelude
begin

text \<open>
  The table-driven byte parser of \<^verbatim>\<open>src/shared/parser.c\<close> and the case-insensitive
  string matcher built on it in \<^verbatim>\<open>src/shared/parser_utils.c\<close>. The parser state, the
  event it reuses between calls and the transition table are as in the C structs; the
  lookups in \<open>classes\<close>, \<open>states\<close> and \<open>states_n\<close> fault when the index is outside the
  array.
\<close>

unbundle bit_operations_syntax

section \<open>The engine (parser.c)\<close>

record parser_event =
  e_type :: nat
  e_data :: "byte list"
  e_n :: nat

type_synonym parser_action = "parser_event \<Rightarrow> byte \<Rightarrow> parser_event"

record parser_state_transition =
  t_when :: int
  t_dest :: nat
  t_act1 :: parser_action
  t_act2 :: "parser_action option"

definition ANY :: int where "ANY = 512"

record parser_definition =
  states_count :: nat
  d_states :: "parser_state_transition list list"
  states_n :: "nat list"
  start_state :: nat

text \<open>
  \<open>p_next\<close> is the \<open>next\<close> link of the first event: \<open>True\<close> when the second event is
  chained to it.
\<close>

record parser =
  p_classes :: "u32 list"
  p_def :: parser_definition
  p_state :: nat
  p_e1 :: parser_event
  p_e2 :: parser_event
  p_next :: bool

definition zero_event :: parser_event where
  "zero_event = \<lparr>e_type = 0, e_data = [0, 0, 0], e_n = 0\<rparr>"

text \<open>The argument \<open>mem\<close> is whether \<open>malloc\<close> succeeds.\<close>

definition parser_init :: "bool \<Rightarrow> u32 list \<Rightarrow> parser_definition \<Rightarrow> parser option" where
  "parser_init mem classes def =
     (if mem
      then Some \<lparr>p_classes = classes, p_def = def, p_state = start_state def,
                 p_e1 = zero_event, p_e2 = zero_event, p_next = False\<rparr>
      else None)"

definition parser_reset :: "parser \<Rightarrow> parser" where
  "parser_reset p = p\<lparr>p_state := start_state (p_def p)\<rparr>"

definition transition_matches :: "u32 \<Rightarrow> byte \<Rightarrow> parser_state_transition \<Rightarrow> bool" where
  "transition_matches ty c t =
     (if t_when t \<le> 0xFF then int (unat c) = t_when t
      else if t_when t = ANY then True
      else if t_when t > 0xFF then (ty AND word_of_int (t_when t)) \<noteq> 0
      else False)"

definition fire :: "parser \<Rightarrow> parser_state_transition \<Rightarrow> byte \<Rightarrow> parser" where
  "fire p t c =
     (let p1 = p\<lparr>p_e1 := t_act1 t (p_e1 p) c\<rparr>;
          p2 = (case t_act2 t of
                  None \<Rightarrow> p1
                | Some act2 \<Rightarrow> p1\<lparr>p_next := True, p_e2 := act2 (p_e2 p1) c\<rparr>)
      in p2\<lparr>p_state := t_dest t\<rparr>)"

text \<open>The returned event is \<open>p_e1\<close> (with \<open>p_e2\<close> behind it when \<open>p_next\<close>).\<close>

definition parser_feed :: "parser \<Rightarrow> byte \<Rightarrow> parser run" where
  "parser_feed p c =
     run_bind (ensure (unat c < length (p_classes p)) Out_of_bounds) (\<lambda>_.
     run_bind (ensure (p_state p < length (d_states (p_def p)) \<and>
                       p_state p < length (states_n (p_def p))) Out_of_bounds) (\<lambda>_.
       let ty = p_classes p ! unat c;
           p0 = p\<lparr>p_next := False\<rparr>;
           row = d_states (p_def p) ! p_state p;
           n = states_n (p_def p) ! p_state p
       in case first_idx (transition_matches ty c) (take n row) of
            Some i \<Rightarrow> Inr (fire p0 (row ! i) c)
          | None \<Rightarrow> if n \<le> length row then Inr p0 else Inl Out_of_bounds))"

definition parser_no_classes :: "u32 list" where
  "parser_no_classes = replicate 0xFF 0"

fun parser_feed_all :: "parser \<Rightarrow> byte list \<Rightarrow> parser run" where
  "parser_feed_all p [] = Inr p"
| "parser_feed_all p (c # cs) = run_bind (parser_feed p c) (\<lambda>p'. parser_feed_all p' cs)"

section \<open>The string matcher (parser\_utils.c)\<close>

definition STRING_CMP_MAYEQ :: nat where "STRING_CMP_MAYEQ = 0"
definition STRING_CMP_EQ :: nat where "STRING_CMP_EQ = 1"
definition STRING_CMP_NEQ :: nat where "STRING_CMP_NEQ = 2"

definition parser_utils_strcmpi_event :: "nat \<Rightarrow> string option" where
  "parser_utils_strcmpi_event ty =
     (if ty = STRING_CMP_MAYEQ then Some ''wait(c)''
      else if ty = STRING_CMP_EQ then Some ''eq(c)''
      else if ty = STRING_CMP_NEQ then Some ''neq(c)''
      else None)"

definition set_event :: "nat \<Rightarrow> parser_action" where
  "set_event ty ret c = ret\<lparr>e_type := ty, e_n := 1, e_data := (e_data ret)[0 := c]\<rparr>"

definition may_eq :: parser_action where "may_eq = set_event STRING_CMP_MAYEQ"
definition eq :: parser_action where "eq = set_event STRING_CMP_EQ"
definition neq :: parser_action where "neq = set_event STRING_CMP_NEQ"

text \<open>\<open>tolower\<close> and \<open>toupper\<close> in the C locale, on the octets 0 to 127.\<close>

definition tolower :: "nat \<Rightarrow> nat" where
  "tolower n = (if 65 \<le> n \<and> n \<le> 90 then n + 32 else n)"

definition toupper :: "nat \<Rightarrow> nat" where
  "toupper n = (if 97 \<le> n \<and> n \<le> 122 then n - 32 else n)"

definition any_row :: "nat \<Rightarrow> parser_state_transition list" where
  "any_row st_neq = [\<lparr>t_when = ANY, t_dest = st_neq, t_act1 = neq, t_act2 = None\<rparr>]"

definition strcmpi_row :: "string \<Rightarrow> nat \<Rightarrow> parser_state_transition list" where
  "strcmpi_row s i =
     (let n = length s;
          dest = (if i + 1 = n then n else i + 1);
          act = (if i + 1 = n then eq else may_eq)
      in [\<lparr>t_when = int (tolower (of_char (s ! i))), t_dest = dest, t_act1 = act, t_act2 = None\<rparr>,
          \<lparr>t_when = int (toupper (of_char (s ! i))), t_dest = dest, t_act1 = act, t_act2 = None\<rparr>,
          \<lparr>t_when = ANY, t_dest = n + 1, t_act1 = neq, t_act2 = None\<rparr>])"

text \<open>
  A character above 127 is negative as a \<open>char\<close> and outside the domain of \<open>tolower\<close>.
  The argument \<open>mem\<close> is whether the three \<open>calloc\<close> calls succeed; the failure value is
  the definition with no states.
\<close>

definition parser_utils_strcmpi :: "bool \<Rightarrow> string \<Rightarrow> parser_definition run" where
  "parser_utils_strcmpi mem s =
     (if \<not> mem then Inr \<lparr>states_count = 0, d_states = [], states_n = [], start_state = 0\<rparr>
      else run_bind (ensure (\<forall>c \<in> set s. (of_char c :: nat) < 128) Bad_argument) (\<lambda>_.
        let n = length s
        in Inr \<lparr>states_count = n + 2,
                d_states = map (strcmpi_row s) [0..<n] @ [any_row (n + 1), any_row (n + 1)],
                states_n = replicate n 3 @ [1, 1],
                start_state = 0\<rparr>))"

section \<open>Properties\<close>

text \<open>What the engine answers when no transition matches: the state and the event stay.\<close>

lemma parser_feed_OOB:
  "length (p_classes p) \<le> unat c \<Longrightarrow> parser_feed p c = Inl Out_of_bounds"
  by (simp add: parser_feed_def)

text \<open>Equality up to the case of ASCII letters.\<close>

definition ci_char :: "byte \<Rightarrow> char \<Rightarrow> bool" where
  "ci_char b c \<longleftrightarrow> tolower (unat b) = tolower (of_char c)"

definition ci_eq :: "byte list \<Rightarrow> string \<Rightarrow> bool" where
  "ci_eq = list_all2 ci_char"

lemma tolower_eq_iff:
  "tolower x = tolower m \<longleftrightarrow> x = tolower m \<or> x = toupper m"
  unfolding tolower_def toupper_def by (cases "65 \<le> m \<and> m \<le> 90"; cases "97 \<le> m \<and> m \<le> 122") auto

lemma ci_char_iff:
  "ci_char b c \<longleftrightarrow> unat b = tolower (of_char c) \<or> unat b = toupper (of_char c)"
  by (simp add: ci_char_def tolower_eq_iff)

lemma tolower_le: "n < 128 \<Longrightarrow> int (tolower n) \<le> 0xFF"
  by (simp add: tolower_def)

lemma toupper_le: "n < 128 \<Longrightarrow> int (toupper n) \<le> 0xFF"
  by (auto simp: toupper_def)

text \<open>The matcher state after the bytes \<open>t\<close>: how much of \<open>s\<close> has been matched.\<close>

definition strcmpi_state :: "string \<Rightarrow> byte list \<Rightarrow> nat" where
  "strcmpi_state s t =
     (if length t \<le> length s \<and> ci_eq t (take (length t) s) then length t else length s + 1)"

definition strcmpi_verdict :: "string \<Rightarrow> byte list \<Rightarrow> nat" where
  "strcmpi_verdict s t =
     (if length t \<le> length s \<and> ci_eq t (take (length t) s)
      then if length t = length s then STRING_CMP_EQ else STRING_CMP_MAYEQ
      else STRING_CMP_NEQ)"

definition strcmpi_def :: "string \<Rightarrow> parser_definition" where
  "strcmpi_def s =
     \<lparr>states_count = length s + 2,
      d_states = map (strcmpi_row s) [0..<length s] @
        [any_row (length s + 1), any_row (length s + 1)],
      states_n = replicate (length s) 3 @ [1, 1], start_state = 0\<rparr>"

lemma strcmpi_row_step:
  assumes i: "i < length s" and asc: "\<forall>c \<in> set s. (of_char c :: nat) < 128"
  shows "\<exists>k t. first_idx (transition_matches 0 c) (strcmpi_row s i) = Some k \<and>
           strcmpi_row s i ! k = t \<and> t_act2 t = None \<and>
           (if ci_char c (s ! i)
            then t_dest t = i + 1 \<and> t_act1 t = (if i + 1 = length s then eq else may_eq)
            else t_dest t = length s + 1 \<and> t_act1 t = neq)"
proof -
  let ?m = "of_char (s ! i) :: nat"
  have m: "?m < 128" using i asc by simp
  have u: "uint c = int n \<longleftrightarrow> unat c = n" for n by (metis uint_nat of_nat_eq_iff)
  have k1: "transition_matches 0 c (strcmpi_row s i ! 0) \<longleftrightarrow> unat c = tolower ?m"
    and k2: "transition_matches 0 c (strcmpi_row s i ! 1) \<longleftrightarrow> unat c = toupper ?m"
    using tolower_le [OF m] toupper_le [OF m]
    by (simp_all add: strcmpi_row_def transition_matches_def Let_def u)
  have k3: "transition_matches 0 c (strcmpi_row s i ! 2)"
    by (simp add: strcmpi_row_def transition_matches_def ANY_def Let_def)
  consider "unat c = tolower ?m" | "unat c \<noteq> tolower ?m" "unat c = toupper ?m"
    | "unat c \<noteq> tolower ?m" "unat c \<noteq> toupper ?m" by blast
  then show ?thesis
    using k1 k2 k3 ci_char_iff [of c "s ! i"]
    by cases (auto simp: strcmpi_row_def Let_def)
qed

lemma strcmpi_rows:
  "i < length s \<Longrightarrow> d_states (strcmpi_def s) ! i = strcmpi_row s i"
  "i < length s \<Longrightarrow> states_n (strcmpi_def s) ! i = 3"
  "d_states (strcmpi_def s) ! length s = any_row (length s + 1)"
  "d_states (strcmpi_def s) ! (length s + 1) = any_row (length s + 1)"
  "states_n (strcmpi_def s) ! length s = 1"
  "states_n (strcmpi_def s) ! (length s + 1) = 1"
  "length (d_states (strcmpi_def s)) = length s + 2"
  "length (states_n (strcmpi_def s)) = length s + 2"
  by (simp_all add: strcmpi_def_def nth_append)

lemma ci_eq_snoc:
  "length t < length s \<Longrightarrow>
    ci_eq (t @ [c]) (take (Suc (length t)) s) \<longleftrightarrow> ci_eq t (take (length t) s) \<and> ci_char c (s ! length t)"
  by (simp add: ci_eq_def take_Suc_conv_app_nth list_all2_append)

lemma e_type_actions [simp]:
  "e_type (eq e c) = STRING_CMP_EQ" "e_type (may_eq e c) = STRING_CMP_MAYEQ"
  "e_type (neq e c) = STRING_CMP_NEQ"
  by (simp_all add: eq_def may_eq_def neq_def set_event_def)

text \<open>One byte: the matcher moves to the state of the extended input and reports its verdict.\<close>

lemma strcmpi_feed:
  assumes asc: "\<forall>c \<in> set s. (of_char c :: nat) < 128"
    and p: "p_def p = strcmpi_def s" "p_classes p = parser_no_classes"
      "p_state p = strcmpi_state s t"
    and c: "unat c < 255"
  shows "\<exists>p'. parser_feed p c = Inr p' \<and> p_def p' = strcmpi_def s \<and>
           p_classes p' = parser_no_classes \<and> p_state p' = strcmpi_state s (t @ [c]) \<and>
           e_type (p_e1 p') = strcmpi_verdict s (t @ [c])"
proof -
  have cl: "unat c < length (p_classes p)" "p_classes p ! unat c = 0"
    using c p(2) by (simp_all add: parser_no_classes_def)
  have st: "p_state p < length s + 2"
    using p(3) by (simp add: strcmpi_state_def)
  let ?row = "d_states (strcmpi_def s) ! p_state p"
  show ?thesis
  proof (cases "length t < length s \<and> ci_eq t (take (length t) s)")
    case True
    then have i: "p_state p = length t" "length t < length s"
      using p(3) by (simp_all add: strcmpi_state_def)
    obtain k tr where k: "first_idx (transition_matches 0 c) (strcmpi_row s (length t)) = Some k"
        "strcmpi_row s (length t) ! k = tr" "t_act2 tr = None"
        "if ci_char c (s ! length t)
         then t_dest tr = length t + 1 \<and>
              t_act1 tr = (if length t + 1 = length s then eq else may_eq)
         else t_dest tr = length s + 1 \<and> t_act1 tr = neq"
      using strcmpi_row_step [OF i(2) asc, of c] by blast
    have tk: "take 3 (strcmpi_row s (length t)) = strcmpi_row s (length t)"
      by (simp add: strcmpi_row_def Let_def)
    have "parser_feed p c = Inr (fire (p\<lparr>p_next := False\<rparr>) tr c)"
      using cl st i p k(1,2) tk by (simp add: parser_feed_def strcmpi_rows)
    moreover have "fire (p\<lparr>p_next := False\<rparr>) tr c =
        p\<lparr>p_next := False, p_e1 := t_act1 tr (p_e1 p) c, p_state := t_dest tr\<rparr>"
      using k(3) by (simp add: fire_def)
    moreover have "t_dest tr = strcmpi_state s (t @ [c])"
      "e_type (t_act1 tr (p_e1 p) c) = strcmpi_verdict s (t @ [c])"
      using k(4) True i ci_eq_snoc [OF i(2), of c]
      by (auto simp: strcmpi_state_def strcmpi_verdict_def split: if_splits)
    ultimately show ?thesis using p by simp
  next
    case False
    then have i: "p_state p = length s \<or> p_state p = length s + 1"
      using p(3) by (auto simp: strcmpi_state_def)
    have far: "\<not> (length (t @ [c]) \<le> length s \<and> ci_eq (t @ [c]) (take (length (t @ [c])) s))"
      using False ci_eq_snoc [of t s c] by auto
    have row: "?row = any_row (length s + 1)" "states_n (strcmpi_def s) ! p_state p = 1"
      using i strcmpi_rows by auto
    have "parser_feed p c = Inr (fire (p\<lparr>p_next := False\<rparr>) (any_row (length s + 1) ! 0) c)"
      using cl st p row
      by (simp add: parser_feed_def strcmpi_rows any_row_def transition_matches_def ANY_def)
    with far p show ?thesis
      by (simp add: fire_def any_row_def strcmpi_state_def strcmpi_verdict_def)
  qed
qed

lemma parser_feed_all_snoc:
  "parser_feed_all p (t @ [c]) = run_bind (parser_feed_all p t) (\<lambda>p'. parser_feed p' c)"
proof (induction t arbitrary: p)
  case (Cons a t)
  then show ?case by (cases "parser_feed p a") auto
qed simp

lemma strcmpi_feed_all:
  assumes asc: "\<forall>c \<in> set s. (of_char c :: nat) < 128"
    and p: "p_def p = strcmpi_def s" "p_classes p = parser_no_classes" "p_state p = 0"
    and t: "\<forall>c \<in> set t. unat c < 255"
  shows "\<exists>p'. parser_feed_all p t = Inr p' \<and> p_def p' = strcmpi_def s \<and>
           p_classes p' = parser_no_classes \<and> p_state p' = strcmpi_state s t \<and>
           (t \<noteq> [] \<longrightarrow> e_type (p_e1 p') = strcmpi_verdict s t)"
  using t
proof (induction t rule: rev_induct)
  case Nil
  then show ?case using p by (simp add: strcmpi_state_def ci_eq_def)
next
  case (snoc c t)
  then obtain q where q: "parser_feed_all p t = Inr q" "p_def q = strcmpi_def s"
      "p_classes q = parser_no_classes" "p_state q = strcmpi_state s t"
    by auto
  have "unat c < 255" using snoc.prems by simp
  from strcmpi_feed [OF asc q(2-4) this] q(1) show ?case
    by (auto simp: parser_feed_all_snoc)
qed

lemma parser_utils_strcmpi_ok:
  "\<forall>c \<in> set s. (of_char c :: nat) < 128 \<Longrightarrow> parser_utils_strcmpi True s = Inr (strcmpi_def s)"
  by (simp add: parser_utils_strcmpi_def strcmpi_def_def Let_def)

end
