(* ===== verification/Parser_Memory.thy ===== *)
theory Parser_Memory
  imports Parser_Engine
begin

text \<open>
  The memory of the tables of \<^verbatim>\<open>src/shared/parser_utils.c\<close> and of the parsers of \<^verbatim>\<open>parser.c\<close>. A matcher is three blocks: the
  array \<open>states\<close> of pointers into the block \<open>transitions\<close>, and the array \<open>nstates\<close>; a definition has pointers to the first and
  the last only. Blocks have addresses, freed blocks have none; an element that nothing has written since \<^verbatim>\<open>calloc\<close> is \<open>None\<close>.
\<close>

section \<open>Blocks\<close>

record parser_heap =
  ph_rows :: "nat \<rightharpoonup> (nat \<times> nat) option list"
  ph_sizes :: "nat \<rightharpoonup> nat list"
  ph_trans :: "nat \<rightharpoonup> parser_state_transition option list"
  ph_parsers :: "nat \<rightharpoonup> parser"

record table_pointers =
  tp_start :: nat
  tp_count :: nat
  tp_states :: "nat option"
  tp_states_n :: "nat option"

text \<open>\<^verbatim>\<open>free\<close>: nothing for the null pointer, a fault for a block that is not allocated.\<close>

definition free_rows :: "nat option \<Rightarrow> parser_heap \<Rightarrow> parser_heap run" where
  "free_rows p h = (case p of None \<Rightarrow> Inr h
     | Some a \<Rightarrow> if ph_rows h a = None then Inl Use_after_free else Inr (h\<lparr>ph_rows := (ph_rows h)(a := None)\<rparr>))"

definition free_sizes :: "nat option \<Rightarrow> parser_heap \<Rightarrow> parser_heap run" where
  "free_sizes p h = (case p of None \<Rightarrow> Inr h
     | Some a \<Rightarrow> if ph_sizes h a = None then Inl Use_after_free else Inr (h\<lparr>ph_sizes := (ph_sizes h)(a := None)\<rparr>))"

definition free_trans :: "(nat \<times> nat) option \<Rightarrow> parser_heap \<Rightarrow> parser_heap run" where
  "free_trans p h = (case p of None \<Rightarrow> Inr h
     | Some (a, off) \<Rightarrow>
         if ph_trans h a = None then Inl Use_after_free
         else if off \<noteq> 0 then Inl Bad_argument
         else Inr (h\<lparr>ph_trans := (ph_trans h)(a := None)\<rparr>))"

section \<open>Parsers\<close>

text \<open>\<open>a\<close> is the answer of \<^verbatim>\<open>malloc\<close>; a parser keeps its definition, which it does not own.\<close>

definition parser_new :: "nat option \<Rightarrow> u32 list \<Rightarrow> parser_definition \<Rightarrow> parser_heap \<Rightarrow> nat option \<times> parser_heap" where
  "parser_new a classes def h = (case (a, parser_init (a \<noteq> None) classes def) of
       (Some x, Some p) \<Rightarrow> (Some x, h\<lparr>ph_parsers := (ph_parsers h)(x \<mapsto> p)\<rparr>)
     | _ \<Rightarrow> (None, h))"

definition parser_destroy :: "nat option \<Rightarrow> parser_heap \<Rightarrow> parser_heap run" where
  "parser_destroy p h = (case p of None \<Rightarrow> Inr h
     | Some a \<Rightarrow> if ph_parsers h a = None then Inl Use_after_free else Inr (h\<lparr>ph_parsers := (ph_parsers h)(a := None)\<rparr>))"

section \<open>Building a matcher\<close>

text \<open>The loop over the characters: three transitions, the pointer to them and their number.\<close>

type_synonym strcmpi_blocks = "(nat \<times> nat) option list \<times> nat list \<times> parser_state_transition option list"

definition fill_state :: "string \<Rightarrow> nat \<Rightarrow> nat \<Rightarrow> strcmpi_blocks \<Rightarrow> strcmpi_blocks" where
  "fill_state s base i = (\<lambda>(st, sz, tr).
     let n = length s;
         dest = (if i + 1 = n then n else i + 1);
         act = (if i + 1 = n then eq else may_eq);
         tr1 = tr[i * 3 + 0 := Some \<lparr>t_when = int (tolower (of_char (s ! i))), t_dest = dest, t_act1 = act, t_act2 = None\<rparr>];
         tr2 = tr1[i * 3 + 1 := Some \<lparr>t_when = int (toupper (of_char (s ! i))), t_dest = dest, t_act1 = act, t_act2 = None\<rparr>];
         tr3 = tr2[i * 3 + 2 := Some \<lparr>t_when = ANY, t_dest = n + 1, t_act1 = neq, t_act2 = None\<rparr>]
     in (st[i := Some (base, i * 3 + 0)], sz[i := 3], tr3))"

definition fill_sink :: "string \<Rightarrow> nat \<Rightarrow> nat \<Rightarrow> strcmpi_blocks \<Rightarrow> strcmpi_blocks" where
  "fill_sink s base i = (\<lambda>(st, sz, tr).
     (st[i := Some (base, i * 3 + 0)], sz[i := 1],
      tr[i * 3 := Some \<lparr>t_when = ANY, t_dest = length s + 1, t_act1 = neq, t_act2 = None\<rparr>]))"

definition strcmpi_fill :: "string \<Rightarrow> nat \<Rightarrow> strcmpi_blocks \<Rightarrow> strcmpi_blocks" where
  "strcmpi_fill s base b = (let n = length s
     in fill_sink s base (n + 1) (fill_sink s base (n + 0) (fold (fill_state s base) [0..<n] b)))"

text \<open>
  The answers of the three \<^verbatim>\<open>calloc\<close> calls are \<open>a\<close>, \<open>b\<close> and \<open>c\<close>. When one of them is null the others are released and the
  definition has null pointers.
\<close>

definition strcmpi_tables ::
  "nat option \<Rightarrow> nat option \<Rightarrow> nat option \<Rightarrow> string \<Rightarrow> parser_heap \<Rightarrow> (table_pointers \<times> parser_heap) run" where
  "strcmpi_tables a b c s h =
     (let n = length s;
          st = replicate (n + 2) None; sz = replicate (n + 2) 0; tr = replicate (3 * (n + 2)) None;
          h1 = h\<lparr>ph_rows := (case a of None \<Rightarrow> ph_rows h | Some x \<Rightarrow> (ph_rows h)(x \<mapsto> st)),
                 ph_sizes := (case b of None \<Rightarrow> ph_sizes h | Some x \<Rightarrow> (ph_sizes h)(x \<mapsto> sz)),
                 ph_trans := (case c of None \<Rightarrow> ph_trans h | Some x \<Rightarrow> (ph_trans h)(x \<mapsto> tr))\<rparr>
      in case (a, b, c) of
           (Some x, Some y, Some z) \<Rightarrow>
             run_bind (ensure (\<forall>c \<in> set s. (of_char c :: nat) < 128) Bad_argument) (\<lambda>_.
             let (st', sz', tr') = strcmpi_fill s z (st, sz, tr)
             in Inr (\<lparr>tp_start = 0, tp_count = n + 2, tp_states = Some x, tp_states_n = Some y\<rparr>,
                     h1\<lparr>ph_rows := (ph_rows h1)(x \<mapsto> st'), ph_sizes := (ph_sizes h1)(y \<mapsto> sz'),
                        ph_trans := (ph_trans h1)(z \<mapsto> tr')\<rparr>))
         | _ \<Rightarrow>
             run_bind (free_rows a h1) (\<lambda>h2. run_bind (free_sizes b h2) (\<lambda>h3.
             run_bind (free_trans (map_option (\<lambda>x. (x, 0)) c) h3) (\<lambda>h4.
               Inr (\<lparr>tp_start = 0, tp_count = 0, tp_states = None, tp_states_n = None\<rparr>, h4)))))"

definition parser_utils_strcmpi_destroy :: "table_pointers \<Rightarrow> parser_heap \<Rightarrow> parser_heap run" where
  "parser_utils_strcmpi_destroy p h = (case tp_states p of
       None \<Rightarrow> Inl Null_pointer
     | Some x \<Rightarrow> (case ph_rows h x of
           None \<Rightarrow> Inl Use_after_free
         | Some st \<Rightarrow>
             run_bind (ensure (0 < length st) Out_of_bounds) (\<lambda>_.
             run_bind (free_trans (st ! 0) h) (\<lambda>h1.
             run_bind (free_rows (tp_states p) h1) (\<lambda>h2. free_sizes (tp_states_n p) h2)))))"

text \<open>What a parser sees of the tables: row \<open>i\<close> is what \<open>states[i]\<close> points to, as far as \<open>nstates[i]\<close> says.\<close>

definition seen_row :: "parser_heap \<Rightarrow> (nat \<times> nat) option \<Rightarrow> nat \<Rightarrow> parser_state_transition list option" where
  "seen_row h p k = (case p of None \<Rightarrow> None
     | Some (a, off) \<Rightarrow> (case ph_trans h a of None \<Rightarrow> None
         | Some tr \<Rightarrow> if off + k \<le> length tr \<and> None \<notin> set (take k (drop off tr)) then Some (map the (take k (drop off tr))) else None))"

definition tables_of :: "parser_heap \<Rightarrow> table_pointers \<Rightarrow> parser_definition option" where
  "tables_of h p = (case (tp_states p, tp_states_n p) of
       (Some x, Some y) \<Rightarrow> (case (ph_rows h x, ph_sizes h y) of
           (Some st, Some sz) \<Rightarrow>
             (let rows = map2 (seen_row h) st sz
              in if None \<in> set rows then None
                 else Some \<lparr>states_count = tp_count p, d_states = map the rows, states_n = sz, start_state = tp_start p\<rparr>)
         | _ \<Rightarrow> None)
     | _ \<Rightarrow> None)"

section \<open>The tables are those of the matcher\<close>

text \<open>The blocks after the first \<open>i\<close> rounds of the loop.\<close>

definition filled :: "string \<Rightarrow> nat \<Rightarrow> nat \<Rightarrow> strcmpi_blocks" where
  "filled s base i = (let n = length s in
     (map (\<lambda>j. Some (base, j * 3)) [0..<i] @ replicate (n + 2 - i) None,
      replicate i 3 @ replicate (n + 2 - i) 0,
      map Some (concat (map (strcmpi_row s) [0..<i])) @ replicate (3 * (n + 2 - i)) None))"

lemma concat_rows_length: "length (concat (map (strcmpi_row s) js)) = length js * 3"
  by (induction js) (simp_all add: strcmpi_row_def Let_def)

lemma fill_state_filled: "i < length s \<Longrightarrow> fill_state s base i (filled s base i) = filled s base (Suc i)"
proof -
  assume "i < length s"
  then obtain k where k: "length s + 2 - i = Suc k" "length s + 2 - Suc i = k" by (metis Suc_diff_Suc add_2_eq_Suc' less_SucI)
  show ?thesis
    using k concat_rows_length [of s "[0..<i]"]
    by (simp add: fill_state_def filled_def Let_def list_update_append strcmpi_row_def numeral_3_eq_3 replicate_append_same)
qed

lemma fold_filled: "i \<le> length s \<Longrightarrow> fold (fill_state s base) [0..<i] (filled s base 0) = filled s base i"
  by (induction i) (simp_all add: fill_state_filled)

lemma strcmpi_fill_eq:
  "strcmpi_fill s base (replicate (length s + 2) None, replicate (length s + 2) 0, replicate (3 * (length s + 2)) None) =
     (map (\<lambda>j. Some (base, j * 3)) [0..<length s + 2], replicate (length s) 3 @ [1, 1],
      map Some (concat (map (strcmpi_row s) [0..<length s])) @
      [Some (any_row (length s + 1) ! 0), None, None, Some (any_row (length s + 1) ! 0), None, None])"
proof -
  have "(replicate (length s + 2) None, replicate (length s + 2) 0, replicate (3 * (length s + 2)) None) = filled s base 0"
    by (simp add: filled_def Let_def)
  then show ?thesis
    using fold_filled [of "length s" s base] concat_rows_length [of s "[0..<length s]"]
    by (simp add: strcmpi_fill_def Let_def filled_def fill_sink_def list_update_append any_row_def numeral_eq_Suc)
qed

lemma drop_concat_rows:
  assumes "i < length s"
  shows "take 3 (drop (i * 3) (map Some (concat (map (strcmpi_row s) [0..<length s])) @ zs)) = map Some (strcmpi_row s i)"
proof -
  have "[0..<length s] = [0..<i] @ i # [Suc i..<length s]" 
    using assms upt_add_eq_append [of 0 i "length s - i"] by (simp add: upt_conv_Cons)
  then have "map Some (concat (map (strcmpi_row s) [0..<length s])) @ zs = map Some (concat (map (strcmpi_row s) [0..<i])) @
      map Some (strcmpi_row s i) @ map Some (concat (map (strcmpi_row s) [Suc i..<length s])) @ zs" by simp
  moreover have "length (strcmpi_row s i) = 3" by (simp add: strcmpi_row_def Let_def)
  ultimately show ?thesis using concat_rows_length [of s "[0..<i]"] by simp
qed

lemma strcmpi_tables_run:
  assumes "\<forall>c \<in> set s. (of_char c :: nat) < 128"
  shows "\<exists>p h'. strcmpi_tables (Some x) (Some y) (Some z) s h = Inr (p, h') \<and>
    p = \<lparr>tp_start = 0, tp_count = length s + 2, tp_states = Some x, tp_states_n = Some y\<rparr> \<and>
    h' = h\<lparr>ph_rows := (ph_rows h)(x \<mapsto> map (\<lambda>j. Some (z, j * 3)) [0..<length s + 2]),
           ph_sizes := (ph_sizes h)(y \<mapsto> replicate (length s) 3 @ [1, 1]),
           ph_trans := (ph_trans h)(z \<mapsto> map Some (concat (map (strcmpi_row s) [0..<length s])) @
             [Some (any_row (length s + 1) ! 0), None, None, Some (any_row (length s + 1) ! 0), None, None])\<rparr>"
  using assms strcmpi_fill_eq [of s z] by (simp add: strcmpi_tables_def Let_def del: upt_Suc)

lemma strcmpi_tables_seen:
  assumes "\<forall>c \<in> set s. (of_char c :: nat) < 128" "strcmpi_tables (Some x) (Some y) (Some z) s h = Inr (p, h')"
  shows "tables_of h' p = Some (strcmpi_def s)"
proof -
  obtain tr where h': "ph_trans h' z = Some tr" "ph_rows h' x = Some (map (\<lambda>j. Some (z, j * 3)) [0..<length s + 2])"
      "ph_sizes h' y = Some (replicate (length s) 3 @ [1, 1])"
    and tr: "tr = map Some (concat (map (strcmpi_row s) [0..<length s])) @
      [Some (any_row (length s + 1) ! 0), None, None, Some (any_row (length s + 1) ! 0), None, None]"
    and p: "p = \<lparr>tp_start = 0, tp_count = length s + 2, tp_states = Some x, tp_states_n = Some y\<rparr>"
    using strcmpi_tables_run [OF assms(1), of x y z h] assms(2) by (auto simp del: upt_Suc)
  have len: "length tr = 3 * (length s + 2)" unfolding tr using concat_rows_length [of s "[0..<length s]"] by simp
  have row: "seen_row h' (Some (z, i * 3)) 3 = Some (strcmpi_row s i)" if "i < length s" for i
    using h'(1) len drop_concat_rows [OF that] that unfolding seen_row_def tr by simp
  have sink: "seen_row h' (Some (z, i * 3)) 1 = Some (any_row (length s + 1))" if "i = length s \<or> i = length s + 1" for i
    using h'(1) len concat_rows_length [of s "[0..<length s]"] that by (auto simp: seen_row_def tr any_row_def)
  have "map2 (seen_row h') (map (\<lambda>j. Some (z, j * 3)) [0..<length s + 2]) (replicate (length s) 3 @ [1, 1]) = map Some (d_states (strcmpi_def s))"
    (is "?l = ?r")
  proof (rule nth_equalityI)
    fix i assume "i < length ?l"
    then have "i < length s \<or> i = length s \<or> i = length s + 1" by auto
    then show "?l ! i = ?r ! i"
      using row [of i] sink [of i] by (auto simp: strcmpi_def_def nth_append simp del: upt_Suc)
  qed (simp add: strcmpi_def_def)
  then show ?thesis using h' by (simp add: tables_of_def p Let_def strcmpi_def_def comp_def del: upt_Suc map_append)
qed

lemma strcmpi_released:
  assumes "\<forall>c \<in> set s. (of_char c :: nat) < 128" "ph_rows h x = None" "ph_sizes h y = None" "ph_trans h z = None"
    and "strcmpi_tables (Some x) (Some y) (Some z) s h = Inr (p, h')"
  shows "parser_utils_strcmpi_destroy p h' = Inr h" "parser_utils_strcmpi_destroy p h = Inl Use_after_free"
  using strcmpi_tables_run [OF assms(1), of x y z h] assms(2-5)
  by (auto simp: parser_utils_strcmpi_destroy_def free_trans_def free_rows_def free_sizes_def fun_upd_idem simp del: upt_Suc)

text \<open>Without memory nothing is kept, but the definition that says so cannot be destroyed.\<close>

lemma strcmpi_no_memory:
  assumes "a = None \<or> b = None \<or> c = None"
    and "\<And>x. a = Some x \<Longrightarrow> ph_rows h x = None" "\<And>x. b = Some x \<Longrightarrow> ph_sizes h x = None" "\<And>x. c = Some x \<Longrightarrow> ph_trans h x = None"
  shows "\<exists>p. strcmpi_tables a b c s h = Inr (p, h) \<and> parser_utils_strcmpi_destroy p h' = Inl Null_pointer"
  using assms
  by (cases a; cases b; cases c)
    (simp_all add: strcmpi_tables_def Let_def free_trans_def free_rows_def free_sizes_def parser_utils_strcmpi_destroy_def fun_upd_idem)

lemma parser_released:
  assumes "\<And>x. a = Some x \<Longrightarrow> ph_parsers h x = None" "parser_new a classes def h = (p, h')"
  shows "parser_destroy p h' = Inr h"
  using assms by (cases a) (auto simp: parser_new_def parser_init_def parser_destroy_def fun_upd_idem)

end
