(* ===== verification/Actions.thy ===== *)
theory Actions
  imports C_Prelude
begin

text \<open>
  Computations that act on a state and may fault, for any type of state: the world of the server, the terminal of the
  administration client, the sockets of the load generator. Each component fixes the state and adds its own primitives.
\<close>

section \<open>Actions\<close>

type_synonym ('w, 'a) action = "'w \<Rightarrow> ('a \<times> 'w) run"

definition act_ret :: "'a \<Rightarrow> ('w, 'a) action" where
  "act_ret x = (\<lambda>w. Inr (x, w))"

definition act_bind :: "('w, 'a) action \<Rightarrow> ('a \<Rightarrow> ('w, 'b) action) \<Rightarrow> ('w, 'b) action" where
  "act_bind m f = (\<lambda>w. run_bind (m w) (\<lambda>(x, w1). f x w1))"

definition act_then :: "('w, 'a) action \<Rightarrow> ('w, 'b) action \<Rightarrow> ('w, 'b) action" where
  "act_then m n = act_bind m (\<lambda>_. n)"

definition act_lift :: "'a run \<Rightarrow> ('w, 'a) action" where
  "act_lift r = (\<lambda>w. run_bind r (\<lambda>x. Inr (x, w)))"

definition act_get :: "('w \<Rightarrow> 'a) \<Rightarrow> ('w, 'a) action" where
  "act_get f = (\<lambda>w. Inr (f w, w))"

definition act_mod :: "('w \<Rightarrow> 'w) \<Rightarrow> ('w, unit) action" where
  "act_mod f = (\<lambda>w. Inr ((), f w))"

definition act_fail :: "fault \<Rightarrow> ('w, 'a) action" where
  "act_fail e = (\<lambda>w. Inl e)"

definition act_when :: "bool \<Rightarrow> ('w, unit) action \<Rightarrow> ('w, unit) action" where
  "act_when b m = (if b then m else act_ret ())"

text \<open>The result of an action that must not fail, as a property of what it returns.\<close>

definition act_ok :: "('w, 'a) action \<Rightarrow> ('a \<Rightarrow> 'w \<Rightarrow> bool) \<Rightarrow> 'w \<Rightarrow> bool" where
  "act_ok m P w \<longleftrightarrow> run_ok (m w) (\<lambda>(x, w'). P x w')"

lemma act_ok_simps [simp]:
  "act_ok (act_ret x) P w = P x w"
  "act_ok (act_get f) P w = P (f w) w"
  "act_ok (act_mod g) Q w = Q () (g w)"
  "\<not> act_ok (act_fail e) P w"
  by (simp_all add: act_ok_def act_ret_def act_get_def act_mod_def act_fail_def)

lemma act_ok_bind [simp]: "act_ok (act_bind m f) P w = act_ok m (\<lambda>x. act_ok (f x) P) w"
  by (cases "m w") (auto simp: act_ok_def act_bind_def)

lemma act_ok_then [simp]: "act_ok (act_then m n) P w = act_ok m (\<lambda>_. act_ok n P) w"
  by (simp add: act_then_def)

lemma act_ok_lift [simp]: "act_ok (act_lift r) P w = run_ok r (\<lambda>x. P x w)"
  by (simp add: act_ok_def act_lift_def)

lemma act_ok_when [simp]: "act_ok (act_when b m) P w = (if b then act_ok m P w else P () w)"
  by (simp add: act_when_def)

lemma act_ok_if [simp]: "act_ok (if b then m else n) P w = (if b then act_ok m P w else act_ok n P w)"
  by simp

lemma act_ok_mono: "act_ok m P w \<Longrightarrow> (\<And>x w'. P x w' \<Longrightarrow> Q x w') \<Longrightarrow> act_ok m Q w"
  unfolding act_ok_def by (erule run_ok_mono) auto

lemma act_ok_iff: "act_ok m P w \<longleftrightarrow> (\<exists>x w'. m w = Inr (x, w') \<and> P x w')"
  by (auto simp: act_ok_def run_ok_iff)

lemma act_simps [simp]:
  "act_ret x w = Inr (x, w)" "act_get f w = Inr (f w, w)" "act_mod g w = Inr ((), g w)" "act_fail e w = Inl e"
  by (simp_all add: act_ret_def act_get_def act_mod_def act_fail_def)

lemma act_bind_run [simp]:
  "m w = Inr (x, w1) \<Longrightarrow> act_bind m f w = f x w1"
  "m w = Inl e \<Longrightarrow> act_bind m f w = Inl e"
  by (simp_all add: act_bind_def)

lemma act_then_run [simp]:
  "m w = Inr (x, w1) \<Longrightarrow> act_then m n w = n w1"
  "m w = Inl e \<Longrightarrow> act_then m n w = Inl e"
  by (simp_all add: act_then_def)

end
