(* ===== verification/Selector.thy ===== *)
theory Selector
  imports C_Prelude
begin

text \<open>
  The multiplexer of \<^verbatim>\<open>src/shared/selector.c\<close>. The jump table \<open>fds\<close> is a block of memory:
  \<open>sel_base\<close> is its address (\<open>None\<close> for \<open>NULL\<close>) and \<open>sel_fds\<close> its contents, so that a
  pointer to an item taken before a \<open>realloc\<close> can be told from one taken after it. The set
  of descriptors the kernel watches for the \<open>epoll\<close> instance is the map \<open>sel_epoll\<close>. A
  handler is the address of a static \<open>fd_handler\<close>, here an identifier of type \<open>'h\<close> that a
  table of type \<open>'h \<Rightarrow> ('d, 'w) fd_handler\<close> interprets on the world \<open>'w\<close>; the world holds
  the selector itself, reached by \<open>get\<close> and \<open>put\<close>. The answers of the allocator and of
  \<open>epoll_wait\<close> are arguments.
\<close>

unbundle bit_operations_syntax

section \<open>Data\<close>

datatype selector_status =
  SELECTOR_SUCCESS | SELECTOR_ENOMEM | SELECTOR_MAXFD | SELECTOR_IARGS | SELECTOR_FDINUSE | SELECTOR_IO

type_synonym fd_interest = u32

definition OP_NOOP :: fd_interest where "OP_NOOP = 0"
definition OP_READ :: fd_interest where "OP_READ = 1"
definition OP_WRITE :: fd_interest where "OP_WRITE = 4"

definition EPOLLIN :: u32 where "EPOLLIN = 0x001"
definition EPOLLOUT :: u32 where "EPOLLOUT = 0x004"
definition EPOLLERR :: u32 where "EPOLLERR = 0x008"
definition EPOLLHUP :: u32 where "EPOLLHUP = 0x010"

definition SELECTOR_ITEMS_MAX_SIZE :: nat where "SELECTOR_ITEMS_MAX_SIZE = 65536"

record 'd selector_key =
  key_fd :: int
  key_data :: "'d option"

record ('d, 'w) fd_handler =
  handle_read :: "('d selector_key \<Rightarrow> 'w \<Rightarrow> 'w run) option"
  handle_write :: "('d selector_key \<Rightarrow> 'w \<Rightarrow> 'w run) option"
  handle_block :: "('d selector_key \<Rightarrow> 'w \<Rightarrow> 'w run) option"
  handle_close :: "('d selector_key \<Rightarrow> 'w \<Rightarrow> 'w run) option"

record ('h, 'd) item =
  it_fd :: int
  it_interest :: fd_interest
  it_handler :: "'h option"
  it_data :: "'d option"

definition FD_UNUSED :: int where "FD_UNUSED = -1"

definition ITEM_USED :: "('h, 'd) item \<Rightarrow> bool" where
  "ITEM_USED i \<longleftrightarrow> FD_UNUSED \<noteq> it_fd i"

definition zero_item :: "('h, 'd) item" where
  "zero_item = \<lparr>it_fd = 0, it_interest = 0, it_handler = None, it_data = None\<rparr>"

record ('h, 'd) fdselector =
  sel_base :: "nat option"
  sel_fds :: "('h, 'd) item list"
  fd_size :: nat
  resolution_jobs :: "int list"
  epoll_fd :: int
  event_fd :: int
  event_count :: nat
  events_capacity :: nat
  sel_epoll :: "int \<Rightarrow> u32 option"

text \<open>What an allocation gives: \<open>None\<close> or an address and the contents of the new memory.\<close>

type_synonym ('h, 'd) alloc = "(nat \<times> (nat \<Rightarrow> ('h, 'd) item)) option"

definition selector_error :: "selector_status \<Rightarrow> string" where
  "selector_error status = (case status of
      SELECTOR_SUCCESS \<Rightarrow> ''Success''
    | SELECTOR_ENOMEM \<Rightarrow> ''Not enough memory''
    | SELECTOR_MAXFD \<Rightarrow> ''Can't handle any more file descriptors''
    | SELECTOR_IARGS \<Rightarrow> ''Illegal argument''
    | SELECTOR_IO \<Rightarrow> ''I/O error''
    | _ \<Rightarrow> ''something failed'')"

section \<open>The table of items\<close>

text \<open>The loop that counts the bits of \<open>n\<close>, and the capacity it gives.\<close>

fun bit_count :: "nat \<Rightarrow> nat" where
  "bit_count n = (if n = 0 then 0 else Suc (bit_count (n div 2)))"

declare bit_count.simps [simp del]

definition next_capacity :: "nat \<Rightarrow> nat run" where
  "next_capacity n =
     (let bits = bit_count n; tmp = 2 ^ bits
      in run_bind (ensure (bits < 64) Bad_argument) (\<lambda>_.
         run_bind (ensure (n \<le> tmp) Assert_failed) (\<lambda>_.
           Inr ((if tmp > SELECTOR_ITEMS_MAX_SIZE then SELECTOR_ITEMS_MAX_SIZE else tmp) + 1))))"

definition item_init :: "('h, 'd) item \<Rightarrow> ('h, 'd) item" where
  "item_init i = i\<lparr>it_fd := FD_UNUSED\<rparr>"

definition items_init :: "('h, 'd) fdselector \<Rightarrow> nat \<Rightarrow> ('h, 'd) fdselector run" where
  "items_init s last_idx =
     run_bind (ensure (last_idx \<le> fd_size s) Assert_failed) (\<lambda>_.
     run_bind (ensure (fd_size s \<le> length (sel_fds s)) Out_of_bounds) (\<lambda>_.
       Inr (s\<lparr>sel_fds := take last_idx (sel_fds s) @
                map item_init (take (fd_size s - last_idx) (drop last_idx (sel_fds s))) @
                drop (fd_size s) (sel_fds s)\<rparr>)))"

definition sizeof_item :: nat where "sizeof_item = 24"

definition ensure_capacity ::
  "('h, 'd) alloc \<Rightarrow> ('h, 'd) fdselector \<Rightarrow> nat \<Rightarrow> (selector_status \<times> ('h, 'd) fdselector) run" where
  "ensure_capacity mem s n =
     (if n < fd_size s then Inr (SELECTOR_SUCCESS, s)
      else if n > SELECTOR_ITEMS_MAX_SIZE then Inr (SELECTOR_MAXFD, s)
      else run_bind (next_capacity n) (\<lambda>new_size.
        if sel_base s = None
        then (case mem of
                None \<Rightarrow> Inr (SELECTOR_ENOMEM, s)
              | Some (a, _) \<Rightarrow>
                  run_bind (items_init (s\<lparr>sel_base := Some a, sel_fds := replicate new_size zero_item,
                                          fd_size := new_size\<rparr>) 0) (\<lambda>s1.
                    Inr (SELECTOR_SUCCESS, s1)))
        else if new_size > (2 ^ 64 - 1) div sizeof_item then Inr (SELECTOR_ENOMEM, s)
        else (case mem of
                None \<Rightarrow> Inr (SELECTOR_ENOMEM, s)
              | Some (a, junk) \<Rightarrow>
                  run_bind (items_init
                      (s\<lparr>sel_base := Some a,
                         sel_fds := take new_size (sel_fds s) @ map junk [length (sel_fds s)..<new_size],
                         fd_size := new_size\<rparr>) (fd_size s)) (\<lambda>s1.
                    Inr (SELECTOR_SUCCESS, s1)))))"

definition interest_to_epoll :: "fd_interest \<Rightarrow> u32" where
  "interest_to_epoll interest =
     (if interest AND OP_READ \<noteq> 0 then EPOLLIN else 0) OR (if interest AND OP_WRITE \<noteq> 0 then EPOLLOUT else 0)"

text \<open>
  \<open>epoll_ctl\<close> on the kernel's interest set: \<open>ADD\<close> fails on a descriptor that is present,
  \<open>MOD\<close> and \<open>DEL\<close> on one that is not, and the callers ignore the result.
\<close>

definition epoll_add :: "int \<Rightarrow> u32 \<Rightarrow> ('h, 'd) fdselector \<Rightarrow> ('h, 'd) fdselector" where
  "epoll_add fd ev s =
     s\<lparr>sel_epoll := (if sel_epoll s fd = None then (sel_epoll s)(fd \<mapsto> ev) else sel_epoll s)\<rparr>"

definition epoll_mod :: "int \<Rightarrow> u32 \<Rightarrow> ('h, 'd) fdselector \<Rightarrow> ('h, 'd) fdselector" where
  "epoll_mod fd ev s =
     s\<lparr>sel_epoll := (if sel_epoll s fd = None then sel_epoll s else (sel_epoll s)(fd \<mapsto> ev))\<rparr>"

definition epoll_del :: "int \<Rightarrow> ('h, 'd) fdselector \<Rightarrow> ('h, 'd) fdselector" where
  "epoll_del fd s = s\<lparr>sel_epoll := (sel_epoll s)(fd := None)\<rparr>"

text \<open>
  A pointer \<open>s->fds + i\<close> is the address of the block and the index; it may be used as long as
  the block has not been moved.
\<close>

definition item_get :: "nat \<Rightarrow> nat \<Rightarrow> ('h, 'd) fdselector \<Rightarrow> ('h, 'd) item run" where
  "item_get base i s =
     (if sel_base s \<noteq> Some base then Inl Use_after_free
      else if i < length (sel_fds s) then Inr (sel_fds s ! i) else Inl Out_of_bounds)"

definition item_put :: "nat \<Rightarrow> nat \<Rightarrow> ('h, 'd) item \<Rightarrow> ('h, 'd) fdselector \<Rightarrow> ('h, 'd) fdselector run" where
  "item_put base i it s =
     (if sel_base s \<noteq> Some base then Inl Use_after_free
      else if i < length (sel_fds s) then Inr (s\<lparr>sel_fds := (sel_fds s)[i := it]\<rparr>) else Inl Out_of_bounds)"

definition fds_base :: "('h, 'd) fdselector \<Rightarrow> nat run" where
  "fds_base s = (case sel_base s of None \<Rightarrow> Inl Null_pointer | Some b \<Rightarrow> Inr b)"

definition INVALID_FD :: "int \<Rightarrow> bool" where
  "INVALID_FD fd \<longleftrightarrow> fd < 0 \<or> fd \<ge> int SELECTOR_ITEMS_MAX_SIZE"

section \<open>Registration\<close>

definition selector_register ::
  "('h, 'd) alloc \<Rightarrow> ('h, 'd) fdselector \<Rightarrow> int \<Rightarrow> 'h option \<Rightarrow> fd_interest \<Rightarrow> 'd option \<Rightarrow>
   (selector_status \<times> ('h, 'd) fdselector) run" where
  "selector_register mem s fd handler interest data =
     (if INVALID_FD fd \<or> handler = None then Inr (SELECTOR_IARGS, s)
      else let ufd = nat fd
        in run_bind (if ufd > fd_size s then ensure_capacity mem s ufd else Inr (SELECTOR_SUCCESS, s))
             (\<lambda>(ret, s1).
           if ret \<noteq> SELECTOR_SUCCESS then Inr (ret, s1)
           else run_bind (fds_base s1) (\<lambda>base.
                run_bind (item_get base ufd s1) (\<lambda>it.
                  if ITEM_USED it then Inr (SELECTOR_FDINUSE, s1)
                  else run_bind (item_put base ufd
                           (it\<lparr>it_fd := fd, it_handler := handler, it_interest := interest, it_data := data\<rparr>) s1)
                         (\<lambda>s2. Inr (SELECTOR_SUCCESS, epoll_add fd (interest_to_epoll interest) s2))))))"

definition selector_set_interest ::
  "('h, 'd) fdselector \<Rightarrow> int \<Rightarrow> fd_interest \<Rightarrow> (selector_status \<times> ('h, 'd) fdselector) run" where
  "selector_set_interest s fd i =
     (if INVALID_FD fd then Inr (SELECTOR_IARGS, s)
      else run_bind (fds_base s) (\<lambda>base.
           run_bind (item_get base (nat fd) s) (\<lambda>it.
             if \<not> ITEM_USED it then Inr (SELECTOR_IARGS, s)
             else run_bind (item_put base (nat fd) (it\<lparr>it_interest := i\<rparr>) s)
                    (\<lambda>s1. Inr (SELECTOR_SUCCESS, epoll_mod fd (interest_to_epoll i) s1)))))"

definition selector_set_interest_key ::
  "('h, 'd) fdselector \<Rightarrow> 'd selector_key \<Rightarrow> fd_interest \<Rightarrow> (selector_status \<times> ('h, 'd) fdselector) run" where
  "selector_set_interest_key s key i =
     (if INVALID_FD (key_fd key) then Inr (SELECTOR_IARGS, s) else selector_set_interest s (key_fd key) i)"

definition selector_unregister_fd ::
  "('w \<Rightarrow> ('h, 'd) fdselector) \<Rightarrow> (('h, 'd) fdselector \<Rightarrow> 'w \<Rightarrow> 'w) \<Rightarrow>
   ('h \<Rightarrow> ('d selector_key \<Rightarrow> 'w \<Rightarrow> 'w run) option) \<Rightarrow> int \<Rightarrow> 'w \<Rightarrow> (selector_status \<times> 'w) run" where
  "selector_unregister_fd get put closer fd w =
     (if INVALID_FD fd then Inr (SELECTOR_IARGS, w)
      else run_bind (fds_base (get w)) (\<lambda>base.
           run_bind (item_get base (nat fd) (get w)) (\<lambda>it.
             if \<not> ITEM_USED it then Inr (SELECTOR_IARGS, w)
             else run_bind (item_put base (nat fd) (it\<lparr>it_interest := OP_NOOP\<rparr>) (epoll_del fd (get w))) (\<lambda>s1.
               let w1 = put s1 w in
               run_bind (case it_handler it of
                           None \<Rightarrow> Inl Null_pointer
                         | Some h \<Rightarrow> (case closer h of
                                        None \<Rightarrow> Inr w1
                                      | Some f \<Rightarrow> f \<lparr>key_fd = it_fd it, key_data = it_data it\<rparr> w1)) (\<lambda>w2.
               run_bind (item_put base (nat fd) (item_init zero_item) (get w2)) (\<lambda>s3.
                 Inr (SELECTOR_SUCCESS, put s3 w2)))))))"

section \<open>Dispatch\<close>

text \<open>One round of the loop of \<open>handle_iteration\<close>: the item pointer is taken once.\<close>

definition call_handler ::
  "('d selector_key \<Rightarrow> 'w \<Rightarrow> 'w run) option \<Rightarrow> 'd selector_key \<Rightarrow> 'w \<Rightarrow> 'w run" where
  "call_handler h key w = (case h of None \<Rightarrow> Inl Assert_failed | Some f \<Rightarrow> f key w)"

definition handler_of :: "('h \<Rightarrow> ('d, 'w) fd_handler) \<Rightarrow> ('h, 'd) item \<Rightarrow> ('d, 'w) fd_handler run" where
  "handler_of H it = (case it_handler it of None \<Rightarrow> Inl Null_pointer | Some h \<Rightarrow> Inr (H h))"

definition handle_event ::
  "('w \<Rightarrow> ('h, 'd) fdselector) \<Rightarrow> (('h, 'd) fdselector \<Rightarrow> 'w \<Rightarrow> 'w) \<Rightarrow> ('h \<Rightarrow> ('d, 'w) fd_handler) \<Rightarrow>
   int \<times> u32 \<Rightarrow> 'w \<Rightarrow> 'w run" where
  "handle_event get put H = (\<lambda>(fd, events) w.
     if fd = event_fd (get w) then Inr (put ((get w)\<lparr>event_count := 0\<rparr>) w)
     else run_bind (fds_base (get w)) (\<lambda>base.
          run_bind (item_get base (nat fd) (get w)) (\<lambda>it.
            if \<not> ITEM_USED it then Inr w
            else let key = \<lparr>key_fd = fd, key_data = it_data it\<rparr> in
              run_bind (if events AND (EPOLLIN OR EPOLLERR OR EPOLLHUP) \<noteq> 0 \<and> OP_READ AND it_interest it \<noteq> 0
                        then run_bind (handler_of H it) (\<lambda>h. call_handler (handle_read h) key w)
                        else Inr w) (\<lambda>w1.
              if events AND (EPOLLOUT OR EPOLLERR OR EPOLLHUP) \<noteq> 0
              then run_bind (item_get base (nat fd) (get w1)) (\<lambda>it1.
                     if OP_WRITE AND it_interest it1 \<noteq> 0
                     then run_bind (handler_of H it1) (\<lambda>h. call_handler (handle_write h) key w1)
                     else Inr w1)
              else Inr w1))))"

fun handle_iteration ::
  "('w \<Rightarrow> ('h, 'd) fdselector) \<Rightarrow> (('h, 'd) fdselector \<Rightarrow> 'w \<Rightarrow> 'w) \<Rightarrow> ('h \<Rightarrow> ('d, 'w) fd_handler) \<Rightarrow>
   (int \<times> u32) list \<Rightarrow> 'w \<Rightarrow> 'w run" where
  "handle_iteration get put H [] w = Inr w"
| "handle_iteration get put H (ev # evs) w =
     run_bind (handle_event get put H ev w) (handle_iteration get put H evs)"

fun handle_jobs ::
  "('w \<Rightarrow> ('h, 'd) fdselector) \<Rightarrow> ('h \<Rightarrow> ('d, 'w) fd_handler) \<Rightarrow> int list \<Rightarrow> 'w \<Rightarrow> 'w run" where
  "handle_jobs get H [] w = Inr w"
| "handle_jobs get H (fd # fds) w =
     run_bind (fds_base (get w)) (\<lambda>base.
     run_bind (item_get base (nat fd) (get w)) (\<lambda>it.
     run_bind (if ITEM_USED it
               then run_bind (handler_of H it) (\<lambda>h.
                      case handle_block h of
                        None \<Rightarrow> Inl Null_pointer
                      | Some f \<Rightarrow> f \<lparr>key_fd = it_fd it, key_data = it_data it\<rparr> w)
               else Inr w) (handle_jobs get H fds)))"

definition handle_block_notifications ::
  "('w \<Rightarrow> ('h, 'd) fdselector) \<Rightarrow> (('h, 'd) fdselector \<Rightarrow> 'w \<Rightarrow> 'w) \<Rightarrow> ('h \<Rightarrow> ('d, 'w) fd_handler) \<Rightarrow>
   'w \<Rightarrow> 'w run" where
  "handle_block_notifications get put H w =
     run_bind (handle_jobs get H (resolution_jobs (get w)) w) (\<lambda>w1.
       Inr (put ((get w1)\<lparr>resolution_jobs := []\<rparr>) w1))"

definition selector_notify_block ::
  "bool \<Rightarrow> ('h, 'd) fdselector \<Rightarrow> int \<Rightarrow> selector_status \<times> ('h, 'd) fdselector" where
  "selector_notify_block mem s fd =
     (if \<not> mem then (SELECTOR_ENOMEM, s)
      else (SELECTOR_SUCCESS, s\<lparr>resolution_jobs := fd # resolution_jobs s, event_count := event_count s + 1\<rparr>))"

datatype epoll_result = Epoll_ready "(int \<times> u32) list" | Epoll_EINTR | Epoll_EBADF | Epoll_error

definition selector_select ::
  "('w \<Rightarrow> ('h, 'd) fdselector) \<Rightarrow> (('h, 'd) fdselector \<Rightarrow> 'w \<Rightarrow> 'w) \<Rightarrow> ('h \<Rightarrow> ('d, 'w) fd_handler) \<Rightarrow>
   epoll_result \<Rightarrow> 'w \<Rightarrow> (selector_status \<times> 'w) run" where
  "selector_select get put H res w =
     (case res of
        Epoll_ready evs \<Rightarrow>
          run_bind (handle_iteration get put H (take (events_capacity (get w)) evs) w) (\<lambda>w1.
          run_bind (handle_block_notifications get put H w1) (\<lambda>w2. Inr (SELECTOR_SUCCESS, w2)))
      | Epoll_EINTR \<Rightarrow>
          run_bind (handle_block_notifications get put H w) (\<lambda>w2. Inr (SELECTOR_SUCCESS, w2))
      | Epoll_EBADF \<Rightarrow> Inr (SELECTOR_IO, w)
      | Epoll_error \<Rightarrow> Inr (SELECTOR_IO, w))"

section \<open>Creation and destruction\<close>

text \<open>
  The answers are those of \<open>malloc\<close>, \<open>epoll_create1\<close>, \<open>eventfd\<close>, \<open>calloc\<close> for the event array,
  \<open>epoll_ctl\<close> and the allocation of the table.
\<close>

definition selector_new ::
  "bool \<Rightarrow> int \<Rightarrow> int \<Rightarrow> bool \<Rightarrow> bool \<Rightarrow> ('h, 'd) alloc \<Rightarrow> nat \<Rightarrow> ('h, 'd) fdselector option run" where
  "selector_new mem epfd evfd mem_events ctl mem_fds initial_elements =
     (if \<not> mem \<or> epfd = -1 \<or> evfd = -1 \<or> \<not> mem_events \<or> \<not> ctl then Inr None
      else let s = \<lparr>sel_base = None, sel_fds = [], fd_size = 0, resolution_jobs = [], epoll_fd = epfd,
                    event_fd = evfd, event_count = 0,
                    events_capacity = (if initial_elements > 0 then initial_elements else 8),
                    sel_epoll = [evfd \<mapsto> EPOLLIN]\<rparr>
           in run_bind (ensure_capacity mem_fds s initial_elements) (\<lambda>(ret, s1).
                Inr (if ret \<noteq> SELECTOR_SUCCESS then None else Some s1)))"

fun unregister_all ::
  "('w \<Rightarrow> ('h, 'd) fdselector) \<Rightarrow> (('h, 'd) fdselector \<Rightarrow> 'w \<Rightarrow> 'w) \<Rightarrow>
   ('h \<Rightarrow> ('d selector_key \<Rightarrow> 'w \<Rightarrow> 'w run) option) \<Rightarrow> nat list \<Rightarrow> 'w \<Rightarrow> 'w run" where
  "unregister_all get put closer [] w = Inr w"
| "unregister_all get put closer (i # is) w =
     run_bind (fds_base (get w)) (\<lambda>base.
     run_bind (item_get base i (get w)) (\<lambda>it.
     run_bind (if ITEM_USED it then selector_unregister_fd get put closer (int i) w else Inr (SELECTOR_SUCCESS, w))
       (\<lambda>(_, w1). unregister_all get put closer is w1)))"

definition selector_destroy ::
  "('w \<Rightarrow> ('h, 'd) fdselector) \<Rightarrow> (('h, 'd) fdselector \<Rightarrow> 'w \<Rightarrow> 'w) \<Rightarrow>
   ('h \<Rightarrow> ('d selector_key \<Rightarrow> 'w \<Rightarrow> 'w run) option) \<Rightarrow> 'w \<Rightarrow> 'w run" where
  "selector_destroy get put closer w =
     run_bind (if sel_base (get w) = None then Inr w
               else run_bind (unregister_all get put closer [0..<fd_size (get w)] w) (\<lambda>w1.
                 Inr (put ((get w1)\<lparr>resolution_jobs := [], sel_base := None, sel_fds := [], fd_size := 0\<rparr>) w1)))
       (\<lambda>w2. Inr (put ((get w2)\<lparr>events_capacity := 0, epoll_fd := -1, event_fd := -1, sel_epoll := (\<lambda>_. None)\<rparr>) w2))"

section \<open>Capacity\<close>

lemma bit_count_bounds: "n < 2 ^ bit_count n" "0 < n \<Longrightarrow> 2 ^ (bit_count n - 1) \<le> n"
proof -
  show "n < 2 ^ bit_count n"
  proof (induction n rule: bit_count.induct)
    case (1 n)
    show ?case
    proof (cases "n = 0")
      case False
      then have "bit_count n = Suc (bit_count (n div 2))" by (subst bit_count.simps) simp
      moreover have "n div 2 < 2 ^ bit_count (n div 2)" using 1 False by blast
      ultimately show ?thesis by simp
    qed (simp add: bit_count.simps)
  qed
  show "0 < n \<Longrightarrow> 2 ^ (bit_count n - 1) \<le> n"
  proof (induction n rule: bit_count.induct)
    case (1 n)
    then have eq: "bit_count n = Suc (bit_count (n div 2))" by (subst bit_count.simps) simp
    show ?case
    proof (cases "n div 2 = 0")
      case True
      then show ?thesis using 1 eq by (simp add: bit_count.simps)
    next
      case False
      then have "2 ^ (bit_count (n div 2) - 1) \<le> n div 2" using 1 by simp
      moreover obtain k where "bit_count (n div 2) = Suc k"
        using False by (subst (asm) bit_count.simps) auto
      ultimately show ?thesis unfolding eq using power_Suc [of "2 :: nat" k] by simp
    qed
  qed
qed

text \<open>Up to the limit the capacity always has room for the index \<open>n\<close>.\<close>

lemma next_capacity_ok:
  assumes "n \<le> SELECTOR_ITEMS_MAX_SIZE"
  obtains c where "next_capacity n = Inr c" "n < c" "c \<le> SELECTOR_ITEMS_MAX_SIZE + 1"
proof -
  have b: "bit_count n < 64"
  proof (rule ccontr)
    assume "\<not> bit_count n < 64"
    then have "(2 :: nat) ^ 63 \<le> 2 ^ (bit_count n - 1)" by (intro power_increasing) simp_all
    moreover have "0 < n" using \<open>\<not> bit_count n < 64\<close> by (cases n) (simp_all add: bit_count.simps)
    ultimately have "(2 :: nat) ^ 63 \<le> n" using bit_count_bounds(2) [of n] by simp
    then show False using assms by (simp add: SELECTOR_ITEMS_MAX_SIZE_def)
  qed
  have "next_capacity n = Inr ((if 2 ^ bit_count n > SELECTOR_ITEMS_MAX_SIZE then SELECTOR_ITEMS_MAX_SIZE
      else 2 ^ bit_count n) + 1)"
    using b bit_count_bounds(1) [of n] by (simp add: next_capacity_def)
  moreover have "n < (if 2 ^ bit_count n > SELECTOR_ITEMS_MAX_SIZE then SELECTOR_ITEMS_MAX_SIZE else 2 ^ bit_count n) + 1"
    using assms bit_count_bounds(1) [of n] by simp
  ultimately show ?thesis using that by auto
qed

section \<open>The invariant\<close>

text \<open>
  A descriptor in \<open>F\<close> is being closed: its item is still in use while its close handler runs,
  but the kernel no longer watches it.
\<close>

definition item_ok :: "int set \<Rightarrow> ('h, 'd) fdselector \<Rightarrow> nat \<Rightarrow> bool" where
  "item_ok F s i \<longleftrightarrow>
     (if ITEM_USED (sel_fds s ! i)
      then it_fd (sel_fds s ! i) = int i \<and> it_handler (sel_fds s ! i) \<noteq> None \<and> int i \<noteq> event_fd s \<and>
           i < SELECTOR_ITEMS_MAX_SIZE \<and>
           sel_epoll s (int i) = (if int i \<in> F then None else Some (interest_to_epoll (it_interest (sel_fds s ! i))))
      else int i \<noteq> event_fd s \<longrightarrow> sel_epoll s (int i) = None)"

definition sel_ok :: "int set \<Rightarrow> ('h, 'd) fdselector \<Rightarrow> bool" where
  "sel_ok F s \<longleftrightarrow> sel_base s \<noteq> None \<and> length (sel_fds s) = fd_size s \<and>
     fd_size s \<le> SELECTOR_ITEMS_MAX_SIZE + 1 \<and> (\<forall>i < fd_size s. item_ok F s i) \<and>
     (\<forall>fd. sel_epoll s fd \<noteq> None \<longrightarrow> fd \<noteq> event_fd s \<longrightarrow> 0 \<le> fd \<and> fd < int (fd_size s))"

abbreviation sel_inv :: "('h, 'd) fdselector \<Rightarrow> bool" where
  "sel_inv \<equiv> sel_ok {}"

text \<open>What a descriptor is registered with.\<close>

definition registered :: "('h, 'd) fdselector \<Rightarrow> int \<Rightarrow> ('h \<times> fd_interest \<times> 'd option) option" where
  "registered s fd =
     (if 0 \<le> fd \<and> fd < int (fd_size s) \<and> ITEM_USED (sel_fds s ! nat fd)
      then Some (the (it_handler (sel_fds s ! nat fd)), it_interest (sel_fds s ! nat fd), it_data (sel_fds s ! nat fd))
      else None)"

lemma registered_range: "registered s fd = Some x \<Longrightarrow> 0 \<le> fd \<and> fd < int (fd_size s)"
  by (simp add: registered_def split: if_splits)

lemma unused_item [simp]: "\<not> ITEM_USED (item_init i)"
  by (simp add: ITEM_USED_def item_init_def)

lemma sel_invD:
  assumes "sel_ok F s"
  obtains b where "sel_base s = Some b" "fds_base s = Inr b" "length (sel_fds s) = fd_size s"
    "\<And>i. i < fd_size s \<Longrightarrow> item_ok F s i"
  using assms by (auto simp: sel_ok_def fds_base_def)

text \<open>Rewriting one item together with the kernel's entry for it.\<close>

lemma sel_inv_update:
  assumes inv: "sel_ok F s" and i: "i < fd_size s" and ev: "int i \<noteq> event_fd s"
    and F: "int i \<notin> F \<or> \<not> ITEM_USED it"
    and s': "s' = s\<lparr>sel_fds := (sel_fds s)[i := it],
      sel_epoll := (sel_epoll s)(int i := (if ITEM_USED it then Some (interest_to_epoll (it_interest it)) else None))\<rparr>"
    and it: "ITEM_USED it \<longrightarrow> it_fd it = int i \<and> it_handler it \<noteq> None \<and> i < SELECTOR_ITEMS_MAX_SIZE"
  shows "sel_ok F s'"
    and "registered s' = (registered s)(int i := (if ITEM_USED it then Some (the (it_handler it), it_interest it, it_data it) else None))"
proof -
  have l: "length (sel_fds s) = fd_size s" using inv by (simp add: sel_ok_def)
  have "item_ok F s' j" if j: "j < fd_size s" for j
  proof (cases "j = i")
    case True
    then show ?thesis using i ev it l F by (auto simp: item_ok_def s')
  next
    case False
    moreover have "item_ok F s j" using inv j by (simp add: sel_ok_def)
    ultimately show ?thesis using l by (auto simp: item_ok_def s')
  qed
  moreover have "0 \<le> fd \<and> fd < int (fd_size s)" if "sel_epoll s' fd \<noteq> None" "fd \<noteq> event_fd s" for fd
  proof (cases "fd = int i")
    case False
    then have "sel_epoll s fd \<noteq> None" using that(1) by (simp add: s')
    then show ?thesis using inv that(2) unfolding sel_ok_def by blast
  qed (use i in simp)
  ultimately show "sel_ok F s'" using inv l by (simp add: sel_ok_def s')
  show "registered s' = (registered s)(int i := (if ITEM_USED it then Some (the (it_handler it), it_interest it, it_data it) else None))"
    using i l by (auto simp: registered_def s' fun_eq_iff nth_list_update)
qed

lemma grow_inv:
  assumes inv: "sel_ok F s" and n: "fd_size s \<le> n" "n < c" "c \<le> SELECTOR_ITEMS_MAX_SIZE + 1"
    and ev: "event_fd s < int (fd_size s) \<or> event_fd s < 0"
  shows "\<exists>s1. items_init (s\<lparr>sel_base := Some a, sel_fds := take c (sel_fds s) @ map junk [length (sel_fds s)..<c],
      fd_size := c\<rparr>) (fd_size s) = Inr s1 \<and> sel_ok F s1 \<and> registered s1 = registered s \<and> fd_size s1 = c \<and>
      event_fd s1 = event_fd s"
proof -
  let ?s = "s\<lparr>sel_base := Some a, sel_fds := take c (sel_fds s) @ map junk [length (sel_fds s)..<c], fd_size := c\<rparr>"
  let ?fds = "sel_fds s @ map item_init (map junk [fd_size s..<c])"
  have l: "length (sel_fds s) = fd_size s" using inv by (simp add: sel_ok_def)
  have eq: "items_init ?s (fd_size s) = Inr (?s\<lparr>sel_fds := ?fds\<rparr>)"
    using n l by (simp add: items_init_def)
  let ?t = "?s\<lparr>sel_fds := ?fds\<rparr>"
  have old: "sel_fds ?t ! i = sel_fds s ! i" if "i < fd_size s" for i using that l by (simp add: nth_append)
  have new: "\<not> ITEM_USED (sel_fds ?t ! i)" if "fd_size s \<le> i" "i < c" for i
    using that l by (simp add: nth_append)
  have none: "sel_epoll s (int i) = None" if "fd_size s \<le> i" for i
  proof (rule ccontr)
    assume "sel_epoll s (int i) \<noteq> None"
    moreover have "int i \<noteq> event_fd s" using ev that by auto
    ultimately have "int i < int (fd_size s)" using inv unfolding sel_ok_def by blast
    then show False using that by simp
  qed
  have "item_ok F ?t i" if "i < c" for i
  proof (cases "i < fd_size s")
    case True
    then have "item_ok F s i" using inv by (simp add: sel_ok_def)
    then show ?thesis using old [OF True] by (simp add: item_ok_def)
  next
    case False
    then show ?thesis using new [of i] none [of i] that by (simp add: item_ok_def)
  qed
  moreover have "0 \<le> fd \<and> fd < int c" if "sel_epoll s fd \<noteq> None" "fd \<noteq> event_fd s" for fd
  proof -
    have "0 \<le> fd \<and> fd < int (fd_size s)" using inv that unfolding sel_ok_def by blast
    then show ?thesis using n by simp
  qed
  ultimately have "sel_ok F ?t"
    using inv n l unfolding sel_ok_def by simp
  moreover have "registered ?t = registered s"
  proof
    fix fd
    show "registered ?t fd = registered s fd"
    proof (cases "0 \<le> fd \<and> fd < int (fd_size s)")
      case True
      then show ?thesis using old [of "nat fd"] n by (auto simp: registered_def)
    next
      case False
      then have "0 \<le> fd \<Longrightarrow> fd_size s \<le> nat fd" and "0 \<le> fd \<Longrightarrow> fd < int c \<Longrightarrow> nat fd < c" by simp_all
      then have "\<not> (0 \<le> fd \<and> fd < int c \<and> ITEM_USED (sel_fds ?t ! nat fd))" using new [of "nat fd"] by blast
      with False show ?thesis unfolding registered_def by (auto simp del: select_convs)
    qed
  qed
  ultimately show ?thesis using eq by simp
qed


section \<open>The operations on registrations\<close>

text \<open>The descriptor of the wake-up event was opened before the table grew past it.\<close>

definition event_low :: "('h, 'd) fdselector \<Rightarrow> bool" where
  "event_low s \<longleftrightarrow> event_fd s < int (fd_size s)"

lemma register_below:
  assumes inv: "sel_ok F s" and fd: "0 \<le> fd" "fd < int SELECTOR_ITEMS_MAX_SIZE" "fd < int (fd_size s)"
    and ev: "fd \<noteq> event_fd s" and none: "registered s fd = None" and F: "fd \<notin> F"
  shows "\<exists>s1. selector_register mem s fd (Some h) i d = Inr (SELECTOR_SUCCESS, s1) \<and> sel_ok F s1 \<and>
    registered s1 = (registered s)(fd \<mapsto> (h, i, d)) \<and> event_fd s1 = event_fd s \<and> fd_size s1 = fd_size s \<and>
    sel_base s1 = sel_base s"
proof -
  obtain b where b: "sel_base s = Some b" "fds_base s = Inr b" "length (sel_fds s) = fd_size s"
    using inv by (rule sel_invD)
  define it where "it = (sel_fds s ! nat fd)\<lparr>it_fd := fd, it_handler := Some h, it_interest := i, it_data := d\<rparr>"
  have n: "nat fd < fd_size s" "int (nat fd) = fd" using fd by simp_all
  have ok: "item_ok F s (nat fd)" using inv n(1) by (simp add: sel_ok_def)
  have un: "\<not> ITEM_USED (sel_fds s ! nat fd)" using none fd by (simp add: registered_def split: if_splits)
  then have e: "sel_epoll s fd = None" using ok ev n(2) by (simp add: item_ok_def)
  let ?s1 = "s\<lparr>sel_fds := (sel_fds s)[nat fd := it],
    sel_epoll := (sel_epoll s)(int (nat fd) := (if ITEM_USED it then Some (interest_to_epoll (it_interest it)) else None))\<rparr>"
  have used: "ITEM_USED it" "it_fd it = int (nat fd)" "it_handler it = Some h" "it_interest it = i" "it_data it = d"
    using fd(1) by (simp_all add: it_def ITEM_USED_def FD_UNUSED_def)
  have "selector_register mem s fd (Some h) i d = Inr (SELECTOR_SUCCESS, ?s1)"
    using b n fd un e used unfolding selector_register_def
    by (simp add: INVALID_FD_def item_get_def item_put_def epoll_add_def Let_def it_def)
  moreover have u: "int (nat fd) \<noteq> event_fd s" using ev n(2) by simp
  have pre: "ITEM_USED it \<longrightarrow> it_fd it = int (nat fd) \<and> it_handler it \<noteq> None \<and> nat fd < SELECTOR_ITEMS_MAX_SIZE"
    using used fd by simp
  note upd = sel_inv_update [OF inv n(1) u _ refl pre]
  have "registered ?s1 = (registered s)(fd \<mapsto> (h, i, d))"
    using upd(2) F by (simp only: n(2) used if_True option.sel simp_thms)
  ultimately show ?thesis using upd(1) F n(2) by (intro exI [of _ ?s1]) simp
qed

lemma register_grows:
  assumes inv: "sel_ok F s" and fd: "int (fd_size s) < fd" "fd < int SELECTOR_ITEMS_MAX_SIZE"
    and ev: "fd \<noteq> event_fd s" "event_low s" and F: "fd \<notin> F"
  shows "\<exists>s1. selector_register (Some (a, junk)) s fd (Some h) i d = Inr (SELECTOR_SUCCESS, s1) \<and> sel_ok F s1 \<and>
    registered s1 = (registered s)(fd \<mapsto> (h, i, d)) \<and> event_fd s1 = event_fd s \<and> fd_size s \<le> fd_size s1"
proof -
  obtain c where c: "next_capacity (nat fd) = Inr c" "nat fd < c" "c \<le> SELECTOR_ITEMS_MAX_SIZE + 1"
    using fd by (elim next_capacity_ok [of "nat fd", rotated]) simp
  obtain b where b: "sel_base s = Some b" using inv by (rule sel_invD)
  have le: "fd_size s \<le> nat fd" using fd by (simp add: le_nat_iff)
  obtain s0 where s0: "items_init (s\<lparr>sel_base := Some a, sel_fds := take c (sel_fds s) @ map junk [length (sel_fds s)..<c],
      fd_size := c\<rparr>) (fd_size s) = Inr s0" "sel_ok F s0" "registered s0 = registered s" "fd_size s0 = c"
      "event_fd s0 = event_fd s"
    using grow_inv [OF inv le c(2,3), where a = a and junk = junk] ev(2) by (auto simp: event_low_def)
  have small: "\<not> (2 ^ 64 - 1) div sizeof_item < c"
    using c(3) by (simp add: SELECTOR_ITEMS_MAX_SIZE_def sizeof_item_def)
  have cap: "ensure_capacity (Some (a, junk)) s (nat fd) = Inr (SELECTOR_SUCCESS, s0)"
    using fd c b s0(1) small by (simp add: ensure_capacity_def)
  have none: "registered s0 fd = None" unfolding s0(3) using fd by (simp add: registered_def)
  have gt: "fd_size s < nat fd" using fd(1) by (simp add: zless_nat_eq_int_zless)
  have pos: "0 \<le> fd" and lt: "fd < int (fd_size s0)" using fd c(2) s0(4) by simp_all
  obtain s1 where s1: "selector_register None s0 fd (Some h) i d = Inr (SELECTOR_SUCCESS, s1)" "sel_ok F s1"
    "registered s1 = (registered s)(fd \<mapsto> (h, i, d))" "event_fd s1 = event_fd s" "fd_size s1 = c"
    using register_below [OF s0(2) pos fd(2) lt _ none F, of None h i d] ev s0 by auto
  have "selector_register (Some (a, junk)) s fd (Some h) i d = selector_register None s0 fd (Some h) i d"
    using gt pos fd cap c s0(4) unfolding selector_register_def by (simp add: INVALID_FD_def Let_def)
  with s1 fd c show ?thesis by (intro exI [of _ s1]) simp
qed

text \<open>A new selector: a table with room for the index asked for, in which nothing is registered.\<close>

lemma selector_new_ok:
  assumes "epfd \<noteq> -1" "evfd \<noteq> -1" "n \<le> SELECTOR_ITEMS_MAX_SIZE"
  shows "\<exists>s. selector_new True epfd evfd True True (Some (a, junk)) n = Inr (Some s) \<and> sel_inv s \<and> registered s = (\<lambda>_. None) \<and>
    n < fd_size s \<and> event_fd s = evfd"
proof -
  obtain c where c: "next_capacity n = Inr c" "n < c" "c \<le> SELECTOR_ITEMS_MAX_SIZE + 1" using assms(3) by (rule next_capacity_ok)
  let ?s = "\<lparr>sel_base = Some a, sel_fds = replicate c (item_init zero_item), fd_size = c, resolution_jobs = [], epoll_fd = epfd,
    event_fd = evfd, event_count = 0, events_capacity = (if n > 0 then n else 8), sel_epoll = [evfd \<mapsto> EPOLLIN]\<rparr>"
  have "selector_new True epfd evfd True True (Some (a, junk)) n = Inr (Some ?s)"
    using assms c by (simp add: selector_new_def ensure_capacity_def items_init_def Let_def)
  moreover have "sel_inv ?s" using c(3) by (auto simp: sel_ok_def item_ok_def)
  moreover have "registered ?s = (\<lambda>_. None)" by (auto simp: registered_def fun_eq_iff)
  ultimately show ?thesis using c(2) by fastforce
qed

text \<open>The test is \<open>ufd > fd_size\<close>, so the descriptor equal to the size of the table is looked up behind it.\<close>

lemma register_at_size:
  assumes "sel_ok F s" and "fd = int (fd_size s)" and "fd < int SELECTOR_ITEMS_MAX_SIZE"
  shows "selector_register mem s fd (Some h) i d = Inl Out_of_bounds"
  using assms by (elim sel_invD) (simp add: selector_register_def INVALID_FD_def item_get_def Let_def)

lemma register_in_use:
  assumes "sel_ok F s" and "registered s fd = Some x" and "fd < int SELECTOR_ITEMS_MAX_SIZE"
  shows "selector_register mem s fd (Some h) i d = Inr (SELECTOR_FDINUSE, s)"
proof -
  obtain b where b: "sel_base s = Some b" "fds_base s = Inr b" "length (sel_fds s) = fd_size s"
    using assms(1) by (rule sel_invD)
  show ?thesis using assms(2,3) b registered_range [OF assms(2)]
    by (simp add: selector_register_def INVALID_FD_def item_get_def registered_def Let_def split: if_splits)
qed

lemma set_interest_ok:
  assumes inv: "sel_ok F s" and reg: "registered s fd = Some (h, i0, d)" and F: "fd \<notin> F"
  shows "\<exists>s1. selector_set_interest s fd i = Inr (SELECTOR_SUCCESS, s1) \<and> sel_ok F s1 \<and>
    registered s1 = (registered s)(fd \<mapsto> (h, i, d)) \<and> event_fd s1 = event_fd s \<and> fd_size s1 = fd_size s \<and>
    sel_base s1 = sel_base s"
proof -
  obtain b where b: "sel_base s = Some b" "fds_base s = Inr b" "length (sel_fds s) = fd_size s"
    using inv by (rule sel_invD)
  have n: "0 \<le> fd" "nat fd < fd_size s" "int (nat fd) = fd" using registered_range [OF reg] by auto
  have ok: "item_ok F s (nat fd)" using inv n(2) by (simp add: sel_ok_def)
  have fd: "fd < int SELECTOR_ITEMS_MAX_SIZE" using ok reg n by (auto simp: item_ok_def registered_def split: if_splits)
  define it where "it = (sel_fds s ! nat fd)\<lparr>it_interest := i\<rparr>"
  have used: "ITEM_USED (sel_fds s ! nat fd)" using reg by (simp add: registered_def split: if_splits)
  have it: "ITEM_USED it" "it_fd it = int (nat fd)" "it_handler it \<noteq> None" "the (it_handler it) = h"
    "it_interest it = i" "it_data it = d"
    using used ok reg by (auto simp: it_def ITEM_USED_def item_ok_def registered_def split: if_splits)
  have e: "fd \<noteq> event_fd s" "sel_epoll s fd \<noteq> None" using ok used n(3) F by (simp_all add: item_ok_def)
  then obtain y where y: "sel_epoll s fd = Some y" by auto
  have inv_fd: "\<not> INVALID_FD fd" using n(1) fd by (simp add: INVALID_FD_def)
  let ?s1 = "s\<lparr>sel_fds := (sel_fds s)[nat fd := it],
    sel_epoll := (sel_epoll s)(int (nat fd) := (if ITEM_USED it then Some (interest_to_epoll (it_interest it)) else None))\<rparr>"
  have "selector_set_interest s fd i = Inr (SELECTOR_SUCCESS, ?s1)"
    using b n(2,3) fd used it y inv_fd unfolding selector_set_interest_def
    by (simp add: item_get_def item_put_def epoll_mod_def it_def)
  moreover have u: "int (nat fd) \<noteq> event_fd s" using e n(3) by simp
  have pre: "ITEM_USED it \<longrightarrow> it_fd it = int (nat fd) \<and> it_handler it \<noteq> None \<and> nat fd < SELECTOR_ITEMS_MAX_SIZE"
    using it fd n(1) by simp
  note upd = sel_inv_update [OF inv n(2) u _ refl pre]
  have "registered ?s1 = (registered s)(fd \<mapsto> (h, i, d))"
    using upd(2) F by (simp only: n(3) it if_True simp_thms)
  ultimately show ?thesis using upd(1) F n(3) by (intro exI [of _ ?s1]) simp
qed

lemma set_interest_absent:
  assumes "sel_ok F s" and "registered s fd = None" and "0 \<le> fd" "fd < int (fd_size s)"
  shows "selector_set_interest s fd i = Inr (SELECTOR_IARGS, s)"
  using assms by (elim sel_invD) (auto simp: selector_set_interest_def item_get_def registered_def nat_less_iff split: if_splits)

text \<open>
  The contract the clients of the multiplexer rely on: registering a free descriptor, changing
  its interest and forgetting it act on that descriptor only.
\<close>

locale fd_table =
  fixes invar :: "'s \<Rightarrow> bool"
    and lookup :: "'s \<Rightarrow> int \<Rightarrow> ('h \<times> fd_interest \<times> 'd option) option"
    and admits :: "'s \<Rightarrow> int \<Rightarrow> bool"
    and register :: "'s \<Rightarrow> int \<Rightarrow> 'h \<Rightarrow> fd_interest \<Rightarrow> 'd option \<Rightarrow> (selector_status \<times> 's) run"
    and set_interest :: "'s \<Rightarrow> int \<Rightarrow> fd_interest \<Rightarrow> (selector_status \<times> 's) run"
  assumes register_law: "invar s \<Longrightarrow> admits s fd \<Longrightarrow> lookup s fd = None \<Longrightarrow>
      \<exists>s1. register s fd h i d = Inr (SELECTOR_SUCCESS, s1) \<and> invar s1 \<and> lookup s1 = (lookup s)(fd \<mapsto> (h, i, d))"
    and register_dup: "invar s \<Longrightarrow> lookup s fd = Some x \<Longrightarrow> admits s fd \<Longrightarrow> register s fd h i d = Inr (SELECTOR_FDINUSE, s)"
    and interest_law: "invar s \<Longrightarrow> lookup s fd = Some (h, i0, d) \<Longrightarrow>
      \<exists>s1. set_interest s fd i = Inr (SELECTOR_SUCCESS, s1) \<and> invar s1 \<and> lookup s1 = (lookup s)(fd \<mapsto> (h, i, d))"
begin

lemma register_then_interest:
  assumes "invar s" "admits s fd" "lookup s fd = None"
  shows "\<exists>s1 s2. register s fd h i d = Inr (SELECTOR_SUCCESS, s1) \<and>
    set_interest s1 fd i' = Inr (SELECTOR_SUCCESS, s2) \<and> invar s2 \<and> lookup s2 = (lookup s)(fd \<mapsto> (h, i', d))"
proof -
  obtain s1 where s1: "register s fd h i d = Inr (SELECTOR_SUCCESS, s1)" "invar s1" "lookup s1 = (lookup s)(fd \<mapsto> (h, i, d))"
    using register_law [OF assms] by blast
  obtain s2 where "set_interest s1 fd i' = Inr (SELECTOR_SUCCESS, s2)" "invar s2" "lookup s2 = (lookup s1)(fd \<mapsto> (h, i', d))"
    using interest_law [OF s1(2), of fd h i d i'] s1(3) by auto
  with s1 show ?thesis by auto
qed

end

interpretation st: fd_table sel_inv registered
  "\<lambda>s fd. 0 \<le> fd \<and> fd < int SELECTOR_ITEMS_MAX_SIZE \<and> fd < int (fd_size s) \<and> fd \<noteq> event_fd s"
  "\<lambda>s fd h. selector_register mem s fd (Some h)" selector_set_interest
  for mem
proof unfold_locales
  show "\<exists>s1. selector_set_interest s fd i = Inr (SELECTOR_SUCCESS, s1) \<and> sel_inv s1 \<and>
      registered s1 = (registered s)(fd \<mapsto> (h, i, d))" if "sel_inv s" "registered s fd = Some (h, i0, d)"
    for s :: "('a, 'b) fdselector" and fd h i0 d i
    using set_interest_ok [OF that, of i] by auto
qed (use register_below register_in_use in \<open>fastforce+\<close>)


section \<open>Forgetting a descriptor\<close>

text \<open>The table while the close handler of \<open>fd\<close> runs, and once the item has been cleared.\<close>

definition closing :: "int \<Rightarrow> ('h, 'd) fdselector \<Rightarrow> ('h, 'd) fdselector" where
  "closing fd s = (epoll_del fd s)\<lparr>sel_fds := (sel_fds s)[nat fd := (sel_fds s ! nat fd)\<lparr>it_interest := OP_NOOP\<rparr>]\<rparr>"

definition cleared :: "int \<Rightarrow> ('h, 'd) fdselector \<Rightarrow> ('h, 'd) fdselector" where
  "cleared fd s = s\<lparr>sel_fds := (sel_fds s)[nat fd := item_init zero_item]\<rparr>"

lemma sel_fields [simp]:
  "sel_base (closing fd s) = sel_base s" "fd_size (closing fd s) = fd_size s" "event_fd (closing fd s) = event_fd s"
  "sel_base (cleared fd s) = sel_base s" "fd_size (cleared fd s) = fd_size s" "event_fd (cleared fd s) = event_fd s"
  "resolution_jobs (closing fd s) = resolution_jobs s" "resolution_jobs (cleared fd s) = resolution_jobs s"
  by (simp_all add: closing_def cleared_def epoll_del_def)

lemma closing_ok:
  assumes "sel_ok F s" and reg: "registered s fd = Some (h, i, d)" and F: "fd \<notin> F"
  shows "sel_ok (insert fd F) (closing fd s)"
    and "registered (closing fd s) = (registered s)(fd \<mapsto> (h, OP_NOOP, d))"
proof -
  have n: "0 \<le> fd" "nat fd < fd_size s" "int (nat fd) = fd" using registered_range [OF reg] by auto
  have l: "length (sel_fds s) = fd_size s" using assms(1) by (simp add: sel_ok_def)
  have used: "ITEM_USED (sel_fds s ! nat fd)" using reg by (simp add: registered_def split: if_splits)
  have "item_ok (insert fd F) (closing fd s) j" if "j < fd_size s" for j
  proof -
    have "item_ok F s j" using assms(1) that by (simp add: sel_ok_def)
    then show ?thesis
      using that n l used by (auto simp: item_ok_def closing_def epoll_del_def nth_list_update ITEM_USED_def)
  qed
  moreover have "0 \<le> k \<and> k < int (fd_size s)" if "sel_epoll (closing fd s) k \<noteq> None" "k \<noteq> event_fd s" for k
  proof (cases "k = fd")
    case False
    then have "sel_epoll s k \<noteq> None" using that(1) by (simp add: closing_def epoll_del_def)
    then show ?thesis using assms(1) that(2) unfolding sel_ok_def by blast
  qed (use registered_range [OF reg] in simp)
  moreover have "length (sel_fds (closing fd s)) = fd_size s" using l by (simp add: closing_def)
  ultimately show "sel_ok (insert fd F) (closing fd s)" using assms(1) by (simp add: sel_ok_def)
  show "registered (closing fd s) = (registered s)(fd \<mapsto> (h, OP_NOOP, d))"
  proof
    fix k
    have "k \<noteq> fd \<Longrightarrow> 0 \<le> k \<Longrightarrow> nat fd \<noteq> nat k" using n(1) by (simp add: eq_nat_nat_iff)
    then show "registered (closing fd s) k = ((registered s)(fd \<mapsto> (h, OP_NOOP, d))) k"
      using n l reg by (cases "k = fd"; cases "0 \<le> k")
        (auto simp: registered_def closing_def epoll_del_def ITEM_USED_def split: if_splits)
  qed
qed

lemma cleared_ok:
  assumes "sel_ok (insert fd F) s" and reg: "registered s fd = Some x" and F: "fd \<notin> F"
  shows "sel_ok F (cleared fd s)" and "registered (cleared fd s) = (registered s)(fd := None)"
proof -
  have n: "0 \<le> fd" "nat fd < fd_size s" "int (nat fd) = fd" using registered_range [OF reg] by auto
  have l: "length (sel_fds s) = fd_size s" using assms(1) by (simp add: sel_ok_def)
  have used: "ITEM_USED (sel_fds s ! nat fd)" using reg by (simp add: registered_def split: if_splits)
  have "item_ok F (cleared fd s) j" if "j < fd_size s" for j
  proof -
    have "item_ok (insert fd F) s j" "item_ok (insert fd F) s (nat fd)" using assms(1) that n by (simp_all add: sel_ok_def)
    then show ?thesis
      using that n l used by (auto simp: item_ok_def cleared_def nth_list_update split: if_splits)
  qed
  moreover have "length (sel_fds (cleared fd s)) = fd_size s" using l by (simp add: cleared_def)
  moreover have "sel_epoll (cleared fd s) = sel_epoll s" by (simp add: cleared_def)
  ultimately show "sel_ok F (cleared fd s)" using assms(1) unfolding sel_ok_def by simp
  show "registered (cleared fd s) = (registered s)(fd := None)"
  proof
    fix k
    have "k \<noteq> fd \<Longrightarrow> 0 \<le> k \<Longrightarrow> nat fd \<noteq> nat k" using n(1) by (simp add: eq_nat_nat_iff)
    then show "registered (cleared fd s) k = ((registered s)(fd := None)) k"
      using n l by (cases "k = fd"; cases "0 \<le> k") (auto simp: registered_def cleared_def)
  qed
qed

text \<open>
  Unregistering: the close handler runs with the item still in place and off the kernel's
  set, then the item is cleared. The handler must not move the table.
\<close>

lemma unregister_run:
  assumes inv: "sel_ok F (get w)" and reg: "registered (get w) fd = Some (h, i, d)"
    and f: "closer h = Some f" and r: "f \<lparr>key_fd = fd, key_data = d\<rparr> (put (closing fd (get w)) w) = Inr w2"
    and b: "sel_base (get w2) = sel_base (get w)" and inv2: "sel_ok F2 (get w2)" and reg2: "registered (get w2) fd = Some x"
  shows "selector_unregister_fd get put closer fd w = Inr (SELECTOR_SUCCESS, put (cleared fd (get w2)) w2)"
proof -
  obtain base where base: "sel_base (get w) = Some base" "fds_base (get w) = Inr base"
    "length (sel_fds (get w)) = fd_size (get w)"
    using inv by (rule sel_invD)
  have n: "0 \<le> fd" "nat fd < fd_size (get w)" "int (nat fd) = fd" using registered_range [OF reg] by auto
  have ok: "item_ok F (get w) (nat fd)" using inv n by (simp add: sel_ok_def)
  have it: "ITEM_USED (sel_fds (get w) ! nat fd)" "it_handler (sel_fds (get w) ! nat fd) = Some h"
    "it_data (sel_fds (get w) ! nat fd) = d" "it_fd (sel_fds (get w) ! nat fd) = fd" "fd < int SELECTOR_ITEMS_MAX_SIZE"
    using reg ok n by (auto simp: registered_def item_ok_def split: if_splits)
  have ok_fd: "\<not> INVALID_FD fd" using n(1) it(5) by (simp add: INVALID_FD_def)
  have n2: "nat fd < length (sel_fds (get w2))" using registered_range [OF reg2] inv2 by (auto simp: sel_ok_def)
  show ?thesis
    using it base n(2) f r b n2 ok_fd unfolding selector_unregister_fd_def
    by (simp add: item_get_def item_put_def closing_def cleared_def epoll_del_def Let_def)
qed

lemma unregister_absent:
  assumes "sel_ok F (get w)" and "registered (get w) fd = None" and "0 \<le> fd" "fd < int (fd_size (get w))"
  shows "selector_unregister_fd get put closer fd w = Inr (SELECTOR_IARGS, w)"
  using assms by (elim sel_invD) (auto simp: selector_unregister_fd_def item_get_def registered_def nat_less_iff split: if_splits)

section \<open>Events\<close>

text \<open>
  An event of a descriptor that an earlier event of the same batch unregistered is ignored.
\<close>

lemma stale_event:
  assumes "sel_ok F (get w)" and "registered (get w) fd = None" and "0 \<le> fd" "fd < int (fd_size (get w))"
    and "fd \<noteq> event_fd (get w)"
  shows "handle_event get put H (fd, events) w = Inr w"
  using assms by (elim sel_invD) (auto simp: handle_event_def item_get_def registered_def nat_less_iff split: if_splits)

text \<open>
  A readable event runs the read handler with the registered data; the write handler runs
  after it only if the item still wants to write, and looking that up is valid only if the
  read handler did not move the table.
\<close>

lemma event_dispatch:
  assumes inv: "sel_ok F (get w)" and reg: "registered (get w) fd = Some (h, i, d)"
    and r: "OP_READ AND i \<noteq> 0" "handle_read (H h) = Some f" "f \<lparr>key_fd = fd, key_data = d\<rparr> w = Inr w1"
    and ev: "events AND (EPOLLIN OR EPOLLERR OR EPOLLHUP) \<noteq> 0"
  shows "events AND (EPOLLOUT OR EPOLLERR OR EPOLLHUP) = 0 \<Longrightarrow> handle_event get put H (fd, events) w = Inr w1"
    and "events AND (EPOLLOUT OR EPOLLERR OR EPOLLHUP) \<noteq> 0 \<Longrightarrow> sel_base (get w1) \<noteq> sel_base (get w) \<Longrightarrow>
      handle_event get put H (fd, events) w = Inl Use_after_free"
    and "events AND (EPOLLOUT OR EPOLLERR OR EPOLLHUP) \<noteq> 0 \<Longrightarrow> sel_base (get w1) = sel_base (get w) \<Longrightarrow>
      sel_ok G (get w1) \<Longrightarrow> registered (get w1) fd = Some (h', i', d') \<Longrightarrow> OP_WRITE AND i' = 0 \<Longrightarrow>
      handle_event get put H (fd, events) w = Inr w1"
proof -
  obtain base where base: "sel_base (get w) = Some base" "fds_base (get w) = Inr base"
    "length (sel_fds (get w)) = fd_size (get w)"
    using inv by (rule sel_invD)
  have n: "0 \<le> fd" "nat fd < fd_size (get w)" "int (nat fd) = fd" using registered_range [OF reg] by auto
  have ok: "item_ok F (get w) (nat fd)" using inv n by (simp add: sel_ok_def)
  have it: "ITEM_USED (sel_fds (get w) ! nat fd)" "it_handler (sel_fds (get w) ! nat fd) = Some h"
    "it_data (sel_fds (get w) ! nat fd) = d" "it_interest (sel_fds (get w) ! nat fd) = i" "fd \<noteq> event_fd (get w)"
    using reg ok n by (auto simp: registered_def item_ok_def split: if_splits)
  have g: "item_get base (nat fd) (get w) = Inr (sel_fds (get w) ! nat fd)"
    using base n by (simp add: item_get_def)
  note simps = handle_event_def handler_of_def call_handler_def Let_def
  show "handle_event get put H (fd, events) w = Inr w1" if "events AND (EPOLLOUT OR EPOLLERR OR EPOLLHUP) = 0"
    using it base(2) g r ev that by (simp add: simps)
  show "handle_event get put H (fd, events) w = Inl Use_after_free"
    if "events AND (EPOLLOUT OR EPOLLERR OR EPOLLHUP) \<noteq> 0" "sel_base (get w1) \<noteq> sel_base (get w)"
  proof -
    have "item_get base (nat fd) (get w1) = Inl Use_after_free" using that(2) base(1) by (simp add: item_get_def)
    then show ?thesis using it base(2) g r ev that(1) by (simp add: simps)
  qed
  show "handle_event get put H (fd, events) w = Inr w1"
    if "events AND (EPOLLOUT OR EPOLLERR OR EPOLLHUP) \<noteq> 0" "sel_base (get w1) = sel_base (get w)"
      "sel_ok G (get w1)" "registered (get w1) fd = Some (h', i', d')" "OP_WRITE AND i' = 0"
  proof -
    have "nat fd < length (sel_fds (get w1))" using that(3) registered_range [OF that(4)] by (auto simp: sel_ok_def)
    then have "item_get base (nat fd) (get w1) = Inr (sel_fds (get w1) ! nat fd)"
      using that(2) base(1) by (simp add: item_get_def)
    moreover have "it_interest (sel_fds (get w1) ! nat fd) = i'" using that(4) by (simp add: registered_def split: if_splits)
    ultimately show ?thesis using it base(2) g r ev that(1,5) by (simp add: simps)
  qed
qed


end
