(* ===== verification/Stm.thy ===== *)
theory Stm
  imports C_Prelude
begin

text \<open>
  The state-machine engine of \<^verbatim>\<open>src/shared/stm.c\<close>. A callback receives the selector key
  and reaches through it the session that holds the machine itself (\<open>socks_fail_request\<close>
  writes \<open>stm.current\<close>, \<open>socks_client_close\<close> frees it), so the current state is a component
  of the world \<open>'w\<close> the callbacks transform: \<open>cur\<close> reads \<open>stm->current\<close> and \<open>set_cur\<close>
  writes it, and both fail with \<open>Use_after_free\<close> when the object that holds the machine is gone. The
  rest of the struct is the table. \<open>stm_world\<close> is the contract between the engine and a world that
  holds a machine.
\<close>

section \<open>State and operations\<close>

type_synonym 'w stm_notify = "nat \<Rightarrow> 'w \<Rightarrow> 'w run"
type_synonym 'w stm_event = "'w \<Rightarrow> (nat \<times> 'w) run"

record 'w state_definition =
  sd_state :: nat
  on_arrival :: "'w stm_notify option"
  on_departure :: "'w stm_notify option"
  on_read_ready :: "'w stm_event option"
  on_write_ready :: "'w stm_event option"
  on_block_ready :: "'w stm_event option"

record 'w state_machine =
  stm_initial :: nat
  stm_states :: "'w state_definition list"
  stm_max_state :: nat

text \<open>The loop of \<open>stm_init\<close>: the entries are numbered by their position.\<close>

definition stm_check :: "'w state_machine \<Rightarrow> unit run" where
  "stm_check m =
     (case first_idx (\<lambda>i. length (stm_states m) \<le> i \<or> i \<noteq> sd_state (stm_states m ! i))
             [0..<Suc (stm_max_state m)] of
        None \<Rightarrow> Inr ()
      | Some i \<Rightarrow> Inl (if length (stm_states m) \<le> i then Out_of_bounds else Abort_called))"

definition stm_init :: "(nat option \<Rightarrow> 'w \<Rightarrow> 'w run) \<Rightarrow> 'w state_machine \<Rightarrow> 'w \<Rightarrow> 'w run" where
  "stm_init set_cur m w =
     run_bind (stm_check m) (\<lambda>_.
       if stm_initial m < stm_max_state m then set_cur None w else Inl Abort_called)"

definition notify :: "'w stm_notify option \<Rightarrow> nat \<Rightarrow> 'w \<Rightarrow> 'w run" where
  "notify h st w = (case h of None \<Rightarrow> Inr w | Some f \<Rightarrow> f st w)"

text \<open>\<open>stm->current\<close> is a pointer into the table.\<close>

definition state_at :: "'w state_machine \<Rightarrow> nat \<Rightarrow> 'w state_definition run" where
  "state_at m i = (if i < length (stm_states m) then Inr (stm_states m ! i) else Inl Out_of_bounds)"

definition handle_first ::
  "('w \<Rightarrow> nat option run) \<Rightarrow> (nat option \<Rightarrow> 'w \<Rightarrow> 'w run) \<Rightarrow> 'w state_machine \<Rightarrow> 'w \<Rightarrow> 'w run" where
  "handle_first cur set_cur m w =
     run_bind (cur w) (\<lambda>c.
       if c = None
       then run_bind (state_at m (stm_initial m)) (\<lambda>d.
            run_bind (set_cur (Some (stm_initial m)) w) (notify (on_arrival d) (sd_state d)))
       else Inr w)"

text \<open>The arguments are read through \<open>stm\<close>, so a freed machine is noticed first.\<close>

definition jump ::
  "('w \<Rightarrow> nat option run) \<Rightarrow> (nat option \<Rightarrow> 'w \<Rightarrow> 'w run) \<Rightarrow> 'w state_machine \<Rightarrow> nat \<Rightarrow> 'w \<Rightarrow> 'w run" where
  "jump cur set_cur m nxt w =
     run_bind (cur w) (\<lambda>c.
       if nxt > stm_max_state m then Inl Abort_called
       else if c \<noteq> Some nxt
       then run_bind (case c of
                        None \<Rightarrow> Inr w
                      | Some i \<Rightarrow> run_bind (state_at m i) (\<lambda>d. notify (on_departure d) (sd_state d) w))
              (\<lambda>w1. run_bind (state_at m nxt) (\<lambda>d.
                    run_bind (set_cur (Some nxt) w1) (notify (on_arrival d) (sd_state d))))
       else Inr w)"

text \<open>The body shared by the three event handlers: \<open>sel\<close> picks the callback.\<close>

definition stm_dispatch ::
  "('w state_definition \<Rightarrow> 'w stm_event option) \<Rightarrow>
   ('w \<Rightarrow> nat option run) \<Rightarrow> (nat option \<Rightarrow> 'w \<Rightarrow> 'w run) \<Rightarrow> 'w state_machine \<Rightarrow> 'w \<Rightarrow> (nat \<times> 'w) run" where
  "stm_dispatch sel cur set_cur m w =
     run_bind (handle_first cur set_cur m w) (\<lambda>w1.
     run_bind (cur w1) (\<lambda>c.
       case c of
         None \<Rightarrow> Inl Null_pointer
       | Some i \<Rightarrow>
           run_bind (state_at m i) (\<lambda>d.
             case sel d of
               None \<Rightarrow> Inl Abort_called
             | Some h \<Rightarrow>
                 run_bind (h w1) (\<lambda>(ret, w2).
                   run_bind (jump cur set_cur m ret w2) (\<lambda>w3. Inr (ret, w3))))))"

definition stm_handler_read ::
  "('w \<Rightarrow> nat option run) \<Rightarrow> (nat option \<Rightarrow> 'w \<Rightarrow> 'w run) \<Rightarrow> 'w state_machine \<Rightarrow> 'w \<Rightarrow> (nat \<times> 'w) run" where
  "stm_handler_read = stm_dispatch on_read_ready"

definition stm_handler_write ::
  "('w \<Rightarrow> nat option run) \<Rightarrow> (nat option \<Rightarrow> 'w \<Rightarrow> 'w run) \<Rightarrow> 'w state_machine \<Rightarrow> 'w \<Rightarrow> (nat \<times> 'w) run" where
  "stm_handler_write = stm_dispatch on_write_ready"

definition stm_handler_block ::
  "('w \<Rightarrow> nat option run) \<Rightarrow> (nat option \<Rightarrow> 'w \<Rightarrow> 'w run) \<Rightarrow> 'w state_machine \<Rightarrow> 'w \<Rightarrow> (nat \<times> 'w) run" where
  "stm_handler_block = stm_dispatch on_block_ready"

definition stm_handler_close :: "('w \<Rightarrow> nat option run) \<Rightarrow> 'w state_machine \<Rightarrow> 'w \<Rightarrow> 'w run" where
  "stm_handler_close cur m w =
     run_bind (cur w) (\<lambda>c.
       case c of
         None \<Rightarrow> Inr w
       | Some i \<Rightarrow> run_bind (state_at m i) (\<lambda>d. notify (on_departure d) (sd_state d) w))"

definition stm_state :: "('w \<Rightarrow> nat option run) \<Rightarrow> 'w state_machine \<Rightarrow> 'w \<Rightarrow> nat run" where
  "stm_state cur m w =
     run_bind (cur w) (\<lambda>c.
       case c of None \<Rightarrow> Inr (stm_initial m) | Some i \<Rightarrow> run_bind (state_at m i) (\<lambda>d. Inr (sd_state d)))"

section \<open>Well-formed tables\<close>

definition stm_table_ok :: "'w state_machine \<Rightarrow> bool" where
  "stm_table_ok m \<longleftrightarrow>
     stm_max_state m < length (stm_states m) \<and>
     (\<forall>i \<le> stm_max_state m. sd_state (stm_states m ! i) = i) \<and> stm_initial m < stm_max_state m"

lemma stm_check_ok:
  "stm_check m = Inr u \<longleftrightarrow>
     stm_max_state m < length (stm_states m) \<and> (\<forall>i \<le> stm_max_state m. sd_state (stm_states m ! i) = i)"
proof -
  have "(\<forall>i \<in> set [0..<Suc (stm_max_state m)].
          \<not> (length (stm_states m) \<le> i \<or> i \<noteq> sd_state (stm_states m ! i))) \<longleftrightarrow>
        stm_max_state m < length (stm_states m) \<and> (\<forall>i \<le> stm_max_state m. sd_state (stm_states m ! i) = i)"
    by (auto simp: less_Suc_eq_le not_le simp del: upt_Suc)
  moreover have "stm_check m = Inr u \<longleftrightarrow>
      first_idx (\<lambda>i. length (stm_states m) \<le> i \<or> i \<noteq> sd_state (stm_states m ! i))
        [0..<Suc (stm_max_state m)] = None"
    unfolding stm_check_def by (simp split: option.split del: upt_Suc first_idx_None)
  ultimately show ?thesis by (simp only: first_idx_None)
qed

text \<open>\<open>stm_init\<close> returns exactly on the well-formed tables; on every other one it stops.\<close>

lemma stm_init_iff:
  "stm_init set_cur m w = Inr w' \<longleftrightarrow> stm_table_ok m \<and> set_cur None w = Inr w'"
  by (auto simp: stm_init_def stm_table_ok_def run_simps stm_check_ok)

section \<open>The engine in a world that holds a machine\<close>

locale stm_world =
  fixes cur :: "'w \<Rightarrow> nat option run"
    and set_cur :: "nat option \<Rightarrow> 'w \<Rightarrow> 'w run"
    and put :: "nat option \<Rightarrow> 'w \<Rightarrow> 'w"
    and look :: "'w \<Rightarrow> nat option"
    and alive :: "'w \<Rightarrow> bool"
    and m :: "'w state_machine"
  assumes cur_alive: "cur w = (if alive w then Inr (look w) else Inl Use_after_free)"
    and set_alive: "set_cur c w = (if alive w then Inr (put c w) else Inl Use_after_free)"
    and put_look: "alive w \<Longrightarrow> alive (put c w) \<and> look (put c w) = c"
    and table: "stm_table_ok m"
    and no_arrival: "i \<le> stm_max_state m \<Longrightarrow> on_arrival (stm_states m ! i) = None"
    and no_departure: "i \<le> stm_max_state m \<Longrightarrow> on_departure (stm_states m ! i) = None"
begin

definition valid :: "'w \<Rightarrow> bool" where
  "valid w \<longleftrightarrow> alive w \<and> (\<forall>c. look w = Some c \<longrightarrow> c \<le> stm_max_state m)"

text \<open>The world once the first event has entered the initial state.\<close>

definition entered :: "'w \<Rightarrow> 'w" where
  "entered w = (if look w = None then put (Some (stm_initial m)) w else w)"

definition state_of :: "'w \<Rightarrow> nat" where
  "state_of w = (case look w of None \<Rightarrow> stm_initial m | Some c \<Rightarrow> c)"

lemma max_less: "i \<le> stm_max_state m \<Longrightarrow> i < length (stm_states m)"
  using table by (auto simp: stm_table_ok_def)

lemma state_at_eq: "i \<le> stm_max_state m \<Longrightarrow> state_at m i = Inr (stm_states m ! i)"
  using max_less by (simp add: state_at_def)

lemma initial_le: "stm_initial m \<le> stm_max_state m"
  using table by (simp add: stm_table_ok_def)

lemma entered_valid:
  "valid w \<Longrightarrow> valid (entered w) \<and> look (entered w) = Some (state_of w) \<and> state_of w \<le> stm_max_state m"
  using initial_le by (auto simp: valid_def entered_def state_of_def put_look split: option.splits)

lemma handle_first_eq: "alive w \<Longrightarrow> handle_first cur set_cur m w = Inr (entered w)"
  using max_less [OF initial_le] no_arrival [OF initial_le]
  by (simp add: handle_first_def notify_def entered_def cur_alive set_alive state_at_def)

lemma jump_eq:
  assumes "valid w" and "nxt \<le> stm_max_state m"
  shows "jump cur set_cur m nxt w = Inr (if look w = Some nxt then w else put (Some nxt) w)"
  using assms max_less [OF assms(2)] no_arrival [OF assms(2)] no_departure
  by (auto simp: jump_def notify_def valid_def cur_alive set_alive state_at_eq split: option.splits)

lemma jump_freed: "\<not> alive w \<Longrightarrow> jump cur set_cur m nxt w = Inl Use_after_free"
  by (simp add: jump_def cur_alive)

lemma state_eq: "valid w \<Longrightarrow> stm_state cur m w = Inr (state_of w)"
  using table by (auto simp: stm_state_def stm_table_ok_def valid_def cur_alive state_of_def state_at_def split: option.splits)

text \<open>
  A dispatched event runs the callback of the current state (the initial one on the first
  event) and leaves the machine in the state the callback returned; a callback that frees the
  machine makes the engine touch freed memory.
\<close>

lemma dispatch_ok:
  assumes "valid w" and h: "sel (stm_states m ! state_of w) = Some h"
    and r: "h (entered w) = Inr (ret, w2)" and v: "valid w2" and le: "ret \<le> stm_max_state m"
  shows "stm_dispatch sel cur set_cur m w =
           Inr (ret, if look w2 = Some ret then w2 else put (Some ret) w2)"
  using assms entered_valid [OF assms(1)]
  by (simp add: stm_dispatch_def handle_first_eq jump_eq cur_alive valid_def state_at_eq)

lemma dispatch_fault:
  assumes "valid w" and h: "sel (stm_states m ! state_of w) = Some h" and r: "h (entered w) = Inl f"
  shows "stm_dispatch sel cur set_cur m w = Inl f"
  using assms entered_valid [OF assms(1)]
  by (simp add: stm_dispatch_def handle_first_eq cur_alive valid_def state_at_eq)

lemma dispatch_freed:
  assumes "valid w" and h: "sel (stm_states m ! state_of w) = Some h"
    and r: "h (entered w) = Inr (ret, w2)" and v: "\<not> alive w2"
  shows "stm_dispatch sel cur set_cur m w = Inl Use_after_free"
  using assms entered_valid [OF assms(1)]
  by (simp add: stm_dispatch_def handle_first_eq jump_freed cur_alive valid_def state_at_eq)

lemma dispatch_abort:
  assumes "valid w" and h: "sel (stm_states m ! state_of w) = None"
  shows "stm_dispatch sel cur set_cur m w = Inl Abort_called"
  using assms entered_valid [OF assms(1)] by (simp add: stm_dispatch_def handle_first_eq cur_alive valid_def state_at_eq)

lemma close_eq: "valid w \<Longrightarrow> stm_handler_close cur m w = Inr w"
  using no_departure by (auto simp: stm_handler_close_def notify_def cur_alive valid_def state_at_eq split: option.splits)

end

end
