(* ===== verification/Byte_Buffer.thy ===== *)
theory Byte_Buffer
  imports C_Prelude
begin

text \<open>
  The direct-access buffer of \<^verbatim>\<open>src/shared/buffer.c\<close>. The four pointers of the C struct
  are offsets from \<open>data\<close>; \<open>b_data\<close> is the memory behind them. Every operation of the
  file is one definition, with its \<open>assert\<close> as a fault. \<open>byte_queue\<close> is the contract the
  clients (monitor replies, SOCKS relay, echo) rely on; it is interpreted on the buffer
  with the two access patterns the clients use.
\<close>

section \<open>State and operations\<close>

record buffer =
  b_data :: "byte list"
  b_limit :: nat
  b_read :: nat
  b_write :: nat

definition buffer_reset :: "buffer \<Rightarrow> buffer" where
  "buffer_reset b = b\<lparr>b_read := 0, b_write := 0\<rparr>"

definition buffer_init :: "nat \<Rightarrow> byte list \<Rightarrow> buffer" where
  "buffer_init n data = \<lparr>b_data = data, b_limit = n, b_read = 0, b_write = 0\<rparr>"

definition buffer_can_write :: "buffer \<Rightarrow> bool" where
  "buffer_can_write b \<longleftrightarrow> int (b_limit b) - int (b_write b) > 0"

text \<open>The result is the pointer and the value stored through \<open>nbyte\<close>.\<close>

definition buffer_write_ptr :: "buffer \<Rightarrow> (nat \<times> nat) run" where
  "buffer_write_ptr b =
     run_bind (ensure (b_write b \<le> b_limit b) Assert_failed)
       (\<lambda>_. Inr (b_write b, b_limit b - b_write b))"

definition buffer_can_read :: "buffer \<Rightarrow> bool" where
  "buffer_can_read b \<longleftrightarrow> int (b_write b) - int (b_read b) > 0"

definition buffer_read_ptr :: "buffer \<Rightarrow> (nat \<times> nat) run" where
  "buffer_read_ptr b =
     run_bind (ensure (b_read b \<le> b_write b) Assert_failed)
       (\<lambda>_. Inr (b_read b, b_write b - b_read b))"

definition buffer_write_adv :: "buffer \<Rightarrow> int \<Rightarrow> buffer run" where
  "buffer_write_adv b bytes =
     (if bytes > -1
      then let b' = b\<lparr>b_write := b_write b + nat bytes\<rparr>
           in run_bind (ensure (b_write b' \<le> b_limit b') Assert_failed) (\<lambda>_. Inr b')
      else Inr b)"

text \<open>\<open>memmove(data, read, n)\<close> copies the pending bytes to the front; the tail stays.\<close>

definition buffer_compact :: "buffer \<Rightarrow> buffer" where
  "buffer_compact b =
     (if b_read b = 0 then b
      else if b_read b = b_write b then b\<lparr>b_read := 0, b_write := 0\<rparr>
      else let n = b_write b - b_read b
           in b\<lparr>b_data := take n (drop (b_read b) (b_data b)) @ drop n (b_data b),
                b_read := 0, b_write := n\<rparr>)"

definition buffer_read_adv :: "buffer \<Rightarrow> int \<Rightarrow> buffer run" where
  "buffer_read_adv b bytes =
     (if bytes > -1
      then let b' = b\<lparr>b_read := b_read b + nat bytes\<rparr>
           in run_bind (ensure (b_read b' \<le> b_write b') Assert_failed)
                (\<lambda>_. Inr (if b_read b' = b_write b' then buffer_compact b' else b'))
      else Inr b)"

definition buffer_read :: "buffer \<Rightarrow> (byte \<times> buffer) run" where
  "buffer_read b =
     (if buffer_can_read b
      then run_bind (ensure (b_read b < length (b_data b)) Out_of_bounds)
             (\<lambda>_. let ret = b_data b ! b_read b
                  in run_bind (buffer_read_adv b 1) (\<lambda>b'. Inr (ret, b')))
      else Inr (0, b))"

definition buffer_write :: "buffer \<Rightarrow> byte \<Rightarrow> buffer run" where
  "buffer_write b c =
     (if buffer_can_write b
      then run_bind (ensure (b_write b < length (b_data b)) Out_of_bounds)
             (\<lambda>_. buffer_write_adv (b\<lparr>b_data := (b_data b)[b_write b := c]\<rparr>) 1)
      else Inr b)"

text \<open>
  What the clients do with the pointers: \<open>memcpy\<close> (or \<open>read(2)\<close>) through the write
  pointer, and the bytes handed to \<open>write(2)\<close> through the read pointer.
\<close>

definition buffer_copy_in :: "buffer \<Rightarrow> byte list \<Rightarrow> buffer run" where
  "buffer_copy_in b xs =
     run_bind (ensure (b_write b + length xs \<le> length (b_data b)) Out_of_bounds)
       (\<lambda>_. Inr (b\<lparr>b_data := take (b_write b) (b_data b) @ xs @
                    drop (b_write b + length xs) (b_data b)\<rparr>))"

definition buffer_pending :: "buffer \<Rightarrow> byte list" where
  "buffer_pending b = take (b_write b - b_read b) (drop (b_read b) (b_data b))"

section \<open>Invariant and functional behaviour\<close>

text \<open>The invariant the header documents: \<open>R <= W <= limit\<close>, over \<open>limit\<close> bytes of memory.\<close>

definition buffer_inv :: "buffer \<Rightarrow> bool" where
  "buffer_inv b \<longleftrightarrow>
     b_read b \<le> b_write b \<and> b_write b \<le> b_limit b \<and> b_limit b = length (b_data b)"

definition buffer_room :: "buffer \<Rightarrow> nat" where
  "buffer_room b = b_limit b - b_write b"

lemmas buffer_defs = buffer_reset_def buffer_init_def buffer_write_ptr_def buffer_read_ptr_def
  buffer_write_adv_def buffer_read_adv_def buffer_compact_def buffer_copy_in_def Let_def

lemma buffer_init_inv [simp, intro]: "length d = n \<Longrightarrow> buffer_inv (buffer_init n d)"
  by (simp add: buffer_inv_def buffer_init_def)

lemma buffer_init_pending [simp]: "buffer_pending (buffer_init n d) = []"
  by (simp add: buffer_pending_def buffer_init_def)

lemma buffer_init_room [simp]: "buffer_room (buffer_init n d) = n"
  by (simp add: buffer_room_def buffer_init_def)

lemma buffer_init_limit [simp]: "b_limit (buffer_init n d) = n"
  by (simp add: buffer_init_def)

lemma length_buffer_pending [simp]:
  "buffer_inv b \<Longrightarrow> length (buffer_pending b) = b_write b - b_read b"
  by (auto simp: buffer_inv_def buffer_pending_def)

lemma buffer_can_read_iff: "buffer_inv b \<Longrightarrow> buffer_can_read b \<longleftrightarrow> buffer_pending b \<noteq> []"
  by (auto simp: buffer_can_read_def buffer_inv_def buffer_pending_def)

lemma buffer_can_write_iff: "buffer_can_write b \<longleftrightarrow> 0 < buffer_room b"
  by (auto simp: buffer_can_write_def buffer_room_def)

lemma buffer_write_ptr_ok:
  "buffer_inv b \<Longrightarrow> buffer_write_ptr b = Inr (b_write b, buffer_room b)"
  by (simp add: buffer_write_ptr_def buffer_inv_def buffer_room_def)

lemma buffer_read_ptr_ok:
  "buffer_inv b \<Longrightarrow> buffer_read_ptr b = Inr (b_read b, length (buffer_pending b))"
  by (auto simp: buffer_read_ptr_def buffer_inv_def buffer_pending_def)

lemma buffer_compact_inv [simp, intro]: "buffer_inv b \<Longrightarrow> buffer_inv (buffer_compact b)"
  by (auto simp: buffer_inv_def buffer_compact_def Let_def)

lemma buffer_compact_pending [simp]:
  "buffer_inv b \<Longrightarrow> buffer_pending (buffer_compact b) = buffer_pending b"
  by (auto simp: buffer_inv_def buffer_compact_def buffer_pending_def Let_def)

lemma buffer_compact_limit [simp]: "b_limit (buffer_compact b) = b_limit b"
  by (simp add: buffer_compact_def Let_def)

lemma buffer_compact_room:
  "buffer_inv b \<Longrightarrow> buffer_room (buffer_compact b) = b_limit b - length (buffer_pending b)"
  by (auto simp: buffer_inv_def buffer_compact_def buffer_room_def Let_def)

lemma buffer_write_adv_ok:
  assumes "buffer_inv b" and "n \<le> buffer_room b"
  shows "buffer_write_adv b (int n) = Inr (b\<lparr>b_write := b_write b + n\<rparr>)"
  using assms by (auto simp: buffer_write_adv_def buffer_inv_def buffer_room_def)

lemma buffer_write_adv_over:
  "buffer_room b < n \<Longrightarrow> buffer_write_adv b (int n) = Inl Assert_failed"
  by (simp add: buffer_write_adv_def buffer_room_def)

lemma buffer_read_adv_ok:
  assumes "buffer_inv b" and "n \<le> length (buffer_pending b)"
  shows "\<exists>b'. buffer_read_adv b (int n) = Inr b' \<and> buffer_inv b' \<and>
           buffer_pending b' = drop n (buffer_pending b) \<and> b_limit b' = b_limit b"
proof -
  define c where "c = b\<lparr>b_read := b_read b + n\<rparr>"
  have c: "buffer_inv c" "b_read c \<le> b_write c" "b_limit c = b_limit b"
    and p: "buffer_pending c = drop n (buffer_pending b)"
    using assms by (auto simp: c_def buffer_inv_def buffer_pending_def drop_take add.commute)
  have "buffer_read_adv b (int n) = Inr (if b_read c = b_write c then buffer_compact c else c)"
    using c(2) by (simp add: buffer_read_adv_def c_def)
  with c p show ?thesis by auto
qed

lemma buffer_read_adv_over:
  "buffer_inv b \<Longrightarrow> length (buffer_pending b) < n \<Longrightarrow>
    buffer_read_adv b (int n) = Inl Assert_failed"
  by (auto simp: buffer_read_adv_def buffer_inv_def Let_def)

lemma buffer_copy_in_ok:
  assumes "buffer_inv b" and "length xs \<le> buffer_room b"
  shows "\<exists>b'. buffer_copy_in b xs = Inr b' \<and> buffer_inv b' \<and>
           buffer_room b' = buffer_room b \<and> b_write b' = b_write b \<and> b_read b' = b_read b \<and>
           b_limit b' = b_limit b \<and> buffer_pending b' = buffer_pending b \<and>
           take (length xs) (drop (b_write b') (b_data b')) = xs"
proof -
  have le: "b_write b + length xs \<le> length (b_data b)" "b_read b \<le> b_write b"
    using assms by (auto simp: buffer_inv_def buffer_room_def)
  then show ?thesis
    using assms
    by (auto simp: buffer_copy_in_def buffer_inv_def buffer_room_def buffer_pending_def min_def
        drop_take)
qed

section \<open>The queue contract\<close>

text \<open>
  \<open>buffer_push\<close> is the producer pattern (pointer, copy, \<open>buffer_write_adv\<close>);
  \<open>buffer_pop\<close> the consumer pattern after a \<open>write(2)\<close> of \<open>n\<close> bytes
  (\<open>buffer_read_adv\<close>, \<open>buffer_compact\<close>).
\<close>

definition buffer_push :: "buffer \<Rightarrow> byte list \<Rightarrow> buffer run" where
  "buffer_push b xs =
     run_bind (buffer_copy_in b xs) (\<lambda>b'. buffer_write_adv b' (int (length xs)))"

definition buffer_pop :: "buffer \<Rightarrow> nat \<Rightarrow> buffer run" where
  "buffer_pop b n = run_bind (buffer_read_adv b (int n)) (\<lambda>b'. Inr (buffer_compact b'))"

lemma buffer_push_ok:
  assumes "buffer_inv b" and "length xs \<le> buffer_room b"
  shows "\<exists>b'. buffer_push b xs = Inr b' \<and> buffer_inv b' \<and>
           buffer_pending b' = buffer_pending b @ xs \<and>
           buffer_room b' = buffer_room b - length xs \<and> b_limit b' = b_limit b"
proof -
  obtain c where c: "buffer_copy_in b xs = Inr c" "buffer_inv c" "buffer_room c = buffer_room b"
      "b_write c = b_write b" "b_read c = b_read b" "b_limit c = b_limit b"
      "buffer_pending c = buffer_pending b" "take (length xs) (drop (b_write c) (b_data c)) = xs"
    using buffer_copy_in_ok [OF assms] by blast
  define d where "d = c\<lparr>b_write := b_write c + length xs\<rparr>"
  have "buffer_push b xs = Inr d"
    using c assms by (simp add: buffer_push_def d_def buffer_write_adv_ok)
  moreover have "buffer_pending d = buffer_pending c @ xs"
  proof -
    have le: "b_read c \<le> b_write c" using c(2) by (simp add: buffer_inv_def)
    then have "b_write d - b_read d = (b_write c - b_read c) + length xs"
      by (simp add: d_def)
    then have "buffer_pending d = take ((b_write c - b_read c) + length xs) (drop (b_read c) (b_data c))"
      by (simp add: buffer_pending_def d_def)
    also have "\<dots> = buffer_pending c @ take (length xs) (drop (b_write c) (b_data c))"
      unfolding take_add buffer_pending_def using le by simp
    finally show ?thesis using c(8) by simp
  qed
  moreover have "buffer_inv d" "buffer_room d = buffer_room b - length xs" "b_limit d = b_limit b"
    using c assms by (auto simp: d_def buffer_inv_def buffer_room_def)
  ultimately show ?thesis using c by auto
qed

lemma buffer_push_over:
  assumes "buffer_inv b" and "buffer_room b < length xs"
  shows "buffer_push b xs = Inl Out_of_bounds"
  using assms
  by (auto simp: buffer_push_def buffer_copy_in_def buffer_inv_def buffer_room_def)

lemma buffer_pop_ok:
  assumes "buffer_inv b" and "n \<le> length (buffer_pending b)"
  shows "\<exists>b'. buffer_pop b n = Inr b' \<and> buffer_inv b' \<and>
           buffer_pending b' = drop n (buffer_pending b) \<and>
           buffer_room b' = b_limit b - (length (buffer_pending b) - n) \<and> b_limit b' = b_limit b"
proof -
  obtain c where c: "buffer_read_adv b (int n) = Inr c" "buffer_inv c"
      "buffer_pending c = drop n (buffer_pending b)" "b_limit c = b_limit b"
    using buffer_read_adv_ok [OF assms] by blast
  have "buffer_pop b n = Inr (buffer_compact c)"
    using c(1) by (simp add: buffer_pop_def)
  moreover have "buffer_room (buffer_compact c) = b_limit b - (length (buffer_pending b) - n)"
    using c by (simp only: buffer_compact_room length_drop)
  ultimately show ?thesis using c by auto
qed

lemma buffer_pop_over:
  assumes "buffer_inv b" and "length (buffer_pending b) < n"
  shows "buffer_pop b n = Inl Assert_failed"
  using assms by (simp only: buffer_pop_def buffer_read_adv_over run_bind.simps)

datatype queue_op = Push "byte list" | Pop nat

fun queue_run ::
  "('q \<Rightarrow> byte list) \<Rightarrow> ('q \<Rightarrow> byte list \<Rightarrow> 'q run) \<Rightarrow> ('q \<Rightarrow> nat \<Rightarrow> 'q run) \<Rightarrow>
   queue_op list \<Rightarrow> 'q \<Rightarrow> ('q \<times> byte list) run" where
  "queue_run contents push pop [] q = Inr (q, [])"
| "queue_run contents push pop (Push xs # ops) q =
     run_bind (push q xs) (\<lambda>q'. queue_run contents push pop ops q')"
| "queue_run contents push pop (Pop n # ops) q =
     run_bind (pop q n) (\<lambda>q'.
       run_bind (queue_run contents push pop ops q') (\<lambda>(q'', out).
         Inr (q'', take n (contents q) @ out)))"

fun pushed :: "queue_op list \<Rightarrow> byte list" where
  "pushed [] = []"
| "pushed (Push xs # ops) = xs @ pushed ops"
| "pushed (Pop n # ops) = pushed ops"

locale byte_queue =
  fixes invar :: "'q \<Rightarrow> bool"
    and contents :: "'q \<Rightarrow> byte list"
    and room :: "'q \<Rightarrow> nat"
    and push :: "'q \<Rightarrow> byte list \<Rightarrow> 'q run"
    and pop :: "'q \<Rightarrow> nat \<Rightarrow> 'q run"
  assumes push_ok: "invar q \<Longrightarrow> length xs \<le> room q \<Longrightarrow>
      \<exists>q'. push q xs = Inr q' \<and> invar q' \<and> contents q' = contents q @ xs \<and>
           room q' = room q - length xs"
    and push_over: "invar q \<Longrightarrow> room q < length xs \<Longrightarrow> \<exists>e. push q xs = Inl e"
    and pop_ok: "invar q \<Longrightarrow> n \<le> length (contents q) \<Longrightarrow>
      \<exists>q'. pop q n = Inr q' \<and> invar q' \<and> contents q' = drop n (contents q)"
    and pop_over: "invar q \<Longrightarrow> length (contents q) < n \<Longrightarrow> \<exists>e. pop q n = Inl e"
begin

lemma pushD:
  "invar q \<Longrightarrow> push q xs = Inr q' \<Longrightarrow>
    invar q' \<and> contents q' = contents q @ xs \<and> length xs \<le> room q"
  using push_ok [of q xs] push_over [of q xs] by (cases "length xs \<le> room q") auto

lemma popD:
  "invar q \<Longrightarrow> pop q n = Inr q' \<Longrightarrow>
    invar q' \<and> contents q' = drop n (contents q) \<and> n \<le> length (contents q)"
  using pop_ok [of q n] pop_over [of q n] by (cases "n \<le> length (contents q)") auto

text \<open>Whatever the interleaving of writes and reads, bytes come out in the order they went in.\<close>

lemma fifo:
  "invar q \<Longrightarrow> queue_run contents push pop ops q = Inr (q', out) \<Longrightarrow>
    invar q' \<and> out @ contents q' = contents q @ pushed ops"
proof (induction ops arbitrary: q out)
  case (Cons a ops)
  show ?case
  proof (cases a)
    case (Push xs)
    with Cons.prems obtain r where r: "push q xs = Inr r"
        "queue_run contents push pop ops r = Inr (q', out)"
      by (auto simp: run_simps)
    with pushD [OF Cons.prems(1) r(1)] Cons.IH [of r out] Push show ?thesis by auto
  next
    case (Pop n)
    with Cons.prems obtain r out' where r: "pop q n = Inr r"
        "queue_run contents push pop ops r = Inr (q', out')" "out = take n (contents q) @ out'"
      by (auto simp: run_simps)
    have "out' @ contents q' = drop n (contents q) @ pushed ops" "invar q'"
      using popD [OF Cons.prems(1) r(1)] Cons.IH [of r out'] r(2) by auto
    moreover have "contents q = take n (contents q) @ drop n (contents q)" by simp
    ultimately show ?thesis
      using r(3) Pop by (metis append.assoc pushed.simps(3))
  qed
qed simp

end

interpretation bq: byte_queue buffer_inv buffer_pending buffer_room buffer_push buffer_pop
proof unfold_locales
  fix q :: buffer and xs :: "byte list"
  assume "buffer_inv q" and "length xs \<le> buffer_room q"
  then show "\<exists>q'. buffer_push q xs = Inr q' \<and> buffer_inv q' \<and>
      buffer_pending q' = buffer_pending q @ xs \<and> buffer_room q' = buffer_room q - length xs"
    using buffer_push_ok by blast
next
  fix q :: buffer and n :: nat
  assume "buffer_inv q" and "n \<le> length (buffer_pending q)"
  then show "\<exists>q'. buffer_pop q n = Inr q' \<and> buffer_inv q' \<and>
      buffer_pending q' = drop n (buffer_pending q)"
    using buffer_pop_ok by blast
qed (use buffer_push_over buffer_pop_over in blast)+

lemmas buffer_pushD = bq.pushD
lemmas buffer_popD = bq.popD

section \<open>Single-byte access\<close>

lemma list_update_as_copy: "i < length xs \<Longrightarrow> xs[i := x] = take i xs @ [x] @ drop (Suc i) xs"
  by (simp add: upd_conv_take_nth_drop)

lemma buffer_write_push:
  assumes "buffer_inv b" and "0 < buffer_room b"
  shows "buffer_write b c = buffer_push b [c]"
proof -
  have "b_write b < length (b_data b)"
    using assms by (auto simp: buffer_inv_def buffer_room_def)
  then show ?thesis
    using assms by (simp add: buffer_write_def buffer_can_write_iff buffer_push_def
        buffer_copy_in_def list_update_as_copy)
qed

lemma buffer_read_ok:
  assumes "buffer_inv b" and "buffer_pending b = x # xs"
  shows "\<exists>b'. buffer_read b = Inr (x, b') \<and> buffer_inv b' \<and> buffer_pending b' = xs \<and>
           b_limit b' = b_limit b"
proof -
  have lt: "b_read b < b_write b" "b_write b \<le> length (b_data b)"
    using assms length_buffer_pending [OF assms(1)] by (auto simp: buffer_inv_def)
  have x: "b_data b ! b_read b = x"
    using assms(2) lt by (metis buffer_pending_def hd_drop_conv_nth hd_take list.sel(1)
        order_less_le_trans zero_less_diff)
  obtain c where "buffer_read_adv b (int 1) = Inr c" "buffer_inv c"
      "buffer_pending c = drop 1 (buffer_pending b)" "b_limit c = b_limit b"
    using buffer_read_adv_ok [OF assms(1), of 1] assms(2) by auto
  with x lt assms show ?thesis
    by (auto simp: buffer_read_def buffer_can_read_def Let_def)
qed

end
