(* ===== verification/Handshake.thy ===== *)
theory Handshake
  imports C_Prelude
begin

text \<open>
  What the three handshake parsers (\<^verbatim>\<open>greeting.c\<close>, \<^verbatim>\<open>auth.c\<close>, \<^verbatim>\<open>request.c\<close>) have in
  common: a \<open>feed\<close> that takes one byte and answers with a status, and the loop of
  \<^verbatim>\<open>socks.c\<close> that feeds the pending bytes until the status is not \<open>NEED_MORE\<close>.
  \<open>byte_parser\<close> is the contract the session relies on: feeding never faults, and every
  \<open>NEED_MORE\<close> brings the end of the message closer. \<open>fill_phase\<close> is the shared argument for
  the fields that are copied byte by byte into an array.
\<close>

section \<open>Writing through an index\<close>

text \<open>\<^verbatim>\<open>a[i] = v\<close> with an index of type \<open>int\<close>; outside the array the write is undefined.\<close>

definition arr_set :: "'a list \<Rightarrow> int \<Rightarrow> 'a \<Rightarrow> 'a list run" where
  "arr_set xs i v =
     run_bind (ensure (0 \<le> i \<and> i < int (length xs)) Out_of_bounds) (\<lambda>_. Inr (xs[nat i := v]))"

lemma arr_set_ok [simp]:
  "i < length xs \<Longrightarrow> arr_set xs (int i) v = Inr (xs[i := v])"
  by (simp add: arr_set_def)

text \<open>The array after the bytes \<open>ys\<close> have been stored from index \<open>i\<close> on.\<close>

definition write_at :: "nat \<Rightarrow> 'a list \<Rightarrow> 'a list \<Rightarrow> 'a list" where
  "write_at i ys xs = take i xs @ ys @ drop (i + length ys) xs"

lemma write_at_Nil [simp]: "write_at i [] xs = xs"
  by (simp add: write_at_def)

lemma length_write_at [simp]: "i + length ys \<le> length xs \<Longrightarrow> length (write_at i ys xs) = length xs"
  by (simp add: write_at_def)

lemma write_at_step:
  "i < length xs \<Longrightarrow> write_at (Suc i) ys (xs[i := y]) = write_at i (y # ys) xs"
  by (simp add: write_at_def upd_conv_take_nth_drop take_Suc_conv_app_nth add.commute)

lemma take_write_at: "length ys \<le> length xs \<Longrightarrow> take (length ys) (write_at 0 ys xs) = ys"
  by (simp add: write_at_def)

section \<open>The feeding loop\<close>

fun consume ::
  "('p \<Rightarrow> byte \<Rightarrow> ('s \<times> 'p) run) \<Rightarrow> ('s \<Rightarrow> bool) \<Rightarrow> 'p \<Rightarrow> byte list \<Rightarrow>
   ('s option \<times> 'p \<times> byte list) run" where
  "consume feed need_more p [] = Inr (None, p, [])"
| "consume feed need_more p (b # bs) =
     run_bind (feed p b) (\<lambda>(st, p').
       if need_more st then consume feed need_more p' bs else Inr (Some st, p', bs))"

lemma consume_append:
  "consume feed nm p (xs @ ys) =
     run_bind (consume feed nm p xs) (\<lambda>(st, p', rest).
       case st of None \<Rightarrow> consume feed nm p' ys | Some s \<Rightarrow> Inr (Some s, p', rest @ ys))"
proof (induction xs arbitrary: p)
  case (Cons x xs)
  show ?case
  proof (cases "feed p x")
    case (Inr r)
    then show ?thesis using Cons.IH by (cases r) auto
  qed simp
qed simp

lemma consume_rest:
  "consume feed nm p bs = Inr (st, p', rest) \<Longrightarrow> \<exists>used. bs = used @ rest \<and> (st = None \<longrightarrow> rest = [])"
proof (induction bs arbitrary: p)
  case (Cons b bs)
  then obtain s q where s: "feed p b = Inr (s, q)" by (auto simp: run_simps)
  show ?case
  proof (cases "nm s")
    case True
    with Cons.prems s have "consume feed nm q bs = Inr (st, p', rest)" by simp
    from Cons.IH [OF this] show ?thesis by (metis append_Cons)
  next
    case False
    with Cons.prems s have "st = Some s" "rest = bs" by auto
    then show ?thesis by auto
  qed
qed auto

lemma consume_final: "consume feed nm p bs = Inr (Some st, p', rest) \<Longrightarrow> \<not> nm st"
proof (induction bs arbitrary: p)
  case (Cons b bs)
  then obtain s q where "feed p b = Inr (s, q)" by (auto simp: run_simps)
  then show ?case using Cons by (cases "nm s") auto
qed simp

locale byte_parser =
  fixes feed :: "'p \<Rightarrow> byte \<Rightarrow> ('s \<times> 'p) run"
    and need_more :: "'s \<Rightarrow> bool"
    and invar :: "'p \<Rightarrow> bool"
    and bound :: "'p \<Rightarrow> nat"
  assumes feed_total: "invar p \<Longrightarrow> \<exists>st p'. feed p b = Inr (st, p')"
    and feed_more: "invar p \<Longrightarrow> feed p b = Inr (st, p') \<Longrightarrow> need_more st \<Longrightarrow>
      invar p' \<and> bound p' < bound p"
    and bound_pos: "invar p \<Longrightarrow> 0 < bound p"
begin

lemma consume_total:
  "invar p \<Longrightarrow> \<exists>st p' rest. consume feed need_more p bs = Inr (st, p', rest)"
proof (induction bs arbitrary: p)
  case (Cons b bs)
  obtain st p' where f: "feed p b = Inr (st, p')" using feed_total [OF Cons.prems] by blast
  show ?case
  proof (cases "need_more st")
    case True
    then have "invar p'" using feed_more [OF Cons.prems f] by simp
    from Cons.IH [OF this] True f show ?thesis by simp
  qed (use f in simp)
qed simp

lemma consume_pending:
  "invar p \<Longrightarrow> consume feed need_more p bs = Inr (None, p', rest) \<Longrightarrow>
    invar p' \<and> bound p' + length bs \<le> bound p"
proof (induction bs arbitrary: p)
  case (Cons b bs)
  obtain st q where f: "feed p b = Inr (st, q)" using feed_total [OF Cons.prems(1)] by blast
  with Cons.prems(2) have nm: "need_more st" by (auto split: if_splits)
  then have q: "invar q" "bound q < bound p" using feed_more [OF Cons.prems(1) f] by auto
  have "consume feed need_more q bs = Inr (None, p', rest)" using Cons.prems(2) f nm by simp
  from Cons.IH [OF q(1) this] q(2) show ?case by simp
qed auto

text \<open>A message is decided within \<open>bound p\<close> bytes, whatever they are.\<close>

lemma consume_decides:
  assumes "invar p" and "bound p \<le> length bs"
  shows "\<exists>st p' rest. consume feed need_more p bs = Inr (Some st, p', rest)"
proof -
  obtain st p' rest where c: "consume feed need_more p bs = Inr (st, p', rest)"
    using consume_total [OF assms(1)] by blast
  show ?thesis
  proof (cases st)
    case None
    with c have "invar p' \<and> bound p' + length bs \<le> bound p"
      using consume_pending [OF assms(1)] by simp
    with bound_pos [of p'] assms(2) show ?thesis by auto
  qed (use c in auto)
qed

end

section \<open>Fields copied into an array\<close>

text \<open>
  \<open>ph k a\<close> is the parser with \<open>k\<close> bytes of an \<open>n\<close>-byte field to go and the array \<open>a\<close>;
  \<open>fin a\<close> the parser after the last one, which is answered with \<open>final_st\<close>.
\<close>

lemma fill_phase:
  assumes step: "\<And>k a b. 0 < k \<Longrightarrow> k < n \<Longrightarrow> length a = len \<Longrightarrow>
        feed (ph (Suc k) a) b = Inr (more, ph k (a[n - Suc k := b]))"
    and final: "\<And>a b. length a = len \<Longrightarrow> feed (ph 1 a) b = Inr (final_st, fin (a[n - 1 := b]))"
    and nm: "nm more"
    and len: "n \<le> len" "length a = len" and k: "0 < k" "k \<le> n"
  shows "consume feed nm (ph k a) bs =
     (if length bs < k then Inr (None, ph (k - length bs) (write_at (n - k) bs a), [])
      else let p = fin (write_at (n - k) (take k bs) a)
           in if nm final_st then consume feed nm p (drop k bs) else Inr (Some final_st, p, drop k bs))"
  using len(2) k
proof (induction bs arbitrary: k a)
  case (Cons b bs)
  show ?case
  proof (cases "k = 1")
    case True
    have "n - 1 < length a" using len Cons.prems by simp
    then have sp: "write_at (n - 1) [b] a = a[n - 1 := b]"
      using write_at_step [of "n - 1" a "[]" b] Cons.prems by simp
    have f: "feed (ph 1 a) b = Inr (final_st, fin (a[n - 1 := b]))"
      using final Cons.prems by blast
    have "consume feed nm (ph 1 a) (b # bs) =
        (if nm final_st then consume feed nm (fin (a[n - 1 := b])) bs
         else Inr (Some final_st, fin (a[n - 1 := b]), bs))"
      by (simp only: consume.simps f run_bind.simps prod.case)
    moreover have "\<not> length (b # bs) < 1" by simp
    ultimately show ?thesis
      unfolding True by (simp only: if_False Let_def) (simp add: sp [unfolded One_nat_def])
  next
    case False
    then obtain j where j: "k = Suc j" "0 < j" "j < n"
      using Cons.prems by (cases k) auto
    let ?a = "a[n - Suc j := b]"
    have f: "feed (ph k a) b = Inr (more, ph j ?a)"
      using step [OF j(2,3) Cons.prems(1)] j(1) by simp
    have sp: "write_at (n - j) ys ?a = write_at (n - k) (b # ys) a" for ys
      using write_at_step [of "n - Suc j" a ys b] j len Cons.prems by (simp add: Suc_diff_Suc)
    have "consume feed nm (ph k a) (b # bs) = consume feed nm (ph j ?a) bs"
      using f nm by simp
    also have "\<dots> = (if length bs < j then Inr (None, ph (j - length bs) (write_at (n - j) bs ?a), [])
      else let p = fin (write_at (n - j) (take j bs) ?a)
           in if nm final_st then consume feed nm p (drop j bs) else Inr (Some final_st, p, drop j bs))"
      using Cons.prems j by (intro Cons.IH) auto
    finally show ?thesis by (simp add: sp j(1) Let_def)
  qed
qed simp

end
