(* ===== verification/Greeting.thy ===== *)
theory Greeting
  imports Handshake
begin

text \<open>
  The method negotiation of RFC 1928 section 3, \<^verbatim>\<open>src/server/socks/greeting/greeting.c\<close>:
  the parser struct, its initialisation and the byte-wise \<open>feed\<close>, shown equal to a
  reference decision on the whole message.
\<close>

section \<open>State and operations\<close>

datatype socks_greeting_status =
    SOCKS_GREETING_NEED_MORE
  | SOCKS_GREETING_ACCEPT
  | SOCKS_GREETING_REJECT

abbreviation (input) SOCKS_METHOD_USERPASS :: byte where "SOCKS_METHOD_USERPASS \<equiv> 2"
abbreviation (input) SOCKS_METHOD_NOAUTH :: byte where "SOCKS_METHOD_NOAUTH \<equiv> 0"
abbreviation (input) SOCKS_VERSION :: byte where "SOCKS_VERSION \<equiv> 5"

abbreviation (input) GREETING_VER :: nat where "GREETING_VER \<equiv> 0"
abbreviation (input) GREETING_NMETHODS :: nat where "GREETING_NMETHODS \<equiv> 1"
abbreviation (input) GREETING_METHODS :: nat where "GREETING_METHODS \<equiv> 2"

record socks_greeting_parser =
  g_state :: nat
  methods_remaining :: byte
  has_userpass :: bool
  has_noauth :: bool
  chosen_method :: byte

definition socks_greeting_parser_init :: "socks_greeting_parser" where
  "socks_greeting_parser_init =
     \<lparr>g_state = GREETING_VER, methods_remaining = 0, has_userpass = False, has_noauth = False,
      chosen_method = 0xFF\<rparr>"

definition socks_greeting_parser_feed ::
  "socks_greeting_parser \<Rightarrow> byte \<Rightarrow> (socks_greeting_status \<times> socks_greeting_parser) run" where
  "socks_greeting_parser_feed p byte =
     Inr (if g_state p = GREETING_VER then
            if byte \<noteq> SOCKS_VERSION then (SOCKS_GREETING_REJECT, p)
            else (SOCKS_GREETING_NEED_MORE, p\<lparr>g_state := GREETING_NMETHODS\<rparr>)
          else if g_state p = GREETING_NMETHODS then
            if byte = 0 then (SOCKS_GREETING_REJECT, p)
            else (SOCKS_GREETING_NEED_MORE,
                  p\<lparr>methods_remaining := byte, g_state := GREETING_METHODS\<rparr>)
          else if g_state p = GREETING_METHODS then
            let p1 = (if byte = SOCKS_METHOD_USERPASS then p\<lparr>has_userpass := True\<rparr>
                      else if byte = SOCKS_METHOD_NOAUTH then p\<lparr>has_noauth := True\<rparr> else p);
                p2 = p1\<lparr>methods_remaining := methods_remaining p1 - 1\<rparr>
            in if methods_remaining p2 > 0 then (SOCKS_GREETING_NEED_MORE, p2)
               else if has_userpass p2
               then (SOCKS_GREETING_ACCEPT, p2\<lparr>chosen_method := SOCKS_METHOD_USERPASS\<rparr>)
               else if has_noauth p2
               then (SOCKS_GREETING_ACCEPT, p2\<lparr>chosen_method := SOCKS_METHOD_NOAUTH\<rparr>)
               else (SOCKS_GREETING_REJECT, p2)
          else (SOCKS_GREETING_REJECT, p))"

definition socks_greeting_chosen_method :: "socks_greeting_parser option \<Rightarrow> byte" where
  "socks_greeting_chosen_method parser =
     (case parser of Some p \<Rightarrow> chosen_method p | None \<Rightarrow> 0xFF)"

abbreviation greeting_more :: "socks_greeting_status \<Rightarrow> bool" where
  "greeting_more st \<equiv> st = SOCKS_GREETING_NEED_MORE"

section \<open>The parser contract\<close>

definition greeting_inv :: "socks_greeting_parser \<Rightarrow> bool" where
  "greeting_inv p \<longleftrightarrow>
     g_state p = GREETING_VER \<or> g_state p = GREETING_NMETHODS \<or>
     g_state p = GREETING_METHODS \<and> methods_remaining p \<noteq> 0"

definition greeting_bound :: "socks_greeting_parser \<Rightarrow> nat" where
  "greeting_bound p =
     (if g_state p = GREETING_VER then 257
      else if g_state p = GREETING_NMETHODS then 256 else unat (methods_remaining p))"

lemma greeting_feed_step:
  assumes "greeting_inv p" and "socks_greeting_parser_feed p b = Inr (SOCKS_GREETING_NEED_MORE, p')"
  shows "greeting_inv p' \<and> greeting_bound p' < greeting_bound p"
proof -
  consider "g_state p = 0" | "g_state p = 1" | "g_state p = 2" "methods_remaining p \<noteq> 0"
    using assms(1) by (auto simp: greeting_inv_def)
  then show ?thesis
  proof cases
    case 3
    have "methods_remaining p' = methods_remaining p - 1" "g_state p' = 2" "methods_remaining p' \<noteq> 0"
      using assms(2) 3
      by (auto simp: socks_greeting_parser_feed_def Let_def word_gt_0 split: if_splits)
    with 3 show ?thesis
      by (auto simp: greeting_inv_def greeting_bound_def unat_pred unat_gt_0)
  qed (use assms(2) unat_byte_less [of b] in
      \<open>auto simp: socks_greeting_parser_feed_def greeting_inv_def greeting_bound_def split: if_splits\<close>)
qed

interpretation gp: byte_parser socks_greeting_parser_feed greeting_more greeting_inv greeting_bound
proof unfold_locales
  fix p b show "\<exists>st p'. socks_greeting_parser_feed p b = Inr (st, p')"
    by (simp add: socks_greeting_parser_feed_def)
next
  fix p assume "greeting_inv p"
  then show "0 < greeting_bound p"
    by (auto simp: greeting_inv_def greeting_bound_def unat_gt_0)
qed (use greeting_feed_step in blast)+

section \<open>Equivalence with the message-level decision\<close>

text \<open>
  The decision RFC 1928 asks for, on the whole message \<open>VER NMETHODS METHODS\<close>: \<open>None\<close>
  while bytes are missing, otherwise the status, the method of the reply and the bytes
  behind the message.
\<close>

definition method_choice :: "byte set \<Rightarrow> socks_greeting_status \<times> byte" where
  "method_choice ms =
     (if SOCKS_METHOD_USERPASS \<in> ms then (SOCKS_GREETING_ACCEPT, SOCKS_METHOD_USERPASS)
      else if SOCKS_METHOD_NOAUTH \<in> ms then (SOCKS_GREETING_ACCEPT, SOCKS_METHOD_NOAUTH)
      else (SOCKS_GREETING_REJECT, 0xFF))"

fun greeting_ref :: "byte list \<Rightarrow> (socks_greeting_status \<times> byte \<times> byte list) option" where
  "greeting_ref [] = None"
| "greeting_ref (v # bs) =
     (if v \<noteq> SOCKS_VERSION then Some (SOCKS_GREETING_REJECT, 0xFF, bs)
      else case bs of
        [] \<Rightarrow> None
      | n # ms \<Rightarrow>
          if n = 0 then Some (SOCKS_GREETING_REJECT, 0xFF, ms)
          else if length ms < unat n then None
          else let (st, m) = method_choice (set (take (unat n) ms)) in Some (st, m, drop (unat n) ms))"

definition greeting_outcome ::
  "(socks_greeting_status option \<times> socks_greeting_parser \<times> byte list) run \<Rightarrow>
   (socks_greeting_status \<times> byte \<times> byte list) option run" where
  "greeting_outcome r =
     run_bind r (\<lambda>(st, p, rest).
       Inr (map_option (\<lambda>s. (s, socks_greeting_chosen_method (Some p), rest)) st))"

definition seen_methods :: "socks_greeting_parser \<Rightarrow> byte set" where
  "seen_methods p =
     (if has_userpass p then {SOCKS_METHOD_USERPASS} else {}) \<union>
     (if has_noauth p then {SOCKS_METHOD_NOAUTH} else {})"

lemma method_choice_cong:
  "(2 \<in> A \<longleftrightarrow> 2 \<in> B) \<Longrightarrow> (0 \<in> A \<longleftrightarrow> 0 \<in> B) \<Longrightarrow> method_choice A = method_choice B"
  by (simp add: method_choice_def)

lemma consume_methods:
  assumes "g_state p = GREETING_METHODS" and "methods_remaining p \<noteq> 0" and "chosen_method p = 0xFF"
  shows "greeting_outcome (consume socks_greeting_parser_feed greeting_more p ms) =
     Inr (if length ms < unat (methods_remaining p) then None
          else let (st, m) = method_choice (seen_methods p \<union> set (take (unat (methods_remaining p)) ms))
               in Some (st, m, drop (unat (methods_remaining p)) ms))"
  using assms
proof (induction ms arbitrary: p)
  case Nil
  then show ?case by (simp add: greeting_outcome_def unat_gt_0)
next
  case (Cons b ms)
  define q where "q = (if b = 2 then p\<lparr>has_userpass := True\<rparr>
    else if b = 0 then p\<lparr>has_noauth := True\<rparr> else p)\<lparr>methods_remaining := methods_remaining p - 1\<rparr>"
  let ?k = "unat (methods_remaining p)"
  have pos: "0 < ?k" using Cons.prems(2) by (simp add: unat_gt_0)
  have q: "g_state q = 2" "methods_remaining q = methods_remaining p - 1" "chosen_method q = 0xFF"
    using Cons.prems by (auto simp: q_def)
  have kq: "unat (methods_remaining q) = ?k - 1"
    using Cons.prems(2) q(2) by (simp add: unat_pred)
  have seen: "2 \<in> seen_methods q \<union> S \<longleftrightarrow> 2 \<in> seen_methods p \<union> insert b S"
    "0 \<in> seen_methods q \<union> S \<longleftrightarrow> 0 \<in> seen_methods p \<union> insert b S" for S
    by (auto simp: seen_methods_def q_def)
  show ?case
  proof (cases "methods_remaining q = 0")
    case False
    then have "socks_greeting_parser_feed p b = Inr (SOCKS_GREETING_NEED_MORE, q)"
      using Cons.prems q(2) by (simp add: socks_greeting_parser_feed_def q_def word_gt_0 Let_def)
    then have "greeting_outcome (consume socks_greeting_parser_feed greeting_more p (b # ms)) =
        greeting_outcome (consume socks_greeting_parser_feed greeting_more q ms)" by simp
    also have "\<dots> = Inr (if length ms < ?k - 1 then None
          else let (st, m) = method_choice (seen_methods q \<union> set (take (?k - 1) ms))
               in Some (st, m, drop (?k - 1) ms))"
      using Cons.IH [OF q(1) False q(3)] kq by simp
    also have "method_choice (seen_methods q \<union> set (take (?k - 1) ms)) =
        method_choice (seen_methods p \<union> set (take ?k (b # ms)))"
      using seen pos by (intro method_choice_cong) (simp_all add: take_Cons')
    finally show ?thesis using pos by (simp add: drop_Cons' less_diff_conv)
  next
    case True
    then have k1: "?k = 1" using kq pos by simp
    define r where "r = (if has_userpass q then (SOCKS_GREETING_ACCEPT, q\<lparr>chosen_method := 2\<rparr>)
      else if has_noauth q then (SOCKS_GREETING_ACCEPT, q\<lparr>chosen_method := 0\<rparr>)
      else (SOCKS_GREETING_REJECT, q))"
    have "socks_greeting_parser_feed p b = Inr r"
      using True Cons.prems q(2)
      by (simp add: socks_greeting_parser_feed_def q_def r_def word_gt_0 Let_def)
    then have "greeting_outcome (consume socks_greeting_parser_feed greeting_more p (b # ms)) =
        Inr (Some (fst r, chosen_method (snd r), ms))"
      by (auto simp: greeting_outcome_def socks_greeting_chosen_method_def r_def)
    moreover have "(fst r, chosen_method (snd r)) = method_choice (seen_methods q \<union> {})"
      using q(3) by (auto simp: r_def method_choice_def seen_methods_def)
    moreover have "method_choice (seen_methods q \<union> {}) =
        method_choice (seen_methods p \<union> set (take ?k (b # ms)))"
      using seen [of "{}"] k1 by (intro method_choice_cong) simp_all
    ultimately show ?thesis using k1 by (auto simp: Let_def split: prod.splits)
  qed
qed

lemma greeting_equiv:
  "greeting_outcome (consume socks_greeting_parser_feed greeting_more socks_greeting_parser_init bs) =
     Inr (greeting_ref bs)"
proof (cases bs)
  case (Cons v bs')
  show ?thesis
  proof (cases "v = SOCKS_VERSION \<and> (\<exists>n ms. bs' = n # ms \<and> n \<noteq> 0)")
    case True
    then obtain n ms where v: "v = SOCKS_VERSION" and bs': "bs' = n # ms" and n: "n \<noteq> 0" by blast
    let ?p = "socks_greeting_parser_init\<lparr>g_state := GREETING_METHODS, methods_remaining := n\<rparr>"
    have "consume socks_greeting_parser_feed greeting_more socks_greeting_parser_init bs =
        consume socks_greeting_parser_feed greeting_more ?p ms"
      using v n by (simp add: Cons bs' socks_greeting_parser_feed_def socks_greeting_parser_init_def)
    moreover have "seen_methods ?p = {}"
      by (simp add: seen_methods_def socks_greeting_parser_init_def)
    ultimately show ?thesis
      using consume_methods [of ?p ms] v n
      by (simp add: Cons bs' socks_greeting_parser_init_def)
  next
    case False
    then show ?thesis
      by (cases bs') (auto simp: Cons socks_greeting_parser_feed_def socks_greeting_parser_init_def
          greeting_outcome_def socks_greeting_chosen_method_def)
  qed
qed (simp add: greeting_outcome_def)

end
