(* ===== verification/Auth.thy ===== *)
theory Auth
  imports Greeting
begin

text \<open>
  The username/password sub-negotiation of RFC 1929, the parser of
  \<^verbatim>\<open>src/server/socks/auth/auth.c\<close>. The two 255-byte arrays are written through the
  indices the C code computes; a write outside them is a fault. The check of the parsed
  credentials against the user table is in theory \<open>Socks_Session\<close>.
\<close>

section \<open>State and operations\<close>

definition SOCKS_AUTH_MAX_LEN :: nat where "SOCKS_AUTH_MAX_LEN = 255"

datatype socks_auth_status =
    SOCKS_AUTH_NEED_MORE
  | SOCKS_AUTH_PARSED
  | SOCKS_AUTH_REJECT

abbreviation (input) AUTH_VERSION :: byte where "AUTH_VERSION \<equiv> 1"

abbreviation (input) AUTH_VER :: nat where "AUTH_VER \<equiv> 0"
abbreviation (input) AUTH_ULEN :: nat where "AUTH_ULEN \<equiv> 1"
abbreviation (input) AUTH_UNAME :: nat where "AUTH_UNAME \<equiv> 2"
abbreviation (input) AUTH_PLEN :: nat where "AUTH_PLEN \<equiv> 3"
abbreviation (input) AUTH_PASSWD :: nat where "AUTH_PASSWD \<equiv> 4"

record socks_auth_parser =
  a_state :: nat
  uname_len :: byte
  passwd_len :: byte
  uname_remaining :: byte
  passwd_remaining :: byte
  uname :: "byte list"
  passwd :: "byte list"

text \<open>The parser inside a session that \<open>calloc\<close> has zeroed.\<close>

definition auth_zeroed :: socks_auth_parser where
  "auth_zeroed =
     \<lparr>a_state = 0, uname_len = 0, passwd_len = 0, uname_remaining = 0, passwd_remaining = 0,
      uname = replicate SOCKS_AUTH_MAX_LEN 0, passwd = replicate SOCKS_AUTH_MAX_LEN 0\<rparr>"

definition socks_auth_parser_init :: "socks_auth_parser \<Rightarrow> socks_auth_parser" where
  "socks_auth_parser_init p =
     p\<lparr>a_state := AUTH_VER, uname_len := 0, passwd_len := 0, uname_remaining := 0,
       passwd_remaining := 0\<rparr>"

definition socks_auth_username_len :: "socks_auth_parser option \<Rightarrow> nat" where
  "socks_auth_username_len parser = (case parser of Some p \<Rightarrow> unat (uname_len p) | None \<Rightarrow> 0)"

definition socks_auth_password_len :: "socks_auth_parser option \<Rightarrow> nat" where
  "socks_auth_password_len parser = (case parser of Some p \<Rightarrow> unat (passwd_len p) | None \<Rightarrow> 0)"

definition socks_auth_username :: "socks_auth_parser option \<Rightarrow> byte list option" where
  "socks_auth_username parser = map_option uname parser"

definition socks_auth_password :: "socks_auth_parser option \<Rightarrow> byte list option" where
  "socks_auth_password parser = map_option passwd parser"

definition socks_auth_parser_feed ::
  "socks_auth_parser \<Rightarrow> byte \<Rightarrow> (socks_auth_status \<times> socks_auth_parser) run" where
  "socks_auth_parser_feed p byte =
     (if a_state p = AUTH_VER then
        Inr (if byte \<noteq> AUTH_VERSION then (SOCKS_AUTH_REJECT, p)
             else (SOCKS_AUTH_NEED_MORE, p\<lparr>a_state := AUTH_ULEN\<rparr>))
      else if a_state p = AUTH_ULEN then
        Inr (if byte = 0 then (SOCKS_AUTH_REJECT, p)
             else (SOCKS_AUTH_NEED_MORE,
                   p\<lparr>uname_len := byte, uname_remaining := byte, a_state := AUTH_UNAME\<rparr>))
      else if a_state p = AUTH_UNAME then
        run_bind (arr_set (uname p) (uint (uname_len p) - uint (uname_remaining p)) byte)
          (\<lambda>a. let p1 = p\<lparr>uname := a, uname_remaining := uname_remaining p - 1\<rparr>
               in Inr (if uname_remaining p1 > 0 then (SOCKS_AUTH_NEED_MORE, p1)
                       else (SOCKS_AUTH_NEED_MORE, p1\<lparr>a_state := AUTH_PLEN\<rparr>)))
      else if a_state p = AUTH_PLEN then
        Inr (if byte = 0 then (SOCKS_AUTH_REJECT, p)
             else (SOCKS_AUTH_NEED_MORE,
                   p\<lparr>passwd_len := byte, passwd_remaining := byte, a_state := AUTH_PASSWD\<rparr>))
      else if a_state p = AUTH_PASSWD then
        run_bind (arr_set (passwd p) (uint (passwd_len p) - uint (passwd_remaining p)) byte)
          (\<lambda>a. let p1 = p\<lparr>passwd := a, passwd_remaining := passwd_remaining p - 1\<rparr>
               in Inr (if passwd_remaining p1 > 0 then (SOCKS_AUTH_NEED_MORE, p1)
                       else (SOCKS_AUTH_PARSED, p1)))
      else Inr (SOCKS_AUTH_REJECT, p))"

abbreviation auth_more :: "socks_auth_status \<Rightarrow> bool" where
  "auth_more st \<equiv> st = SOCKS_AUTH_NEED_MORE"

section \<open>The parser contract\<close>

definition auth_arrays :: "socks_auth_parser \<Rightarrow> bool" where
  "auth_arrays p \<longleftrightarrow> length (uname p) = SOCKS_AUTH_MAX_LEN \<and> length (passwd p) = SOCKS_AUTH_MAX_LEN"

definition auth_inv :: "socks_auth_parser \<Rightarrow> bool" where
  "auth_inv p \<longleftrightarrow> auth_arrays p \<and>
     (a_state p = AUTH_VER \<or> a_state p = AUTH_ULEN \<or> a_state p = AUTH_PLEN \<or>
      a_state p = AUTH_UNAME \<and> uname_remaining p \<noteq> 0 \<and> uname_remaining p \<le> uname_len p \<or>
      a_state p = AUTH_PASSWD \<and> passwd_remaining p \<noteq> 0 \<and> passwd_remaining p \<le> passwd_len p)"

definition auth_bound :: "socks_auth_parser \<Rightarrow> nat" where
  "auth_bound p =
     (if a_state p = AUTH_VER then 513
      else if a_state p = AUTH_ULEN then 512
      else if a_state p = AUTH_UNAME then unat (uname_remaining p) + 256
      else if a_state p = AUTH_PLEN then 256
      else unat (passwd_remaining p))"

lemma arr_set_back:
  assumes "(r :: byte) \<noteq> 0" and "r \<le> l" and "length xs = SOCKS_AUTH_MAX_LEN"
  shows "arr_set xs (uint l - uint r) v = Inr (xs[unat l - unat r := v])"
proof -
  have le: "unat r \<le> unat l" "0 < unat r" "unat l < 256"
    using assms unat_byte_less [of l] by (simp_all add: word_le_nat_alt unat_gt_0)
  then have "uint l - uint r = int (unat l - unat r)"
    by (simp add: of_nat_diff uint_nat del: of_nat_unat)
  moreover have "unat l - unat r < length xs"
    using le assms(3) by (simp add: SOCKS_AUTH_MAX_LEN_def)
  ultimately show ?thesis by (simp only: arr_set_ok)
qed

lemma pred_le: "(r :: byte) \<noteq> 0 \<Longrightarrow> r \<le> l \<Longrightarrow> r - 1 \<le> l"
  by (simp add: word_le_nat_alt unat_pred)

lemma auth_feed_total: "auth_inv p \<Longrightarrow> \<exists>st p'. socks_auth_parser_feed p b = Inr (st, p')"
  by (auto simp: auth_inv_def auth_arrays_def socks_auth_parser_feed_def arr_set_back Let_def)

lemma auth_feed_step:
  assumes "auth_inv p" and "socks_auth_parser_feed p b = Inr (SOCKS_AUTH_NEED_MORE, p')"
  shows "auth_inv p' \<and> auth_bound p' < auth_bound p"
proof -
  have arr: "length (uname p) = SOCKS_AUTH_MAX_LEN" "length (passwd p) = SOCKS_AUTH_MAX_LEN"
    using assms(1) by (auto simp: auth_inv_def auth_arrays_def)
  consider (V) "a_state p = 0" | (U) "a_state p = 1" | (L) "a_state p = 3"
    | (N) "a_state p = 2" "uname_remaining p \<noteq> 0" "uname_remaining p \<le> uname_len p"
    | (P) "a_state p = 4" "passwd_remaining p \<noteq> 0" "passwd_remaining p \<le> passwd_len p"
    using assms(1) by (auto simp: auth_inv_def)
  then show ?thesis
  proof cases
    case N
    with assms(2) arr show ?thesis
      by (auto simp: socks_auth_parser_feed_def arr_set_back Let_def auth_inv_def auth_arrays_def
          auth_bound_def unat_pred word_gt_0 pred_le unat_gt_0 split: if_splits)
  next
    case P
    with assms(2) arr show ?thesis
      by (auto simp: socks_auth_parser_feed_def arr_set_back Let_def auth_inv_def auth_arrays_def
          auth_bound_def unat_pred word_gt_0 pred_le unat_gt_0 split: if_splits)
  qed (use assms(2) arr unat_byte_less [of b] in
      \<open>auto simp: socks_auth_parser_feed_def auth_inv_def auth_arrays_def auth_bound_def
         split: if_splits\<close>)
qed

interpretation ap: byte_parser socks_auth_parser_feed auth_more auth_inv auth_bound
proof unfold_locales
  fix p assume "auth_inv p"
  then show "0 < auth_bound p"
    by (auto simp: auth_inv_def auth_bound_def unat_gt_0)
qed (use auth_feed_total auth_feed_step in blast)+

section \<open>Equivalence with the message-level parse\<close>

text \<open>
  \<open>VER ULEN UNAME PLEN PASSWD\<close> as one message: \<open>None\<close> while bytes are missing, otherwise
  the status, the credentials of a parsed message and the bytes behind it.
\<close>

type_synonym credentials = "byte list \<times> byte list"

fun auth_ref_passwd :: "byte list \<Rightarrow> byte list \<Rightarrow>
    (socks_auth_status \<times> credentials option \<times> byte list) option" where
  "auth_ref_passwd u [] = None"
| "auth_ref_passwd u (n # bs) =
     (if n = 0 then Some (SOCKS_AUTH_REJECT, None, bs)
      else if length bs < unat n then None
      else Some (SOCKS_AUTH_PARSED, Some (u, take (unat n) bs), drop (unat n) bs))"

fun auth_ref_uname :: "byte list \<Rightarrow> (socks_auth_status \<times> credentials option \<times> byte list) option" where
  "auth_ref_uname [] = None"
| "auth_ref_uname (n # bs) =
     (if n = 0 then Some (SOCKS_AUTH_REJECT, None, bs)
      else if length bs < unat n then None
      else auth_ref_passwd (take (unat n) bs) (drop (unat n) bs))"

fun auth_ref :: "byte list \<Rightarrow> (socks_auth_status \<times> credentials option \<times> byte list) option" where
  "auth_ref [] = None"
| "auth_ref (v # bs) =
     (if v \<noteq> AUTH_VERSION then Some (SOCKS_AUTH_REJECT, None, bs) else auth_ref_uname bs)"

definition auth_credentials :: "socks_auth_parser \<Rightarrow> credentials" where
  "auth_credentials p = (take (unat (uname_len p)) (uname p), take (unat (passwd_len p)) (passwd p))"

definition auth_outcome ::
  "(socks_auth_status option \<times> socks_auth_parser \<times> byte list) run \<Rightarrow>
   (socks_auth_status \<times> credentials option \<times> byte list) option run" where
  "auth_outcome r =
     run_bind r (\<lambda>(st, p, rest).
       Inr (map_option (\<lambda>s. (s, if s = SOCKS_AUTH_PARSED then Some (auth_credentials p) else None, rest)) st))"

lemma unat_of_nat_byte: "k < 256 \<Longrightarrow> unat (of_nat k :: byte) = k"
  by (simp add: unsigned_of_nat take_bit_nat_eq_self)

lemma of_nat_byte_pred: "(of_nat (Suc k) :: byte) - 1 = of_nat k"
  by simp

lemma of_nat_byte_eq_0: "k < 256 \<Longrightarrow> (of_nat k :: byte) = 0 \<longleftrightarrow> k = 0"
  using unat_of_nat_byte [of k] by auto

lemma consume_uname:
  assumes "a_state p = AUTH_UNAME" and "uname_remaining p = uname_len p" and "uname_len p \<noteq> 0"
    and "auth_arrays p"
  shows "consume socks_auth_parser_feed auth_more p bs =
     (let n = unat (uname_len p)
      in if length bs < n
         then Inr (None, p\<lparr>uname_remaining := of_nat (n - length bs), uname := write_at 0 bs (uname p)\<rparr>, [])
         else consume socks_auth_parser_feed auth_more
                (p\<lparr>uname_remaining := 0, a_state := AUTH_PLEN, uname := write_at 0 (take n bs) (uname p)\<rparr>)
                (drop n bs))"
proof -
  define n where "n = unat (uname_len p)"
  define ph where "ph = (\<lambda>k a. p\<lparr>uname_remaining := of_nat k, uname := a\<rparr>)"
  define fin where "fin = (\<lambda>a. p\<lparr>uname_remaining := 0, a_state := AUTH_PLEN, uname := a\<rparr>)"
  have n: "0 < n" "n < 256" "n \<le> SOCKS_AUTH_MAX_LEN"
    using assms(3) unat_byte_less [of "uname_len p"] by (simp_all add: n_def unat_gt_0 SOCKS_AUTH_MAX_LEN_def)
  have le: "(of_nat k :: byte) \<le> uname_len p" if "k \<le> n" for k
    using that n by (simp add: word_le_nat_alt unat_of_nat_byte n_def)
  have "consume socks_auth_parser_feed auth_more (ph n (uname p)) bs =
     (if length bs < n then Inr (None, ph (n - length bs) (write_at (n - n) bs (uname p)), [])
      else let q = fin (write_at (n - n) (take n bs) (uname p))
           in if auth_more SOCKS_AUTH_NEED_MORE
              then consume socks_auth_parser_feed auth_more q (drop n bs)
              else Inr (Some SOCKS_AUTH_NEED_MORE, q, drop n bs))"
  proof (rule fill_phase [where more = SOCKS_AUTH_NEED_MORE and len = SOCKS_AUTH_MAX_LEN])
    fix k :: nat and a :: "byte list" and b :: byte
    assume k: "0 < k" "k < n" and a: "length a = SOCKS_AUTH_MAX_LEN"
    have "(of_nat (Suc k) :: byte) \<noteq> 0" "(of_nat (Suc k) :: byte) \<noteq> 1"
      using k n of_nat_byte_eq_0 [of "Suc k"] of_nat_byte_eq_0 [of k] by auto
    then show "socks_auth_parser_feed (ph (Suc k) a) b =
        Inr (SOCKS_AUTH_NEED_MORE, ph k (a[n - Suc k := b]))"
      using a k n le [of "Suc k"] assms(1) unat_of_nat_byte [of "Suc k"]
      by (simp add: socks_auth_parser_feed_def ph_def arr_set_back word_gt_0 n_def
          del: of_nat_Suc) (simp add: of_nat_byte_pred Let_def del: of_nat_Suc)
  next
    fix a :: "byte list" and b :: byte
    assume a: "length a = SOCKS_AUTH_MAX_LEN"
    then show "socks_auth_parser_feed (ph 1 a) b = Inr (SOCKS_AUTH_NEED_MORE, fin (a[n - 1 := b]))"
      using n le [of 1] assms(1)
      by (simp add: socks_auth_parser_feed_def ph_def fin_def arr_set_back [of 1, simplified] n_def Let_def)
  qed (use n assms(4) in \<open>auto simp: auth_arrays_def\<close>)
  moreover have "ph n (uname p) = p"
    using assms(2) by (simp add: ph_def n_def)
  ultimately show ?thesis
    by (simp add: ph_def fin_def n_def Let_def)
qed

lemma consume_passwd:
  assumes "a_state p = AUTH_PASSWD" and "passwd_remaining p = passwd_len p" and "passwd_len p \<noteq> 0"
    and "auth_arrays p"
  shows "consume socks_auth_parser_feed auth_more p bs =
     (let n = unat (passwd_len p)
      in if length bs < n
         then Inr (None, p\<lparr>passwd_remaining := of_nat (n - length bs), passwd := write_at 0 bs (passwd p)\<rparr>, [])
         else Inr (Some SOCKS_AUTH_PARSED,
                p\<lparr>passwd_remaining := 0, passwd := write_at 0 (take n bs) (passwd p)\<rparr>, drop n bs))"
proof -
  define n where "n = unat (passwd_len p)"
  define ph where "ph = (\<lambda>k a. p\<lparr>passwd_remaining := of_nat k, passwd := a\<rparr>)"
  define fin where "fin = (\<lambda>a. p\<lparr>passwd_remaining := 0, passwd := a\<rparr>)"
  have n: "0 < n" "n < 256" "n \<le> SOCKS_AUTH_MAX_LEN"
    using assms(3) unat_byte_less [of "passwd_len p"]
    by (simp_all add: n_def unat_gt_0 SOCKS_AUTH_MAX_LEN_def)
  have le: "(of_nat k :: byte) \<le> passwd_len p" if "k \<le> n" for k
    using that n by (simp add: word_le_nat_alt unat_of_nat_byte n_def)
  have "consume socks_auth_parser_feed auth_more (ph n (passwd p)) bs =
     (if length bs < n then Inr (None, ph (n - length bs) (write_at (n - n) bs (passwd p)), [])
      else let q = fin (write_at (n - n) (take n bs) (passwd p))
           in if auth_more SOCKS_AUTH_PARSED
              then consume socks_auth_parser_feed auth_more q (drop n bs)
              else Inr (Some SOCKS_AUTH_PARSED, q, drop n bs))"
  proof (rule fill_phase [where more = SOCKS_AUTH_NEED_MORE and len = SOCKS_AUTH_MAX_LEN])
    fix k :: nat and a :: "byte list" and b :: byte
    assume k: "0 < k" "k < n" and a: "length a = SOCKS_AUTH_MAX_LEN"
    have "(of_nat (Suc k) :: byte) \<noteq> 0" "(of_nat (Suc k) :: byte) \<noteq> 1"
      using k n of_nat_byte_eq_0 [of "Suc k"] of_nat_byte_eq_0 [of k] by auto
    then show "socks_auth_parser_feed (ph (Suc k) a) b =
        Inr (SOCKS_AUTH_NEED_MORE, ph k (a[n - Suc k := b]))"
      using a k n le [of "Suc k"] assms(1) unat_of_nat_byte [of "Suc k"]
      by (simp add: socks_auth_parser_feed_def ph_def arr_set_back word_gt_0 n_def
          del: of_nat_Suc) (simp add: of_nat_byte_pred Let_def del: of_nat_Suc)
  next
    fix a :: "byte list" and b :: byte
    assume a: "length a = SOCKS_AUTH_MAX_LEN"
    then show "socks_auth_parser_feed (ph 1 a) b = Inr (SOCKS_AUTH_PARSED, fin (a[n - 1 := b]))"
      using n le [of 1] assms(1)
      by (simp add: socks_auth_parser_feed_def ph_def fin_def arr_set_back [of 1, simplified] n_def Let_def)
  qed (use n assms(4) in \<open>auto simp: auth_arrays_def\<close>)
  moreover have "ph n (passwd p) = p"
    using assms(2) by (simp add: ph_def n_def)
  ultimately show ?thesis
    by (simp add: ph_def fin_def n_def Let_def)
qed

text \<open>The phases in turn, from the last byte of the message backwards.\<close>

lemma auth_from_plen:
  assumes "a_state p = AUTH_PLEN" and "auth_arrays p" and "take (unat (uname_len p)) (uname p) = u"
  shows "auth_outcome (consume socks_auth_parser_feed auth_more p bs) = Inr (auth_ref_passwd u bs)"
proof (cases bs)
  case (Cons n bs')
  show ?thesis
  proof (cases "n = 0")
    case False
    define q where "q = p\<lparr>passwd_len := n, passwd_remaining := n, a_state := AUTH_PASSWD\<rparr>"
    have "consume socks_auth_parser_feed auth_more p bs = consume socks_auth_parser_feed auth_more q bs'"
      using False assms(1) by (simp add: Cons q_def socks_auth_parser_feed_def)
    moreover have "length (passwd q) = SOCKS_AUTH_MAX_LEN" "unat n \<le> SOCKS_AUTH_MAX_LEN"
      using assms(2) unat_byte_less [of n] by (simp_all add: q_def auth_arrays_def SOCKS_AUTH_MAX_LEN_def)
    ultimately show ?thesis
      using consume_passwd [of q bs'] False assms
      by (auto simp: Cons q_def auth_arrays_def auth_outcome_def auth_credentials_def Let_def
          write_at_def min_def)
  qed (use assms(1) in \<open>simp add: Cons socks_auth_parser_feed_def auth_outcome_def\<close>)
qed (simp add: auth_outcome_def)

lemma auth_from_ulen:
  assumes "a_state p = AUTH_ULEN" and "auth_arrays p"
  shows "auth_outcome (consume socks_auth_parser_feed auth_more p bs) = Inr (auth_ref_uname bs)"
proof (cases bs)
  case (Cons n bs')
  show ?thesis
  proof (cases "n = 0")
    case False
    define q where "q = p\<lparr>uname_len := n, uname_remaining := n, a_state := AUTH_UNAME\<rparr>"
    define r where "r = q\<lparr>uname_remaining := 0, a_state := AUTH_PLEN,
        uname := write_at 0 (take (unat n) bs') (uname q)\<rparr>"
    have len: "length (uname q) = SOCKS_AUTH_MAX_LEN" "unat n \<le> SOCKS_AUTH_MAX_LEN"
      using assms(2) unat_byte_less [of n] by (simp_all add: q_def auth_arrays_def SOCKS_AUTH_MAX_LEN_def)
    have feed: "consume socks_auth_parser_feed auth_more p bs = consume socks_auth_parser_feed auth_more q bs'"
      using False assms(1) by (simp add: Cons q_def socks_auth_parser_feed_def)
    show ?thesis
    proof (cases "length bs' < unat n")
      case True
      then show ?thesis
        using consume_uname [of q bs'] feed False assms
        by (simp add: Cons q_def auth_arrays_def auth_outcome_def Let_def)
    next
      case le: False
      have "auth_arrays r" "take (unat (uname_len r)) (uname r) = take (unat n) bs'"
        using assms(2) len le by (auto simp: r_def q_def auth_arrays_def write_at_def)
      then have "auth_outcome (consume socks_auth_parser_feed auth_more r (drop (unat n) bs')) =
          Inr (auth_ref_passwd (take (unat n) bs') (drop (unat n) bs'))"
        by (intro auth_from_plen) (simp_all add: r_def)
      then show ?thesis
        using consume_uname [of q bs'] feed False assms le
        by (simp add: Cons q_def r_def auth_arrays_def Let_def)
    qed
  qed (use assms(1) in \<open>simp add: Cons socks_auth_parser_feed_def auth_outcome_def\<close>)
qed (simp add: auth_outcome_def)

lemma auth_equiv:
  assumes "auth_arrays p"
  shows "auth_outcome (consume socks_auth_parser_feed auth_more (socks_auth_parser_init p) bs) =
     Inr (auth_ref bs)"
proof (cases bs)
  case (Cons v bs')
  let ?q = "(socks_auth_parser_init p)\<lparr>a_state := AUTH_ULEN\<rparr>"
  show ?thesis
  proof (cases "v = AUTH_VERSION")
    case True
    then have "consume socks_auth_parser_feed auth_more (socks_auth_parser_init p) bs =
        consume socks_auth_parser_feed auth_more ?q bs'"
      by (simp add: Cons socks_auth_parser_feed_def socks_auth_parser_init_def)
    moreover have "auth_arrays ?q"
      using assms by (simp add: auth_arrays_def socks_auth_parser_init_def)
    ultimately show ?thesis
      using True auth_from_ulen [of ?q bs'] by (simp add: Cons)
  qed (simp add: Cons socks_auth_parser_feed_def socks_auth_parser_init_def auth_outcome_def)
qed (simp add: auth_outcome_def)

lemma auth_zeroed_arrays [simp]: "auth_arrays auth_zeroed"
  by (simp add: auth_arrays_def auth_zeroed_def)

lemma auth_init_inv [simp]: "auth_arrays p \<Longrightarrow> auth_inv (socks_auth_parser_init p)"
  by (simp add: auth_inv_def auth_arrays_def socks_auth_parser_init_def)

end
