(* ===== verification/Request.thy ===== *)
theory Request
  imports Auth
begin

text \<open>
  The CONNECT request of RFC 1928 section 4, the parser of
  \<^verbatim>\<open>src/server/socks/request/request.c\<close>. \<open>sockaddr_storage\<close> keeps the members the code
  writes (\<open>sin_family\<close>, \<open>sin_addr\<close>, \<open>sin6_addr\<close> and the port, whose \<open>htons\<close> byte order is
  only its representation in memory); \<open>char fqdn[256]\<close> is its 256 octets.
\<close>

unbundle bit_operations_syntax

section \<open>State and operations\<close>

definition SOCKS_REQUEST_FQDN_MAX :: nat where "SOCKS_REQUEST_FQDN_MAX = 255"

datatype socks_request_status =
    SOCKS_REQUEST_NEED_MORE
  | SOCKS_REQUEST_PARSED_ADDR
  | SOCKS_REQUEST_PARSED_FQDN
  | SOCKS_REQUEST_REJECT
  | SOCKS_REQUEST_REJECT_CMD
  | SOCKS_REQUEST_REJECT_ATYP

abbreviation (input) AF_INET :: nat where "AF_INET \<equiv> 2"
abbreviation (input) AF_INET6 :: nat where "AF_INET6 \<equiv> 10"

record sockaddr_storage =
  ss_family :: nat
  ss_port :: u16
  ss_addr4 :: "byte list"
  ss_addr6 :: "byte list"

definition zero_sockaddr :: sockaddr_storage where
  "zero_sockaddr =
     \<lparr>ss_family = 0, ss_port = 0, ss_addr4 = replicate 4 0, ss_addr6 = replicate 16 0\<rparr>"

definition sizeof_sockaddr_in :: nat where "sizeof_sockaddr_in = 16"
definition sizeof_sockaddr_in6 :: nat where "sizeof_sockaddr_in6 = 28"

abbreviation (input) SOCKS_CMD_CONNECT :: byte where "SOCKS_CMD_CONNECT \<equiv> 1"
abbreviation (input) SOCKS_ATYP_IPV4 :: byte where "SOCKS_ATYP_IPV4 \<equiv> 1"
abbreviation (input) SOCKS_ATYP_FQDN :: byte where "SOCKS_ATYP_FQDN \<equiv> 3"
abbreviation (input) SOCKS_ATYP_IPV6 :: byte where "SOCKS_ATYP_IPV6 \<equiv> 4"

abbreviation (input) REQ_VER :: nat where "REQ_VER \<equiv> 0"
abbreviation (input) REQ_CMD :: nat where "REQ_CMD \<equiv> 1"
abbreviation (input) REQ_RSV :: nat where "REQ_RSV \<equiv> 2"
abbreviation (input) REQ_ATYP :: nat where "REQ_ATYP \<equiv> 3"
abbreviation (input) REQ_ADDR_IPV4 :: nat where "REQ_ADDR_IPV4 \<equiv> 4"
abbreviation (input) REQ_ADDR_IPV6 :: nat where "REQ_ADDR_IPV6 \<equiv> 5"
abbreviation (input) REQ_FQDN_LEN :: nat where "REQ_FQDN_LEN \<equiv> 6"
abbreviation (input) REQ_FQDN :: nat where "REQ_FQDN \<equiv> 7"
abbreviation (input) REQ_PORT_HI :: nat where "REQ_PORT_HI \<equiv> 8"
abbreviation (input) REQ_PORT_LO :: nat where "REQ_PORT_LO \<equiv> 9"

record socks_request_parser =
  r_state :: nat
  r_cmd :: byte
  r_atyp :: byte
  addr_remaining :: byte
  fqdn_len :: byte
  fqdn_remaining :: byte
  fqdn :: "byte list"
  port_hi :: byte
  r_dest_addr :: sockaddr_storage
  r_dest_addr_len :: nat
  r_dest_port :: u16

definition request_zeroed :: socks_request_parser where
  "request_zeroed =
     \<lparr>r_state = 0, r_cmd = 0, r_atyp = 0, addr_remaining = 0, fqdn_len = 0, fqdn_remaining = 0,
      fqdn = replicate (SOCKS_REQUEST_FQDN_MAX + 1) 0, port_hi = 0, r_dest_addr = zero_sockaddr,
      r_dest_addr_len = 0, r_dest_port = 0\<rparr>"

definition socks_request_parser_init :: "socks_request_parser \<Rightarrow> socks_request_parser" where
  "socks_request_parser_init p =
     p\<lparr>r_state := REQ_VER, r_cmd := 0, r_atyp := 0, addr_remaining := 0, fqdn_len := 0,
       fqdn_remaining := 0, fqdn := (fqdn p)[0 := 0], port_hi := 0, r_dest_addr_len := 0,
       r_dest_port := 0, r_dest_addr := zero_sockaddr\<rparr>"

definition socks_request_dest_port :: "socks_request_parser option \<Rightarrow> u16" where
  "socks_request_dest_port parser = (case parser of Some p \<Rightarrow> r_dest_port p | None \<Rightarrow> 0)"

definition socks_request_dest_addr :: "socks_request_parser option \<Rightarrow> sockaddr_storage option" where
  "socks_request_dest_addr parser =
     (case parser of
        None \<Rightarrow> None
      | Some p \<Rightarrow> if r_dest_addr_len p = 0 then None else Some (r_dest_addr p))"

definition socks_request_dest_addr_len :: "socks_request_parser option \<Rightarrow> nat" where
  "socks_request_dest_addr_len parser = (case parser of Some p \<Rightarrow> r_dest_addr_len p | None \<Rightarrow> 0)"

text \<open>The C string at \<open>parser->fqdn\<close>.\<close>

definition socks_request_fqdn :: "socks_request_parser option \<Rightarrow> string option" where
  "socks_request_fqdn parser = map_option (\<lambda>p. cstr (chars_of (fqdn p))) parser"

definition socks_request_parser_feed ::
  "socks_request_parser \<Rightarrow> byte \<Rightarrow> (socks_request_status \<times> socks_request_parser) run" where
  "socks_request_parser_feed p byte =
     (if r_state p = REQ_VER then
        Inr (if byte \<noteq> SOCKS_VERSION then (SOCKS_REQUEST_REJECT, p)
             else (SOCKS_REQUEST_NEED_MORE, p\<lparr>r_state := REQ_CMD\<rparr>))
      else if r_state p = REQ_CMD then
        Inr (if byte \<noteq> SOCKS_CMD_CONNECT then (SOCKS_REQUEST_REJECT_CMD, p)
             else (SOCKS_REQUEST_NEED_MORE, p\<lparr>r_cmd := byte, r_state := REQ_RSV\<rparr>))
      else if r_state p = REQ_RSV then
        Inr (if byte \<noteq> 0 then (SOCKS_REQUEST_REJECT, p)
             else (SOCKS_REQUEST_NEED_MORE, p\<lparr>r_state := REQ_ATYP\<rparr>))
      else if r_state p = REQ_ATYP then
        let p0 = p\<lparr>r_atyp := byte\<rparr>
        in Inr (if byte = SOCKS_ATYP_IPV4 then
                  (SOCKS_REQUEST_NEED_MORE,
                   p0\<lparr>addr_remaining := 4, r_dest_addr := zero_sockaddr\<lparr>ss_family := AF_INET\<rparr>,
                      r_dest_addr_len := sizeof_sockaddr_in, r_state := REQ_ADDR_IPV4\<rparr>)
                else if byte = SOCKS_ATYP_IPV6 then
                  (SOCKS_REQUEST_NEED_MORE,
                   p0\<lparr>addr_remaining := 16, r_dest_addr := zero_sockaddr\<lparr>ss_family := AF_INET6\<rparr>,
                      r_dest_addr_len := sizeof_sockaddr_in6, r_state := REQ_ADDR_IPV6\<rparr>)
                else if byte = SOCKS_ATYP_FQDN then
                  (SOCKS_REQUEST_NEED_MORE, p0\<lparr>r_state := REQ_FQDN_LEN\<rparr>)
                else (SOCKS_REQUEST_REJECT_ATYP, p0))
      else if r_state p = REQ_ADDR_IPV4 then
        run_bind (arr_set (ss_addr4 (r_dest_addr p)) (4 - uint (addr_remaining p)) byte)
          (\<lambda>a. let p1 = p\<lparr>r_dest_addr := (r_dest_addr p)\<lparr>ss_addr4 := a\<rparr>,
                          addr_remaining := addr_remaining p - 1\<rparr>
               in Inr (if addr_remaining p1 > 0 then (SOCKS_REQUEST_NEED_MORE, p1)
                       else (SOCKS_REQUEST_NEED_MORE, p1\<lparr>r_state := REQ_PORT_HI\<rparr>)))
      else if r_state p = REQ_ADDR_IPV6 then
        run_bind (arr_set (ss_addr6 (r_dest_addr p)) (16 - uint (addr_remaining p)) byte)
          (\<lambda>a. let p1 = p\<lparr>r_dest_addr := (r_dest_addr p)\<lparr>ss_addr6 := a\<rparr>,
                          addr_remaining := addr_remaining p - 1\<rparr>
               in Inr (if addr_remaining p1 > 0 then (SOCKS_REQUEST_NEED_MORE, p1)
                       else (SOCKS_REQUEST_NEED_MORE, p1\<lparr>r_state := REQ_PORT_HI\<rparr>)))
      else if r_state p = REQ_FQDN_LEN then
        Inr (if byte = 0 then (SOCKS_REQUEST_REJECT, p)
             else (SOCKS_REQUEST_NEED_MORE,
                   p\<lparr>fqdn_len := byte, fqdn_remaining := byte, r_state := REQ_FQDN\<rparr>))
      else if r_state p = REQ_FQDN then
        run_bind (arr_set (fqdn p) (uint (fqdn_len p) - uint (fqdn_remaining p)) byte)
          (\<lambda>a. let p1 = p\<lparr>fqdn := a, fqdn_remaining := fqdn_remaining p - 1\<rparr>
               in if fqdn_remaining p1 > 0 then Inr (SOCKS_REQUEST_NEED_MORE, p1)
                  else run_bind (arr_set (fqdn p1) (uint (fqdn_len p1)) 0) (\<lambda>a'.
                    Inr (SOCKS_REQUEST_NEED_MORE, p1\<lparr>fqdn := a', r_state := REQ_PORT_HI\<rparr>)))
      else if r_state p = REQ_PORT_HI then
        Inr (SOCKS_REQUEST_NEED_MORE, p\<lparr>port_hi := byte, r_state := REQ_PORT_LO\<rparr>)
      else if r_state p = REQ_PORT_LO then
        let p1 = p\<lparr>r_dest_port := push_bit 8 (ucast (port_hi p)) OR ucast byte\<rparr>
        in Inr (if r_atyp p1 = SOCKS_ATYP_FQDN then (SOCKS_REQUEST_PARSED_FQDN, p1)
                else if ss_family (r_dest_addr p1) = AF_INET \<or> ss_family (r_dest_addr p1) = AF_INET6
                then (SOCKS_REQUEST_PARSED_ADDR,
                      p1\<lparr>r_dest_addr := (r_dest_addr p1)\<lparr>ss_port := r_dest_port p1\<rparr>\<rparr>)
                else (SOCKS_REQUEST_PARSED_ADDR, p1))
      else Inr (SOCKS_REQUEST_REJECT, p))"

abbreviation request_more :: "socks_request_status \<Rightarrow> bool" where
  "request_more st \<equiv> st = SOCKS_REQUEST_NEED_MORE"

section \<open>The parser contract\<close>

definition request_arrays :: "socks_request_parser \<Rightarrow> bool" where
  "request_arrays p \<longleftrightarrow>
     length (fqdn p) = SOCKS_REQUEST_FQDN_MAX + 1 \<and>
     length (ss_addr4 (r_dest_addr p)) = 4 \<and> length (ss_addr6 (r_dest_addr p)) = 16"

definition request_inv :: "socks_request_parser \<Rightarrow> bool" where
  "request_inv p \<longleftrightarrow> request_arrays p \<and>
     (r_state p \<in> {REQ_VER, REQ_CMD, REQ_RSV, REQ_ATYP, REQ_FQDN_LEN, REQ_PORT_HI, REQ_PORT_LO} \<or>
      r_state p = REQ_ADDR_IPV4 \<and> addr_remaining p \<noteq> 0 \<and> addr_remaining p \<le> 4 \<or>
      r_state p = REQ_ADDR_IPV6 \<and> addr_remaining p \<noteq> 0 \<and> addr_remaining p \<le> 16 \<or>
      r_state p = REQ_FQDN \<and> fqdn_remaining p \<noteq> 0 \<and> fqdn_remaining p \<le> fqdn_len p)"

definition request_bound :: "socks_request_parser \<Rightarrow> nat" where
  "request_bound p =
     (if r_state p \<le> REQ_ATYP then 262 - r_state p
      else if r_state p = REQ_ADDR_IPV4 \<or> r_state p = REQ_ADDR_IPV6 then unat (addr_remaining p) + 2
      else if r_state p = REQ_FQDN_LEN then 258
      else if r_state p = REQ_FQDN then unat (fqdn_remaining p) + 2
      else if r_state p = REQ_PORT_HI then 2 else 1)"

lemma arr_set_down:
  assumes "(r :: byte) \<noteq> 0" and "r \<le> l" and "unat l \<le> length xs"
  shows "arr_set xs (uint l - uint r) v = Inr (xs[unat l - unat r := v])"
proof -
  have le: "unat r \<le> unat l" "0 < unat r"
    using assms by (simp_all add: word_le_nat_alt unat_gt_0)
  then have "uint l - uint r = int (unat l - unat r)"
    by (simp add: of_nat_diff uint_nat del: of_nat_unat)
  moreover have "unat l - unat r < length xs" using le assms(3) by simp
  ultimately show ?thesis by (simp only: arr_set_ok)
qed

lemmas arr_set_addr4 = arr_set_down [where l = 4, simplified]
lemmas arr_set_addr6 = arr_set_down [where l = 16, simplified]

lemma arr_set_uint: "unat l < length xs \<Longrightarrow> arr_set xs (uint l) v = Inr (xs[unat l := v])"
  by (metis arr_set_ok uint_nat)

lemma unat_byte_fqdn: "unat (l :: byte) \<le> SOCKS_REQUEST_FQDN_MAX"
  using unat_byte_less [of l] by (simp add: SOCKS_REQUEST_FQDN_MAX_def)

lemma zero_sockaddr_sizes [simp]:
  "length (ss_addr4 zero_sockaddr) = 4" "length (ss_addr6 zero_sockaddr) = 16"
  by (simp_all add: zero_sockaddr_def)

lemmas request_feed_simps = socks_request_parser_feed_def arr_set_addr4 arr_set_addr6 arr_set_down
  arr_set_uint unat_byte_fqdn Let_def

lemma request_phases:
  assumes "request_inv p"
  obtains "r_state p = REQ_VER" | "r_state p = REQ_CMD" | "r_state p = REQ_RSV" | "r_state p = REQ_ATYP"
    | "r_state p = REQ_FQDN_LEN" | "r_state p = REQ_PORT_HI" | "r_state p = REQ_PORT_LO"
    | (ipv4) "r_state p = REQ_ADDR_IPV4" "addr_remaining p \<noteq> 0" "addr_remaining p \<le> 4"
    | (ipv6) "r_state p = REQ_ADDR_IPV6" "addr_remaining p \<noteq> 0" "addr_remaining p \<le> 16"
    | (name) "r_state p = REQ_FQDN" "fqdn_remaining p \<noteq> 0" "fqdn_remaining p \<le> fqdn_len p"
  using assms that unfolding request_inv_def by blast

lemma request_inv_arrays:
  assumes "request_inv p"
  shows "length (fqdn p) = SOCKS_REQUEST_FQDN_MAX + 1"
    and "length (ss_addr4 (r_dest_addr p)) = 4" and "length (ss_addr6 (r_dest_addr p)) = 16"
  using assms by (simp_all add: request_inv_def request_arrays_def)

lemma fqdn_index: "unat (l :: byte) \<le> Suc SOCKS_REQUEST_FQDN_MAX" "unat l < Suc SOCKS_REQUEST_FQDN_MAX"
  using unat_byte_fqdn [of l] by simp_all

lemma request_feed_total:
  assumes "request_inv p"
  shows "\<exists>st p'. socks_request_parser_feed p b = Inr (st, p')"
  using assms
  by (cases rule: request_phases)
     (simp_all add: request_feed_simps request_inv_arrays [OF assms] fqdn_index)

lemma request_feed_step:
  assumes "request_inv p" and "socks_request_parser_feed p b = Inr (SOCKS_REQUEST_NEED_MORE, p')"
  shows "request_inv p' \<and> request_bound p' < request_bound p"
  using assms(1)
proof (cases rule: request_phases)
  case ipv4
  then show ?thesis
    using assms(2) by (auto simp: request_feed_simps request_inv_arrays [OF assms(1)]
        request_inv_def request_arrays_def request_bound_def
        unat_pred word_gt_0 pred_le unat_gt_0 split: if_splits)
next
  case ipv6
  then show ?thesis
    using assms(2) by (auto simp: request_feed_simps request_inv_arrays [OF assms(1)]
        request_inv_def request_arrays_def request_bound_def
        unat_pred word_gt_0 pred_le unat_gt_0 split: if_splits)
next
  case name
  then show ?thesis
    using assms(2) by (auto simp: request_feed_simps request_inv_arrays [OF assms(1)] fqdn_index
        request_inv_def request_arrays_def request_bound_def
        unat_pred word_gt_0 pred_le unat_gt_0 split: if_splits)
qed (use assms(2) unat_byte_less [of b] in
    \<open>auto simp: socks_request_parser_feed_def Let_def request_inv_arrays [OF assms(1)]
       request_inv_def request_arrays_def request_bound_def split: if_splits\<close>)

interpretation rp: byte_parser socks_request_parser_feed request_more request_inv request_bound
proof unfold_locales
  fix p assume "request_inv p"
  then show "0 < request_bound p"
    by (cases rule: request_phases) (auto simp: request_bound_def)
qed (use request_feed_total request_feed_step in blast)+

section \<open>Equivalence with the message-level parse\<close>

text \<open>
  \<open>VER CMD RSV ATYP DST.ADDR DST.PORT\<close> as one message: \<open>None\<close> while bytes are missing,
  otherwise the status, the destination of a parsed message and the bytes behind it.
\<close>

datatype destination =
    Dest_ipv4 "byte list" nat
  | Dest_ipv6 "byte list" nat
  | Dest_fqdn "byte list" nat

type_synonym request_result = "socks_request_status \<times> destination option \<times> byte list"

fun request_ref_port ::
  "socks_request_status \<Rightarrow> (nat \<Rightarrow> destination) \<Rightarrow> byte list \<Rightarrow> request_result option" where
  "request_ref_port st dest (hi # lo # bs) = Some (st, Some (dest (256 * unat hi + unat lo)), bs)"
| "request_ref_port st dest _ = None"

definition request_ref_addr ::
  "socks_request_status \<Rightarrow> (byte list \<Rightarrow> nat \<Rightarrow> destination) \<Rightarrow> nat \<Rightarrow> byte list \<Rightarrow>
   request_result option" where
  "request_ref_addr st dest n bs =
     (if length bs < n then None else request_ref_port st (dest (take n bs)) (drop n bs))"

fun request_ref_fqdn :: "byte list \<Rightarrow> request_result option" where
  "request_ref_fqdn [] = None"
| "request_ref_fqdn (n # bs) =
     (if n = 0 then Some (SOCKS_REQUEST_REJECT, None, bs)
      else request_ref_addr SOCKS_REQUEST_PARSED_FQDN Dest_fqdn (unat n) bs)"

fun request_ref_atyp :: "byte list \<Rightarrow> request_result option" where
  "request_ref_atyp [] = None"
| "request_ref_atyp (t # bs) =
     (if t = SOCKS_ATYP_IPV4 then request_ref_addr SOCKS_REQUEST_PARSED_ADDR Dest_ipv4 4 bs
      else if t = SOCKS_ATYP_IPV6 then request_ref_addr SOCKS_REQUEST_PARSED_ADDR Dest_ipv6 16 bs
      else if t = SOCKS_ATYP_FQDN then request_ref_fqdn bs
      else Some (SOCKS_REQUEST_REJECT_ATYP, None, bs))"

fun request_ref_rsv :: "byte list \<Rightarrow> request_result option" where
  "request_ref_rsv [] = None"
| "request_ref_rsv (r # bs) =
     (if r \<noteq> 0 then Some (SOCKS_REQUEST_REJECT, None, bs) else request_ref_atyp bs)"

fun request_ref_cmd :: "byte list \<Rightarrow> request_result option" where
  "request_ref_cmd [] = None"
| "request_ref_cmd (c # bs) =
     (if c \<noteq> SOCKS_CMD_CONNECT then Some (SOCKS_REQUEST_REJECT_CMD, None, bs) else request_ref_rsv bs)"

fun request_ref :: "byte list \<Rightarrow> request_result option" where
  "request_ref [] = None"
| "request_ref (v # bs) =
     (if v \<noteq> SOCKS_VERSION then Some (SOCKS_REQUEST_REJECT, None, bs) else request_ref_cmd bs)"

text \<open>The destination \<^verbatim>\<open>socks.c\<close> reads off a parser that has answered \<open>PARSED_*\<close>.\<close>

definition request_dest :: "socks_request_status \<Rightarrow> socks_request_parser \<Rightarrow> destination option" where
  "request_dest st p =
     (if st = SOCKS_REQUEST_PARSED_FQDN
      then Some (Dest_fqdn (take (unat (fqdn_len p)) (fqdn p)) (unat (r_dest_port p)))
      else if st = SOCKS_REQUEST_PARSED_ADDR
      then Some (if ss_family (r_dest_addr p) = AF_INET
                 then Dest_ipv4 (ss_addr4 (r_dest_addr p)) (unat (ss_port (r_dest_addr p)))
                 else Dest_ipv6 (ss_addr6 (r_dest_addr p)) (unat (ss_port (r_dest_addr p))))
      else None)"

definition request_outcome ::
  "(socks_request_status option \<times> socks_request_parser \<times> byte list) run \<Rightarrow> request_result option run" where
  "request_outcome r =
     run_bind r (\<lambda>(st, p, rest). Inr (map_option (\<lambda>s. (s, request_dest s p, rest)) st))"

lemma port_bytes: "unat (push_bit 8 (ucast (hi :: byte)) OR ucast (lo :: byte) :: u16) = 256 * unat hi + unat lo"
proof -
  have lo: "unat lo < 256" and hi: "unat hi < 256" by (simp_all add: unat_byte_less)
  have "push_bit 8 (ucast hi) OR ucast lo = (push_bit 8 (ucast hi) + ucast lo :: u16)"
    by (intro disjunctive_add_eq_or [symmetric] bit_word_eqI)
       (auto simp: bit_simps dest: bit_imp_le_length)
  also have "\<dots> = of_nat (256 * unat hi + unat lo)"
    by (simp add: push_bit_eq_mult)
  finally show ?thesis
    using lo hi by (simp only: unsigned_of_nat) (simp add: take_bit_nat_eq_self)
qed

lemma consume_port:
  assumes "r_state p = REQ_PORT_HI" and "r_atyp p = SOCKS_ATYP_FQDN"
  shows "request_outcome (consume socks_request_parser_feed request_more p bs) =
     Inr (request_ref_port SOCKS_REQUEST_PARSED_FQDN (Dest_fqdn (take (unat (fqdn_len p)) (fqdn p))) bs)"
  using assms
  by (cases bs; cases "tl bs")
     (auto simp: socks_request_parser_feed_def request_outcome_def request_dest_def port_bytes Let_def)

lemma consume_port_addr:
  assumes "r_state p = REQ_PORT_HI" and "r_atyp p \<noteq> SOCKS_ATYP_FQDN"
    and "ss_family (r_dest_addr p) = AF_INET \<or> ss_family (r_dest_addr p) = AF_INET6"
  shows "request_outcome (consume socks_request_parser_feed request_more p bs) =
     Inr (request_ref_port SOCKS_REQUEST_PARSED_ADDR
            (if ss_family (r_dest_addr p) = AF_INET then Dest_ipv4 (ss_addr4 (r_dest_addr p))
             else Dest_ipv6 (ss_addr6 (r_dest_addr p))) bs)"
  using assms
  by (cases bs; cases "tl bs")
     (auto simp: socks_request_parser_feed_def request_outcome_def request_dest_def port_bytes Let_def)

lemma of_nat_byte_neq:
  "0 < k \<Longrightarrow> k < 255 \<Longrightarrow> (of_nat (Suc k) :: byte) \<noteq> 0 \<and> (of_nat (Suc k) :: byte) \<noteq> 1"
  using of_nat_byte_eq_0 [of "Suc k"] of_nat_byte_eq_0 [of k] by auto

lemma of_nat_byte_le: "k \<le> unat l \<Longrightarrow> (of_nat k :: byte) \<le> l"
  using unat_byte_less [of l] by (simp add: word_le_nat_alt unat_of_nat_byte)

lemma write_at_all: "length ys = length xs \<Longrightarrow> write_at 0 ys xs = ys"
  by (simp add: write_at_def)

lemma consume_ipv4:
  assumes st: "r_state p = REQ_ADDR_IPV4" "addr_remaining p = 4" and "request_arrays p"
  shows "consume socks_request_parser_feed request_more p bs =
     (if length bs < 4
      then Inr (None, p\<lparr>addr_remaining := of_nat (4 - length bs), r_dest_addr :=
                  (r_dest_addr p)\<lparr>ss_addr4 := write_at 0 bs (ss_addr4 (r_dest_addr p))\<rparr>\<rparr>, [])
      else consume socks_request_parser_feed request_more
             (p\<lparr>addr_remaining := 0, r_state := REQ_PORT_HI, r_dest_addr :=
                  (r_dest_addr p)\<lparr>ss_addr4 := take 4 bs\<rparr>\<rparr>) (drop 4 bs))"
proof -
  define ph where "ph = (\<lambda>k a. p\<lparr>addr_remaining := of_nat k, r_dest_addr := (r_dest_addr p)\<lparr>ss_addr4 := a\<rparr>\<rparr>)"
  define fin where "fin = (\<lambda>a. p\<lparr>addr_remaining := 0, r_state := REQ_PORT_HI,
     r_dest_addr := (r_dest_addr p)\<lparr>ss_addr4 := a\<rparr>\<rparr>)"
  let ?a = "ss_addr4 (r_dest_addr p)"
  have "consume socks_request_parser_feed request_more (ph 4 ?a) bs =
     (if length bs < 4 then Inr (None, ph (4 - length bs) (write_at (4 - 4) bs ?a), [])
      else let q = fin (write_at (4 - 4) (take 4 bs) ?a)
           in if request_more SOCKS_REQUEST_NEED_MORE
              then consume socks_request_parser_feed request_more q (drop 4 bs)
              else Inr (Some SOCKS_REQUEST_NEED_MORE, q, drop 4 bs))"
  proof (rule fill_phase [where more = SOCKS_REQUEST_NEED_MORE and len = 4])
    fix k :: nat and a :: "byte list" and b :: byte
    assume k: "0 < k" "k < 4" and a: "length a = 4"
    then show "socks_request_parser_feed (ph (Suc k) a) b =
        Inr (SOCKS_REQUEST_NEED_MORE, ph k (a[4 - Suc k := b]))"
      using of_nat_byte_le [of "Suc k" 4] of_nat_byte_neq [of k] unat_of_nat_byte [of "Suc k"] st
      by (simp add: socks_request_parser_feed_def ph_def arr_set_addr4 word_gt_0 Let_def
          of_nat_byte_pred del: of_nat_Suc) (simp add: of_nat_byte_pred)
  next
    fix a :: "byte list" and b :: byte
    assume a: "length a = 4"
    then show "socks_request_parser_feed (ph 1 a) b = Inr (SOCKS_REQUEST_NEED_MORE, fin (a[4 - 1 := b]))"
      using st arr_set_addr4 [of 1 a b, simplified]
      by (simp add: socks_request_parser_feed_def ph_def fin_def Let_def)
  qed (use assms(3) in \<open>auto simp: request_arrays_def\<close>)
  moreover have "ph 4 ?a = p" using st by (simp add: ph_def)
  ultimately show ?thesis
    using assms(3) by (simp add: ph_def fin_def Let_def write_at_all request_arrays_def)
qed

lemma consume_ipv6:
  assumes st: "r_state p = REQ_ADDR_IPV6" "addr_remaining p = 16" and "request_arrays p"
  shows "consume socks_request_parser_feed request_more p bs =
     (if length bs < 16
      then Inr (None, p\<lparr>addr_remaining := of_nat (16 - length bs), r_dest_addr :=
                  (r_dest_addr p)\<lparr>ss_addr6 := write_at 0 bs (ss_addr6 (r_dest_addr p))\<rparr>\<rparr>, [])
      else consume socks_request_parser_feed request_more
             (p\<lparr>addr_remaining := 0, r_state := REQ_PORT_HI, r_dest_addr :=
                  (r_dest_addr p)\<lparr>ss_addr6 := take 16 bs\<rparr>\<rparr>) (drop 16 bs))"
proof -
  define ph where "ph = (\<lambda>k a. p\<lparr>addr_remaining := of_nat k, r_dest_addr := (r_dest_addr p)\<lparr>ss_addr6 := a\<rparr>\<rparr>)"
  define fin where "fin = (\<lambda>a. p\<lparr>addr_remaining := 0, r_state := REQ_PORT_HI,
     r_dest_addr := (r_dest_addr p)\<lparr>ss_addr6 := a\<rparr>\<rparr>)"
  let ?a = "ss_addr6 (r_dest_addr p)"
  have "consume socks_request_parser_feed request_more (ph 16 ?a) bs =
     (if length bs < 16 then Inr (None, ph (16 - length bs) (write_at (16 - 16) bs ?a), [])
      else let q = fin (write_at (16 - 16) (take 16 bs) ?a)
           in if request_more SOCKS_REQUEST_NEED_MORE
              then consume socks_request_parser_feed request_more q (drop 16 bs)
              else Inr (Some SOCKS_REQUEST_NEED_MORE, q, drop 16 bs))"
  proof (rule fill_phase [where more = SOCKS_REQUEST_NEED_MORE and len = 16])
    fix k :: nat and a :: "byte list" and b :: byte
    assume k: "0 < k" "k < 16" and a: "length a = 16"
    then show "socks_request_parser_feed (ph (Suc k) a) b =
        Inr (SOCKS_REQUEST_NEED_MORE, ph k (a[16 - Suc k := b]))"
      using of_nat_byte_le [of "Suc k" 16] of_nat_byte_neq [of k] unat_of_nat_byte [of "Suc k"] st
      by (simp add: socks_request_parser_feed_def ph_def arr_set_addr6 word_gt_0 Let_def
          of_nat_byte_pred del: of_nat_Suc) (simp add: of_nat_byte_pred)
  next
    fix a :: "byte list" and b :: byte
    assume a: "length a = 16"
    then show "socks_request_parser_feed (ph 1 a) b = Inr (SOCKS_REQUEST_NEED_MORE, fin (a[16 - 1 := b]))"
      using st arr_set_addr6 [of 1 a b, simplified]
      by (simp add: socks_request_parser_feed_def ph_def fin_def Let_def)
  qed (use assms(3) in \<open>auto simp: request_arrays_def\<close>)
  moreover have "ph 16 ?a = p" using st by (simp add: ph_def)
  ultimately show ?thesis
    using assms(3) by (simp add: ph_def fin_def Let_def write_at_all request_arrays_def)
qed

lemma consume_fqdn:
  assumes st: "r_state p = REQ_FQDN" "fqdn_remaining p = fqdn_len p" "fqdn_len p \<noteq> 0"
    and "request_arrays p"
  shows "consume socks_request_parser_feed request_more p bs =
     (let n = unat (fqdn_len p)
      in if length bs < n
         then Inr (None, p\<lparr>fqdn_remaining := of_nat (n - length bs), fqdn := write_at 0 bs (fqdn p)\<rparr>, [])
         else consume socks_request_parser_feed request_more
                (p\<lparr>fqdn_remaining := 0, r_state := REQ_PORT_HI,
                   fqdn := (write_at 0 (take n bs) (fqdn p))[n := 0]\<rparr>) (drop n bs))"
proof -
  define n where "n = unat (fqdn_len p)"
  define ph where "ph = (\<lambda>k a. p\<lparr>fqdn_remaining := of_nat k, fqdn := a\<rparr>)"
  define fin where "fin = (\<lambda>a. p\<lparr>fqdn_remaining := 0, r_state := REQ_PORT_HI, fqdn := a[n := 0]\<rparr>)"
  have n: "0 < n" "n < 256" "n < Suc SOCKS_REQUEST_FQDN_MAX"
    using st(3) unat_byte_less [of "fqdn_len p"] by (simp_all add: n_def unat_gt_0 fqdn_index)
  have "consume socks_request_parser_feed request_more (ph n (fqdn p)) bs =
     (if length bs < n then Inr (None, ph (n - length bs) (write_at (n - n) bs (fqdn p)), [])
      else let q = fin (write_at (n - n) (take n bs) (fqdn p))
           in if request_more SOCKS_REQUEST_NEED_MORE
              then consume socks_request_parser_feed request_more q (drop n bs)
              else Inr (Some SOCKS_REQUEST_NEED_MORE, q, drop n bs))"
  proof (rule fill_phase [where more = SOCKS_REQUEST_NEED_MORE and len = "Suc SOCKS_REQUEST_FQDN_MAX"])
    fix k :: nat and a :: "byte list" and b :: byte
    assume k: "0 < k" "k < n" and a: "length a = Suc SOCKS_REQUEST_FQDN_MAX"
    then show "socks_request_parser_feed (ph (Suc k) a) b =
        Inr (SOCKS_REQUEST_NEED_MORE, ph k (a[n - Suc k := b]))"
      using of_nat_byte_le [of "Suc k" "fqdn_len p"] of_nat_byte_neq [of k] unat_of_nat_byte [of "Suc k"] st n
      by (simp add: socks_request_parser_feed_def ph_def arr_set_down fqdn_index word_gt_0 Let_def n_def
          of_nat_byte_pred del: of_nat_Suc) (simp add: of_nat_byte_pred)
  next
    fix a :: "byte list" and b :: byte
    assume a: "length a = Suc SOCKS_REQUEST_FQDN_MAX"
    then show "socks_request_parser_feed (ph 1 a) b = Inr (SOCKS_REQUEST_NEED_MORE, fin (a[n - 1 := b]))"
      using st n of_nat_byte_le [of 1 "fqdn_len p"] arr_set_down [of 1 "fqdn_len p" a b, simplified]
      by (simp add: socks_request_parser_feed_def ph_def fin_def arr_set_uint fqdn_index n_def Let_def)
  qed (use n assms(4) in \<open>auto simp: request_arrays_def\<close>)
  moreover have "ph n (fqdn p) = p" using st by (simp add: ph_def n_def)
  ultimately show ?thesis by (simp add: ph_def fin_def n_def Let_def)
qed

lemma request_outcome_pending [simp]: "request_outcome (Inr (None, p, rest)) = Inr None"
  by (simp add: request_outcome_def)

lemma request_outcome_reject [simp]:
  "st \<notin> {SOCKS_REQUEST_PARSED_ADDR, SOCKS_REQUEST_PARSED_FQDN} \<Longrightarrow>
    request_outcome (Inr (Some st, p, rest)) = Inr (Some (st, None, rest))"
  by (auto simp: request_outcome_def request_dest_def)

lemma equiv_ipv4:
  assumes "r_state p = REQ_ADDR_IPV4" "addr_remaining p = 4" "request_arrays p"
    and "r_atyp p = SOCKS_ATYP_IPV4" "ss_family (r_dest_addr p) = AF_INET"
  shows "request_outcome (consume socks_request_parser_feed request_more p bs) =
     Inr (request_ref_addr SOCKS_REQUEST_PARSED_ADDR Dest_ipv4 4 bs)"
  using assms by (simp add: consume_ipv4 request_ref_addr_def consume_port_addr)

lemma equiv_ipv6:
  assumes "r_state p = REQ_ADDR_IPV6" "addr_remaining p = 16" "request_arrays p"
    and "r_atyp p = SOCKS_ATYP_IPV6" "ss_family (r_dest_addr p) = AF_INET6"
  shows "request_outcome (consume socks_request_parser_feed request_more p bs) =
     Inr (request_ref_addr SOCKS_REQUEST_PARSED_ADDR Dest_ipv6 16 bs)"
  using assms by (simp add: consume_ipv6 request_ref_addr_def consume_port_addr)

lemma equiv_fqdn:
  assumes "r_state p = REQ_FQDN_LEN" "request_arrays p" "r_atyp p = SOCKS_ATYP_FQDN"
  shows "request_outcome (consume socks_request_parser_feed request_more p bs) = Inr (request_ref_fqdn bs)"
proof (cases bs)
  case (Cons n cs)
  show ?thesis
  proof (cases "n = 0")
    case False
    define q where "q = p\<lparr>fqdn_len := n, fqdn_remaining := n, r_state := REQ_FQDN\<rparr>"
    have q: "consume socks_request_parser_feed request_more p bs =
        consume socks_request_parser_feed request_more q cs"
      using assms False Cons by (simp add: socks_request_parser_feed_def q_def)
    have c: "request_arrays q" using assms(2) by (simp add: q_def request_arrays_def)
    have fits: "unat n < length (fqdn p)" "length (fqdn p) = Suc SOCKS_REQUEST_FQDN_MAX"
      using assms(2) fqdn_index [of n] by (simp_all add: request_arrays_def)
    have tk: "take (unat n) ((write_at 0 (take (unat n) cs) (fqdn p))[unat n := 0]) = take (unat n) cs"
      if "\<not> length cs < unat n"
      using that fits take_write_at [of "take (unat n) cs" "fqdn p"] by (simp add: min_absorb2)
    show ?thesis
      unfolding q
      using c assms(3) False tk Cons
      by (simp add: consume_fqdn q_def Let_def consume_port request_ref_addr_def)
  qed (use assms Cons in \<open>simp add: socks_request_parser_feed_def\<close>)
qed simp

lemma equiv_atyp:
  assumes "r_state p = REQ_ATYP" "request_arrays p"
  shows "request_outcome (consume socks_request_parser_feed request_more p bs) = Inr (request_ref_atyp bs)"
proof (cases bs)
  case (Cons t cs)
  show ?thesis
    using assms Cons
    by (simp add: socks_request_parser_feed_def Let_def equiv_ipv4 equiv_ipv6 equiv_fqdn request_arrays_def)
qed simp

lemma request_equiv:
  assumes "request_arrays p"
  shows "request_outcome (consume socks_request_parser_feed request_more (socks_request_parser_init p) bs)
       = Inr (request_ref bs)"
proof -
  have rsv: "request_outcome (consume socks_request_parser_feed request_more q cs) = Inr (request_ref_rsv cs)"
    if "r_state q = REQ_RSV" "request_arrays q" for q cs
    using that by (cases cs) (simp_all add: socks_request_parser_feed_def equiv_atyp request_arrays_def)
  have cmd: "request_outcome (consume socks_request_parser_feed request_more q cs) = Inr (request_ref_cmd cs)"
    if "r_state q = REQ_CMD" "request_arrays q" for q cs
    using that by (cases cs) (simp_all add: socks_request_parser_feed_def rsv request_arrays_def)
  have "r_state (socks_request_parser_init p) = REQ_VER" "request_arrays (socks_request_parser_init p)"
    using assms by (simp_all add: socks_request_parser_init_def request_arrays_def)
  then show ?thesis
    by (cases bs) (simp_all add: socks_request_parser_feed_def cmd request_arrays_def)
qed

lemma request_zeroed_arrays: "request_arrays request_zeroed"
  by (simp add: request_arrays_def request_zeroed_def)

lemma request_init_inv: "request_arrays p \<Longrightarrow> request_inv (socks_request_parser_init p)"
  by (simp add: request_inv_def request_arrays_def socks_request_parser_init_def)

end
