(* ===== verification/Store_Base.thy ===== *)
theory Store_Base
  imports C_Prelude "HOL-Library.AList"
begin

text \<open>
  The state shared by the SOCKS proxy and the monitoring port,
  \<^verbatim>\<open>src/server/monitor/store.c\<close>: users, metrics, the circular access log, the runtime
  configuration, the ACL rules and the table of active sessions. This theory has the types,
  \<open>struct monitor_store\<close>, its creation and the labels of the enumerations; the operations are in
  \<open>Store_Users\<close>, \<open>Store_Log\<close>, \<open>Store_Sessions\<close> and \<open>Store_Acl\<close>. Character arrays that the code
  always terminates are the \<open>string\<close> they hold; ids and counters keep their width; the access log
  lines that \<open>store_log_print\<close> sends to \<open>stdout\<close> are collected in \<open>ms_stdout\<close>. The allocated array
  \<open>sessions\<close> and its length \<open>sessions_slots\<close> are one list, \<open>ms_sessions\<close>; the ACL rules live in a
  heap \<open>ms_rules\<close> that the four list pointers of the struct point into. Struct pointers are
  not \<open>NULL\<close>; a nullable string argument is an option.
\<close>

section \<open>Constants and enumerations\<close>

definition STORE_MAX_USERS :: nat where "STORE_MAX_USERS = 256"
definition STORE_MAX_USERNAME :: nat where "STORE_MAX_USERNAME = 64"
definition STORE_MAX_PASSWORD :: nat where "STORE_MAX_PASSWORD = 255"
definition STORE_LOG_CAPACITY :: nat where "STORE_LOG_CAPACITY = 4096"
definition STORE_MAX_DEST_HOST :: nat where "STORE_MAX_DEST_HOST = 255"
definition STORE_SESSIONS_CAP_MIN :: u32 where "STORE_SESSIONS_CAP_MIN = 1"
definition STORE_SESSIONS_CAP_MAX :: u32 where "STORE_SESSIONS_CAP_MAX = 16384"
definition STORE_SESSIONS_CAP_DEFAULT :: u32 where "STORE_SESSIONS_CAP_DEFAULT = 1024"

datatype store_role = STORE_ROLE_USER | STORE_ROLE_ADMIN

datatype store_auth_result = STORE_AUTH_OK | STORE_AUTH_INVALID | STORE_AUTH_NOT_ADMIN

datatype store_user_result =
    STORE_USER_OK
  | STORE_USER_EXISTS
  | STORE_USER_NOT_FOUND
  | STORE_USER_TABLE_FULL
  | STORE_USER_LAST_ADMIN

datatype store_config_key = STORE_CFG_TIMEOUT | STORE_CFG_SESSIONS_CAP | STORE_CFG_IO_BUFFER_SIZE

datatype store_config_result = STORE_CFG_OK | STORE_CFG_UNKNOWN_KEY | STORE_CFG_INVALID_VALUE

datatype store_log_state =
  STORE_LOG_CONNECTED | STORE_LOG_CLOSED | STORE_LOG_FAILED | STORE_LOG_TTL_EXPIRED

datatype store_session_phase =
  STORE_SESSION_AUTH | STORE_SESSION_CONNECTING | STORE_SESSION_RELAY | STORE_SESSION_DONE

datatype acl_rule_type = ACL_DENIED_HOST | ACL_DENIED_ADDRESS

type_synonym store_session_id = u32
type_synonym store_log_id = u32

abbreviation (input) STORE_SESSION_INVALID :: store_session_id where "STORE_SESSION_INVALID \<equiv> 0"
abbreviation (input) STORE_LOG_INVALID :: store_log_id where "STORE_LOG_INVALID \<equiv> 0"

definition store_log_state_str :: "store_log_state \<Rightarrow> string" where
  "store_log_state_str state = (case state of
      STORE_LOG_CONNECTED \<Rightarrow> ''CONNECTED''
    | STORE_LOG_CLOSED \<Rightarrow> ''CLOSED''
    | STORE_LOG_FAILED \<Rightarrow> ''FAILED''
    | STORE_LOG_TTL_EXPIRED \<Rightarrow> ''TTL_EXPIRED'')"

definition store_session_phase_str :: "store_session_phase \<Rightarrow> string" where
  "store_session_phase_str phase = (case phase of
      STORE_SESSION_AUTH \<Rightarrow> ''AUTH''
    | STORE_SESSION_CONNECTING \<Rightarrow> ''CONNECTING''
    | STORE_SESSION_RELAY \<Rightarrow> ''RELAY''
    | STORE_SESSION_DONE \<Rightarrow> ''DONE'')"

section \<open>Structures\<close>

record store_user =
  u_used :: bool
  u_username :: string
  u_password :: string
  u_role :: store_role

record store_metrics =
  total_connections :: u64
  concurrent_connections :: u64
  m_bytes_up :: u64
  m_bytes_down :: u64

record store_log_entry =
  l_id :: store_log_id
  l_username :: string
  l_host :: string
  l_port :: u16
  l_timestamp :: string
  l_state :: store_log_state
  l_bytes_up :: u64
  l_bytes_down :: u64

record store_active_session =
  s_id :: store_session_id
  s_username :: string
  s_host :: string
  s_port :: u16
  s_phase :: store_session_phase
  s_bytes_up :: u64
  s_bytes_down :: u64

record store_session_node =
  n_active :: bool
  n_info :: store_active_session
  n_log_id :: store_log_id

text \<open>
  The anonymous union of \<open>acl_rule\<close>: the host array, or the address with its family. The \<open>next\<close>
  pointer is the address of another rule in the heap of rules.
\<close>

datatype acl_target =
    Acl_host string
  | Acl_ipv4 "byte list"
  | Acl_ipv6 "byte list"

record acl_rule =
  r_type :: acl_rule_type
  r_target :: acl_target
  r_next :: "nat option"

record monitor_store =
  ms_users :: "store_user list"
  ms_user_count :: nat
  ms_metrics :: store_metrics
  ms_log :: "store_log_entry list"
  ms_log_count :: nat
  ms_log_head :: nat
  ms_next_log_id :: store_log_id
  ms_timeout :: u32
  ms_sessions_cap :: u32
  ms_io_buffer_size :: u32
  ms_denied_hosts :: "nat option"
  ms_last_denied_host :: "nat option"
  ms_denied_addresses :: "nat option"
  ms_last_denied_addr :: "nat option"
  ms_sessions :: "store_session_node list"
  ms_next_session_id :: store_session_id
  ms_rules :: "(nat \<times> acl_rule) list"
  ms_stdout :: string

section \<open>Creation\<close>

text \<open>What \<open>calloc\<close> leaves in each structure.\<close>

definition zero_user :: store_user where
  "zero_user = \<lparr>u_used = False, u_username = [], u_password = [], u_role = STORE_ROLE_USER\<rparr>"

definition zero_log_entry :: store_log_entry where
  "zero_log_entry = \<lparr>l_id = 0, l_username = [], l_host = [], l_port = 0, l_timestamp = [],
     l_state = STORE_LOG_CONNECTED, l_bytes_up = 0, l_bytes_down = 0\<rparr>"

definition zero_session :: store_active_session where
  "zero_session = \<lparr>s_id = 0, s_username = [], s_host = [], s_port = 0, s_phase = STORE_SESSION_AUTH,
     s_bytes_up = 0, s_bytes_down = 0\<rparr>"

definition zero_node :: store_session_node where
  "zero_node = \<lparr>n_active = False, n_info = zero_session, n_log_id = 0\<rparr>"

definition zero_store :: monitor_store where
  "zero_store = \<lparr>ms_users = replicate STORE_MAX_USERS zero_user, ms_user_count = 0,
     ms_metrics = \<lparr>total_connections = 0, concurrent_connections = 0, m_bytes_up = 0, m_bytes_down = 0\<rparr>,
     ms_log = replicate STORE_LOG_CAPACITY zero_log_entry, ms_log_count = 0, ms_log_head = 0,
     ms_next_log_id = 0, ms_timeout = 0, ms_sessions_cap = 0, ms_io_buffer_size = 0,
     ms_denied_hosts = None, ms_last_denied_host = None,
     ms_denied_addresses = None, ms_last_denied_addr = None,
     ms_sessions = [], ms_next_session_id = 0, ms_rules = [], ms_stdout = []\<rparr>"

text \<open>The two flags are the success of the two \<open>calloc\<close> calls.\<close>

definition store_create :: "bool \<Rightarrow> bool \<Rightarrow> monitor_store option" where
  "store_create mem_store mem_sessions =
     (if \<not> mem_store then None
      else let store = zero_store\<lparr>ms_timeout := 0, ms_sessions_cap := STORE_SESSIONS_CAP_DEFAULT,
                 ms_io_buffer_size := 4096, ms_next_log_id := 1, ms_next_session_id := 1\<rparr>;
               slots = unat (ms_sessions_cap store)
           in if \<not> mem_sessions then None
              else Some (store\<lparr>ms_sessions := replicate slots zero_node\<rparr>))"

end
