(* ===== verification/Slot_Table.thy ===== *)
theory Slot_Table
  imports C_Prelude
begin

text \<open>
  Tables of the program are arrays of slots with an in-use flag and a key, searched from index 0
  (the user table and the session table of \<^verbatim>\<open>store.c\<close>). This theory has the facts on such
  arrays the tables share: with distinct keys the search finds the slot of a key, and writing one
  slot changes the table as a map at the keys of that slot only.
\<close>

definition slot_key :: "('a \<Rightarrow> bool) \<Rightarrow> ('a \<Rightarrow> 'k) \<Rightarrow> 'k \<Rightarrow> 'a \<Rightarrow> bool" where
  "slot_key live key k x \<longleftrightarrow> live x \<and> key x = k"

definition slot_find :: "('a \<Rightarrow> bool) \<Rightarrow> ('a \<Rightarrow> 'k) \<Rightarrow> 'a list \<Rightarrow> 'k \<Rightarrow> 'a option" where
  "slot_find live key xs k = map_option (nth xs) (first_idx (slot_key live key k) xs)"

definition slot_distinct :: "('a \<Rightarrow> bool) \<Rightarrow> ('a \<Rightarrow> 'k) \<Rightarrow> 'a list \<Rightarrow> bool" where
  "slot_distinct live key xs \<longleftrightarrow> distinct (map key (filter live xs))"

lemma slot_distinct_nth:
  "slot_distinct live key xs \<longleftrightarrow>
     (\<forall>i < length xs. \<forall>j < length xs. live (xs ! i) \<longrightarrow> live (xs ! j) \<longrightarrow>
        key (xs ! i) = key (xs ! j) \<longrightarrow> i = j)"
proof (induction xs)
  case (Cons x xs)
  then show ?case
    by (auto simp: slot_distinct_def All_less_Suc2 in_set_conv_nth image_iff)
qed (simp add: slot_distinct_def)

lemma slot_unique:
  assumes "slot_distinct live key xs" and "i < length xs" and "slot_key live key k (xs ! i)"
  shows "first_idx (slot_key live key k) xs = Some i"
  using assms
  by (intro first_idx_SomeI) (auto simp: slot_key_def slot_distinct_nth, metis less_irrefl less_trans)

lemma slot_find_eq:
  assumes "slot_distinct live key xs" and "i < length xs" and "slot_key live key k (xs ! i)"
  shows "slot_find live key xs k = Some (xs ! i)"
  using slot_unique [OF assms] by (simp add: slot_find_def)

lemma slot_find_Some:
  assumes "slot_distinct live key xs"
  shows "slot_find live key xs k = Some x \<longleftrightarrow> x \<in> set xs \<and> slot_key live key k x"
  using first_idx_SomeD [of "slot_key live key k" xs] slot_find_eq [OF assms]
  by (auto simp: slot_find_def in_set_conv_nth)

lemma slot_find_None: "slot_find live key xs k = None \<longleftrightarrow> (\<forall>x \<in> set xs. \<not> slot_key live key k x)"
  by (simp add: slot_find_def)

lemma slot_find_idx:
  assumes "slot_find live key xs k = Some x"
  obtains i where "first_idx (slot_key live key k) xs = Some i" "i < length xs"
    "slot_key live key k x" "xs ! i = x"
  using assms first_idx_less first_idx_holds by (fastforce simp: slot_find_def)

lemma slot_distinct_update:
  assumes "slot_distinct live key xs" and "i < length xs"
    and "live x \<Longrightarrow> \<forall>j < length xs. j \<noteq> i \<longrightarrow> \<not> slot_key live key (key x) (xs ! j)"
  shows "slot_distinct live key (xs[i := x])"
  using assms unfolding slot_distinct_nth slot_key_def by (auto simp: nth_list_update)

lemma slot_distinct_same:
  assumes "slot_distinct live key xs" and "i < length xs" and "live x \<Longrightarrow> live (xs ! i) \<and> key x = key (xs ! i)"
  shows "slot_distinct live key (xs[i := x])"
  using assms unfolding slot_distinct_nth by (auto simp: nth_list_update)

lemma slot_find_update:
  assumes "slot_distinct live key xs" and "slot_distinct live key (xs[i := x])" and i: "i < length xs"
  shows "slot_find live key (xs[i := x]) k =
    (if slot_key live key k x then Some x
     else if slot_key live key k (xs ! i) then None else slot_find live key xs k)"
proof -
  let ?p = "slot_key live key k"
  consider (new) "?p x" | (old) "\<not> ?p x" "?p (xs ! i)" | (other) "\<not> ?p x" "\<not> ?p (xs ! i)" by blast
  then show ?thesis
  proof cases
    case new
    then show ?thesis using slot_find_eq [OF assms(2), of i k] i by simp
  next
    case old
    then have "\<not> ?p (xs[i := x] ! j)" if "j < length xs" for j
      using that assms(1) i by (cases "j = i") (auto simp: slot_key_def slot_distinct_nth)
    then have "slot_find live key (xs[i := x]) k = None"
      by (auto simp: slot_find_None in_set_conv_nth)
    then show ?thesis using old by simp
  next
    case other
    then have f: "first_idx ?p (xs[i := x]) = first_idx ?p xs"
      by (intro first_idx_update) simp
    have "xs[i := x] ! j = xs ! j" if "first_idx ?p xs = Some j" for j
      using first_idx_holds [OF that] other by (cases "j = i") auto
    then show ?thesis using f other by (auto simp: slot_find_def intro: option.map_cong0)
  qed
qed

lemma slot_distinct_append_dead:
  "\<not> live x \<Longrightarrow> slot_distinct live key (xs @ replicate n x) = slot_distinct live key xs"
  by (simp add: slot_distinct_def)

lemma first_idx_append:
  "first_idx p (xs @ ys) =
    (case first_idx p xs of Some i \<Rightarrow> Some i | None \<Rightarrow> map_option (\<lambda>i. length xs + i) (first_idx p ys))"
  by (cases "first_idx p ys"; induction xs) (auto split: option.splits simp del: first_idx_None)

lemma slot_find_append_dead:
  assumes "\<not> live x"
  shows "slot_find live key (xs @ replicate n x) k = slot_find live key xs k"
proof (cases "first_idx (slot_key live key k) xs")
  case (Some i)
  then show ?thesis
    using first_idx_less [OF Some] by (simp add: slot_find_def first_idx_append nth_append)
next
  case None
  then have "slot_find live key xs k = None" "slot_find live key (xs @ replicate n x) k = None"
    using assms by (auto simp: slot_find_None slot_key_def)
  then show ?thesis by simp
qed

end
