(* ===== verification/Store_Users.thy ===== *)
theory Store_Users
  imports Store_Base Slot_Table
begin

text \<open>
  The user table of \<^verbatim>\<open>store.c\<close>: 256 slots searched front to back. The table is related to the
  finite map from user names to password and role that its operations maintain
  (\<open>users_map\<close>); \<open>user_table\<close> states that contract and what follows from it for any sequence of
  operations, and the table of the store is an instance of it.
\<close>

section \<open>Operations\<close>

definition named_user :: "string \<Rightarrow> store_user \<Rightarrow> bool" where
  "named_user name u \<longleftrightarrow> u_used u \<and> u_username u = name"

definition is_admin_user :: "store_user \<Rightarrow> bool" where
  "is_admin_user u \<longleftrightarrow> u_used u \<and> u_role u = STORE_ROLE_ADMIN"

definition store_user_validate :: "monitor_store \<Rightarrow> string option \<Rightarrow> string option \<Rightarrow> bool" where
  "store_user_validate store username password =
     (case (username, password) of
        (Some name, Some pass) \<Rightarrow>
          list_ex (\<lambda>user. u_used user \<and> u_username user = name \<and> u_password user = pass) (ms_users store)
      | _ \<Rightarrow> False)"

definition store_admin_authenticate ::
  "monitor_store \<Rightarrow> string option \<Rightarrow> string option \<Rightarrow> store_auth_result" where
  "store_admin_authenticate store username password =
     (case (username, password) of
        (Some name, Some pass) \<Rightarrow>
          (case first_idx (named_user name) (ms_users store) of
             None \<Rightarrow> STORE_AUTH_INVALID
           | Some i \<Rightarrow>
               (let user = ms_users store ! i
                in if u_password user \<noteq> pass then STORE_AUTH_INVALID
                   else if u_role user = STORE_ROLE_ADMIN then STORE_AUTH_OK else STORE_AUTH_NOT_ADMIN))
      | _ \<Rightarrow> STORE_AUTH_INVALID)"

definition role_of :: "bool \<Rightarrow> store_role" where
  "role_of is_admin = (if is_admin then STORE_ROLE_ADMIN else STORE_ROLE_USER)"

definition store_user_add ::
  "monitor_store \<Rightarrow> string option \<Rightarrow> string option \<Rightarrow> bool \<Rightarrow> store_user_result \<times> monitor_store" where
  "store_user_add store username password is_admin =
     (case (username, password) of
        (Some name, Some pass) \<Rightarrow>
          if list_ex (named_user name) (ms_users store) then (STORE_USER_EXISTS, store)
          else (case first_idx (\<lambda>u. \<not> u_used u) (ms_users store) of
                  None \<Rightarrow> (STORE_USER_TABLE_FULL, store)
                | Some i \<Rightarrow>
                    (STORE_USER_OK,
                     store\<lparr>ms_users := (ms_users store)[i :=
                              \<lparr>u_used = True, u_username = strncpy_term STORE_MAX_USERNAME name,
                               u_password = strncpy_term STORE_MAX_PASSWORD pass,
                               u_role = role_of is_admin\<rparr>],
                           ms_user_count := ms_user_count store + 1\<rparr>))
      | _ \<Rightarrow> (STORE_USER_NOT_FOUND, store))"

definition store_admin_count :: "monitor_store \<Rightarrow> nat" where
  "store_admin_count store = length (filter is_admin_user (ms_users store))"

definition store_user_delete :: "monitor_store \<Rightarrow> string option \<Rightarrow> store_user_result \<times> monitor_store" where
  "store_user_delete store username =
     (case username of
        None \<Rightarrow> (STORE_USER_NOT_FOUND, store)
      | Some name \<Rightarrow>
          (case first_idx (named_user name) (ms_users store) of
             None \<Rightarrow> (STORE_USER_NOT_FOUND, store)
           | Some i \<Rightarrow>
               (let user = ms_users store ! i
                in if u_role user = STORE_ROLE_ADMIN \<and> store_admin_count store \<le> 1
                   then (STORE_USER_LAST_ADMIN, store)
                   else (STORE_USER_OK,
                         store\<lparr>ms_users := (ms_users store)[i :=
                                  user\<lparr>u_used := False, u_username := [], u_password := []\<rparr>],
                               ms_user_count := ms_user_count store - 1\<rparr>))))"

definition store_user_set_password ::
  "monitor_store \<Rightarrow> string option \<Rightarrow> string option \<Rightarrow> store_user_result \<times> monitor_store" where
  "store_user_set_password store username new_password =
     (case (username, new_password) of
        (Some name, Some pass) \<Rightarrow>
          (case first_idx (named_user name) (ms_users store) of
             None \<Rightarrow> (STORE_USER_NOT_FOUND, store)
           | Some i \<Rightarrow>
               (STORE_USER_OK,
                store\<lparr>ms_users := (ms_users store)[i :=
                         (ms_users store ! i)\<lparr>u_password := strncpy_term STORE_MAX_PASSWORD pass\<rparr>]\<rparr>))
      | _ \<Rightarrow> (STORE_USER_NOT_FOUND, store))"

definition store_user_exists :: "monitor_store \<Rightarrow> string option \<Rightarrow> bool" where
  "store_user_exists store username =
     (case username of None \<Rightarrow> False | Some name \<Rightarrow> list_ex (named_user name) (ms_users store))"

text \<open>
  The iterators of \<^verbatim>\<open>store.c\<close> call \<open>fn\<close> on each element until it returns \<open>false\<close>; the context
  it writes through is the state \<open>c\<close>.
\<close>

fun foreach :: "('a \<Rightarrow> 'c \<Rightarrow> bool \<times> 'c) \<Rightarrow> 'a list \<Rightarrow> 'c \<Rightarrow> 'c" where
  "foreach fn [] c = c"
| "foreach fn (x # xs) c = (let (go, c') = fn x c in if go then foreach fn xs c' else c')"

definition store_users_foreach ::
  "monitor_store \<Rightarrow> (string \<times> store_role \<Rightarrow> 'c \<Rightarrow> bool \<times> 'c) \<Rightarrow> 'c \<Rightarrow> 'c" where
  "store_users_foreach store fn c =
     foreach fn (map (\<lambda>u. (u_username u, u_role u)) (filter u_used (ms_users store))) c"

section \<open>The table as a map\<close>

definition users_lookup :: "store_user list \<Rightarrow> string \<Rightarrow> (string \<times> store_role) option" where
  "users_lookup us name = map_option (\<lambda>u. (u_password u, u_role u)) (slot_find u_used u_username us name)"

definition users_map :: "monitor_store \<Rightarrow> string \<Rightarrow> (string \<times> store_role) option" where
  "users_map store = users_lookup (ms_users store)"

abbreviation users_distinct :: "store_user list \<Rightarrow> bool" where
  "users_distinct us \<equiv> slot_distinct u_used u_username us"

definition users_inv :: "monitor_store \<Rightarrow> bool" where
  "users_inv store \<longleftrightarrow>
     length (ms_users store) = STORE_MAX_USERS \<and>
     ms_user_count store = length (filter u_used (ms_users store)) \<and>
     users_distinct (ms_users store) \<and>
     (\<forall>u \<in> set (ms_users store). length (u_username u) \<le> STORE_MAX_USERNAME \<and>
        length (u_password u) \<le> STORE_MAX_PASSWORD)"

text \<open>A name that the 64 characters of the slot hold whole.\<close>

definition name_fits :: "string \<Rightarrow> bool" where
  "name_fits name \<longleftrightarrow> CHR 0x00 \<notin> set name \<and> length name \<le> STORE_MAX_USERNAME"

lemma name_fits_stored: "name_fits name \<Longrightarrow> strncpy_term STORE_MAX_USERNAME name = name"
  by (simp add: name_fits_def strncpy_term_fits)

lemma named_user_slot: "named_user name = slot_key u_used u_username name"
  by (simp add: fun_eq_iff named_user_def slot_key_def)

lemma users_lookup_idx: "users_lookup us name =
    map_option (\<lambda>i. (u_password (us ! i), u_role (us ! i))) (first_idx (named_user name) us)"
  by (simp add: users_lookup_def slot_find_def named_user_slot option.map_comp o_def)

lemma users_lookup_Some:
  assumes "users_distinct us"
  shows "users_lookup us name = Some (p, r) \<longleftrightarrow>
    (\<exists>u \<in> set us. named_user name u \<and> u_password u = p \<and> u_role u = r)"
  by (auto simp: users_lookup_def slot_find_Some [OF assms] named_user_slot)

lemma users_lookup_None: "users_lookup us name = None \<longleftrightarrow> (\<forall>u \<in> set us. \<not> named_user name u)"
  by (simp add: users_lookup_def slot_find_None named_user_slot)

lemma users_lookup_update:
  assumes "users_distinct us" and "users_distinct (us[i := u])" and "i < length us"
  shows "users_lookup (us[i := u]) name =
    (if named_user name u then Some (u_password u, u_role u)
     else if named_user name (us ! i) then None else users_lookup us name)"
  using slot_find_update [OF assms] by (simp add: users_lookup_def named_user_slot)

section \<open>Each operation on the map\<close>

lemma validate_map:
  assumes "users_inv store"
  shows "store_user_validate store (Some name) (Some pass) \<longleftrightarrow> (\<exists>r. users_map store name = Some (pass, r))"
  using assms
  by (auto simp: store_user_validate_def users_map_def users_inv_def users_lookup_Some list_ex_iff
      named_user_def)

lemma authenticate_map:
  "store_admin_authenticate store (Some name) (Some pass) =
     (case users_map store name of
        None \<Rightarrow> STORE_AUTH_INVALID
      | Some (p, r) \<Rightarrow> if p \<noteq> pass then STORE_AUTH_INVALID
                      else if r = STORE_ROLE_ADMIN then STORE_AUTH_OK else STORE_AUTH_NOT_ADMIN)"
  by (simp add: store_admin_authenticate_def users_map_def users_lookup_idx Let_def
      split: option.splits del: first_idx_None)

lemma exists_map: "store_user_exists store (Some name) \<longleftrightarrow> users_map store name \<noteq> None"
  by (simp add: store_user_exists_def users_map_def users_lookup_None list_ex_iff)

lemma add_exists:
  "users_map store name \<noteq> None \<Longrightarrow>
    store_user_add store (Some name) (Some pass) adm = (STORE_USER_EXISTS, store)"
  by (simp add: store_user_add_def users_map_def users_lookup_None list_ex_iff)

lemma add_full:
  assumes "users_inv store" "users_map store name = None" "ms_user_count store = STORE_MAX_USERS"
  shows "store_user_add store (Some name) (Some pass) adm = (STORE_USER_TABLE_FULL, store)"
proof -
  have "filter u_used (ms_users store) = ms_users store"
    using assms by (metis filter_id_conv length_filter_less less_irrefl users_inv_def)
  then have "first_idx (\<lambda>u. \<not> u_used u) (ms_users store) = None"
    by (simp add: filter_id_conv)
  moreover have "\<not> list_ex (named_user name) (ms_users store)"
    using assms(2) by (simp add: users_map_def users_lookup_None list_ex_iff)
  ultimately show ?thesis by (simp add: store_user_add_def del: first_idx_None)
qed

lemma add_new:
  assumes inv: "users_inv store" and none: "users_map store name = None"
    and room: "ms_user_count store < STORE_MAX_USERS" and fits: "name_fits name"
  shows "\<exists>store'. store_user_add store (Some name) (Some pass) adm = (STORE_USER_OK, store') \<and>
    users_inv store' \<and>
    users_map store' = (users_map store)(name \<mapsto> (strncpy_term STORE_MAX_PASSWORD pass, role_of adm))"
proof -
  let ?us = "ms_users store"
  obtain i where i: "first_idx (\<lambda>u. \<not> u_used u) ?us = Some i"
  proof (cases "first_idx (\<lambda>u. \<not> u_used u) ?us")
    case None
    then have "filter u_used ?us = ?us" by (simp add: filter_id_conv)
    with inv room show ?thesis by (simp add: users_inv_def)
  qed
  define u where "u = \<lparr>u_used = True, u_username = strncpy_term STORE_MAX_USERNAME name,
      u_password = strncpy_term STORE_MAX_PASSWORD pass, u_role = role_of adm\<rparr>"
  have u: "u_used u" "u_username u = name" using fits by (simp_all add: u_def name_fits_stored)
  have iu: "i < length ?us" "\<not> u_used (?us ! i)"
    using first_idx_less [OF i] first_idx_holds [OF i] by auto
  have notin: "\<not> named_user name x" if "x \<in> set ?us" for x
    using none that by (simp add: users_map_def users_lookup_None)
  have d: "users_distinct ?us" using inv by (simp add: users_inv_def)
  have d': "users_distinct (?us[i := u])"
    using d iu u notin by (intro slot_distinct_update) (auto simp: named_user_slot)
  let ?s = "store\<lparr>ms_users := ?us[i := u], ms_user_count := ms_user_count store + 1\<rparr>"
  have "store_user_add store (Some name) (Some pass) adm = (STORE_USER_OK, ?s)"
    using notin i by (simp add: store_user_add_def list_ex_iff u_def)
  moreover have "users_inv ?s"
    using inv d' iu u fits length_strncpy_term [of STORE_MAX_PASSWORD pass]
    by (auto simp: users_inv_def name_fits_def u_def dest!: set_update_subset_insert [THEN subsetD])
  moreover have "users_map ?s = (users_map store)(name \<mapsto> (strncpy_term STORE_MAX_PASSWORD pass, role_of adm))"
    using users_lookup_update [OF d d' iu(1)] u iu(2)
    by (auto simp: users_map_def named_user_def fun_eq_iff u_def)
  ultimately show ?thesis by blast
qed

text \<open>A name longer than the slot matches no stored name, so it goes to the first free slot.\<close>

definition stored_user :: "string \<Rightarrow> string \<Rightarrow> bool \<Rightarrow> store_user" where
  "stored_user name pass adm = \<lparr>u_used = True, u_username = strncpy_term STORE_MAX_USERNAME name,
     u_password = strncpy_term STORE_MAX_PASSWORD pass, u_role = role_of adm\<rparr>"

lemma add_long_name:
  assumes "\<forall>u \<in> set (ms_users s). length (u_username u) \<le> STORE_MAX_USERNAME"
    and "length (filter u_used (ms_users s)) < length (ms_users s)" and "STORE_MAX_USERNAME < length n"
  shows "\<exists>i s'. store_user_add s (Some n) (Some p) adm = (STORE_USER_OK, s') \<and> i < length (ms_users s) \<and>
    \<not> u_used (ms_users s ! i) \<and> ms_users s' = (ms_users s)[i := stored_user n p adm]"
proof -
  have "\<exists>u \<in> set (ms_users s). \<not> u_used u" using assms(2) by (metis filter_True less_irrefl)
  then obtain i where i: "first_idx (\<lambda>u. \<not> u_used u) (ms_users s) = Some i"
    using first_idx_None [of "\<lambda>u. \<not> u_used u" "ms_users s"] by (metis option.exhaust)
  have "\<not> list_ex (named_user n) (ms_users s)"
    using assms(1,3) by (auto simp: list_ex_iff named_user_def)
  then show ?thesis
    using i first_idx_SomeD [OF i] by (intro exI [of _ i]) (simp add: store_user_add_def stored_user_def)
qed

lemma stored_user_simps [simp]:
  "u_used (stored_user n p adm)" "u_username (stored_user n p adm) = strncpy_term STORE_MAX_USERNAME n"
  by (simp_all add: stored_user_def)

lemma delete_absent:
  "users_map store name = None \<Longrightarrow> store_user_delete store (Some name) = (STORE_USER_NOT_FOUND, store)"
  by (simp add: store_user_delete_def users_map_def users_lookup_idx del: first_idx_None)

lemma delete_last_admin:
  "users_map store name = Some (p, STORE_ROLE_ADMIN) \<Longrightarrow> store_admin_count store \<le> 1 \<Longrightarrow>
    store_user_delete store (Some name) = (STORE_USER_LAST_ADMIN, store)"
  by (auto simp: store_user_delete_def users_map_def users_lookup_idx)

lemma users_map_Some:
  assumes "users_map store name = Some (p, r)"
  obtains i where "first_idx (named_user name) (ms_users store) = Some i" "i < length (ms_users store)"
    "named_user name (ms_users store ! i)" "u_password (ms_users store ! i) = p"
    "u_role (ms_users store ! i) = r"
  using assms first_idx_less first_idx_holds
  by (fastforce simp: users_map_def users_lookup_idx)

lemma delete_present:
  assumes inv: "users_inv store" and some: "users_map store name = Some (p, r)"
    and ok: "r = STORE_ROLE_ADMIN \<longrightarrow> 1 < store_admin_count store"
  shows "\<exists>store'. store_user_delete store (Some name) = (STORE_USER_OK, store') \<and> users_inv store' \<and>
    users_map store' = (users_map store)(name := None) \<and>
    store_admin_count store' = store_admin_count store - (if r = STORE_ROLE_ADMIN then 1 else 0)"
proof -
  let ?us = "ms_users store"
  from some obtain i where i: "first_idx (named_user name) ?us = Some i" "i < length ?us"
    "named_user name (?us ! i)" "u_role (?us ! i) = r"
    by (rule users_map_Some)
  define u where "u = (?us ! i)\<lparr>u_used := False, u_username := [], u_password := []\<rparr>"
  have d: "users_distinct ?us" using inv by (simp add: users_inv_def)
  have d': "users_distinct (?us[i := u])"
    using d i(2) by (intro slot_distinct_update) (auto simp: u_def)
  let ?s = "store\<lparr>ms_users := ?us[i := u], ms_user_count := ms_user_count store - 1\<rparr>"
  have used: "u_used (?us ! i)" "\<not> u_used u" using i(3) by (simp_all add: named_user_def u_def)
  have "store_user_delete store (Some name) = (STORE_USER_OK, ?s)"
    using i ok by (auto simp: store_user_delete_def u_def Let_def)
  moreover have "users_inv ?s"
    using inv d' i(2) count_update_off [of i ?us u_used u] used
    by (auto simp: users_inv_def u_def dest!: set_update_subset_insert [THEN subsetD])
  moreover have "users_map ?s = (users_map store)(name := None)"
    using users_lookup_update [OF d d' i(2)] i(3) used
    by (auto simp: users_map_def named_user_def fun_eq_iff)
  moreover have "store_admin_count ?s = store_admin_count store - (if r = STORE_ROLE_ADMIN then 1 else 0)"
    using count_update [of i ?us is_admin_user u] i used
    by (simp add: store_admin_count_def is_admin_user_def)
  ultimately show ?thesis by blast
qed

lemma set_password_absent:
  "users_map store name = None \<Longrightarrow>
    store_user_set_password store (Some name) (Some pass) = (STORE_USER_NOT_FOUND, store)"
  by (simp add: store_user_set_password_def users_map_def users_lookup_idx del: first_idx_None)

lemma set_password_present:
  assumes inv: "users_inv store" and some: "users_map store name = Some (p, r)"
  shows "\<exists>store'. store_user_set_password store (Some name) (Some pass) = (STORE_USER_OK, store') \<and>
    users_inv store' \<and> users_map store' = (users_map store)(name \<mapsto> (strncpy_term STORE_MAX_PASSWORD pass, r)) \<and>
    ms_user_count store' = ms_user_count store"
proof -
  let ?us = "ms_users store"
  from some obtain i where i: "first_idx (named_user name) ?us = Some i" "i < length ?us"
    "named_user name (?us ! i)" "u_role (?us ! i) = r"
    by (rule users_map_Some)
  define u where "u = (?us ! i)\<lparr>u_password := strncpy_term STORE_MAX_PASSWORD pass\<rparr>"
  have d: "users_distinct ?us" using inv by (simp add: users_inv_def)
  have d': "users_distinct (?us[i := u])"
    using d i by (intro slot_distinct_same) (auto simp: u_def named_user_def)
  let ?s = "store\<lparr>ms_users := ?us[i := u]\<rparr>"
  have "store_user_set_password store (Some name) (Some pass) = (STORE_USER_OK, ?s)"
    using i by (simp add: store_user_set_password_def u_def)
  moreover have "users_inv ?s"
    using inv d' i(2,3) length_strncpy_term [of STORE_MAX_PASSWORD pass]
    by (auto simp: users_inv_def u_def named_user_def dest!: set_update_subset_insert [THEN subsetD])
  moreover have "users_map ?s = (users_map store)(name \<mapsto> (strncpy_term STORE_MAX_PASSWORD pass, r))"
    using users_lookup_update [OF d d' i(2)] i
    by (auto simp: users_map_def named_user_def fun_eq_iff u_def)
  moreover have "ms_user_count ?s = ms_user_count store" by simp
  ultimately show ?thesis by blast
qed

lemma admin_count_map:
  assumes "users_inv store"
  shows "0 < store_admin_count store \<longleftrightarrow> (\<exists>name p. users_map store name = Some (p, STORE_ROLE_ADMIN))"
proof -
  have "0 < store_admin_count store \<longleftrightarrow> (\<exists>u \<in> set (ms_users store). is_admin_user u)"
    by (auto simp: store_admin_count_def filter_empty_conv)
  also have "\<dots> \<longleftrightarrow> (\<exists>name p. users_map store name = Some (p, STORE_ROLE_ADMIN))"
    using assms
    by (auto simp: users_inv_def users_map_def users_lookup_Some is_admin_user_def named_user_def)
  finally show ?thesis .
qed

section \<open>The contract of a user table\<close>

datatype user_op =
    Op_add string string bool
  | Op_delete string
  | Op_set_password string string

definition map_has_admin :: "(string \<Rightarrow> (string \<times> store_role) option) \<Rightarrow> bool" where
  "map_has_admin m \<longleftrightarrow> (\<exists>name p. m name = Some (p, STORE_ROLE_ADMIN))"

lemma map_has_admin_new: "m n = None \<Longrightarrow> map_has_admin m \<Longrightarrow> map_has_admin (m(n \<mapsto> x))"
  unfolding map_has_admin_def by (metis fun_upd_other option.distinct(1))

lemma map_has_admin_keep:
  "m n = Some (q, role) \<Longrightarrow> map_has_admin m \<Longrightarrow> map_has_admin (m(n \<mapsto> (p, role)))"
  unfolding map_has_admin_def by (metis fun_upd_apply option.inject snd_conv)

locale user_table =
  fixes invar :: "'s \<Rightarrow> bool"
    and lookup :: "'s \<Rightarrow> string \<Rightarrow> (string \<times> store_role) option"
    and add :: "'s \<Rightarrow> string \<Rightarrow> string \<Rightarrow> bool \<Rightarrow> store_user_result \<times> 's"
    and delete :: "'s \<Rightarrow> string \<Rightarrow> store_user_result \<times> 's"
    and set_password :: "'s \<Rightarrow> string \<Rightarrow> string \<Rightarrow> store_user_result \<times> 's"
  assumes add_law: "invar s \<Longrightarrow> name_fits n \<Longrightarrow> add s n p adm = (r, s') \<Longrightarrow>
      invar s' \<and>
      (if r = STORE_USER_OK
       then lookup s n = None \<and> lookup s' = (lookup s)(n \<mapsto> (strncpy_term STORE_MAX_PASSWORD p, role_of adm))
       else s' = s)"
    and delete_law: "invar s \<Longrightarrow> delete s n = (r, s') \<Longrightarrow>
      invar s' \<and>
      (if r = STORE_USER_OK
       then lookup s n \<noteq> None \<and> lookup s' = (lookup s)(n := None) \<and>
            (map_has_admin (lookup s) \<longrightarrow> map_has_admin (lookup s'))
       else s' = s)"
    and set_password_law: "invar s \<Longrightarrow> set_password s n p = (r, s') \<Longrightarrow>
      invar s' \<and>
      (if r = STORE_USER_OK
       then (\<exists>q role. lookup s n = Some (q, role) \<and>
              lookup s' = (lookup s)(n \<mapsto> (strncpy_term STORE_MAX_PASSWORD p, role)))
       else s' = s)"
begin

fun step :: "'s \<Rightarrow> user_op \<Rightarrow> 's" where
  "step s (Op_add n p adm) = snd (add s n p adm)"
| "step s (Op_delete n) = snd (delete s n)"
| "step s (Op_set_password n p) = snd (set_password s n p)"

fun op_fits :: "user_op \<Rightarrow> bool" where
  "op_fits (Op_add n p adm) = name_fits n"
| "op_fits _ = True"

lemma step_inv: "invar s \<Longrightarrow> op_fits oper \<Longrightarrow> invar (step s oper)"
  by (cases oper) (simp_all, metis add_law prod.collapse, metis delete_law prod.collapse,
      metis set_password_law prod.collapse)

lemma step_admin:
  assumes "invar s" and "op_fits oper" and "map_has_admin (lookup s)"
  shows "map_has_admin (lookup (step s oper))"
proof (cases oper)
  case (Op_add n p adm)
  obtain r s' where r: "add s n p adm = (r, s')" by force
  from add_law [OF assms(1) _ r] assms(2,3) Op_add r show ?thesis
    by (auto simp: map_has_admin_new split: if_splits)
next
  case (Op_delete n)
  obtain r s' where r: "delete s n = (r, s')" by force
  from delete_law [OF assms(1) r] assms(3) Op_delete r show ?thesis
    by (auto split: if_splits)
next
  case (Op_set_password n p)
  obtain r s' where r: "set_password s n p = (r, s')" by force
  from set_password_law [OF assms(1) r] assms(3) Op_set_password r show ?thesis
    by (auto simp: map_has_admin_keep split: if_splits)
qed

lemma ops_keep_admin:
  "invar s \<Longrightarrow> list_all op_fits opers \<Longrightarrow> map_has_admin (lookup s) \<Longrightarrow>
    invar (foldl step s opers) \<and> map_has_admin (lookup (foldl step s opers))"
  by (induction opers arbitrary: s) (simp_all add: step_inv step_admin)

lemma other_users_untouched:
  assumes "invar s" and "op_fits oper"
    and "case oper of Op_add n p adm \<Rightarrow> m \<noteq> n | Op_delete n \<Rightarrow> m \<noteq> n | Op_set_password n p \<Rightarrow> m \<noteq> n"
  shows "lookup (step s oper) m = lookup s m"
proof (cases oper)
  case (Op_add n p adm)
  obtain r s' where r: "add s n p adm = (r, s')" by force
  from add_law [OF assms(1) _ r] assms(2,3) Op_add r show ?thesis by (auto split: if_splits)
next
  case (Op_delete n)
  obtain r s' where r: "delete s n = (r, s')" by force
  from delete_law [OF assms(1) r] assms(3) Op_delete r show ?thesis by (auto split: if_splits)
next
  case (Op_set_password n p)
  obtain r s' where r: "set_password s n p = (r, s')" by force
  from set_password_law [OF assms(1) r] assms(3) Op_set_password r show ?thesis
    by (auto split: if_splits)
qed

end

abbreviation table_add where "table_add s n p adm \<equiv> store_user_add s (Some n) (Some p) adm"
abbreviation table_delete where "table_delete s n \<equiv> store_user_delete s (Some n)"
abbreviation table_set_password where "table_set_password s n p \<equiv> store_user_set_password s (Some n) (Some p)"

lemma user_count_le: "users_inv store \<Longrightarrow> ms_user_count store \<le> STORE_MAX_USERS"
  by (metis length_filter_le users_inv_def)

interpretation ut: user_table users_inv users_map table_add table_delete table_set_password
proof unfold_locales
  fix s n p adm r s'
  assume inv: "users_inv s" and fits: "name_fits n" and eq: "table_add s n p adm = (r, s')"
  consider "users_map s n \<noteq> None" | "users_map s n = None" "ms_user_count s = STORE_MAX_USERS"
    | "users_map s n = None" "ms_user_count s < STORE_MAX_USERS"
    using user_count_le [OF inv] by fastforce
  then show "users_inv s' \<and> (if r = STORE_USER_OK
       then users_map s n = None \<and> users_map s' = (users_map s)(n \<mapsto> (strncpy_term STORE_MAX_PASSWORD p, role_of adm))
       else s' = s)"
  proof cases
    case 1 then show ?thesis using add_exists [of s n p adm] eq inv by auto
  next
    case 2 then show ?thesis using add_full [OF inv, of n p adm] eq inv by auto
  next
    case 3 then show ?thesis using add_new [OF inv 3 fits, of p adm] eq by auto
  qed
next
  fix s n r s'
  assume inv: "users_inv s" and eq: "table_delete s n = (r, s')"
  show "users_inv s' \<and> (if r = STORE_USER_OK
       then users_map s n \<noteq> None \<and> users_map s' = (users_map s)(n := None) \<and>
            (map_has_admin (users_map s) \<longrightarrow> map_has_admin (users_map s'))
       else s' = s)"
  proof (cases "users_map s n")
    case None then show ?thesis using delete_absent [of s n] eq inv by auto
  next
    case (Some pr)
    then obtain q role where q: "users_map s n = Some (q, role)" by force
    show ?thesis
    proof (cases "role = STORE_ROLE_ADMIN \<and> store_admin_count s \<le> 1")
      case True then show ?thesis using delete_last_admin [of s n q] q eq inv by auto
    next
      case False
      then have "role = STORE_ROLE_ADMIN \<longrightarrow> 1 < store_admin_count s" by auto
      from delete_present [OF inv q this] eq obtain t where
        t: "r = STORE_USER_OK" "s' = t" "users_inv t" "users_map t = (users_map s)(n := None)"
           "store_admin_count t = store_admin_count s - (if role = STORE_ROLE_ADMIN then 1 else 0)"
        by auto
      then have "map_has_admin (users_map s) \<longrightarrow> map_has_admin (users_map t)"
        using admin_count_map [OF inv] admin_count_map [OF t(3)] False t(5)
        unfolding map_has_admin_def by (metis (full_types) diff_zero linorder_not_le zero_less_diff)
      then show ?thesis using t q by simp
    qed
  qed
next
  fix s n p r s'
  assume inv: "users_inv s" and eq: "table_set_password s n p = (r, s')"
  show "users_inv s' \<and> (if r = STORE_USER_OK
       then (\<exists>q role. users_map s n = Some (q, role) \<and>
              users_map s' = (users_map s)(n \<mapsto> (strncpy_term STORE_MAX_PASSWORD p, role)))
       else s' = s)"
  proof (cases "users_map s n")
    case None then show ?thesis using set_password_absent [of s n p] eq inv by auto
  next
    case (Some pr)
    then obtain q role where q: "users_map s n = Some (q, role)" by force
    from set_password_present [OF inv q, of p] eq q show ?thesis by auto
  qed
qed

lemma store_create_users:
  "store_create True True = Some store \<Longrightarrow> users_inv store \<and> users_map store = (\<lambda>_. None)"
  by (auto simp: store_create_def zero_store_def zero_user_def users_inv_def users_map_def
      users_lookup_None slot_distinct_def named_user_def fun_eq_iff Let_def)

end
