(* ===== verification/Store_Log.thy ===== *)
theory Store_Log
  imports Store_Users
begin

text \<open>
  The access log of \<^verbatim>\<open>store.c\<close>: a ring of 4096 entries that is filled from index 0 and then
  overwritten from \<open>log_head\<close> on. \<open>log_view\<close> is the log as \<open>store_log_foreach\<close> visits it, newest
  entry first; appending is shown to be \<open>take 4096 (entry # log_view)\<close> and updating to change
  exactly the entry with the given id.
\<close>

section \<open>Operations\<close>

text \<open>The line \<open>store_log_print\<close> writes: \<^verbatim>\<open>"%s: %s:%u %s %s up=%llu down=%llu\n"\<close>.\<close>

definition store_log_line :: "store_log_entry \<Rightarrow> string" where
  "store_log_line e =
     l_username e @ '': '' @ l_host e @ '':'' @ dec (unat (l_port e)) @ '' '' @ l_timestamp e @ '' '' @
     store_log_state_str (l_state e) @ '' up='' @ dec (unat (l_bytes_up e)) @
     '' down='' @ dec (unat (l_bytes_down e)) @ [CHR 0x0A]"

definition store_log_print :: "store_log_entry \<Rightarrow> monitor_store \<Rightarrow> monitor_store" where
  "store_log_print e store = store\<lparr>ms_stdout := ms_stdout store @ store_log_line e\<rparr>"

text \<open>\<open>now\<close> is the text \<open>store_now_iso8601\<close> writes into the entry.\<close>

definition store_log_append ::
  "string \<Rightarrow> monitor_store \<Rightarrow> string \<Rightarrow> string \<Rightarrow> u16 \<Rightarrow> store_log_state \<Rightarrow> store_log_id \<times> monitor_store" where
  "store_log_append now store username host port state =
     (let (i, store1) =
            (if ms_log_count store < STORE_LOG_CAPACITY
             then (ms_log_count store, store\<lparr>ms_log_count := ms_log_count store + 1\<rparr>)
             else (ms_log_head store,
                   store\<lparr>ms_log_head := (ms_log_head store + 1) mod STORE_LOG_CAPACITY\<rparr>));
          entry = \<lparr>l_id = ms_next_log_id store1,
                   l_username = strncpy_term STORE_MAX_USERNAME username,
                   l_host = strncpy_term STORE_MAX_DEST_HOST host,
                   l_port = port, l_timestamp = now, l_state = state,
                   l_bytes_up = 0, l_bytes_down = 0\<rparr>;
          store2 = store1\<lparr>ms_log := (ms_log store1)[i := entry],
                          ms_next_log_id := ms_next_log_id store1 + 1\<rparr>
      in (l_id entry, store_log_print entry store2))"

definition log_entry_close ::
  "store_log_state \<Rightarrow> u64 \<Rightarrow> u64 \<Rightarrow> store_log_entry \<Rightarrow> store_log_entry" where
  "log_entry_close state bytes_up bytes_down e =
     e\<lparr>l_state := state, l_bytes_up := bytes_up, l_bytes_down := bytes_down\<rparr>"

definition store_log_update ::
  "monitor_store \<Rightarrow> store_log_id \<Rightarrow> store_log_state \<Rightarrow> u64 \<Rightarrow> u64 \<Rightarrow> monitor_store" where
  "store_log_update store log_id state bytes_up bytes_down =
     (if log_id = STORE_LOG_INVALID \<or> ms_log_count store = 0 then store
      else case first_idx (\<lambda>e. l_id e = log_id) (take (ms_log_count store) (ms_log store)) of
             None \<Rightarrow> store
           | Some i \<Rightarrow>
               (let entry = log_entry_close state bytes_up bytes_down (ms_log store ! i);
                    store1 = store\<lparr>ms_log := (ms_log store)[i := entry]\<rparr>
                in if state \<noteq> STORE_LOG_CONNECTED then store_log_print entry store1 else store1))"

text \<open>The index \<open>store_log_foreach\<close> computes for each offset from the newest entry.\<close>

definition log_idx :: "nat \<Rightarrow> nat \<Rightarrow> nat \<Rightarrow> nat" where
  "log_idx count head offset =
     (if count < STORE_LOG_CAPACITY then count - 1 - offset
      else (head + STORE_LOG_CAPACITY - 1 - offset) mod STORE_LOG_CAPACITY)"

definition log_view :: "monitor_store \<Rightarrow> store_log_entry list" where
  "log_view store =
     map (\<lambda>offset. ms_log store ! log_idx (ms_log_count store) (ms_log_head store) offset)
       [0..<ms_log_count store]"

definition store_log_foreach ::
  "monitor_store \<Rightarrow> string option \<Rightarrow> (store_log_entry \<Rightarrow> 'c \<Rightarrow> bool \<times> 'c) \<Rightarrow> 'c \<Rightarrow> 'c" where
  "store_log_foreach store username_filter fn c =
     foreach fn
       (filter (\<lambda>e. case username_filter of None \<Rightarrow> True | Some u \<Rightarrow> l_username e = u) (log_view store)) c"

section \<open>The ring\<close>

definition log_inv :: "monitor_store \<Rightarrow> bool" where
  "log_inv store \<longleftrightarrow>
     length (ms_log store) = STORE_LOG_CAPACITY \<and> ms_log_count store \<le> STORE_LOG_CAPACITY \<and>
     ms_log_head store < STORE_LOG_CAPACITY \<and>
     (ms_log_count store < STORE_LOG_CAPACITY \<longrightarrow> ms_log_head store = 0) \<and>
     (\<forall>k < ms_log_count store. l_id (log_view store ! k) = ms_next_log_id store - 1 - of_nat k)"

lemma CAP_pos [simp]: "0 < STORE_LOG_CAPACITY"
  by (simp add: STORE_LOG_CAPACITY_def)

lemma length_log_view [simp]: "length (log_view store) = ms_log_count store"
  by (simp add: log_view_def)

lemma log_idx_start: "c \<le> STORE_LOG_CAPACITY \<Longrightarrow> k < c \<Longrightarrow> log_idx c 0 k = c - 1 - k"
  by (auto simp: log_idx_def)

lemma log_idx_less: "k < c \<Longrightarrow> log_idx c h k < STORE_LOG_CAPACITY"
  by (auto simp: log_idx_def)

lemma log_idx_full_first:
  "h < STORE_LOG_CAPACITY \<Longrightarrow> log_idx STORE_LOG_CAPACITY (Suc h mod STORE_LOG_CAPACITY) 0 = h"
  by (cases "Suc h = STORE_LOG_CAPACITY") (auto simp: log_idx_def mod_if)

lemma log_idx_full_Suc:
  assumes "h < STORE_LOG_CAPACITY" and "Suc k < STORE_LOG_CAPACITY"
  shows "log_idx STORE_LOG_CAPACITY (Suc h mod STORE_LOG_CAPACITY) (Suc k) = log_idx STORE_LOG_CAPACITY h k"
  using assms by (cases "Suc h = STORE_LOG_CAPACITY") (auto simp: log_idx_def mod_if)

lemma log_idx_inj:
  assumes "h < STORE_LOG_CAPACITY" and "c \<le> STORE_LOG_CAPACITY" "j < c" "k < c"
    and "log_idx c h j = log_idx c h k"
  shows "j = k"
  using assms by (auto simp: log_idx_def mod_if split: if_splits)

lemma log_idx_surj:
  assumes "h < STORE_LOG_CAPACITY" and "c \<le> STORE_LOG_CAPACITY" and "c < STORE_LOG_CAPACITY \<longrightarrow> h = 0"
    and "i < c"
  shows "\<exists>k < c. log_idx c h k = i"
proof (cases "c < STORE_LOG_CAPACITY")
  case True
  then show ?thesis using assms by (intro exI [of _ "c - 1 - i"]) (auto simp: log_idx_def)
next
  case False
  then have c: "c = STORE_LOG_CAPACITY" using assms(2) by simp
  show ?thesis
  proof (cases "i < h")
    case True
    then show ?thesis using assms c by (intro exI [of _ "h - 1 - i"]) (auto simp: log_idx_def mod_if)
  next
    case False
    then show ?thesis using assms c
      by (intro exI [of _ "h + STORE_LOG_CAPACITY - 1 - i"]) (auto simp: log_idx_def mod_if)
  qed
qed

section \<open>Appending and updating\<close>

definition new_log_entry ::
  "string \<Rightarrow> monitor_store \<Rightarrow> string \<Rightarrow> string \<Rightarrow> u16 \<Rightarrow> store_log_state \<Rightarrow> store_log_entry" where
  "new_log_entry now store username host port state =
     \<lparr>l_id = ms_next_log_id store, l_username = strncpy_term STORE_MAX_USERNAME username,
      l_host = strncpy_term STORE_MAX_DEST_HOST host, l_port = port, l_timestamp = now,
      l_state = state, l_bytes_up = 0, l_bytes_down = 0\<rparr>"

lemma log_view_nth [simp]:
  "k < ms_log_count store \<Longrightarrow>
    log_view store ! k = ms_log store ! log_idx (ms_log_count store) (ms_log_head store) k"
  by (simp add: log_view_def)

lemma append_view:
  assumes "log_inv store" and "store_log_append now store u h p st = (lid, store')"
  shows "log_view store' = take STORE_LOG_CAPACITY (new_log_entry now store u h p st # log_view store)"
proof (rule nth_equalityI)
  let ?e = "new_log_entry now store u h p st" and ?C = STORE_LOG_CAPACITY
  have len: "length (ms_log store) = ?C" "ms_log_count store \<le> ?C" "ms_log_head store < ?C"
    using assms(1) by (simp_all add: log_inv_def)
  show "length (log_view store') = length (take ?C (?e # log_view store))"
    using assms(2) len by (auto simp: store_log_append_def store_log_print_def Let_def split: if_splits)
  fix k assume "k < length (log_view store')"
  then have k: "k < ms_log_count store'" by simp
  show "log_view store' ! k = take ?C (?e # log_view store) ! k"
  proof (cases "ms_log_count store < ?C")
    case True
    with assms have h: "ms_log_head store = 0" by (simp add: log_inv_def)
    have s': "ms_log store' = (ms_log store)[ms_log_count store := ?e]" "ms_log_head store' = 0"
      "ms_log_count store' = Suc (ms_log_count store)"
      using assms(2) True h
      by (auto simp: store_log_append_def store_log_print_def new_log_entry_def Let_def)
    have "log_view store' ! k = (ms_log store)[ms_log_count store := ?e] ! (ms_log_count store - k)"
      using k s' True by (simp add: log_idx_start)
    also have "\<dots> = take ?C (?e # log_view store) ! k"
      using k s' True h len by (cases k) (auto simp: log_idx_start)
    finally show ?thesis .
  next
    case False
    then have c: "ms_log_count store = ?C" using len by simp
    have s': "ms_log store' = (ms_log store)[ms_log_head store := ?e]"
      "ms_log_head store' = Suc (ms_log_head store) mod ?C" "ms_log_count store' = ?C"
      using assms(2) c
      by (auto simp: store_log_append_def store_log_print_def new_log_entry_def Let_def)
    show ?thesis
    proof (cases k)
      case 0
      then show ?thesis using k s' len c by (simp add: log_idx_full_first)
    next
      case (Suc j)
      have "log_idx ?C (ms_log_head store) j \<noteq> ms_log_head store"
        using k s' len Suc by (auto simp: log_idx_def mod_if split: if_splits)
      then show ?thesis using k s' len c Suc by (simp add: log_idx_full_Suc)
    qed
  qed
qed

lemma append_fields:
  assumes "store_log_append now store u h p st = (lid, store')"
  shows "lid = ms_next_log_id store" "ms_next_log_id store' = ms_next_log_id store + 1"
    "ms_users store' = ms_users store" "ms_user_count store' = ms_user_count store"
    "ms_metrics store' = ms_metrics store" "ms_sessions store' = ms_sessions store"
    "ms_sessions_cap store' = ms_sessions_cap store" "ms_timeout store' = ms_timeout store"
    "ms_io_buffer_size store' = ms_io_buffer_size store"
    "ms_next_session_id store' = ms_next_session_id store"
    "ms_rules store' = ms_rules store"
    "ms_denied_hosts store' = ms_denied_hosts store" "ms_last_denied_host store' = ms_last_denied_host store"
    "ms_denied_addresses store' = ms_denied_addresses store"
    "ms_last_denied_addr store' = ms_last_denied_addr store"
  using assms by (auto simp: store_log_append_def store_log_print_def Let_def split: if_splits)

lemma append_inv:
  assumes "log_inv store" and a: "store_log_append now store u h p st = (lid, store')"
  shows "log_inv store'"
proof -
  have "length (ms_log store') = STORE_LOG_CAPACITY" "ms_log_count store' \<le> STORE_LOG_CAPACITY"
    "ms_log_head store' < STORE_LOG_CAPACITY"
    "ms_log_count store' < STORE_LOG_CAPACITY \<longrightarrow> ms_log_head store' = 0"
    "ms_log_count store' \<le> Suc (ms_log_count store)"
    using assms by (auto simp: log_inv_def store_log_append_def store_log_print_def Let_def split: if_splits)
  moreover have "l_id (log_view store' ! k) = ms_next_log_id store' - 1 - of_nat k"
    if "k < ms_log_count store'" for k
  proof -
    have "k < STORE_LOG_CAPACITY" using that calculation(2) by simp
    then have "log_view store' ! k = (new_log_entry now store u h p st # log_view store) ! k"
      by (simp only: append_view [OF assms] nth_take)
    then show ?thesis
      using that calculation(5) assms(1) append_fields [OF a]
      by (cases k) (auto simp: new_log_entry_def log_inv_def simp del: log_view_nth)
  qed
  ultimately show ?thesis by (simp add: log_inv_def del: log_view_nth)
qed

text \<open>4096 consecutive 32-bit ids are distinct, also when the counter has wrapped.\<close>

lemma log_ids_distinct:
  assumes "log_inv store" and "j < ms_log_count store" "k < ms_log_count store"
    and "l_id (log_view store ! j) = l_id (log_view store ! k)"
  shows "j = k"
proof -
  have "j < 2 ^ 32" "k < 2 ^ 32"
    using assms(1-3) by (auto simp: log_inv_def STORE_LOG_CAPACITY_def)
  moreover have "(of_nat j :: u32) = of_nat k"
    using assms by (simp add: log_inv_def del: log_view_nth)
  then have "unat (of_nat j :: u32) = unat (of_nat k :: u32)" by simp
  ultimately show ?thesis by (simp add: unsigned_of_nat take_bit_nat_eq_self)
qed

lemma update_fields [simp]:
  "ms_users (store_log_update store lid st up down) = ms_users store"
  "ms_user_count (store_log_update store lid st up down) = ms_user_count store"
  "ms_metrics (store_log_update store lid st up down) = ms_metrics store"
  "ms_sessions (store_log_update store lid st up down) = ms_sessions store"
  "ms_sessions_cap (store_log_update store lid st up down) = ms_sessions_cap store"
  "ms_timeout (store_log_update store lid st up down) = ms_timeout store"
  "ms_io_buffer_size (store_log_update store lid st up down) = ms_io_buffer_size store"
  "ms_next_session_id (store_log_update store lid st up down) = ms_next_session_id store"
  "ms_next_log_id (store_log_update store lid st up down) = ms_next_log_id store"
  "ms_log_count (store_log_update store lid st up down) = ms_log_count store"
  "ms_log_head (store_log_update store lid st up down) = ms_log_head store"
  "length (ms_log (store_log_update store lid st up down)) = length (ms_log store)"
  "ms_rules (store_log_update store lid st up down) = ms_rules store"
  "ms_denied_hosts (store_log_update store lid st up down) = ms_denied_hosts store"
  "ms_last_denied_host (store_log_update store lid st up down) = ms_last_denied_host store"
  "ms_denied_addresses (store_log_update store lid st up down) = ms_denied_addresses store"
  "ms_last_denied_addr (store_log_update store lid st up down) = ms_last_denied_addr store"
  by (simp_all add: store_log_update_def store_log_print_def Let_def split: option.splits)

lemma log_idx_filled:
  assumes "log_inv store" "k < ms_log_count store"
  shows "log_idx (ms_log_count store) (ms_log_head store) k < ms_log_count store"
  using assms log_idx_less [of k "ms_log_count store" "ms_log_head store"]
  by (auto simp: log_inv_def log_idx_def split: if_splits)

lemma update_view:
  assumes inv: "log_inv store" and lid: "lid \<noteq> STORE_LOG_INVALID"
  shows "log_view (store_log_update store lid st up down) =
    map (\<lambda>e. if l_id e = lid then log_entry_close st up down e else e) (log_view store)"
proof -
  let ?c = "ms_log_count store" and ?h = "ms_log_head store" and ?l = "ms_log store"
  let ?f = "first_idx (\<lambda>e. l_id e = lid) (take ?c ?l)"
  let ?s = "store_log_update store lid st up down"
  have len: "length ?l = STORE_LOG_CAPACITY" "?c \<le> STORE_LOG_CAPACITY" "?h < STORE_LOG_CAPACITY"
    "?c < STORE_LOG_CAPACITY \<longrightarrow> ?h = 0"
    using inv by (simp_all add: log_inv_def)
  have same: "ms_log ?s ! log_idx ?c ?h k = (let e = ?l ! log_idx ?c ?h k
      in if l_id e = lid then log_entry_close st up down e else e)" if k: "k < ?c" for k
  proof (cases ?f)
    case None
    have "?l ! log_idx ?c ?h k \<in> set (take ?c ?l)"
      using log_idx_filled [OF inv k] len by (auto simp: in_set_conv_nth)
    then have "l_id (?l ! log_idx ?c ?h k) \<noteq> lid" using None by auto
    moreover have "?s = store"
      using None by (simp add: store_log_update_def del: first_idx_None)
    ultimately show ?thesis by simp
  next
    case (Some i)
    then have i: "i < ?c" "l_id (?l ! i) = lid"
      using first_idx_SomeD [OF Some] by auto
    then obtain j where j: "j < ?c" "log_idx ?c ?h j = i"
      using log_idx_surj [OF len(3,2,4)] by blast
    have upd: "ms_log ?s = ?l[i := log_entry_close st up down (?l ! i)]"
      using Some lid i by (auto simp: store_log_update_def store_log_print_def Let_def)
    show ?thesis
    proof (cases "k = j")
      case True
      then show ?thesis using upd i j len by simp
    next
      case False
      then have "log_idx ?c ?h k \<noteq> i" using log_idx_inj [OF len(3,2) k j(1)] j(2) by auto
      moreover have "l_id (?l ! log_idx ?c ?h k) \<noteq> lid"
        using log_ids_distinct [OF inv k j(1)] False i j k by auto
      ultimately show ?thesis using upd by simp
    qed
  qed
  show ?thesis
    by (rule nth_equalityI) (auto simp: same Let_def)
qed

lemma update_inv:
  assumes "log_inv store"
  shows "log_inv (store_log_update store lid st up down)"
proof (cases "lid = STORE_LOG_INVALID")
  case False
  have "l_id (log_view (store_log_update store lid st up down) ! k) = l_id (log_view store ! k)"
    if "k < ms_log_count store" for k
    using that by (simp only: update_view [OF assms False] nth_map length_log_view)
      (simp add: log_entry_close_def)
  then show ?thesis using assms by (simp add: log_inv_def del: log_view_nth)
qed (use assms in \<open>simp add: store_log_update_def\<close>)

end
