(* ===== verification/Store_Sessions.thy ===== *)
theory Store_Sessions
  imports Store_Log
begin

text \<open>
  The table of active SOCKS sessions, the metrics and the runtime configuration of \<^verbatim>\<open>store.c\<close>.
  \<open>sessions_inv\<close> relates the counters, the cap and the allocated slots; \<open>sessions_map\<close> is the table
  as a map from session id to session, and \<open>session_registry\<close> the contract \<^verbatim>\<open>socks.c\<close> uses: a
  session that was begun is there until it is ended, and ending it twice is harmless.
\<close>

section \<open>Configuration and metrics\<close>

text \<open>\<open>mem\<close> is the success of \<open>realloc\<close>.\<close>

definition store_grow_sessions_slots ::
  "bool \<Rightarrow> monitor_store \<Rightarrow> nat \<Rightarrow> store_config_result \<times> monitor_store" where
  "store_grow_sessions_slots mem store new_slots =
     (if new_slots \<le> length (ms_sessions store) then (STORE_CFG_OK, store)
      else if \<not> mem then (STORE_CFG_INVALID_VALUE, store)
      else (STORE_CFG_OK,
            store\<lparr>ms_sessions := ms_sessions store @ replicate (new_slots - length (ms_sessions store)) zero_node\<rparr>))"

definition store_config_get :: "monitor_store \<Rightarrow> store_config_key \<Rightarrow> u32" where
  "store_config_get store key = (case key of
      STORE_CFG_TIMEOUT \<Rightarrow> ms_timeout store
    | STORE_CFG_SESSIONS_CAP \<Rightarrow> ms_sessions_cap store
    | STORE_CFG_IO_BUFFER_SIZE \<Rightarrow> ms_io_buffer_size store)"

definition store_config_set ::
  "bool \<Rightarrow> monitor_store \<Rightarrow> store_config_key \<Rightarrow> u32 \<Rightarrow> store_config_result \<times> monitor_store" where
  "store_config_set mem store key val = (case key of
      STORE_CFG_TIMEOUT \<Rightarrow>
        if val > 86400 then (STORE_CFG_INVALID_VALUE, store)
        else (STORE_CFG_OK, store\<lparr>ms_timeout := val\<rparr>)
    | STORE_CFG_SESSIONS_CAP \<Rightarrow>
        if val < STORE_SESSIONS_CAP_MIN \<or> val > STORE_SESSIONS_CAP_MAX
        then (STORE_CFG_INVALID_VALUE, store)
        else if ucast val < concurrent_connections (ms_metrics store)
        then (STORE_CFG_INVALID_VALUE, store)
        else (let (grow, store1) =
                    (if val > ms_sessions_cap store
                     then store_grow_sessions_slots mem store (unat val) else (STORE_CFG_OK, store))
              in if grow \<noteq> STORE_CFG_OK then (grow, store1)
                 else (STORE_CFG_OK, store1\<lparr>ms_sessions_cap := val\<rparr>))
    | STORE_CFG_IO_BUFFER_SIZE \<Rightarrow>
        if val < 1024 \<or> val > 65536 then (STORE_CFG_INVALID_VALUE, store)
        else (STORE_CFG_OK, store\<lparr>ms_io_buffer_size := val\<rparr>))"

definition store_config_key_from_name :: "string option \<Rightarrow> store_config_key option" where
  "store_config_key_from_name param = (case param of
      None \<Rightarrow> None
    | Some s \<Rightarrow>
        if s = ''timeout'' then Some STORE_CFG_TIMEOUT
        else if s = ''max_connections'' then Some STORE_CFG_SESSIONS_CAP
        else if s = ''io_buffer_size'' then Some STORE_CFG_IO_BUFFER_SIZE
        else None)"

definition store_metrics_get :: "monitor_store \<Rightarrow> store_metrics" where
  "store_metrics_get store = ms_metrics store"

section \<open>Sessions\<close>

definition session_has_id :: "store_session_id \<Rightarrow> store_session_node \<Rightarrow> bool" where
  "session_has_id sid node \<longleftrightarrow> n_active node \<and> s_id (n_info node) = sid"

definition store_find_session :: "monitor_store \<Rightarrow> store_session_id \<Rightarrow> nat option" where
  "store_find_session store sid =
     (if sid = 0 then None else first_idx (session_has_id sid) (ms_sessions store))"

definition put_node :: "nat \<Rightarrow> store_session_node \<Rightarrow> monitor_store \<Rightarrow> monitor_store" where
  "put_node i node store = store\<lparr>ms_sessions := (ms_sessions store)[i := node]\<rparr>"

definition fresh_session :: "store_session_id \<Rightarrow> store_active_session" where
  "fresh_session sid = \<lparr>s_id = sid, s_username = [], s_host = [], s_port = 0,
     s_phase = STORE_SESSION_AUTH, s_bytes_up = 0, s_bytes_down = 0\<rparr>"

definition store_session_begin :: "monitor_store \<Rightarrow> store_session_id \<times> monitor_store" where
  "store_session_begin store =
     (let m = ms_metrics store
      in if concurrent_connections m \<ge> ucast (ms_sessions_cap store) then (STORE_SESSION_INVALID, store)
         else case first_idx (\<lambda>node. \<not> n_active node) (ms_sessions store) of
                None \<Rightarrow> (STORE_SESSION_INVALID, store)
              | Some i \<Rightarrow>
                  (let sid = ms_next_session_id store;
                       node = \<lparr>n_active = True, n_info = fresh_session sid, n_log_id = STORE_LOG_INVALID\<rparr>
                   in (sid, (put_node i node store)
                          \<lparr>ms_next_session_id := sid + 1,
                           ms_metrics := m\<lparr>total_connections := total_connections m + 1,
                                           concurrent_connections := concurrent_connections m + 1\<rparr>\<rparr>)))"

definition store_session_set_user ::
  "monitor_store \<Rightarrow> store_session_id \<Rightarrow> string option \<Rightarrow> monitor_store" where
  "store_session_set_user store sid username =
     (case (store_find_session store sid, username) of
        (Some i, Some name) \<Rightarrow>
          (let node = ms_sessions store ! i
           in put_node i (node\<lparr>n_info := (n_info node)\<lparr>s_username := strncpy_term STORE_MAX_USERNAME name\<rparr>\<rparr>) store)
      | _ \<Rightarrow> store)"

definition store_session_set_dest ::
  "string \<Rightarrow> monitor_store \<Rightarrow> store_session_id \<Rightarrow> string option \<Rightarrow> u16 \<Rightarrow> store_log_id \<times> monitor_store" where
  "store_session_set_dest now store sid host port =
     (case (store_find_session store sid, host) of
        (Some i, Some h) \<Rightarrow>
          (let node = ms_sessions store ! i;
               node1 = node\<lparr>n_info := (n_info node)\<lparr>s_host := strncpy_term STORE_MAX_DEST_HOST h,
                              s_port := port, s_phase := STORE_SESSION_RELAY\<rparr>\<rparr>;
               store1 = put_node i node1 store
           in if s_username (n_info node1) \<noteq> []
              then (let (lid, store2) = store_log_append now store1 (s_username (n_info node1)) h port
                                          STORE_LOG_CONNECTED
                    in (lid, put_node i (node1\<lparr>n_log_id := lid\<rparr>) store2))
              else (n_log_id node1, store1))
      | _ \<Rightarrow> (STORE_LOG_INVALID, store))"

definition store_session_set_phase ::
  "monitor_store \<Rightarrow> store_session_id \<Rightarrow> store_session_phase \<Rightarrow> monitor_store" where
  "store_session_set_phase store sid phase =
     (case store_find_session store sid of
        None \<Rightarrow> store
      | Some i \<Rightarrow>
          (let node = ms_sessions store ! i
           in put_node i (node\<lparr>n_info := (n_info node)\<lparr>s_phase := phase\<rparr>\<rparr>) store))"

definition store_session_add_bytes ::
  "monitor_store \<Rightarrow> store_session_id \<Rightarrow> u64 \<Rightarrow> u64 \<Rightarrow> monitor_store" where
  "store_session_add_bytes store sid up down =
     (case store_find_session store sid of
        None \<Rightarrow> store
      | Some i \<Rightarrow>
          (let node = ms_sessions store ! i;
               info = (n_info node)\<lparr>s_bytes_up := s_bytes_up (n_info node) + up,
                                    s_bytes_down := s_bytes_down (n_info node) + down\<rparr>;
               m = ms_metrics store;
               store1 = (put_node i (node\<lparr>n_info := info\<rparr>) store)
                          \<lparr>ms_metrics := m\<lparr>m_bytes_up := m_bytes_up m + up,
                                          m_bytes_down := m_bytes_down m + down\<rparr>\<rparr>
           in if n_log_id node \<noteq> STORE_LOG_INVALID
              then store_log_update store1 (n_log_id node) STORE_LOG_CONNECTED
                     (s_bytes_up info) (s_bytes_down info)
              else store1))"

definition store_session_remove :: "monitor_store \<Rightarrow> nat \<Rightarrow> monitor_store" where
  "store_session_remove store i =
     (let node = ms_sessions store ! i; m = ms_metrics store
      in if \<not> n_active node then store
         else (put_node i (node\<lparr>n_active := False\<rparr>) store)
                \<lparr>ms_metrics := (if concurrent_connections m > 0
                               then m\<lparr>concurrent_connections := concurrent_connections m - 1\<rparr> else m)\<rparr>)"

definition store_session_mark_failed :: "string \<Rightarrow> monitor_store \<Rightarrow> store_session_id \<Rightarrow> monitor_store" where
  "store_session_mark_failed now store sid =
     (case store_find_session store sid of
        None \<Rightarrow> store
      | Some i \<Rightarrow>
          (let info = n_info (ms_sessions store ! i);
               store1 = (if s_username info \<noteq> [] \<and> s_host info \<noteq> []
                         then snd (store_log_append now store (s_username info) (s_host info) (s_port info)
                                     STORE_LOG_FAILED)
                         else store)
           in store_session_remove store1 i))"

definition store_session_end :: "monitor_store \<Rightarrow> store_session_id \<Rightarrow> monitor_store" where
  "store_session_end store sid =
     (case store_find_session store sid of
        None \<Rightarrow> store
      | Some i \<Rightarrow>
          (let node = ms_sessions store ! i;
               store1 = (if n_log_id node \<noteq> STORE_LOG_INVALID
                         then store_log_update store (n_log_id node) STORE_LOG_CLOSED
                                (s_bytes_up (n_info node)) (s_bytes_down (n_info node))
                         else store)
           in store_session_remove store1 i))"

definition store_session_mark_ttl_expired ::
  "string \<Rightarrow> monitor_store \<Rightarrow> store_session_id \<Rightarrow> monitor_store" where
  "store_session_mark_ttl_expired now store sid =
     (case store_find_session store sid of
        None \<Rightarrow> store
      | Some i \<Rightarrow>
          (let node = ms_sessions store ! i; info = n_info node;
               store1 = (if n_log_id node \<noteq> STORE_LOG_INVALID
                         then store_log_update store (n_log_id node) STORE_LOG_TTL_EXPIRED
                                (s_bytes_up info) (s_bytes_down info)
                         else if s_username info \<noteq> [] \<and> s_host info \<noteq> []
                         then snd (store_log_append now store (s_username info) (s_host info) (s_port info)
                                     STORE_LOG_TTL_EXPIRED)
                         else store)
           in store_session_remove store1 i))"

definition store_sessions_foreach ::
  "monitor_store \<Rightarrow> (store_active_session \<Rightarrow> 'c \<Rightarrow> bool \<times> 'c) \<Rightarrow> 'c \<Rightarrow> 'c" where
  "store_sessions_foreach store fn c = foreach fn (map n_info (filter n_active (ms_sessions store))) c"

section \<open>Counters and capacity\<close>

definition sessions_inv :: "monitor_store \<Rightarrow> bool" where
  "sessions_inv store \<longleftrightarrow>
     unat (concurrent_connections (ms_metrics store)) = length (filter n_active (ms_sessions store)) \<and>
     concurrent_connections (ms_metrics store) \<le> ucast (ms_sessions_cap store) \<and>
     unat (ms_sessions_cap store) \<le> length (ms_sessions store) \<and>
     STORE_SESSIONS_CAP_MIN \<le> ms_sessions_cap store \<and> ms_sessions_cap store \<le> STORE_SESSIONS_CAP_MAX \<and>
     ms_timeout store \<le> 86400 \<and> 1024 \<le> ms_io_buffer_size store \<and> ms_io_buffer_size store \<le> 65536"

lemma unat_ucast_u64 [simp]: "unat (ucast (x :: u32) :: u64) = unat x"
  by (simp add: unsigned_ucast_eq take_bit_nat_eq_self unsigned_less [THEN order_less_trans])

lemma put_node_simps [simp]:
  "ms_sessions (put_node i node store) = (ms_sessions store)[i := node]"
  "ms_metrics (put_node i node store) = ms_metrics store"
  "ms_sessions_cap (put_node i node store) = ms_sessions_cap store"
  "ms_timeout (put_node i node store) = ms_timeout store"
  "ms_io_buffer_size (put_node i node store) = ms_io_buffer_size store"
  "ms_next_session_id (put_node i node store) = ms_next_session_id store"
  "ms_next_log_id (put_node i node store) = ms_next_log_id store"
  "ms_log (put_node i node store) = ms_log store"
  "ms_log_count (put_node i node store) = ms_log_count store"
  "ms_log_head (put_node i node store) = ms_log_head store"
  "ms_users (put_node i node store) = ms_users store"
  "ms_user_count (put_node i node store) = ms_user_count store"
  "ms_rules (put_node i node store) = ms_rules store"
  "ms_denied_hosts (put_node i node store) = ms_denied_hosts store"
  "ms_last_denied_host (put_node i node store) = ms_last_denied_host store"
  "ms_denied_addresses (put_node i node store) = ms_denied_addresses store"
  "ms_last_denied_addr (put_node i node store) = ms_last_denied_addr store"
  by (simp_all add: put_node_def)

lemma find_SomeD:
  assumes "store_find_session store sid = Some i"
  shows "i < length (ms_sessions store)" "n_active (ms_sessions store ! i)"
    "s_id (n_info (ms_sessions store ! i)) = sid" "sid \<noteq> 0"
  using assms first_idx_SomeD [of "session_has_id sid" "ms_sessions store" i]
  by (auto simp: store_find_session_def session_has_id_def split: if_splits)

lemma sessions_inv_cong:
  assumes "sessions_inv store"
    and "concurrent_connections (ms_metrics store') = concurrent_connections (ms_metrics store)"
    and "length (filter n_active (ms_sessions store')) = length (filter n_active (ms_sessions store))"
    and "length (ms_sessions store') = length (ms_sessions store)"
    and "ms_sessions_cap store' = ms_sessions_cap store" "ms_timeout store' = ms_timeout store"
    and "ms_io_buffer_size store' = ms_io_buffer_size store"
  shows "sessions_inv store'"
  using assms by (simp add: sessions_inv_def)

lemma log_append_sessions_inv:
  "sessions_inv store \<Longrightarrow> sessions_inv (snd (store_log_append now store u h p st))"
  by (cases "store_log_append now store u h p st")
     (auto intro!: sessions_inv_cong [of store] simp: append_fields)

lemma log_update_sessions_inv:
  "sessions_inv store \<Longrightarrow> sessions_inv (store_log_update store lid st up down)"
  by (rule sessions_inv_cong) simp_all

lemma put_node_inv:
  "sessions_inv store \<Longrightarrow> store_find_session store sid = Some i \<Longrightarrow> n_active node \<Longrightarrow>
    sessions_inv (put_node i node store)"
  by (rule sessions_inv_cong) (simp_all add: find_SomeD)

lemma remove_inv:
  assumes "sessions_inv store" and "i < length (ms_sessions store)"
  shows "sessions_inv (store_session_remove store i)"
proof (cases "n_active (ms_sessions store ! i)")
  case True
  let ?m = "concurrent_connections (ms_metrics store)" and ?ns = "ms_sessions store"
  have "length (filter n_active ?ns) = Suc (length (filter n_active (?ns[i := (?ns ! i)\<lparr>n_active := False\<rparr>])))"
    using True assms(2) by (intro count_update_off) simp_all
  moreover have "unat ?m = length (filter n_active ?ns)"
    using assms(1) by (simp add: sessions_inv_def)
  moreover have pos: "?m \<noteq> 0" using calculation by (metis nat.distinct(1) unat_0)
  moreover have "unat (?m - 1) = unat ?m - 1" using pos by (simp add: unat_pred)
  ultimately show ?thesis
    using assms True
    by (simp add: sessions_inv_def store_session_remove_def Let_def word_gt_0 word_le_nat_alt)
qed (use assms in \<open>simp add: store_session_remove_def Let_def\<close>)

lemma unat_less_u64: "unat (ucast (ms_sessions_cap store) :: u64) < 2 ^ 64 - 1"
  using unsigned_less [of "ms_sessions_cap store", where 'a = nat] by simp

lemma begin_full:
  "concurrent_connections (ms_metrics store) = ucast (ms_sessions_cap store) \<Longrightarrow>
    store_session_begin store = (STORE_SESSION_INVALID, store)"
  by (simp add: store_session_begin_def Let_def)

lemma begin_slot:
  assumes "sessions_inv store" "concurrent_connections (ms_metrics store) < ucast (ms_sessions_cap store)"
  obtains i where "first_idx (\<lambda>node. \<not> n_active node) (ms_sessions store) = Some i"
    "i < length (ms_sessions store)" "\<not> n_active (ms_sessions store ! i)"
proof (cases "first_idx (\<lambda>node. \<not> n_active node) (ms_sessions store)")
  case None
  then have "filter n_active (ms_sessions store) = ms_sessions store" by (simp add: filter_id_conv)
  with assms have False by (simp add: sessions_inv_def word_less_nat_alt)
  then show ?thesis ..
next
  case (Some i)
  with that first_idx_SomeD [OF Some] show ?thesis by simp
qed

lemma begin_inv:
  assumes "sessions_inv store"
  shows "sessions_inv (snd (store_session_begin store))"
proof (cases "concurrent_connections (ms_metrics store) < ucast (ms_sessions_cap store)")
  case True
  let ?m = "concurrent_connections (ms_metrics store)"
  from begin_slot [OF assms True] obtain i where
    i: "first_idx (\<lambda>node. \<not> n_active node) (ms_sessions store) = Some i"
       "i < length (ms_sessions store)" "\<not> n_active (ms_sessions store ! i)" .
  have "unat ?m < unat (ucast (ms_sessions_cap store) :: u64)" using True by (simp add: word_less_nat_alt)
  then have "unat (?m + 1) = Suc (unat ?m)"
    using unat_less_u64 [of store] by (simp add: unat_word_ariths)
  then show ?thesis
    using assms i True
    by (simp add: store_session_begin_def Let_def sessions_inv_def word_le_nat_alt word_less_nat_alt)
qed (use assms in \<open>simp add: store_session_begin_def Let_def not_less\<close>)

lemma config_set_inv:
  assumes "sessions_inv store"
  shows "sessions_inv (snd (store_config_set mem store key val))"
proof (cases key)
  case STORE_CFG_SESSIONS_CAP
  let ?r = "if val > ms_sessions_cap store then store_grow_sessions_slots mem store (unat val)
            else (STORE_CFG_OK, store)"
  have "n_active zero_node = False" by (simp add: zero_node_def)
  then have grow: "sessions_inv (snd ?r) \<and> (fst ?r = STORE_CFG_OK \<longrightarrow> unat val \<le> length (ms_sessions (snd ?r)))
      \<and> ms_metrics (snd ?r) = ms_metrics store"
    using assms by (auto simp: store_grow_sessions_slots_def sessions_inv_def word_le_nat_alt word_less_nat_alt)
  then show ?thesis
    using STORE_CFG_SESSIONS_CAP assms
    by (auto simp: store_config_set_def sessions_inv_def Let_def case_prod_beta not_less)
qed (use assms in \<open>auto simp: store_config_set_def sessions_inv_def not_less\<close>)

section \<open>The table as a map\<close>

abbreviation node_id :: "store_session_node \<Rightarrow> store_session_id" where
  "node_id node \<equiv> s_id (n_info node)"

definition sessions_map :: "monitor_store \<Rightarrow> store_session_id \<Rightarrow> store_active_session option" where
  "sessions_map store sid =
     (if sid = 0 then None else map_option n_info (slot_find n_active node_id (ms_sessions store) sid))"

text \<open>Ids of active sessions are distinct and below the next id, as long as the counter has not wrapped.\<close>

definition ids_inv :: "monitor_store \<Rightarrow> bool" where
  "ids_inv store \<longleftrightarrow>
     slot_distinct n_active node_id (ms_sessions store) \<and> ms_next_session_id store \<noteq> 0 \<and>
     (\<forall>node \<in> set (ms_sessions store). n_active node \<longrightarrow>
        node_id node \<noteq> 0 \<and> node_id node < ms_next_session_id store)"

lemma session_has_id_slot: "session_has_id sid = slot_key n_active node_id sid"
  by (simp add: fun_eq_iff session_has_id_def slot_key_def)

lemma sessions_map_idx:
  "sessions_map store sid = map_option (\<lambda>i. n_info (ms_sessions store ! i)) (store_find_session store sid)"
  by (simp add: sessions_map_def store_find_session_def slot_find_def session_has_id_slot
      option.map_comp o_def)

lemma find_None: "store_find_session store sid = None \<longleftrightarrow> sessions_map store sid = None"
  by (simp add: sessions_map_idx)

lemma ids_inv_cong:
  "ids_inv store \<Longrightarrow> ms_sessions store' = ms_sessions store \<Longrightarrow>
    ms_next_session_id store' = ms_next_session_id store \<Longrightarrow> ids_inv store'"
  by (simp add: ids_inv_def)

lemma sessions_map_cong: "ms_sessions store' = ms_sessions store \<Longrightarrow> sessions_map store' = sessions_map store"
  by (simp add: sessions_map_def fun_eq_iff)

lemma sessions_map_config [simp]:
  "sessions_map (store\<lparr>ms_sessions_cap := v\<rparr>) = sessions_map store"
  "sessions_map (store\<lparr>ms_timeout := v\<rparr>) = sessions_map store"
  "sessions_map (store\<lparr>ms_io_buffer_size := v\<rparr>) = sessions_map store"
  by (rule sessions_map_cong, simp)+

lemma put_node_map:
  assumes "ids_inv store" and "store_find_session store sid = Some i"
    and "n_active node" and "node_id node = sid"
  shows "ids_inv (put_node i node store)"
    and "sessions_map (put_node i node store) = (sessions_map store)(sid \<mapsto> n_info node)"
proof -
  let ?ns = "ms_sessions store"
  note f = find_SomeD [OF assms(2)]
  have d: "slot_distinct n_active node_id ?ns" using assms(1) by (simp add: ids_inv_def)
  have d': "slot_distinct n_active node_id (?ns[i := node])"
    using d f assms(3,4) by (intro slot_distinct_same) auto
  have "node_id node < ms_next_session_id store"
    using assms(1,4) f by (auto simp: ids_inv_def)
  then show "ids_inv (put_node i node store)"
    using assms d' f(4) by (auto simp: ids_inv_def dest!: set_update_subset_insert [THEN subsetD])
  show "sessions_map (put_node i node store) = (sessions_map store)(sid \<mapsto> n_info node)"
    using slot_find_update [OF d d' f(1)] assms f
    by (auto simp: sessions_map_def fun_eq_iff slot_key_def)
qed

lemma remove_map:
  assumes "ids_inv store" and "store_find_session store sid = Some i"
  shows "ids_inv (store_session_remove store i)"
    and "sessions_map (store_session_remove store i) = (sessions_map store)(sid := None)"
proof -
  let ?ns = "ms_sessions store" and ?n = "(ms_sessions store ! i)\<lparr>n_active := False\<rparr>"
  note f = find_SomeD [OF assms(2)]
  have d: "slot_distinct n_active node_id ?ns" using assms(1) by (simp add: ids_inv_def)
  have d': "slot_distinct n_active node_id (?ns[i := ?n])"
    using d f by (intro slot_distinct_same) auto
  show "ids_inv (store_session_remove store i)"
    using assms d' f(2) by (auto simp: ids_inv_def store_session_remove_def Let_def
        dest!: set_update_subset_insert [THEN subsetD])
  show "sessions_map (store_session_remove store i) = (sessions_map store)(sid := None)"
    using slot_find_update [OF d d' f(1)] f
    by (auto simp: sessions_map_def fun_eq_iff slot_key_def store_session_remove_def Let_def)
qed

lemma begin_map:
  assumes inv: "sessions_inv store" "ids_inv store"
    and room: "concurrent_connections (ms_metrics store) < ucast (ms_sessions_cap store)"
  defines "sid \<equiv> ms_next_session_id store"
  shows "fst (store_session_begin store) = sid" and "sid \<noteq> 0" and "sessions_map store sid = None"
    and "sessions_map (snd (store_session_begin store)) = (sessions_map store)(sid \<mapsto> fresh_session sid)"
    and "sid + 1 \<noteq> 0 \<Longrightarrow> ids_inv (snd (store_session_begin store))"
proof -
  let ?ns = "ms_sessions store"
  let ?n = "\<lparr>n_active = True, n_info = fresh_session sid, n_log_id = STORE_LOG_INVALID\<rparr>"
  from begin_slot [OF inv(1) room] obtain i where
    i: "first_idx (\<lambda>node. \<not> n_active node) ?ns = Some i" "i < length ?ns" "\<not> n_active (?ns ! i)" .
  have eq: "fst (store_session_begin store) = sid" "ms_sessions (snd (store_session_begin store)) = ?ns[i := ?n]"
    "ms_next_session_id (snd (store_session_begin store)) = sid + 1"
    using iffD2 [OF not_le room] i by (simp_all add: store_session_begin_def Let_def sid_def)
  have old: "node_id node \<noteq> 0 \<and> node_id node < sid" if "node \<in> set ?ns" "n_active node" for node
    using inv(2) that by (simp add: ids_inv_def sid_def)
  have d: "slot_distinct n_active node_id ?ns" and nz: "sid \<noteq> 0"
    using inv(2) by (simp_all add: ids_inv_def sid_def)
  have no: "\<not> slot_key n_active node_id sid node" if "node \<in> set ?ns" for node
    using old [OF that] by (auto simp: slot_key_def)
  have d': "slot_distinct n_active node_id (?ns[i := ?n])"
    using no by (intro slot_distinct_update [OF d i(2)]) (simp add: fresh_session_def)
  show "fst (store_session_begin store) = sid" "sid \<noteq> 0" by (simp_all add: eq nz)
  show "sessions_map store sid = None"
    using no by (simp add: sessions_map_def slot_find_None)
  show "sessions_map (snd (store_session_begin store)) = (sessions_map store)(sid \<mapsto> fresh_session sid)"
    using slot_find_update [OF d d' i(2)] i(3) nz
    by (auto simp: sessions_map_def fun_eq_iff slot_key_def eq fresh_session_def)
  assume "sid + 1 \<noteq> 0"
  then have lt: "sid < sid + 1"
    using unatSuc [of sid] by (simp add: word_less_nat_alt add.commute)
  then have "node_id node < sid + 1" if "node \<in> set ?ns" "n_active node" for node
    using old [OF that] by (metis order.strict_trans)
  then show "ids_inv (snd (store_session_begin store))"
    using d' \<open>sid + 1 \<noteq> 0\<close> old lt nz
    by (auto simp: ids_inv_def eq fresh_session_def dest!: set_update_subset_insert [THEN subsetD])
qed

section \<open>Each operation on the map\<close>

definition registry_inv :: "monitor_store \<Rightarrow> bool" where
  "registry_inv store \<longleftrightarrow> sessions_inv store \<and> ids_inv store \<and> log_inv store"

lemma log_inv_cong:
  assumes "log_inv store" and "ms_log store' = ms_log store" "ms_log_count store' = ms_log_count store"
    and "ms_log_head store' = ms_log_head store" "ms_next_log_id store' = ms_next_log_id store"
  shows "log_inv store'"
  using assms by (simp add: log_inv_def log_view_def)

lemma put_node_log: "log_inv store \<Longrightarrow> log_inv (put_node i node store)"
  by (rule log_inv_cong) simp_all

lemma remove_log: "log_inv store \<Longrightarrow> log_inv (store_session_remove store i)"
  by (erule log_inv_cong) (simp_all add: store_session_remove_def Let_def)

lemma append_registry:
  assumes "registry_inv store"
  shows "registry_inv (snd (store_log_append now store u h p st))"
    and "sessions_map (snd (store_log_append now store u h p st)) = sessions_map store"
    and "store_find_session (snd (store_log_append now store u h p st)) sid = store_find_session store sid"
  using assms log_append_sessions_inv [of store now u h p st]
  by (cases "store_log_append now store u h p st";
      auto simp: registry_inv_def append_fields store_find_session_def
        intro: ids_inv_cong append_inv sessions_map_cong)+

lemma update_registry:
  assumes "registry_inv store"
  shows "registry_inv (store_log_update store lid st up down)"
    and "sessions_map (store_log_update store lid st up down) = sessions_map store"
    and "store_find_session (store_log_update store lid st up down) sid = store_find_session store sid"
  using assms log_update_sessions_inv [of store lid st up down]
  by (auto simp: registry_inv_def store_find_session_def intro: ids_inv_cong update_inv sessions_map_cong)

lemma put_node_registry:
  assumes "registry_inv store" and "store_find_session store sid = Some i"
    and "n_active node" and "node_id node = sid"
  shows "registry_inv (put_node i node store)"
    and "sessions_map (put_node i node store) = (sessions_map store)(sid \<mapsto> n_info node)"
  using assms put_node_map [OF _ assms(2-4)]
  by (auto simp: registry_inv_def put_node_inv put_node_log)

lemma remove_registry:
  assumes "registry_inv store" and "store_find_session store sid = Some i"
  shows "registry_inv (store_session_remove store i)"
    and "sessions_map (store_session_remove store i) = (sessions_map store)(sid := None)"
  using assms remove_map [OF _ assms(2)] find_SomeD [OF assms(2)]
  by (auto simp: registry_inv_def remove_inv remove_log)

lemma metrics_registry:
  assumes "registry_inv store"
    and "concurrent_connections m = concurrent_connections (ms_metrics store)"
  shows "registry_inv (store\<lparr>ms_metrics := m\<rparr>)" "sessions_map (store\<lparr>ms_metrics := m\<rparr>) = sessions_map store"
    "store_find_session (store\<lparr>ms_metrics := m\<rparr>) sid = store_find_session store sid"
  using assms
  by (auto simp: registry_inv_def store_find_session_def
      intro: sessions_inv_cong ids_inv_cong log_inv_cong sessions_map_cong)

text \<open>What an operation that rewrites the session of one id does to the map.\<close>

definition alter :: "store_session_id \<Rightarrow> (store_active_session \<Rightarrow> store_active_session) \<Rightarrow>
    (store_session_id \<Rightarrow> store_active_session option) \<Rightarrow> store_session_id \<Rightarrow> store_active_session option" where
  "alter sid f m = m(sid := map_option f (m sid))"

lemma alter_absent: "m sid = None \<Longrightarrow> alter sid f m = m"
  by (auto simp: alter_def)

lemma alter_none: "store_find_session store sid = None \<Longrightarrow> alter sid f (sessions_map store) = sessions_map store"
  by (simp add: find_None alter_absent)

lemma put_node_alter:
  assumes "registry_inv store" and "store_find_session store sid = Some i"
    and "n_active node" and "n_info node = f (n_info (ms_sessions store ! i))"
    and "\<And>x. s_id (f x) = s_id x"
  shows "registry_inv (put_node i node store) \<and>
    sessions_map (put_node i node store) = alter sid f (sessions_map store)"
  using put_node_registry [OF assms(1-3)] find_SomeD [OF assms(2)] assms(2,4,5)
  by (auto simp: alter_def sessions_map_idx)

lemma set_user_registry:
  assumes "registry_inv store"
  shows "registry_inv (store_session_set_user store sid (Some name)) \<and>
    sessions_map (store_session_set_user store sid (Some name)) =
      alter sid (s_username_update (\<lambda>_. strncpy_term STORE_MAX_USERNAME name)) (sessions_map store)"
proof (cases "store_find_session store sid")
  case None
  with assms show ?thesis by (simp add: store_session_set_user_def alter_none)
next
  case (Some i)
  let ?n = "ms_sessions store ! i"
  from Some have "store_session_set_user store sid (Some name) = put_node i
      (?n\<lparr>n_info := (n_info ?n)\<lparr>s_username := strncpy_term STORE_MAX_USERNAME name\<rparr>\<rparr>) store"
    by (simp add: store_session_set_user_def Let_def)
  with put_node_alter [OF assms Some] find_SomeD(2) [OF Some] show ?thesis by simp
qed

lemma set_phase_registry:
  assumes "registry_inv store"
  shows "registry_inv (store_session_set_phase store sid phase) \<and>
    sessions_map (store_session_set_phase store sid phase) =
      alter sid (s_phase_update (\<lambda>_. phase)) (sessions_map store)"
proof (cases "store_find_session store sid")
  case None
  with assms show ?thesis by (simp add: store_session_set_phase_def alter_none)
next
  case (Some i)
  with put_node_alter [OF assms Some] find_SomeD(2) [OF Some] show ?thesis
    by (simp add: store_session_set_phase_def Let_def)
qed

definition add_bytes_info :: "u64 \<Rightarrow> u64 \<Rightarrow> store_active_session \<Rightarrow> store_active_session" where
  "add_bytes_info up down info =
     info\<lparr>s_bytes_up := s_bytes_up info + up, s_bytes_down := s_bytes_down info + down\<rparr>"

lemma add_bytes_registry:
  assumes "registry_inv store"
  shows "registry_inv (store_session_add_bytes store sid up down) \<and>
    sessions_map (store_session_add_bytes store sid up down) =
      alter sid (add_bytes_info up down) (sessions_map store)"
proof (cases "store_find_session store sid")
  case None
  with assms show ?thesis by (simp add: store_session_add_bytes_def alter_none)
next
  case (Some i)
  let ?n = "ms_sessions store ! i" and ?m = "ms_metrics store"
  define t where "t = (put_node i (?n\<lparr>n_info := add_bytes_info up down (n_info ?n)\<rparr>) store)
      \<lparr>ms_metrics := ?m\<lparr>m_bytes_up := m_bytes_up ?m + up, m_bytes_down := m_bytes_down ?m + down\<rparr>\<rparr>"
  have put: "registry_inv (put_node i (?n\<lparr>n_info := add_bytes_info up down (n_info ?n)\<rparr>) store) \<and>
    sessions_map (put_node i (?n\<lparr>n_info := add_bytes_info up down (n_info ?n)\<rparr>) store) =
      alter sid (add_bytes_info up down) (sessions_map store)"
    using find_SomeD(2) [OF Some] by (intro put_node_alter [OF assms Some]) (simp_all add: add_bytes_info_def)
  then have t: "registry_inv t" "sessions_map t = alter sid (add_bytes_info up down) (sessions_map store)"
    unfolding t_def by (simp_all add: metrics_registry)
  have "store_session_add_bytes store sid up down =
      (if n_log_id ?n \<noteq> STORE_LOG_INVALID
       then store_log_update t (n_log_id ?n) STORE_LOG_CONNECTED
              (s_bytes_up (n_info ?n) + up) (s_bytes_down (n_info ?n) + down)
       else t)"
    using Some by (simp add: store_session_add_bytes_def Let_def t_def add_bytes_info_def)
  with t update_registry [OF t(1)] show ?thesis by simp
qed

definition set_dest_info :: "string \<Rightarrow> u16 \<Rightarrow> store_active_session \<Rightarrow> store_active_session" where
  "set_dest_info host port info = info\<lparr>s_host := strncpy_term STORE_MAX_DEST_HOST host,
     s_port := port, s_phase := STORE_SESSION_RELAY\<rparr>"

lemma set_dest_registry:
  assumes "registry_inv store"
  shows "registry_inv (snd (store_session_set_dest now store sid (Some host) port)) \<and>
    sessions_map (snd (store_session_set_dest now store sid (Some host) port)) =
      alter sid (set_dest_info host port) (sessions_map store)"
proof (cases "store_find_session store sid")
  case None
  with assms show ?thesis by (simp add: store_session_set_dest_def alter_none)
next
  case (Some i)
  let ?n = "(ms_sessions store ! i)\<lparr>n_info := set_dest_info host port (n_info (ms_sessions store ! i))\<rparr>"
  define t where "t = put_node i ?n store"
  define r where "r = store_log_append now t (s_username (n_info ?n)) host port STORE_LOG_CONNECTED"
  note f = find_SomeD [OF Some]
  have t: "registry_inv t" "sessions_map t = alter sid (set_dest_info host port) (sessions_map store)"
    unfolding t_def using f(2)
    by (simp_all add: put_node_alter [OF assms Some, where f = "set_dest_info host port"] set_dest_info_def)
  have node: "ms_sessions t ! i = ?n" "i < length (ms_sessions t)" using f(1) by (simp_all add: t_def)
  have "sessions_map t sid \<noteq> None" using t(2) Some by (simp add: alter_def sessions_map_idx)
  then obtain j where j: "store_find_session t sid = Some j" by (metis find_None option.exhaust)
  have "j = i"
    using t(1) find_SomeD [OF j] node f unfolding registry_inv_def ids_inv_def slot_distinct_nth
    by (auto simp: set_dest_info_def)
  have f2: "store_find_session (snd r) sid = Some i"
    unfolding r_def using append_registry(3) [OF t(1)] j \<open>j = i\<close> by simp
  have r2: "ms_sessions (snd r) = ms_sessions t"
    unfolding r_def by (metis append_fields(6) prod.collapse)
  have "registry_inv (put_node i (?n\<lparr>n_log_id := lid\<rparr>) (snd r)) \<and>
      sessions_map (put_node i (?n\<lparr>n_log_id := lid\<rparr>) (snd r)) = alter sid (\<lambda>x. x) (sessions_map (snd r))" for lid
    using append_registry(1) [OF t(1)] f2 r2 node f(2) unfolding r_def
    by (intro put_node_alter) simp_all
  moreover have "sessions_map (snd r) = sessions_map t" unfolding r_def by (rule append_registry(2) [OF t(1)])
  moreover have "alter sid (\<lambda>x. x) m = m" for m by (auto simp: alter_def option.map_ident)
  moreover have "snd (store_session_set_dest now store sid (Some host) port) =
      (if s_username (n_info ?n) \<noteq> [] then put_node i (?n\<lparr>n_log_id := fst r\<rparr>) (snd r) else t)"
    using Some by (simp add: store_session_set_dest_def t_def r_def set_dest_info_def Let_def case_prod_beta)
  ultimately show ?thesis using t by simp
qed

section \<open>The contract of the session registry\<close>

datatype session_close = Close_end | Close_failed | Close_ttl_expired

definition close_session :: "string \<Rightarrow> session_close \<Rightarrow> monitor_store \<Rightarrow> store_session_id \<Rightarrow> monitor_store" where
  "close_session now how store sid = (case how of
      Close_end \<Rightarrow> store_session_end store sid
    | Close_failed \<Rightarrow> store_session_mark_failed now store sid
    | Close_ttl_expired \<Rightarrow> store_session_mark_ttl_expired now store sid)"

lemma close_registry:
  assumes "registry_inv store"
  shows "registry_inv (close_session now how store sid) \<and>
    sessions_map (close_session now how store sid) = (sessions_map store)(sid := None)"
proof (cases "store_find_session store sid")
  case None
  then have "close_session now how store sid = store"
    by (simp add: close_session_def store_session_end_def store_session_mark_failed_def
        store_session_mark_ttl_expired_def split: session_close.splits)
  with assms None show ?thesis by (auto simp: find_None)
next
  case (Some i)
  define t where "t = (let node = ms_sessions store ! i; info = n_info node;
      app = (\<lambda>st. if s_username info \<noteq> [] \<and> s_host info \<noteq> []
                  then snd (store_log_append now store (s_username info) (s_host info) (s_port info) st)
                  else store);
      upd = (\<lambda>st. store_log_update store (n_log_id node) st (s_bytes_up info) (s_bytes_down info))
    in case how of
         Close_end \<Rightarrow> if n_log_id node \<noteq> STORE_LOG_INVALID then upd STORE_LOG_CLOSED else store
       | Close_failed \<Rightarrow> app STORE_LOG_FAILED
       | Close_ttl_expired \<Rightarrow> if n_log_id node \<noteq> STORE_LOG_INVALID then upd STORE_LOG_TTL_EXPIRED
                             else app STORE_LOG_TTL_EXPIRED)"
  have "close_session now how store sid = store_session_remove t i"
    using Some by (simp add: close_session_def store_session_end_def store_session_mark_failed_def
        store_session_mark_ttl_expired_def t_def Let_def split: session_close.splits)
  moreover have "registry_inv t" "sessions_map t = sessions_map store" "store_find_session t sid = Some i"
    using assms Some by (simp_all add: t_def Let_def append_registry update_registry split: session_close.splits)
  ultimately show ?thesis using remove_registry [of t sid i] by simp
qed

locale session_registry =
  fixes invar :: "'s \<Rightarrow> bool"
    and lookup :: "'s \<Rightarrow> store_session_id \<Rightarrow> store_active_session option"
    and room :: "'s \<Rightarrow> bool"
    and last_id :: "'s \<Rightarrow> bool"
    and begin_op :: "'s \<Rightarrow> store_session_id \<times> 's"
    and add_bytes :: "'s \<Rightarrow> store_session_id \<Rightarrow> u64 \<Rightarrow> u64 \<Rightarrow> 's"
    and close_op :: "'c \<Rightarrow> 's \<Rightarrow> store_session_id \<Rightarrow> 's"
  assumes begin_ok: "invar s \<Longrightarrow> room s \<Longrightarrow> \<not> last_id s \<Longrightarrow> begin_op s = (sid, s') \<Longrightarrow>
      invar s' \<and> sid \<noteq> 0 \<and> lookup s sid = None \<and> lookup s' = (lookup s)(sid \<mapsto> fresh_session sid)"
    and begin_full: "\<not> room s \<Longrightarrow> invar s \<Longrightarrow> begin_op s = (0, s)"
    and add_law: "invar s \<Longrightarrow> invar (add_bytes s sid up down) \<and>
      lookup (add_bytes s sid up down) = alter sid (add_bytes_info up down) (lookup s)"
    and close_law: "invar s \<Longrightarrow> invar (close_op c s sid) \<and> lookup (close_op c s sid) = (lookup s)(sid := None)"
begin

text \<open>Traffic of a session, in the order the relay reports it, interleaved with other sessions.\<close>

definition traffic :: "'s \<Rightarrow> (store_session_id \<times> u64 \<times> u64) list \<Rightarrow> 's" where
  "traffic s ts = foldl (\<lambda>s (sid, up, down). add_bytes s sid up down) s ts"

lemma traffic_inv: "invar s \<Longrightarrow> invar (traffic s ts)"
  unfolding traffic_def by (induction ts arbitrary: s) (auto simp: add_law)

lemma traffic_lookup:
  "invar s \<Longrightarrow> lookup (traffic s ts) sid =
     map_option (add_bytes_info (sum_list (map (fst \<circ> snd) (filter (\<lambda>t. fst t = sid) ts)))
                                (sum_list (map (snd \<circ> snd) (filter (\<lambda>t. fst t = sid) ts)))) (lookup s sid)"
proof (induction ts arbitrary: s)
  case Nil
  have "add_bytes_info 0 0 = (\<lambda>x. x)" by (simp add: add_bytes_info_def fun_eq_iff)
  then show ?case by (simp add: traffic_def option.map_ident)
next
  case (Cons t ts)
  obtain k up down where t: "t = (k, up, down)" by (cases t)
  have "invar (add_bytes s k up down)" using add_law Cons.prems by blast
  from Cons.IH [OF this] Cons.prems show ?case
    by (cases "lookup s sid")
       (auto simp: t traffic_def add_law alter_def add_bytes_info_def add.assoc)
qed

lemma life_cycle:
  assumes "invar s" "room s" "\<not> last_id s" "begin_op s = (sid, s1)"
  shows "lookup (traffic s1 ts) sid =
      Some (add_bytes_info (sum_list (map (fst \<circ> snd) (filter (\<lambda>t. fst t = sid) ts)))
              (sum_list (map (snd \<circ> snd) (filter (\<lambda>t. fst t = sid) ts))) (fresh_session sid))"
    and "lookup (close_op c (traffic s1 ts) sid) sid = None"
    and "close_op c' (close_op c s1 sid) sid = s2 \<Longrightarrow> lookup s2 = lookup s"
  using begin_ok [OF assms] traffic_lookup [of s1 ts sid] traffic_inv [of s1 ts] close_law
  by (auto simp: fun_eq_iff)

end

interpretation sr: session_registry registry_inv sessions_map
  "\<lambda>s. concurrent_connections (ms_metrics s) < ucast (ms_sessions_cap s)"
  "\<lambda>s. ms_next_session_id s + 1 = 0" store_session_begin store_session_add_bytes
  "\<lambda>(now, how). close_session now how"
proof unfold_locales
  fix s sid s'
  assume r: "registry_inv s" and room: "concurrent_connections (ms_metrics s) < ucast (ms_sessions_cap s)"
    and nw: "ms_next_session_id s + 1 \<noteq> 0" and b: "store_session_begin s = (sid, s')"
  have inv: "sessions_inv s" "ids_inv s" "log_inv s" using r by (simp_all add: registry_inv_def)
  note m = begin_map [OF inv(1,2) room]
  have "log_inv (snd (store_session_begin s))"
    using inv(3) by (rule log_inv_cong)
      (auto simp: store_session_begin_def Let_def split: option.splits)
  then have "registry_inv s'"
    using m(5) [OF nw] begin_inv [OF inv(1)] b by (simp add: registry_inv_def)
  then show "registry_inv s' \<and> sid \<noteq> 0 \<and> sessions_map s sid = None \<and>
      sessions_map s' = (sessions_map s)(sid \<mapsto> fresh_session sid)"
    using m(1-4) b by simp
next
  fix s
  assume "\<not> concurrent_connections (ms_metrics s) < ucast (ms_sessions_cap s)" "registry_inv s"
  then show "store_session_begin s = (0, s)"
    by (intro begin_full) (simp add: registry_inv_def sessions_inv_def)
qed (auto simp: add_bytes_registry close_registry)

section \<open>Configuration and log on the registry\<close>

lemma grow_registry:
  assumes "registry_inv store"
  shows "registry_inv (store\<lparr>ms_sessions := ms_sessions store @ replicate n zero_node\<rparr>)"
    and "sessions_map (store\<lparr>ms_sessions := ms_sessions store @ replicate n zero_node\<rparr>) = sessions_map store"
proof -
  let ?s = "store\<lparr>ms_sessions := ms_sessions store @ replicate n zero_node\<rparr>"
  have z: "\<not> n_active zero_node" by (simp add: zero_node_def)
  have "sessions_inv ?s" "ids_inv ?s"
    using assms z by (auto simp: registry_inv_def sessions_inv_def ids_inv_def slot_distinct_append_dead)
  moreover have "log_inv ?s"
    using assms by (auto simp: registry_inv_def intro: log_inv_cong)
  ultimately show "registry_inv ?s" by (simp add: registry_inv_def)
  show "sessions_map ?s = sessions_map store"
    using z by (simp add: sessions_map_def fun_eq_iff slot_find_append_dead)
qed

lemma config_registry:
  assumes "registry_inv store"
  shows "registry_inv (snd (store_config_set mem store key val)) \<and>
    sessions_map (snd (store_config_set mem store key val)) = sessions_map store"
proof -
  let ?s = "snd (store_config_set mem store key val)"
  have "ids_inv ?s \<and> log_inv ?s \<and> sessions_map ?s = sessions_map store"
    using assms grow_registry [OF assms, of "unat val - length (ms_sessions store)"]
    by (auto simp: store_config_set_def store_grow_sessions_slots_def registry_inv_def Let_def
        intro: ids_inv_cong log_inv_cong sessions_map_cong split: store_config_key.splits)
  then show ?thesis
    using assms config_set_inv [of store mem key val] by (simp add: registry_inv_def)
qed

lemma grow_config [simp]:
  "ms_timeout (snd (store_grow_sessions_slots mem store n)) = ms_timeout store"
  "ms_io_buffer_size (snd (store_grow_sessions_slots mem store n)) = ms_io_buffer_size store"
  by (simp_all add: store_grow_sessions_slots_def)

lemma grow_error: "fst (store_grow_sessions_slots mem store n) \<noteq> STORE_CFG_OK \<Longrightarrow>
    snd (store_grow_sessions_slots mem store n) = store"
  by (cases mem; cases "n \<le> length (ms_sessions store)")
     (simp_all only: store_grow_sessions_slots_def simp_thms if_True if_False fst_conv snd_conv)

lemma config_set_get:
  assumes "fst (store_config_set mem store key val) = STORE_CFG_OK"
  shows "store_config_get (snd (store_config_set mem store key val)) key' =
      (if key' = key then val else store_config_get store key')"
proof (cases key)
  case STORE_CFG_SESSIONS_CAP
  with assms show ?thesis
    by (cases key'; simp add: store_config_set_def store_config_get_def Let_def case_prod_beta split: if_splits)
qed (use assms in \<open>cases key'; simp add: store_config_set_def store_config_get_def split: if_splits\<close>)+

lemma config_set_error:
  assumes "fst (store_config_set mem store key val) \<noteq> STORE_CFG_OK"
  shows "snd (store_config_set mem store key val) = store"
proof (cases key)
  case STORE_CFG_SESSIONS_CAP
  with assms show ?thesis
    by (auto simp: store_config_set_def Let_def case_prod_beta grow_error split: if_splits)
qed (use assms in \<open>auto simp: store_config_set_def\<close>)

text \<open>The values \<open>CONFIG\<close> accepts.\<close>

definition config_accepts :: "bool \<Rightarrow> monitor_store \<Rightarrow> store_config_key \<Rightarrow> nat \<Rightarrow> bool" where
  "config_accepts mem store key val = (case key of
      STORE_CFG_TIMEOUT \<Rightarrow> val \<le> 86400
    | STORE_CFG_SESSIONS_CAP \<Rightarrow>
        1 \<le> val \<and> val \<le> 16384 \<and> length (filter n_active (ms_sessions store)) \<le> val \<and>
        (mem \<or> val \<le> length (ms_sessions store))
    | STORE_CFG_IO_BUFFER_SIZE \<Rightarrow> 1024 \<le> val \<and> val \<le> 65536)"

lemma config_set_iff:
  assumes "sessions_inv store"
  shows "fst (store_config_set mem store key val) = STORE_CFG_OK \<longleftrightarrow>
    config_accepts mem store key (unat val)"
proof (cases key)
  case STORE_CFG_SESSIONS_CAP
  have "ucast val < concurrent_connections (ms_metrics store) \<longleftrightarrow>
      unat val < length (filter n_active (ms_sessions store))"
    using assms by (simp add: sessions_inv_def word_less_nat_alt)
  moreover have "val > ms_sessions_cap store \<or> unat val \<le> length (ms_sessions store)"
    using assms by (auto simp: sessions_inv_def word_less_nat_alt)
  ultimately show ?thesis
    using STORE_CFG_SESSIONS_CAP
    by (auto simp: store_config_set_def config_accepts_def store_grow_sessions_slots_def Let_def
        STORE_SESSIONS_CAP_MIN_def STORE_SESSIONS_CAP_MAX_def word_less_nat_alt split: if_splits)
qed (auto simp: store_config_set_def config_accepts_def word_less_nat_alt)

lemma remove_view [simp]: "log_view (store_session_remove store i) = log_view store"
  by (simp add: log_view_def store_session_remove_def Let_def)

lemma end_view:
  assumes "registry_inv store" "store_find_session store sid = Some i"
    and "n_log_id (ms_sessions store ! i) \<noteq> STORE_LOG_INVALID"
  shows "log_view (store_session_end store sid) =
    map (\<lambda>e. if l_id e = n_log_id (ms_sessions store ! i)
             then log_entry_close STORE_LOG_CLOSED (s_bytes_up (n_info (ms_sessions store ! i)))
                    (s_bytes_down (n_info (ms_sessions store ! i))) e
             else e) (log_view store)"
  using assms by (simp add: store_session_end_def Let_def update_view registry_inv_def)

lemma cap_default_ok:
  "STORE_SESSIONS_CAP_MIN \<le> STORE_SESSIONS_CAP_DEFAULT" "STORE_SESSIONS_CAP_DEFAULT \<le> STORE_SESSIONS_CAP_MAX"
  by (simp_all add: STORE_SESSIONS_CAP_MIN_def STORE_SESSIONS_CAP_MAX_def STORE_SESSIONS_CAP_DEFAULT_def)

lemma store_create_registry:
  "store_create True True = Some store \<Longrightarrow> registry_inv store \<and> sessions_map store = (\<lambda>_. None)"
  by (auto simp: store_create_def zero_store_def zero_node_def registry_inv_def sessions_inv_def ids_inv_def
      log_inv_def slot_distinct_def sessions_map_def slot_find_None slot_key_def fun_eq_iff Let_def cap_default_ok)

end
