(* ===== verification/Store_Acl.thy ===== *)
theory Store_Acl
  imports Store_Sessions
begin

text \<open>
  The ACL of \<^verbatim>\<open>store.c\<close>: two singly linked lists of rules, denied hosts and denied addresses, each
  with a head and a tail pointer. The rules live in the heap \<open>ms_rules\<close>; a \<open>next\<close> pointer is followed
  through the heap, so that a stale pointer is a use after free and a cycle a loop that never
  ends. \<open>acl_state\<close> is the invariant (two disjoint lists that use every rule of the heap, each tail
  pointer at the last rule), and each operation is shown to be the corresponding operation on the
  lists of targets. The address conversions \<open>inet_pton\<close> and \<open>inet_ntop\<close> are parameters.
\<close>

section \<open>Operations\<close>

record net_lib =
  inet_pton4 :: "string \<Rightarrow> byte list option"
  inet_pton6 :: "string \<Rightarrow> byte list option"
  inet_ntop4 :: "byte list \<Rightarrow> string option"
  inet_ntop6 :: "byte list \<Rightarrow> string option"

definition host_rule_match :: "acl_rule \<Rightarrow> string \<Rightarrow> bool" where
  "host_rule_match rule hostname = (case r_target rule of Acl_host h \<Rightarrow> h = hostname | _ \<Rightarrow> False)"

definition ip_rule_match :: "net_lib \<Rightarrow> acl_rule \<Rightarrow> string \<Rightarrow> bool" where
  "ip_rule_match net rule ip =
     (case inet_pton4 net ip of
        Some addr4 \<Rightarrow> r_target rule = Acl_ipv4 addr4
      | None \<Rightarrow> (case inet_pton6 net ip of
                   Some addr6 \<Rightarrow> r_target rule = Acl_ipv6 addr6
                 | None \<Rightarrow> False))"

text \<open>
  The loops over a list: the first rule that matches, with its predecessor. A list that is not
  left after as many steps as there are rules is cyclic.
\<close>

fun acl_walk :: "nat \<Rightarrow> (nat \<times> acl_rule) list \<Rightarrow> (acl_rule \<Rightarrow> bool) \<Rightarrow> nat option \<Rightarrow> nat option \<Rightarrow>
    (nat option \<times> nat) option run" where
  "acl_walk fuel rules matches previous None = Inr None"
| "acl_walk 0 rules matches previous (Some current) = Inl No_return"
| "acl_walk (Suc fuel) rules matches previous (Some current) =
     (case map_of rules current of
        None \<Rightarrow> Inl Use_after_free
      | Some rule \<Rightarrow>
          if matches rule then Inr (Some (previous, current))
          else acl_walk fuel rules matches (Some current) (r_next rule))"

definition acl_search ::
  "(nat \<times> acl_rule) list \<Rightarrow> (acl_rule \<Rightarrow> bool) \<Rightarrow> nat option \<Rightarrow> (nat option \<times> nat) option run" where
  "acl_search rules matches head = acl_walk (length rules) rules matches None head"

definition is_host_denied :: "monitor_store \<Rightarrow> string option \<Rightarrow> bool run" where
  "is_host_denied store hostname =
     (case hostname of
        None \<Rightarrow> Inr False
      | Some h \<Rightarrow>
          run_bind (acl_search (ms_rules store) (\<lambda>r. host_rule_match r h) (ms_denied_hosts store))
            (\<lambda>found. Inr (found \<noteq> None)))"

definition is_ip_denied :: "net_lib \<Rightarrow> monitor_store \<Rightarrow> string option \<Rightarrow> bool run" where
  "is_ip_denied net store ip =
     (case ip of
        None \<Rightarrow> Inr False
      | Some s \<Rightarrow>
          run_bind (acl_search (ms_rules store) (\<lambda>r. ip_rule_match net r s) (ms_denied_addresses store))
            (\<lambda>found. Inr (found \<noteq> None)))"

text \<open>\<open>last->next = rule; last = rule;\<close>, or the first rule of the list.\<close>

definition acl_link ::
  "(nat \<times> acl_rule) list \<Rightarrow> nat option \<Rightarrow> nat option \<Rightarrow> nat \<Rightarrow>
   ((nat \<times> acl_rule) list \<times> nat option \<times> nat option) run" where
  "acl_link rules head tail a =
     (case tail of
        None \<Rightarrow> Inr (rules, Some a, Some a)
      | Some l \<Rightarrow>
          (case map_of rules l of
             None \<Rightarrow> Inl Use_after_free
           | Some r \<Rightarrow> Inr (AList.update l (r\<lparr>r_next := Some a\<rparr>) rules, head, Some a)))"

definition add_host_rule :: "monitor_store \<Rightarrow> nat \<Rightarrow> monitor_store run" where
  "add_host_rule store a =
     run_bind (acl_link (ms_rules store) (ms_denied_hosts store) (ms_last_denied_host store) a)
       (\<lambda>(rules, head, tail). Inr (store\<lparr>ms_rules := rules, ms_denied_hosts := head, ms_last_denied_host := tail\<rparr>))"

definition add_ip_rule :: "monitor_store \<Rightarrow> nat \<Rightarrow> monitor_store run" where
  "add_ip_rule store a =
     run_bind (acl_link (ms_rules store) (ms_denied_addresses store) (ms_last_denied_addr store) a)
       (\<lambda>(rules, head, tail). Inr (store\<lparr>ms_rules := rules, ms_denied_addresses := head, ms_last_denied_addr := tail\<rparr>))"

text \<open>\<open>mem\<close> is the address \<open>calloc\<close> returns; the result is written through without a check.\<close>

definition store_deny_host ::
  "net_lib \<Rightarrow> nat option \<Rightarrow> monitor_store \<Rightarrow> string option \<Rightarrow> (bool \<times> monitor_store) run" where
  "store_deny_host net mem store hostname =
     run_bind (is_host_denied store hostname) (\<lambda>denied.
       if denied then Inr (False, store)
       else case hostname of
              None \<Rightarrow> Inl Null_pointer
            | Some h \<Rightarrow>
                if inet_pton4 net h \<noteq> None \<or> inet_pton6 net h \<noteq> None then Inr (False, store)
                else (case mem of
                        None \<Rightarrow> Inl Null_pointer
                      | Some a \<Rightarrow>
                          run_bind (ensure (length h \<le> STORE_MAX_DEST_HOST) Out_of_bounds) (\<lambda>_.
                          run_bind (add_host_rule
                            (store\<lparr>ms_rules := AList.update a
                               \<lparr>r_type = ACL_DENIED_HOST, r_target = Acl_host h, r_next = None\<rparr> (ms_rules store)\<rparr>) a)
                            (\<lambda>store'. Inr (True, store')))))"

definition store_deny_ip ::
  "net_lib \<Rightarrow> nat option \<Rightarrow> monitor_store \<Rightarrow> string option \<Rightarrow> (bool \<times> monitor_store) run" where
  "store_deny_ip net mem store ip =
     run_bind (is_ip_denied net store ip) (\<lambda>denied.
       if denied then Inr (False, store)
       else case mem of
              None \<Rightarrow> Inl Null_pointer
            | Some a \<Rightarrow>
                (case ip of
                   None \<Rightarrow> Inl Null_pointer
                 | Some s \<Rightarrow>
                     (let add = (\<lambda>t. run_bind (add_ip_rule
                            (store\<lparr>ms_rules := AList.update a
                               \<lparr>r_type = ACL_DENIED_ADDRESS, r_target = t, r_next = None\<rparr> (ms_rules store)\<rparr>) a)
                            (\<lambda>store'. Inr (True, store')))
                      in case inet_pton4 net s of
                           Some b \<Rightarrow> add (Acl_ipv4 b)
                         | None \<Rightarrow> (case inet_pton6 net s of
                                      Some b \<Rightarrow> add (Acl_ipv6 b)
                                    | None \<Rightarrow> Inr (False, store)))))"

text \<open>Unlink the rule that was found and free it.\<close>

definition acl_unlink ::
  "(nat \<times> acl_rule) list \<Rightarrow> nat option \<Rightarrow> nat option \<Rightarrow> nat option \<Rightarrow> nat \<Rightarrow>
   ((nat \<times> acl_rule) list \<times> nat option \<times> nat option) run" where
  "acl_unlink rules head tail previous current =
     (case map_of rules current of
        None \<Rightarrow> Inl Use_after_free
      | Some r \<Rightarrow>
          (let tail' = (if tail = Some current then previous else tail)
           in case previous of
                None \<Rightarrow> Inr (AList.delete current rules, r_next r, tail')
              | Some p \<Rightarrow>
                  (case map_of rules p of
                     None \<Rightarrow> Inl Use_after_free
                   | Some rp \<Rightarrow>
                       Inr (AList.delete current (AList.update p (rp\<lparr>r_next := r_next r\<rparr>) rules), head, tail'))))"

definition store_undeny_host :: "monitor_store \<Rightarrow> string option \<Rightarrow> (bool \<times> monitor_store) run" where
  "store_undeny_host store hostname =
     (case hostname of
        None \<Rightarrow> Inr (False, store)
      | Some h \<Rightarrow>
          run_bind (acl_search (ms_rules store) (\<lambda>r. host_rule_match r h) (ms_denied_hosts store)) (\<lambda>found.
            case found of
              None \<Rightarrow> Inr (False, store)
            | Some (previous, current) \<Rightarrow>
                run_bind (acl_unlink (ms_rules store) (ms_denied_hosts store) (ms_last_denied_host store)
                            previous current)
                  (\<lambda>(rules, head, tail).
                     Inr (True, store\<lparr>ms_rules := rules, ms_denied_hosts := head, ms_last_denied_host := tail\<rparr>))))"

definition store_undeny_ip :: "net_lib \<Rightarrow> monitor_store \<Rightarrow> string option \<Rightarrow> (bool \<times> monitor_store) run" where
  "store_undeny_ip net store ip =
     (case ip of
        None \<Rightarrow> Inr (False, store)
      | Some s \<Rightarrow>
          run_bind (acl_search (ms_rules store) (\<lambda>r. ip_rule_match net r s) (ms_denied_addresses store)) (\<lambda>found.
            case found of
              None \<Rightarrow> Inr (False, store)
            | Some (previous, current) \<Rightarrow>
                run_bind (acl_unlink (ms_rules store) (ms_denied_addresses store) (ms_last_denied_addr store)
                            previous current)
                  (\<lambda>(rules, head, tail).
                     Inr (True, store\<lparr>ms_rules := rules, ms_denied_addresses := head, ms_last_denied_addr := tail\<rparr>))))"

definition get_denied_hosts :: "monitor_store \<Rightarrow> nat option" where
  "get_denied_hosts store = ms_denied_hosts store"

definition get_denied_ips :: "monitor_store \<Rightarrow> nat option" where
  "get_denied_ips store = ms_denied_addresses store"

definition acl_rule_to_string :: "net_lib \<Rightarrow> acl_rule option \<Rightarrow> string" where
  "acl_rule_to_string net rule =
     (case rule of
        None \<Rightarrow> ''NULL''
      | Some r \<Rightarrow>
          (case r_target r of
             Acl_host h \<Rightarrow> h
           | Acl_ipv4 b \<Rightarrow> (case inet_ntop4 net b of Some s \<Rightarrow> s | None \<Rightarrow> ''?'')
           | Acl_ipv6 b \<Rightarrow> (case inet_ntop6 net b of Some s \<Rightarrow> s | None \<Rightarrow> ''?'')))"

text \<open>\<open>free_acl_list\<close> and \<open>store_destroy\<close>: the rules that are left in the heap.\<close>

fun free_acl_list :: "nat \<Rightarrow> (nat \<times> acl_rule) list \<Rightarrow> nat option \<Rightarrow> (nat \<times> acl_rule) list run" where
  "free_acl_list fuel rules None = Inr rules"
| "free_acl_list 0 rules (Some a) = Inl No_return"
| "free_acl_list (Suc fuel) rules (Some a) =
     (case map_of rules a of
        None \<Rightarrow> Inl Use_after_free
      | Some r \<Rightarrow> free_acl_list fuel (AList.delete a rules) (r_next r))"

definition store_destroy :: "monitor_store option \<Rightarrow> (nat \<times> acl_rule) list run" where
  "store_destroy store =
     (case store of
        None \<Rightarrow> Inr []
      | Some s \<Rightarrow>
          run_bind (free_acl_list (length (ms_rules s)) (ms_rules s) (ms_denied_hosts s)) (\<lambda>rules.
            free_acl_list (length (ms_rules s)) rules (ms_denied_addresses s)))"

section \<open>List segments\<close>

fun seg :: "(nat \<Rightarrow> acl_rule option) \<Rightarrow> nat option \<Rightarrow> nat list \<Rightarrow> nat option \<Rightarrow> bool" where
  "seg h p [] q \<longleftrightarrow> p = q"
| "seg h p (a # as) q \<longleftrightarrow> p = Some a \<and> (\<exists>r. h a = Some r \<and> seg h (r_next r) as q)"

lemma seg_append: "seg h p (as @ bs) q \<longleftrightarrow> (\<exists>m. seg h p as m \<and> seg h m bs q)"
  by (induction as arbitrary: p) auto

lemma seg_upd [simp]: "a \<notin> set as \<Longrightarrow> seg (h(a := x)) p as q = seg h p as q"
  by (induction as arbitrary: p) auto

lemma seg_dom: "seg h p as q \<Longrightarrow> set as \<subseteq> dom h"
  by (induction as arbitrary: p) auto

lemma seg_start: "seg h p as None \<Longrightarrow> p = None \<longleftrightarrow> as = []"
  by (cases as) auto

definition targets :: "(nat \<Rightarrow> acl_rule option) \<Rightarrow> nat list \<Rightarrow> acl_target list" where
  "targets h as = map (\<lambda>a. r_target (the (h a))) as"

lemma targets_simps [simp]:
  "targets h [] = []" "targets h (a # as) = r_target (the (h a)) # targets h as"
  "targets h (as @ bs) = targets h as @ targets h bs" "length (targets h as) = length as"
  by (simp_all add: targets_def)

lemma targets_upd [simp]: "a \<notin> set as \<Longrightarrow> targets (h(a := x)) as = targets h as"
  by (auto simp: targets_def)

lemma targets_next: "h a = Some r \<Longrightarrow> targets (h(a \<mapsto> r\<lparr>r_next := n\<rparr>)) as = targets h as"
  by (auto simp: targets_def)

definition acl_chain :: "(nat \<Rightarrow> acl_rule option) \<Rightarrow> nat option \<Rightarrow> nat option \<Rightarrow> nat list \<Rightarrow> bool" where
  "acl_chain h head tail as \<longleftrightarrow>
     seg h head as None \<and> distinct as \<and> tail = (if as = [] then None else Some (last as))"

lemma acl_walk_seg:
  assumes "seg (map_of rules) p as None" and "length as \<le> fuel"
  shows "acl_walk fuel rules m prev p =
    Inr (map_option (\<lambda>i. (if i = 0 then prev else Some (as ! (i - 1)), as ! i))
           (first_idx (\<lambda>a. m (the (map_of rules a))) as))"
  using assms
proof (induction as arbitrary: p prev fuel)
  case (Cons a as)
  then obtain r k where r: "p = Some a" "map_of rules a = Some r" "seg (map_of rules) (r_next r) as None"
    "fuel = Suc k" "length as \<le> k" by (cases fuel) auto
  show ?case
  proof (cases "m r")
    case False
    have "acl_walk fuel rules m prev p = acl_walk k rules m (Some a) (r_next r)" using r False by simp
    also have "\<dots> = Inr (map_option (\<lambda>i. (if i = 0 then Some a else Some (as ! (i - 1)), as ! i))
           (first_idx (\<lambda>a. m (the (map_of rules a))) as))"
      by (rule Cons.IH) (use r in auto)
    finally show ?thesis
      using r False by (simp add: option.map_comp o_def cong: option.map_cong)
        (auto simp: nth_Cons' intro!: option.map_cong)
  qed (use r in simp)
qed simp

lemma chain_length:
  assumes "acl_chain (map_of rules) head tail as"
  shows "length as \<le> length rules"
proof -
  have "set as \<subseteq> fst ` set rules" using assms seg_dom by (fastforce simp: acl_chain_def dom_map_of_conv_image_fst)
  then have "card (set as) \<le> card (fst ` set rules)" by (intro card_mono) auto
  also have "\<dots> \<le> length rules" by (metis card_length length_map list.set_map)
  finally show ?thesis using assms by (simp add: acl_chain_def distinct_card)
qed

lemma acl_search_chain:
  assumes "acl_chain (map_of rules) head tail as"
  shows "acl_search rules m head =
    Inr (map_option (\<lambda>i. (if i = 0 then None else Some (as ! (i - 1)), as ! i))
           (first_idx (\<lambda>a. m (the (map_of rules a))) as))"
  unfolding acl_search_def
  by (rule acl_walk_seg) (use assms chain_length in \<open>auto simp: acl_chain_def\<close>)

lemma acl_link_chain:
  assumes "acl_chain (map_of rules) head tail as" and "map_of rules a = Some r" "r_next r = None" "a \<notin> set as"
  shows "\<exists>rules' head' tail'. acl_link rules head tail a = Inr (rules', head', tail') \<and>
    acl_chain (map_of rules') head' tail' (as @ [a]) \<and>
    (\<forall>bs. set bs \<inter> set as = {} \<longrightarrow> (\<forall>p q. seg (map_of rules') p bs q = seg (map_of rules) p bs q)) \<and>
    (\<forall>bs. targets (map_of rules') bs = targets (map_of rules) bs) \<and>
    dom (map_of rules') = dom (map_of rules)"
proof (cases as rule: rev_cases)
  case Nil
  with assms show ?thesis by (auto simp: acl_link_def acl_chain_def)
next
  case (snoc zs l)
  then obtain rl where rl: "map_of rules l = Some rl" "seg (map_of rules) head zs (Some l)" "r_next rl = None"
    using assms(1) by (auto simp: acl_chain_def seg_append)
  have d: "l \<notin> set zs" "l \<noteq> a" "a \<notin> set zs" "tail = Some l" "distinct zs"
    using assms snoc by (auto simp: acl_chain_def)
  let ?r = "AList.update l (rl\<lparr>r_next := Some a\<rparr>) rules"
  have h: "map_of ?r = (map_of rules)(l \<mapsto> rl\<lparr>r_next := Some a\<rparr>)" by (simp add: update_conv')
  have "acl_link rules head tail a = Inr (?r, head, Some a)"
    using rl d by (simp add: acl_link_def)
  moreover have "acl_chain (map_of ?r) head (Some a) (as @ [a])"
    using rl d assms snoc by (auto simp: acl_chain_def h seg_append)
  moreover have "seg (map_of ?r) p bs q = seg (map_of rules) p bs q" if "set bs \<inter> set as = {}" for bs p q
  proof -
    have "l \<notin> set bs" using that snoc by auto
    then show ?thesis by (simp add: h)
  qed
  moreover have "targets (map_of ?r) bs = targets (map_of rules) bs" for bs
    using rl(1) by (simp add: h targets_next)
  moreover have "dom (map_of ?r) = dom (map_of rules)" using rl(1) by (auto simp: h)
  ultimately show ?thesis by blast
qed

lemma acl_unlink_chain:
  assumes "acl_chain (map_of rules) head tail (xs @ c # ys)"
  shows "\<exists>rules' head' tail'.
    acl_unlink rules head tail (if xs = [] then None else Some (last xs)) c = Inr (rules', head', tail') \<and>
    acl_chain (map_of rules') head' tail' (xs @ ys) \<and>
    (\<forall>bs. set bs \<inter> set (xs @ c # ys) = {} \<longrightarrow>
       (\<forall>p q. seg (map_of rules') p bs q = seg (map_of rules) p bs q)) \<and>
    (\<forall>bs. c \<notin> set bs \<longrightarrow> targets (map_of rules') bs = targets (map_of rules) bs) \<and>
    dom (map_of rules') = dom (map_of rules) - {c}"
proof -
  let ?h = "map_of rules"
  from assms obtain r where r: "seg ?h head xs (Some c)" "?h c = Some r" "seg ?h (r_next r) ys None"
    by (auto simp: acl_chain_def seg_append)
  have d: "distinct (xs @ c # ys)" and tail: "tail = Some (last (c # ys))"
    using assms by (auto simp: acl_chain_def)
  define tail' where "tail' = (if tail = Some c then (if xs = [] then None else Some (last xs)) else tail)"
  have t: "tail' = (if xs @ ys = [] then None else Some (last (xs @ ys)))"
    using d tail by (cases ys rule: rev_cases) (auto simp: tail'_def)
  show ?thesis
  proof (cases xs rule: rev_cases)
    case Nil
    let ?r = "AList.delete c rules"
    have h: "map_of ?r = ?h(c := None)" by (simp add: delete_conv')
    have "acl_unlink rules head tail None c = Inr (?r, r_next r, tail')"
      using r(2) Nil by (simp add: acl_unlink_def tail'_def Let_def)
    moreover have "acl_chain (map_of ?r) (r_next r) tail' (xs @ ys)"
      using r d t Nil by (simp add: acl_chain_def h)
    ultimately show ?thesis using Nil by (auto simp: h)
  next
    case (snoc zs p)
    then obtain rp where rp: "?h p = Some rp" "seg ?h head zs (Some p)" "r_next rp = Some c"
      using r(1) by (auto simp: seg_append)
    let ?r = "AList.delete c (AList.update p (rp\<lparr>r_next := r_next r\<rparr>) rules)"
    have h: "map_of ?r = (?h(p \<mapsto> rp\<lparr>r_next := r_next r\<rparr>))(c := None)"
      by (simp add: delete_conv' update_conv')
    have link: "acl_unlink rules head tail (Some p) c = Inr (?r, head, tail')"
      using r(2) rp(1) snoc by (simp add: acl_unlink_def tail'_def Let_def)
    have chain: "acl_chain (map_of ?r) head tail' (xs @ ys)"
    proof -
      have "seg (map_of ?r) head (zs @ p # ys) None"
        using d snoc r rp by (auto simp: h seg_append)
      then show ?thesis using t d snoc by (simp add: acl_chain_def)
    qed
    have other: "seg (map_of ?r) q bs q' = seg ?h q bs q'" if "set bs \<inter> set (xs @ c # ys) = {}" for bs q q'
    proof -
      have "p \<notin> set bs" "c \<notin> set bs" using that snoc by auto
      then show ?thesis by (simp add: h)
    qed
    have tg: "targets (map_of ?r) bs = targets ?h bs" if "c \<notin> set bs" for bs
      using that rp(1) by (simp add: h targets_next)
    have dm: "dom (map_of ?r) = dom ?h - {c}" using rp(1) d snoc by (auto simp: h)
    have pr: "(if xs = [] then None else Some (last xs)) = Some p" using snoc by simp
    show ?thesis unfolding pr
      by (intro exI [of _ ?r] exI [of _ head] exI [of _ tail'] conjI allI impI)
         (fact link | fact chain | erule other | erule tg | fact dm)+
  qed
qed

section \<open>The two lists\<close>

definition acl_state :: "monitor_store \<Rightarrow> nat list \<Rightarrow> nat list \<Rightarrow> bool" where
  "acl_state store hs as \<longleftrightarrow>
     acl_chain (map_of (ms_rules store)) (ms_denied_hosts store) (ms_last_denied_host store) hs \<and>
     acl_chain (map_of (ms_rules store)) (ms_denied_addresses store) (ms_last_denied_addr store) as \<and>
     set hs \<inter> set as = {} \<and> set hs \<union> set as = dom (map_of (ms_rules store))"

definition acl_targets :: "monitor_store \<Rightarrow> nat list \<Rightarrow> acl_target list" where
  "acl_targets store as = targets (map_of (ms_rules store)) as"

text \<open>The address a text stands for, which is what the rules are compared on.\<close>

definition ip_target :: "net_lib \<Rightarrow> string \<Rightarrow> acl_target option" where
  "ip_target net ip =
     (case inet_pton4 net ip of
        Some b \<Rightarrow> Some (Acl_ipv4 b)
      | None \<Rightarrow> map_option Acl_ipv6 (inet_pton6 net ip))"

lemma host_match_target: "host_rule_match r h \<longleftrightarrow> r_target r = Acl_host h"
  by (simp add: host_rule_match_def split: acl_target.splits)

lemma ip_match_target: "ip_rule_match net r ip \<longleftrightarrow> ip_target net ip = Some (r_target r)"
  by (auto simp: ip_rule_match_def ip_target_def split: option.splits)

lemma first_idx_found:
  "map_option f (first_idx p xs) \<noteq> None \<longleftrightarrow> (\<exists>x \<in> set xs. p x)"
  by auto

lemma is_host_denied_iff:
  assumes "acl_state store hs as"
  shows "is_host_denied store (Some h) = Inr (Acl_host h \<in> set (acl_targets store hs))"
  using assms
  by (auto simp: is_host_denied_def acl_state_def acl_search_chain first_idx_found host_match_target
      acl_targets_def targets_def image_iff simp del: option.map_disc_iff not_None_eq)
     (metis)+

lemma is_ip_denied_iff:
  assumes "acl_state store hs as"
  shows "is_ip_denied net store (Some ip) = Inr (\<exists>t. ip_target net ip = Some t \<and> t \<in> set (acl_targets store as))"
  using assms
  by (auto simp: is_ip_denied_def acl_state_def acl_search_chain first_idx_found ip_match_target
      acl_targets_def targets_def image_iff simp del: option.map_disc_iff not_None_eq)
     (metis)+

lemma acl_fresh:
  assumes "acl_state store hs as" and "map_of (ms_rules store) a = None"
  shows "a \<notin> set hs" "a \<notin> set as"
  using assms by (auto simp: acl_state_def)

text \<open>Everything but the ACL is left alone.\<close>

definition acl_frame :: "monitor_store \<Rightarrow> monitor_store \<Rightarrow> bool" where
  "acl_frame store store' \<longleftrightarrow>
     (\<exists>rules h l a b. store' = store\<lparr>ms_rules := rules, ms_denied_hosts := h, ms_last_denied_host := l,
        ms_denied_addresses := a, ms_last_denied_addr := b\<rparr>)"

lemma acl_frame_refl [simp]: "acl_frame store store"
  unfolding acl_frame_def
  by (intro exI [of _ "ms_rules store"] exI [of _ "ms_denied_hosts store"]
      exI [of _ "ms_last_denied_host store"] exI [of _ "ms_denied_addresses store"]
      exI [of _ "ms_last_denied_addr store"]) simp

lemma acl_frame_hosts: "acl_frame store (store\<lparr>ms_rules := r, ms_denied_hosts := h, ms_last_denied_host := l\<rparr>)"
  unfolding acl_frame_def
  by (intro exI [of _ r] exI [of _ h] exI [of _ l] exI [of _ "ms_denied_addresses store"]
      exI [of _ "ms_last_denied_addr store"]) simp

lemma acl_frame_addrs: "acl_frame store (store\<lparr>ms_rules := r, ms_denied_addresses := h, ms_last_denied_addr := l\<rparr>)"
  unfolding acl_frame_def
  by (intro exI [of _ r] exI [of _ "ms_denied_hosts store"] exI [of _ "ms_last_denied_host store"]
      exI [of _ h] exI [of _ l]) simp

lemma fresh_rule_chain:
  assumes "acl_chain (map_of rules) head tail as" "a \<notin> set as"
  shows "acl_chain (map_of (AList.update a r rules)) head tail as"
  using assms by (simp add: acl_chain_def update_conv')

lemma host_added:
  fixes t :: acl_target
  assumes st: "acl_state store hs as" and fresh: "map_of (ms_rules store) a = None"
  defines "r \<equiv> \<lparr>r_type = ACL_DENIED_HOST, r_target = t, r_next = None\<rparr>"
  shows "\<exists>store'. add_host_rule (store\<lparr>ms_rules := AList.update a r (ms_rules store)\<rparr>) a = Inr store' \<and>
    acl_state store' (hs @ [a]) as \<and> acl_targets store' (hs @ [a]) = acl_targets store hs @ [t] \<and>
    acl_targets store' as = acl_targets store as \<and> acl_frame store store'"
proof -
  let ?rules = "AList.update a r (ms_rules store)"
  note f = acl_fresh [OF st fresh]
  have h: "map_of ?rules = (map_of (ms_rules store))(a \<mapsto> r)" by (simp add: update_conv')
  have ar: "map_of ?rules a = Some r" and nx: "r_next r = None" and rt: "r_target r = t"
    by (simp_all add: update_conv' r_def)
  have c: "acl_chain (map_of ?rules) (ms_denied_hosts store) (ms_last_denied_host store) hs"
    "acl_chain (map_of ?rules) (ms_denied_addresses store) (ms_last_denied_addr store) as"
    using st f by (simp_all add: acl_state_def fresh_rule_chain)
  obtain rules' head' tail' where link:
    "acl_link ?rules (ms_denied_hosts store) (ms_last_denied_host store) a = Inr (rules', head', tail')"
    "acl_chain (map_of rules') head' tail' (hs @ [a])"
    "\<And>bs p q. set bs \<inter> set hs = {} \<Longrightarrow> seg (map_of rules') p bs q = seg (map_of ?rules) p bs q"
    "\<And>bs. targets (map_of rules') bs = targets (map_of ?rules) bs"
    "dom (map_of rules') = dom (map_of ?rules)"
    using acl_link_chain [OF c(1) ar nx f(1)] by auto
  let ?s = "store\<lparr>ms_rules := rules', ms_denied_hosts := head', ms_last_denied_host := tail'\<rparr>"
  have "add_host_rule (store\<lparr>ms_rules := ?rules\<rparr>) a = Inr ?s"
    using link(1) by (simp add: add_host_rule_def)
  moreover have "acl_state ?s (hs @ [a]) as"
    using link(2,5) link(3) [of as] c(2) st f by (auto simp: acl_state_def acl_chain_def h Int_commute)
  moreover have tg: "acl_targets ?s bs = targets (map_of ?rules) bs" for bs
    using link(4) by (simp add: acl_targets_def)
  have "acl_targets ?s (hs @ [a]) = acl_targets store hs @ [t]" "acl_targets ?s as = acl_targets store as"
    unfolding tg h using f rt by (simp_all add: acl_targets_def)
  ultimately show ?thesis using acl_frame_hosts by blast
qed

lemma addr_added:
  fixes t :: acl_target
  assumes st: "acl_state store hs as" and fresh: "map_of (ms_rules store) a = None"
  defines "r \<equiv> \<lparr>r_type = ACL_DENIED_ADDRESS, r_target = t, r_next = None\<rparr>"
  shows "\<exists>store'. add_ip_rule (store\<lparr>ms_rules := AList.update a r (ms_rules store)\<rparr>) a = Inr store' \<and>
    acl_state store' hs (as @ [a]) \<and> acl_targets store' (as @ [a]) = acl_targets store as @ [t] \<and>
    acl_targets store' hs = acl_targets store hs \<and> acl_frame store store'"
proof -
  let ?rules = "AList.update a r (ms_rules store)"
  note f = acl_fresh [OF st fresh]
  have h: "map_of ?rules = (map_of (ms_rules store))(a \<mapsto> r)" by (simp add: update_conv')
  have ar: "map_of ?rules a = Some r" and nx: "r_next r = None" and rt: "r_target r = t"
    by (simp_all add: update_conv' r_def)
  have c: "acl_chain (map_of ?rules) (ms_denied_hosts store) (ms_last_denied_host store) hs"
    "acl_chain (map_of ?rules) (ms_denied_addresses store) (ms_last_denied_addr store) as"
    using st f by (simp_all add: acl_state_def fresh_rule_chain)
  obtain rules' head' tail' where link:
    "acl_link ?rules (ms_denied_addresses store) (ms_last_denied_addr store) a = Inr (rules', head', tail')"
    "acl_chain (map_of rules') head' tail' (as @ [a])"
    "\<And>bs p q. set bs \<inter> set as = {} \<Longrightarrow> seg (map_of rules') p bs q = seg (map_of ?rules) p bs q"
    "\<And>bs. targets (map_of rules') bs = targets (map_of ?rules) bs"
    "dom (map_of rules') = dom (map_of ?rules)"
    using acl_link_chain [OF c(2) ar nx f(2)] by auto
  let ?s = "store\<lparr>ms_rules := rules', ms_denied_addresses := head', ms_last_denied_addr := tail'\<rparr>"
  have "add_ip_rule (store\<lparr>ms_rules := ?rules\<rparr>) a = Inr ?s"
    using link(1) by (simp add: add_ip_rule_def)
  moreover have "acl_state ?s hs (as @ [a])"
    using link(2,5) link(3) [of hs] c(1) st f by (auto simp: acl_state_def acl_chain_def h Int_commute)
  moreover have tg: "acl_targets ?s bs = targets (map_of ?rules) bs" for bs
    using link(4) by (simp add: acl_targets_def)
  have "acl_targets ?s (as @ [a]) = acl_targets store as @ [t]" "acl_targets ?s hs = acl_targets store hs"
    unfolding tg h using f rt by (simp_all add: acl_targets_def)
  ultimately show ?thesis using acl_frame_addrs by blast
qed

lemma chain_found:
  assumes "first_idx m as = Some i"
  obtains xs c ys where "as = xs @ c # ys" "m c" "\<forall>x \<in> set xs. \<not> m x" "as ! i = c"
    "(if i = 0 then None else Some (as ! (i - 1))) = (if xs = [] then None else Some (last xs))"
proof -
  note f = first_idx_SomeD [OF assms]
  let ?xs = "take i as"
  have "as = ?xs @ as ! i # drop (Suc i) as" using f by (simp add: id_take_nth_drop)
  moreover have "(if i = 0 then None else Some (as ! (i - 1))) = (if ?xs = [] then None else Some (last ?xs))"
    using f by (auto simp: last_conv_nth)
  moreover have "\<forall>x \<in> set ?xs. \<not> m x" using f by (auto simp: in_set_conv_nth)
  ultimately show thesis using that f by blast
qed

lemma remove1_targets:
  assumes "\<forall>x \<in> set xs. r_target (the (h x)) \<noteq> t" "r_target (the (h c)) = t"
  shows "remove1 t (targets h (xs @ c # ys)) = targets h (xs @ ys)"
  using assms by (induction xs) auto

lemma host_removed:
  assumes st: "acl_state store hs as"
  shows "\<exists>store'. store_undeny_host store (Some h) = Inr (Acl_host h \<in> set (acl_targets store hs), store') \<and>
    (\<exists>hs'. acl_state store' hs' as \<and> acl_targets store' hs' = remove1 (Acl_host h) (acl_targets store hs)) \<and>
    acl_targets store' as = acl_targets store as \<and> acl_frame store store'"
proof -
  let ?h = "map_of (ms_rules store)" and ?m = "\<lambda>a. host_rule_match (the (map_of (ms_rules store) a)) h"
  have c: "acl_chain ?h (ms_denied_hosts store) (ms_last_denied_host store) hs"
    "acl_chain ?h (ms_denied_addresses store) (ms_last_denied_addr store) as"
    "set hs \<inter> set as = {}" "set hs \<union> set as = dom ?h"
    using st by (simp_all add: acl_state_def)
  show ?thesis
  proof (cases "first_idx ?m hs")
    case None
    then have "store_undeny_host store (Some h) = Inr (False, store)"
      using acl_search_chain [OF c(1)] by (simp add: store_undeny_host_def del: first_idx_None)
    moreover have "Acl_host h \<notin> set (acl_targets store hs)"
      using None by (auto simp: acl_targets_def targets_def host_match_target)
    ultimately show ?thesis using st by (auto simp: remove1_idem)
  next
    case (Some i)
    from chain_found [OF Some] obtain xs x ys where x: "hs = xs @ x # ys" "?m x" "\<forall>y \<in> set xs. \<not> ?m y" "hs ! i = x"
      "(if i = 0 then None else Some (hs ! (i - 1))) = (if xs = [] then None else Some (last xs))" .
    let ?p = "if xs = [] then None else Some (last xs)"
    obtain rules' head' tail' where u:
      "acl_unlink (ms_rules store) (ms_denied_hosts store) (ms_last_denied_host store) ?p x = Inr (rules', head', tail')"
      "acl_chain (map_of rules') head' tail' (xs @ ys)"
      "\<And>bs p q. set bs \<inter> set (xs @ x # ys) = {} \<Longrightarrow> seg (map_of rules') p bs q = seg ?h p bs q"
      "\<And>bs. x \<notin> set bs \<Longrightarrow> targets (map_of rules') bs = targets ?h bs"
      "dom (map_of rules') = dom ?h - {x}"
      using acl_unlink_chain [OF c(1) [unfolded x(1)]] by auto
    let ?s = "store\<lparr>ms_rules := rules', ms_denied_hosts := head', ms_last_denied_host := tail'\<rparr>"
    have d: "x \<notin> set (xs @ ys)" "x \<notin> set as" "set as \<inter> set (xs @ x # ys) = {}"
      using c x(1) by (auto simp: acl_chain_def)
    have "store_undeny_host store (Some h) = Inr (True, ?s)"
      using acl_search_chain [OF c(1)] Some u(1) x(4,5) by (simp add: store_undeny_host_def)
    moreover have "acl_state ?s (xs @ ys) as"
      using u(2,3,5) c d x(1) by (auto simp: acl_state_def acl_chain_def)
    moreover have "acl_targets ?s (xs @ ys) = remove1 (Acl_host h) (acl_targets store hs)"
      using u(4) [OF d(1)] remove1_targets [of xs ?h "Acl_host h" x ys] x(1,2,3)
      by (simp add: acl_targets_def host_match_target)
    moreover have "acl_targets ?s as = acl_targets store as" using u(4) [OF d(2)] by (simp add: acl_targets_def)
    moreover have "Acl_host h \<in> set (acl_targets store hs)"
      using x(1,2) by (simp add: acl_targets_def host_match_target)
    ultimately show ?thesis using acl_frame_hosts by metis
  qed
qed

lemma addr_removed:
  assumes st: "acl_state store hs as"
  shows "\<exists>store'. store_undeny_ip net store (Some ip) =
      Inr (\<exists>t. ip_target net ip = Some t \<and> t \<in> set (acl_targets store as), store') \<and>
    (\<exists>as'. acl_state store' hs as' \<and> acl_targets store' as' =
       (case ip_target net ip of None \<Rightarrow> acl_targets store as | Some t \<Rightarrow> remove1 t (acl_targets store as))) \<and>
    acl_targets store' hs = acl_targets store hs \<and> acl_frame store store'"
proof -
  let ?h = "map_of (ms_rules store)" and ?m = "\<lambda>a. ip_rule_match net (the (map_of (ms_rules store) a)) ip"
  have c: "acl_chain ?h (ms_denied_hosts store) (ms_last_denied_host store) hs"
    "acl_chain ?h (ms_denied_addresses store) (ms_last_denied_addr store) as"
    "set hs \<inter> set as = {}" "set hs \<union> set as = dom ?h"
    using st by (simp_all add: acl_state_def)
  show ?thesis
  proof (cases "first_idx ?m as")
    case None
    then have "store_undeny_ip net store (Some ip) = Inr (False, store)"
      using acl_search_chain [OF c(2)] by (simp add: store_undeny_ip_def del: first_idx_None)
    moreover have n: "t \<notin> set (acl_targets store as)" if "ip_target net ip = Some t" for t
      using None that by (auto simp: acl_targets_def targets_def ip_match_target)
    ultimately show ?thesis using st
      by (intro exI [of _ store] conjI exI [of _ as]) (auto simp: remove1_idem split: option.splits)
  next
    case (Some i)
    from chain_found [OF Some] obtain xs x ys where x: "as = xs @ x # ys" "?m x" "\<forall>y \<in> set xs. \<not> ?m y" "as ! i = x"
      "(if i = 0 then None else Some (as ! (i - 1))) = (if xs = [] then None else Some (last xs))" .
    let ?p = "if xs = [] then None else Some (last xs)"
    obtain rules' head' tail' where u:
      "acl_unlink (ms_rules store) (ms_denied_addresses store) (ms_last_denied_addr store) ?p x = Inr (rules', head', tail')"
      "acl_chain (map_of rules') head' tail' (xs @ ys)"
      "\<And>bs p q. set bs \<inter> set (xs @ x # ys) = {} \<Longrightarrow> seg (map_of rules') p bs q = seg ?h p bs q"
      "\<And>bs. x \<notin> set bs \<Longrightarrow> targets (map_of rules') bs = targets ?h bs"
      "dom (map_of rules') = dom ?h - {x}"
      using acl_unlink_chain [OF c(2) [unfolded x(1)]] by auto
    let ?s = "store\<lparr>ms_rules := rules', ms_denied_addresses := head', ms_last_denied_addr := tail'\<rparr>"
    obtain t where t: "ip_target net ip = Some t" "r_target (the (?h x)) = t"
      using x(2) by (auto simp: ip_match_target)
    have ne: "\<forall>y \<in> set xs. r_target (the (?h y)) \<noteq> t"
      using x(3) t(1) by (auto simp: ip_match_target)
    have d: "x \<notin> set (xs @ ys)" "x \<notin> set hs" "set hs \<inter> set (xs @ x # ys) = {}"
      using c x(1) by (auto simp: acl_chain_def)
    have "store_undeny_ip net store (Some ip) = Inr (True, ?s)"
      using acl_search_chain [OF c(2)] Some u(1) x(4,5) by (simp add: store_undeny_ip_def)
    moreover have "acl_state ?s hs (xs @ ys)"
      using u(2,3,5) c d x(1) by (auto simp: acl_state_def acl_chain_def)
    moreover have "acl_targets ?s (xs @ ys) = remove1 t (acl_targets store as)"
      using u(4) [OF d(1)] remove1_targets [OF ne t(2), of ys] x(1) by (simp add: acl_targets_def)
    moreover have "acl_targets ?s hs = acl_targets store hs" using u(4) [OF d(2)] by (simp add: acl_targets_def)
    moreover have "t \<in> set (acl_targets store as)" using x(1) t by (simp add: acl_targets_def)
    ultimately show ?thesis using t acl_frame_addrs
      by (intro exI [of _ ?s] conjI exI [of _ "xs @ ys"]) auto
  qed
qed

section \<open>The contract of a deny list\<close>

text \<open>The targets of a list, read by following it as the listing commands do.\<close>

fun acl_collect :: "nat \<Rightarrow> (nat \<times> acl_rule) list \<Rightarrow> nat option \<Rightarrow> acl_rule list run" where
  "acl_collect fuel rules None = Inr []"
| "acl_collect 0 rules (Some a) = Inl No_return"
| "acl_collect (Suc fuel) rules (Some a) =
     (case map_of rules a of
        None \<Rightarrow> Inl Use_after_free
      | Some r \<Rightarrow> run_bind (acl_collect fuel rules (r_next r)) (\<lambda>rs. Inr (r # rs)))"

definition acl_rules_of :: "monitor_store \<Rightarrow> nat option \<Rightarrow> acl_rule list run" where
  "acl_rules_of store head = acl_collect (length (ms_rules store)) (ms_rules store) head"

definition acl_members :: "monitor_store \<Rightarrow> nat option \<Rightarrow> acl_target list" where
  "acl_members store head = (case acl_rules_of store head of Inl e \<Rightarrow> [] | Inr rs \<Rightarrow> map r_target rs)"

lemma acl_collect_seg:
  "seg (map_of rules) p as None \<Longrightarrow> length as \<le> fuel \<Longrightarrow>
    acl_collect fuel rules p = Inr (map (\<lambda>a. the (map_of rules a)) as)"
proof (induction as arbitrary: p fuel)
  case (Cons a as)
  then obtain k where "fuel = Suc k" by (cases fuel) auto
  with Cons show ?case by auto
qed simp

definition acl_inv :: "monitor_store \<Rightarrow> bool" where
  "acl_inv store \<longleftrightarrow>
     (\<exists>hs as. acl_state store hs as \<and> distinct (acl_targets store hs) \<and> distinct (acl_targets store as))"

abbreviation host_members :: "monitor_store \<Rightarrow> acl_target list" where
  "host_members store \<equiv> acl_members store (get_denied_hosts store)"

abbreviation addr_members :: "monitor_store \<Rightarrow> acl_target list" where
  "addr_members store \<equiv> acl_members store (get_denied_ips store)"

lemma acl_rules_state:
  assumes "acl_state store hs as"
  shows "acl_rules_of store (get_denied_hosts store) = Inr (map (\<lambda>a. the (map_of (ms_rules store) a)) hs)"
    and "acl_rules_of store (get_denied_ips store) = Inr (map (\<lambda>a. the (map_of (ms_rules store) a)) as)"
  using assms chain_length [of "ms_rules store"]
  by (auto simp: acl_rules_of_def get_denied_hosts_def get_denied_ips_def acl_state_def acl_chain_def
      intro!: acl_collect_seg)

lemma members_state:
  assumes "acl_state store hs as"
  shows "host_members store = acl_targets store hs" "addr_members store = acl_targets store as"
  by (simp_all add: acl_members_def acl_rules_state [OF assms] acl_targets_def targets_def)

lemma acl_invE:
  assumes "acl_inv store"
  obtains hs as where "acl_state store hs as" "distinct (host_members store)" "distinct (addr_members store)"
    "host_members store = acl_targets store hs" "addr_members store = acl_targets store as"
  using assms members_state unfolding acl_inv_def by metis

lemma acl_invI:
  "acl_state store hs as \<Longrightarrow> distinct (acl_targets store hs) \<Longrightarrow> distinct (acl_targets store as) \<Longrightarrow> acl_inv store"
  unfolding acl_inv_def by blast

locale deny_list =
  fixes invar :: "'s \<Rightarrow> bool"
    and members :: "'s \<Rightarrow> 't list"
    and key :: "string \<Rightarrow> 't option"
    and accepts :: "string \<Rightarrow> bool"
    and fits :: "string \<Rightarrow> bool"
    and fresh :: "nat \<Rightarrow> 's \<Rightarrow> bool"
    and is_denied :: "'s \<Rightarrow> string \<Rightarrow> bool run"
    and deny :: "nat option \<Rightarrow> 's \<Rightarrow> string \<Rightarrow> (bool \<times> 's) run"
    and undeny :: "'s \<Rightarrow> string \<Rightarrow> (bool \<times> 's) run"
  assumes members_distinct: "invar s \<Longrightarrow> distinct (members s)"
    and accepts_key: "accepts x \<Longrightarrow> key x \<noteq> None"
    and denied_law: "invar s \<Longrightarrow> is_denied s x = Inr (\<exists>t. key x = Some t \<and> t \<in> set (members s))"
    and deny_law: "invar s \<Longrightarrow> fresh a s \<Longrightarrow> fits x \<Longrightarrow>
      \<exists>b s'. deny (Some a) s x = Inr (b, s') \<and> invar s' \<and>
        b = (accepts x \<and> the (key x) \<notin> set (members s)) \<and>
        members s' = (if b then members s @ [the (key x)] else members s)"
    and undeny_law: "invar s \<Longrightarrow>
      \<exists>b s'. undeny s x = Inr (b, s') \<and> invar s' \<and>
        b = (\<exists>t. key x = Some t \<and> t \<in> set (members s)) \<and>
        members s' = (case key x of None \<Rightarrow> members s | Some t \<Rightarrow> remove1 t (members s))"
begin

lemma deny_denied:
  assumes "invar s" "fresh a s" "fits x" "accepts x"
  shows "\<exists>b s'. deny (Some a) s x = Inr (b, s') \<and> invar s' \<and> is_denied s' x = Inr True"
proof -
  obtain t where t: "key x = Some t" using accepts_key [OF assms(4)] by auto
  obtain b s' where d: "deny (Some a) s x = Inr (b, s')" "invar s'" "b = (accepts x \<and> the (key x) \<notin> set (members s))"
    "members s' = (if b then members s @ [the (key x)] else members s)"
    using deny_law [OF assms(1-3)] by blast
  then have "t \<in> set (members s')" using t assms(4) by auto
  with d t show ?thesis by (auto simp: denied_law)
qed

lemma undeny_allowed:
  assumes "invar s"
  shows "\<exists>b s'. undeny s x = Inr (b, s') \<and> invar s' \<and> is_denied s' x = Inr False"
  using undeny_law [OF assms, of x] members_distinct [OF assms]
  by (auto simp: denied_law split: option.splits)

lemma undeny_deny:
  assumes "invar s" "fresh a s" "fits x" "accepts x" "is_denied s x = Inr False"
  shows "\<exists>s1 s2. deny (Some a) s x = Inr (True, s1) \<and> undeny s1 x = Inr (True, s2) \<and>
    invar s2 \<and> members s2 = members s"
proof -
  obtain t where t: "key x = Some t" using accepts_key [OF assms(4)] by auto
  with assms(1,5) have n: "t \<notin> set (members s)" by (simp add: denied_law)
  obtain s1 where s1: "deny (Some a) s x = Inr (True, s1)" "invar s1" "members s1 = members s @ [t]"
    using deny_law [OF assms(1-3)] t n assms(4) by auto
  obtain s2 where "undeny s1 x = Inr (True, s2)" "invar s2" "members s2 = remove1 t (members s1)"
    using undeny_law [OF s1(2), of x] t s1(3) by auto
  with s1 n show ?thesis by (auto simp: remove1_append)
qed

end

lemma acl_frame_trans: "acl_frame a b \<Longrightarrow> acl_frame b c \<Longrightarrow> acl_frame a c"
  unfolding acl_frame_def by fastforce

lemma deny_host_law:
  assumes "acl_inv s" and "map_of (ms_rules s) a = None" and "length h \<le> STORE_MAX_DEST_HOST"
  shows "\<exists>b s'. store_deny_host net (Some a) s (Some h) = Inr (b, s') \<and> acl_inv s' \<and>
    b = (inet_pton4 net h = None \<and> inet_pton6 net h = None \<and> Acl_host h \<notin> set (host_members s)) \<and>
    host_members s' = (if b then host_members s @ [Acl_host h] else host_members s) \<and>
    addr_members s' = addr_members s \<and> acl_frame s s'"
proof -
  from assms(1) obtain hs as where st: "acl_state s hs as" and d: "distinct (host_members s)" "distinct (addr_members s)"
    and m: "host_members s = acl_targets s hs" "addr_members s = acl_targets s as" by (rule acl_invE)
  show ?thesis
  proof (cases "inet_pton4 net h = None \<and> inet_pton6 net h = None \<and> Acl_host h \<notin> set (host_members s)")
    case True
    obtain s' where s': "add_host_rule (s\<lparr>ms_rules := AList.update a
        \<lparr>r_type = ACL_DENIED_HOST, r_target = Acl_host h, r_next = None\<rparr> (ms_rules s)\<rparr>) a = Inr s'"
      "acl_state s' (hs @ [a]) as" "acl_targets s' (hs @ [a]) = acl_targets s hs @ [Acl_host h]"
      "acl_targets s' as = acl_targets s as" "acl_frame s s'"
      using host_added [OF st assms(2)] by blast
    have "store_deny_host net (Some a) s (Some h) = Inr (True, s')"
      using True s'(1) assms(3) m by (simp add: store_deny_host_def is_host_denied_iff [OF st])
    moreover have "acl_inv s'" using s' d m True by (intro acl_invI) auto
    ultimately show ?thesis using True s' members_state [OF s'(2)] m by auto
  next
    case False
    then have "store_deny_host net (Some a) s (Some h) = Inr (False, s)"
      using m by (auto simp: store_deny_host_def is_host_denied_iff [OF st])
    with False assms(1) show ?thesis by auto
  qed
qed

lemma deny_ip_law:
  assumes "acl_inv s" and "map_of (ms_rules s) a = None"
  shows "\<exists>b s'. store_deny_ip net (Some a) s (Some ip) = Inr (b, s') \<and> acl_inv s' \<and>
    b = (ip_target net ip \<noteq> None \<and> the (ip_target net ip) \<notin> set (addr_members s)) \<and>
    addr_members s' = (if b then addr_members s @ [the (ip_target net ip)] else addr_members s) \<and>
    host_members s' = host_members s \<and> acl_frame s s'"
proof -
  from assms(1) obtain hs as where st: "acl_state s hs as" and d: "distinct (host_members s)" "distinct (addr_members s)"
    and m: "host_members s = acl_targets s hs" "addr_members s = acl_targets s as" by (rule acl_invE)
  show ?thesis
  proof (cases "ip_target net ip \<noteq> None \<and> the (ip_target net ip) \<notin> set (addr_members s)")
    case True
    then obtain t where t: "ip_target net ip = Some t" "t \<notin> set (acl_targets s as)" using m by auto
    obtain s' where s': "add_ip_rule (s\<lparr>ms_rules := AList.update a
        \<lparr>r_type = ACL_DENIED_ADDRESS, r_target = t, r_next = None\<rparr> (ms_rules s)\<rparr>) a = Inr s'"
      "acl_state s' hs (as @ [a])" "acl_targets s' (as @ [a]) = acl_targets s as @ [t]"
      "acl_targets s' hs = acl_targets s hs" "acl_frame s s'"
      using addr_added [OF st assms(2)] by blast
    have "store_deny_ip net (Some a) s (Some ip) = Inr (True, s')"
      using t s'(1) by (auto simp: store_deny_ip_def is_ip_denied_iff [OF st] Let_def ip_target_def split: option.splits)
    moreover have "acl_inv s'" using s' d m t by (intro acl_invI) auto
    ultimately show ?thesis using t s' members_state [OF s'(2)] m by auto
  next
    case False
    then have "store_deny_ip net (Some a) s (Some ip) = Inr (False, s)"
      using m by (auto simp: store_deny_ip_def is_ip_denied_iff [OF st] Let_def ip_target_def split: option.splits)
    with False assms(1) show ?thesis by auto
  qed
qed

lemma undeny_host_law:
  assumes "acl_inv s"
  shows "\<exists>b s'. store_undeny_host s (Some h) = Inr (b, s') \<and> acl_inv s' \<and>
    b = (Acl_host h \<in> set (host_members s)) \<and> host_members s' = remove1 (Acl_host h) (host_members s) \<and>
    addr_members s' = addr_members s \<and> acl_frame s s'"
proof -
  from assms obtain hs as where st: "acl_state s hs as" and d: "distinct (host_members s)" "distinct (addr_members s)"
    and m: "host_members s = acl_targets s hs" "addr_members s = acl_targets s as" by (rule acl_invE)
  obtain s' hs' where s': "store_undeny_host s (Some h) = Inr (Acl_host h \<in> set (acl_targets s hs), s')"
    "acl_state s' hs' as" "acl_targets s' hs' = remove1 (Acl_host h) (acl_targets s hs)"
    "acl_targets s' as = acl_targets s as" "acl_frame s s'"
    using host_removed [OF st] by blast
  have "acl_inv s'" using s' d m by (intro acl_invI) auto
  with s' members_state [OF s'(2)] m show ?thesis by auto
qed

lemma undeny_ip_law:
  assumes "acl_inv s"
  shows "\<exists>b s'. store_undeny_ip net s (Some ip) = Inr (b, s') \<and> acl_inv s' \<and>
    b = (\<exists>t. ip_target net ip = Some t \<and> t \<in> set (addr_members s)) \<and>
    addr_members s' = (case ip_target net ip of None \<Rightarrow> addr_members s | Some t \<Rightarrow> remove1 t (addr_members s)) \<and>
    host_members s' = host_members s \<and> acl_frame s s'"
proof -
  from assms obtain hs as where st: "acl_state s hs as" and d: "distinct (host_members s)" "distinct (addr_members s)"
    and m: "host_members s = acl_targets s hs" "addr_members s = acl_targets s as" by (rule acl_invE)
  obtain s' as' where s': "store_undeny_ip net s (Some ip) =
      Inr (\<exists>t. ip_target net ip = Some t \<and> t \<in> set (acl_targets s as), s')"
    "acl_state s' hs as'" "acl_targets s' as' =
       (case ip_target net ip of None \<Rightarrow> acl_targets s as | Some t \<Rightarrow> remove1 t (acl_targets s as))"
    "acl_targets s' hs = acl_targets s hs" "acl_frame s s'"
    using addr_removed [OF st] by blast
  have "acl_inv s'" using s' d m by (intro acl_invI) (auto split: option.splits)
  with s' members_state [OF s'(2)] m show ?thesis by (auto split: option.splits)
qed

lemma is_denied_members:
  assumes "acl_inv s"
  shows "is_host_denied s (Some h) = Inr (Acl_host h \<in> set (host_members s))"
    and "is_ip_denied net s (Some ip) = Inr (\<exists>t. ip_target net ip = Some t \<and> t \<in> set (addr_members s))"
  using assms by (auto elim!: acl_invE simp: is_host_denied_iff is_ip_denied_iff)

interpretation dh: deny_list acl_inv host_members "\<lambda>h. Some (Acl_host h)"
  "\<lambda>h. inet_pton4 net h = None \<and> inet_pton6 net h = None" "\<lambda>h. length h \<le> STORE_MAX_DEST_HOST"
  "\<lambda>a s. map_of (ms_rules s) a = None" "\<lambda>s h. is_host_denied s (Some h)"
  "\<lambda>mem s h. store_deny_host net mem s (Some h)" "\<lambda>s h. store_undeny_host s (Some h)"
  for net
proof unfold_locales
  fix s a and h :: string assume "acl_inv s" "map_of (ms_rules s) a = None" "length h \<le> STORE_MAX_DEST_HOST"
  from deny_host_law [OF this, of net] show "\<exists>b s'. store_deny_host net (Some a) s (Some h) = Inr (b, s') \<and>
      acl_inv s' \<and> b = ((inet_pton4 net h = None \<and> inet_pton6 net h = None) \<and>
        the (Some (Acl_host h)) \<notin> set (host_members s)) \<and>
      host_members s' = (if b then host_members s @ [the (Some (Acl_host h))] else host_members s)"
    by auto
next
  fix s h assume "acl_inv s"
  from undeny_host_law [OF this, of h] show "\<exists>b s'. store_undeny_host s (Some h) = Inr (b, s') \<and> acl_inv s' \<and>
      b = (\<exists>t. Some (Acl_host h) = Some t \<and> t \<in> set (host_members s)) \<and>
      host_members s' = (case Some (Acl_host h) of None \<Rightarrow> host_members s | Some t \<Rightarrow> remove1 t (host_members s))"
    by auto
qed (auto simp: is_denied_members elim: acl_invE)

interpretation di: deny_list acl_inv addr_members "ip_target net"
  "\<lambda>ip. ip_target net ip \<noteq> None" "\<lambda>_. True" "\<lambda>a s. map_of (ms_rules s) a = None"
  "\<lambda>s ip. is_ip_denied net s (Some ip)"
  "\<lambda>mem s ip. store_deny_ip net mem s (Some ip)" "\<lambda>s ip. store_undeny_ip net s (Some ip)"
  for net
proof unfold_locales
  fix s a ip assume "acl_inv s" "map_of (ms_rules s) a = None"
  from deny_ip_law [OF this, of net ip] show "\<exists>b s'. store_deny_ip net (Some a) s (Some ip) = Inr (b, s') \<and>
      acl_inv s' \<and> b = (ip_target net ip \<noteq> None \<and> the (ip_target net ip) \<notin> set (addr_members s)) \<and>
      addr_members s' = (if b then addr_members s @ [the (ip_target net ip)] else addr_members s)"
    by auto
next
  fix s ip assume "acl_inv s"
  from undeny_ip_law [OF this, of net ip] show "\<exists>b s'. store_undeny_ip net s (Some ip) = Inr (b, s') \<and> acl_inv s' \<and>
      b = (\<exists>t. ip_target net ip = Some t \<and> t \<in> set (addr_members s)) \<and>
      addr_members s' = (case ip_target net ip of None \<Rightarrow> addr_members s | Some t \<Rightarrow> remove1 t (addr_members s))"
    by auto
qed (auto simp: is_denied_members elim: acl_invE)

section \<open>Freeing\<close>

lemma free_seg:
  assumes "seg (map_of rules) p as None" "distinct as" "length as \<le> fuel"
  shows "\<exists>rules'. free_acl_list fuel rules p = Inr rules' \<and> map_of rules' = (map_of rules) |` (- set as)"
  using assms
proof (induction as arbitrary: p rules fuel)
  case (Cons a as)
  then obtain r k where r: "p = Some a" "map_of rules a = Some r" "seg (map_of rules) (r_next r) as None"
    "fuel = Suc k" "length as \<le> k" "a \<notin> set as" "distinct as" by (cases fuel) auto
  have "seg (map_of (AList.delete a rules)) (r_next r) as None" using r by (simp add: delete_conv')
  from Cons.IH [OF this r(7,5)] r show ?case
    by (auto simp: delete_conv' restrict_map_def fun_eq_iff)
qed (simp add: restrict_map_def)

text \<open>Both lists are freed without touching a freed rule, and no rule is left.\<close>

lemma destroy_frees_all:
  assumes "acl_inv store"
  shows "store_destroy (Some store) = Inr []"
proof -
  from assms obtain hs as where st: "acl_state store hs as" by (auto simp: acl_inv_def)
  let ?h = "map_of (ms_rules store)"
  have c: "acl_chain ?h (ms_denied_hosts store) (ms_last_denied_host store) hs"
    "acl_chain ?h (ms_denied_addresses store) (ms_last_denied_addr store) as"
    "set hs \<inter> set as = {}" "set hs \<union> set as = dom ?h" using st by (simp_all add: acl_state_def)
  obtain r1 where r1: "free_acl_list (length (ms_rules store)) (ms_rules store) (ms_denied_hosts store) = Inr r1"
    "map_of r1 = ?h |` (- set hs)"
    using free_seg [of "ms_rules store" "ms_denied_hosts store" hs] c(1) chain_length [OF c(1)]
    by (auto simp: acl_chain_def)
  have "seg (map_of r1) (ms_denied_addresses store) as None"
  proof -
    have "seg (h |` (- X)) p bs q = seg h p bs q" if "set bs \<inter> X = {}" for h X p bs q
      using that by (induction bs arbitrary: p) (auto simp: restrict_map_def)
    then show ?thesis using c r1(2) by (auto simp: acl_chain_def Int_commute)
  qed
  then obtain r2 where r2: "free_acl_list (length (ms_rules store)) r1 (ms_denied_addresses store) = Inr r2"
    "map_of r2 = map_of r1 |` (- set as)"
    using free_seg [of r1 "ms_denied_addresses store" as] c(2) chain_length [OF c(2)]
    by (auto simp: acl_chain_def)
  have "map_of r2 x = None" for x
    using r1(2) r2(2) c(4) by (cases "x \<in> set hs \<union> set as") (auto simp: restrict_map_def)
  then have "r2 = []" by (cases r2) (auto, metis fun_upd_same option.distinct(1))
  with r1 r2 show ?thesis by (simp add: store_destroy_def)
qed

lemma store_create_acl:
  "store_create True True = Some store \<Longrightarrow> acl_inv store \<and> host_members store = [] \<and> addr_members store = []"
  by (auto simp: store_create_def zero_store_def acl_inv_def acl_state_def acl_chain_def acl_members_def
      acl_rules_of_def get_denied_hosts_def get_denied_ips_def acl_targets_def Let_def intro!: exI [of _ "[]"])

section \<open>The invariant of the store\<close>

definition store_inv :: "monitor_store \<Rightarrow> bool" where
  "store_inv store \<longleftrightarrow> users_inv store \<and> registry_inv store \<and> acl_inv store"

lemma store_create_inv: "store_create True True = Some store \<Longrightarrow> store_inv store"
  by (simp add: store_inv_def store_create_users store_create_registry store_create_acl)

lemma users_inv_cong:
  "users_inv store \<Longrightarrow> ms_users store' = ms_users store \<Longrightarrow> ms_user_count store' = ms_user_count store \<Longrightarrow>
    users_inv store' \<and> users_map store' = users_map store"
  by (simp add: users_inv_def users_map_def)

lemma acl_inv_cong:
  assumes "acl_inv store" and "ms_rules store' = ms_rules store"
    "ms_denied_hosts store' = ms_denied_hosts store" "ms_last_denied_host store' = ms_last_denied_host store"
    "ms_denied_addresses store' = ms_denied_addresses store" "ms_last_denied_addr store' = ms_last_denied_addr store"
  shows "acl_inv store'"
  using assms by (simp add: acl_inv_def acl_state_def acl_targets_def)

end
