(* ===== verification/Store_Tables.thy ===== *)
theory Store_Tables
  imports Store_Sessions
begin

text \<open>
  The part of the invariant of the store that needs no hypothesis at all: the table of live sessions agrees with its counter
  and its cap, and the ring of the log is well formed. Every operation a session performs on the store keeps it, on whatever
  identifiers and texts, also after the identifiers have wrapped around.
\<close>

definition tables_inv :: "monitor_store \<Rightarrow> bool" where
  "tables_inv store \<longleftrightarrow> sessions_inv store \<and> log_inv store"

lemma tables_log:
  assumes "tables_inv store"
  shows "tables_inv (snd (store_log_append now store u h p st))" "tables_inv (store_log_update store lid st up down)"
proof -
  obtain lid' store' where a: "store_log_append now store u h p st = (lid', store')" by fastforce
  then show "tables_inv (snd (store_log_append now store u h p st))"
    using assms log_append_sessions_inv [of store now u h p st] append_inv [OF _ a] by (auto simp: tables_inv_def)
  show "tables_inv (store_log_update store lid st up down)"
    using assms by (simp add: tables_inv_def log_update_sessions_inv update_inv)
qed

lemma tables_put:
  assumes "tables_inv store" "store_find_session store sid = Some i" "n_active node"
  shows "tables_inv (put_node i node store)"
  using assms put_node_inv put_node_log by (auto simp: tables_inv_def)

lemma tables_remove:
  assumes "tables_inv store" "i < length (ms_sessions store)"
  shows "tables_inv (store_session_remove store i)"
  using assms by (simp add: tables_inv_def remove_inv remove_log)

lemma tables_metrics:
  assumes "tables_inv store" "concurrent_connections m = concurrent_connections (ms_metrics store)"
  shows "tables_inv (store\<lparr>ms_metrics := m\<rparr>)"
  using assms by (auto simp: tables_inv_def intro: sessions_inv_cong log_inv_cong)

lemma tables_begin:
  assumes "tables_inv store" shows "tables_inv (snd (store_session_begin store))"
proof -
  have "log_inv (snd (store_session_begin store))"
    using assms by (auto simp: tables_inv_def store_session_begin_def Let_def intro: log_inv_cong split: option.split)
  then show ?thesis using assms begin_inv by (simp add: tables_inv_def)
qed

lemma tables_session:
  assumes "tables_inv store"
  shows "tables_inv (store_session_set_user store sid u)" "tables_inv (store_session_set_phase store sid ph)"
  using assms tables_put [OF assms] find_SomeD(2)
  by (auto simp: store_session_set_user_def store_session_set_phase_def Let_def split: option.split)

lemma tables_add_bytes:
  assumes "tables_inv store" shows "tables_inv (store_session_add_bytes store sid up down)"
proof (cases "store_find_session store sid")
  case (Some i)
  then show ?thesis
    using find_SomeD(2) [OF Some] assms
    by (auto simp: store_session_add_bytes_def Let_def intro!: tables_log tables_metrics tables_put)
qed (use assms in \<open>simp add: store_session_add_bytes_def\<close>)

lemma tables_set_dest:
  assumes "tables_inv store" shows "tables_inv (snd (store_session_set_dest now store sid h p))"
proof (cases "store_find_session store sid")
  case (Some i)
  note f = find_SomeD [OF Some]
  have keep: "tables_inv (put_node i n st)" if "tables_inv st" "ms_sessions st = (ms_sessions store)[i := n0]" "n_active n" "n_active n0"
    for n n0 st
  proof -
    have "sessions_inv (put_node i n st)"
      by (rule sessions_inv_cong [of st]) (use that f in \<open>simp_all add: tables_inv_def\<close>)
    then show ?thesis using that(1) put_node_log by (auto simp: tables_inv_def)
  qed
  have log: "tables_inv st2 \<and> ms_sessions st2 = ms_sessions st1"
    if "store_log_append now st1 u hh p st = (lid, st2)" "tables_inv st1" for st1 st2 u hh st lid
    using tables_log(1) [OF that(2), of now u hh p st] append_fields(6) [OF that(1)] that(1) by simp
  show ?thesis
    using Some assms f(2) tables_put [OF assms Some]
    by (cases h) (auto simp: store_session_set_dest_def Let_def split: prod.split intro!: keep dest!: log)
qed (use assms in \<open>cases h; simp add: store_session_set_dest_def\<close>)

lemma tables_close:
  assumes "tables_inv store"
  shows "tables_inv (store_session_end store sid)" "tables_inv (store_session_mark_failed now store sid)"
    "tables_inv (store_session_mark_ttl_expired now store sid)"
proof -
  have app: "length (ms_sessions (snd (store_log_append now store u h p st))) = length (ms_sessions store)" for u h p st
    by (metis append_fields(6) prod.collapse)
  note rules = tables_remove tables_log assms
  show "tables_inv (store_session_end store sid)" "tables_inv (store_session_mark_failed now store sid)"
    "tables_inv (store_session_mark_ttl_expired now store sid)"
    using assms app
    by (auto simp: store_session_end_def store_session_mark_failed_def store_session_mark_ttl_expired_def Let_def
        dest!: find_SomeD(1) split: option.split intro!: rules)
qed

lemma tables_config:
  assumes "tables_inv store" shows "tables_inv (snd (store_config_set mem store key v))"
proof -
  have "log_inv (snd (store_config_set mem store key v))"
    using assms
    by (auto simp: tables_inv_def store_config_set_def store_grow_sessions_slots_def Let_def case_prod_beta
        intro: log_inv_cong split: store_config_key.splits)
  then show ?thesis using assms config_set_inv by (simp add: tables_inv_def)
qed

lemma tables_create: "store_create True True = Some store \<Longrightarrow> tables_inv store"
  using store_create_registry [of store] by (simp add: tables_inv_def registry_inv_def)

end
