(* ===== verification/Monitor_Commands.thy ===== *)
theory Monitor_Commands
  imports Store_Acl Store_Tables Byte_Buffer
begin

text \<open>
  The text protocol of the monitoring port, \<^verbatim>\<open>src/server/monitor/monitor_commands.c\<close>: lines are
  cut out of the bytes of the connection, split into a command and at most eight tokens, and
  dispatched to a handler that reads or changes the store and appends its reply to the output
  buffer \<open>wb\<close>. A handler maps the store and the session to their new values, or to a fault.
  \<open>mc_line\<close> holds the \<open>line_len\<close> characters accumulated in \<open>line_buf\<close>. \<open>cmd_env\<close> collects
  what the handlers take from outside: the address conversions, the address \<open>calloc\<close> returns and
  whether \<open>realloc\<close> succeeds.
\<close>

section \<open>State\<close>

definition MONITOR_BUFFER_SIZE :: nat where "MONITOR_BUFFER_SIZE = 4096"
definition MONITOR_LINE_MAX :: nat where "MONITOR_LINE_MAX = 512"

datatype monitor_commands_state = MONITOR_ST_AWAIT_AUTH | MONITOR_ST_AUTHENTICATED

record monitor_commands_session =
  mc_state :: monitor_commands_state
  mc_wb :: buffer
  mc_line :: string
  mc_close_after_flush :: bool

record cmd_env =
  e_net :: net_lib
  e_calloc :: "monitor_store \<Rightarrow> nat option"
  e_realloc :: bool

type_synonym mstate = "monitor_store \<times> monitor_commands_session"

definition nl :: "string \<Rightarrow> string" where
  "nl s = s @ [CHR 0x0A]"

section \<open>Replies\<close>

definition commands_wb_append ::
  "monitor_commands_session \<Rightarrow> string \<Rightarrow> (bool \<times> monitor_commands_session) run" where
  "commands_wb_append s text =
     run_bind (buffer_write_ptr (mc_wb s)) (\<lambda>(ptr, available).
       if available < length text then Inr (False, s)
       else run_bind (buffer_copy_in (mc_wb s) (bytes_of text)) (\<lambda>wb.
            run_bind (buffer_write_adv wb (int (length text))) (\<lambda>wb'.
              Inr (True, s\<lparr>mc_wb := wb'\<rparr>))))"

text \<open>\<open>text\<close> is what \<open>vsnprintf\<close> formats; it must fit the local array with its terminator.\<close>

definition commands_wb_appendf ::
  "monitor_commands_session \<Rightarrow> string \<Rightarrow> (bool \<times> monitor_commands_session) run" where
  "commands_wb_appendf s text =
     (if length text \<ge> MONITOR_BUFFER_SIZE then Inr (False, s) else commands_wb_append s text)"

text \<open>The handlers ignore the result.\<close>

definition reply :: "string \<Rightarrow> monitor_commands_session \<Rightarrow> monitor_commands_session run" where
  "reply text s = run_bind (commands_wb_append s text) (\<lambda>(_, s'). Inr s')"

definition replyf :: "string \<Rightarrow> monitor_commands_session \<Rightarrow> monitor_commands_session run" where
  "replyf text s = run_bind (commands_wb_appendf s text) (\<lambda>(_, s'). Inr s')"

definition answer :: "string \<Rightarrow> mstate \<Rightarrow> mstate run" where
  "answer text = (\<lambda>(store, s). run_bind (reply text s) (\<lambda>s'. Inr (store, s')))"

definition answerf :: "string \<Rightarrow> mstate \<Rightarrow> mstate run" where
  "answerf text = (\<lambda>(store, s). run_bind (replyf text s) (\<lambda>s'. Inr (store, s')))"

definition monitor_commands_session_init ::
  "monitor_commands_session \<Rightarrow> monitor_commands_session" where
  "monitor_commands_session_init s =
     s\<lparr>mc_state := MONITOR_ST_AWAIT_AUTH, mc_line := [], mc_close_after_flush := False,
       mc_wb := buffer_init MONITOR_BUFFER_SIZE (b_data (mc_wb s))\<rparr>"

definition MONITOR_COMMANDS_GREETING :: string where
  "MONITOR_COMMANDS_GREETING = nl ''+OK ChungusMonitor v1.0''"

definition monitor_commands_queue_greeting ::
  "monitor_commands_session \<Rightarrow> monitor_commands_session run" where
  "monitor_commands_queue_greeting s = run_bind (reply MONITOR_COMMANDS_GREETING s) (reply (nl ''.''))"

definition monitor_commands_wb_read ::
  "monitor_commands_session \<Rightarrow> nat \<Rightarrow> (byte list \<times> monitor_commands_session) run" where
  "monitor_commands_wb_read s mx =
     run_bind (buffer_read_ptr (mc_wb s)) (\<lambda>(ptr, pending).
       let n = (if pending < mx then pending else mx)
       in if n > 0
          then run_bind (buffer_pop (mc_wb s) n) (\<lambda>wb.
                 Inr (take n (drop ptr (b_data (mc_wb s))), s\<lparr>mc_wb := wb\<rparr>))
          else Inr ([], s))"

definition monitor_commands_should_close :: "monitor_commands_session \<Rightarrow> bool" where
  "monitor_commands_should_close s \<longleftrightarrow> mc_close_after_flush s \<and> \<not> buffer_can_read (mc_wb s)"

definition split_line :: "string \<Rightarrow> string list" where
  "split_line line = take 8 (tokens line)"

section \<open>Command handlers\<close>

definition handle_auth :: "string list \<Rightarrow> mstate \<Rightarrow> mstate run" where
  "handle_auth args = (\<lambda>(store, s).
     if mc_state s = MONITOR_ST_AUTHENTICATED then answer (nl ''-ERR already authenticated'') (store, s)
     else if length args < 3 then answer (nl ''-ERR syntax error'') (store, s)
     else case store_admin_authenticate store (Some (args ! 1)) (Some (args ! 2)) of
            STORE_AUTH_OK \<Rightarrow> answer (nl ''+OK'') (store, s\<lparr>mc_state := MONITOR_ST_AUTHENTICATED\<rparr>)
          | STORE_AUTH_NOT_ADMIN \<Rightarrow> answer (nl ''-ERR not admin'') (store, s)
          | STORE_AUTH_INVALID \<Rightarrow> answer (nl ''-ERR invalid credentials'') (store, s))"

definition handle_stats :: "mstate \<Rightarrow> mstate run" where
  "handle_stats = (\<lambda>(store, s).
     let m = store_metrics_get store
     in answerf (nl (''+OK total_connections='' @ dec (unat (total_connections m)) @
          '' concurrent_connections='' @ dec (unat (concurrent_connections m)) @
          '' bytes_up='' @ dec (unat (m_bytes_up m)) @
          '' bytes_down='' @ dec (unat (m_bytes_down m)))) (store, s))"

definition connection_line :: "store_active_session \<Rightarrow> string" where
  "connection_line i =
     nl (''+OK '' @ (if s_username i \<noteq> [] then s_username i else ''-'') @ '' '' @
         (if s_host i \<noteq> [] then s_host i else ''-'') @ '':'' @ dec (unat (s_port i)) @ '' '' @
         store_session_phase_str (s_phase i) @ '' '' @ dec (unat (s_bytes_up i)) @ '' '' @
         dec (unat (s_bytes_down i)))"

text \<open>The callbacks carry the session they write to, and so the run, as their context.\<close>

definition append_connection ::
  "store_active_session \<Rightarrow> monitor_commands_session run \<Rightarrow> bool \<times> monitor_commands_session run" where
  "append_connection i c = (True, run_bind c (replyf (connection_line i)))"

definition count_connection :: "store_active_session \<Rightarrow> bool \<Rightarrow> bool \<times> bool" where
  "count_connection i c = (True, True)"

definition handle_connections :: "mstate \<Rightarrow> mstate run" where
  "handle_connections = (\<lambda>(store, s).
     if \<not> store_sessions_foreach store count_connection False then answer (nl ''+OK'') (store, s)
     else run_bind (store_sessions_foreach store append_connection (Inr s)) (\<lambda>s'. Inr (store, s')))"

definition user_line :: "string \<times> store_role \<Rightarrow> string" where
  "user_line = (\<lambda>(username, role).
     nl (''+OK '' @ username @ '' ('' @ (if role = STORE_ROLE_ADMIN then ''admin'' else ''user'') @ '')''))"

definition append_user ::
  "string \<times> store_role \<Rightarrow> monitor_commands_session run \<Rightarrow> bool \<times> monitor_commands_session run" where
  "append_user u c = (True, run_bind c (replyf (user_line u)))"

definition count_user :: "string \<times> store_role \<Rightarrow> bool \<Rightarrow> bool \<times> bool" where
  "count_user u c = (True, True)"

definition handle_users :: "mstate \<Rightarrow> mstate run" where
  "handle_users = (\<lambda>(store, s).
     if \<not> store_users_foreach store count_user False then answer (nl ''+OK'') (store, s)
     else run_bind (store_users_foreach store append_user (Inr s)) (\<lambda>s'. Inr (store, s')))"

definition handle_config :: "cmd_env \<Rightarrow> string list \<Rightarrow> mstate \<Rightarrow> mstate run" where
  "handle_config env args = (\<lambda>(store, s).
     if length args < 2 then answer (nl ''-ERR syntax error'') (store, s)
     else case store_config_key_from_name (Some (args ! 1)) of
            None \<Rightarrow> answer (nl ''-ERR unknown param'') (store, s)
          | Some key \<Rightarrow>
              if length args = 2
              then answerf (nl (''+OK '' @ dec (unat (store_config_get store key)))) (store, s)
              else let (v, rest) = strtol (args ! 2)
                   in if rest = args ! 2 \<or> rest \<noteq> [] \<or> v < 0
                      then answer (nl ''-ERR invalid value'') (store, s)
                      else if args ! 1 = ''timeout'' \<and> v > 86400
                      then answer (nl ''-ERR invalid value'') (store, s)
                      else if args ! 1 = ''max_connections'' \<and>
                              (v < uint STORE_SESSIONS_CAP_MIN \<or> v > uint STORE_SESSIONS_CAP_MAX)
                      then answer (nl ''-ERR invalid value'') (store, s)
                      else if args ! 1 = ''io_buffer_size'' \<and> (v < 1024 \<or> v > 65536)
                      then answer (nl ''-ERR invalid value'') (store, s)
                      else case store_config_set (e_realloc env) store key (word_of_int v) of
                             (STORE_CFG_OK, store') \<Rightarrow> answer (nl ''+OK'') (store', s)
                           | (STORE_CFG_UNKNOWN_KEY, store') \<Rightarrow> answer (nl ''-ERR unknown param'') (store', s)
                           | (STORE_CFG_INVALID_VALUE, store') \<Rightarrow> answer (nl ''-ERR invalid value'') (store', s))"

definition log_reply_line :: "store_log_entry \<Rightarrow> string" where
  "log_reply_line e = ''+OK '' @ store_log_line e"

definition append_log_entry ::
  "store_log_entry \<Rightarrow> monitor_commands_session run \<Rightarrow> bool \<times> monitor_commands_session run" where
  "append_log_entry e c = (True, run_bind c (replyf (log_reply_line e)))"

definition handle_access_log :: "string list \<Rightarrow> mstate \<Rightarrow> mstate run" where
  "handle_access_log args = (\<lambda>(store, s).
     let flt = (if length args \<ge> 2 then Some (args ! 1) else None)
     in if flt \<noteq> None \<and> \<not> store_user_exists store flt
        then answer (nl ''-ERR user not found'') (store, s)
        else run_bind (case flt of
                         None \<Rightarrow> reply (nl ''+OK Access log for all users:'') s
                       | Some u \<Rightarrow> replyf (nl (''+OK Access log for user '' @ u @ '':'')) s)
               (\<lambda>s1. run_bind (store_log_foreach store flt append_log_entry (Inr s1)) (\<lambda>s2. Inr (store, s2))))"

definition handle_add_user :: "string list \<Rightarrow> mstate \<Rightarrow> mstate run" where
  "handle_add_user args = (\<lambda>(store, s).
     let is_admin = (length args \<ge> 4 \<and> args ! 3 = ''admin'')
     in if length args < 3 then answer (nl ''-ERR syntax error'') (store, s)
        else case store_user_add store (Some (args ! 1)) (Some (args ! 2)) is_admin of
               (STORE_USER_OK, store') \<Rightarrow> answer (nl ''+OK'') (store', s)
             | (STORE_USER_EXISTS, store') \<Rightarrow> answer (nl ''-ERR user exists'') (store', s)
             | (STORE_USER_TABLE_FULL, store') \<Rightarrow> answer (nl ''-ERR user table full'') (store', s)
             | (_, store') \<Rightarrow> answer (nl ''-ERR syntax error'') (store', s))"

definition handle_del_user :: "string list \<Rightarrow> mstate \<Rightarrow> mstate run" where
  "handle_del_user args = (\<lambda>(store, s).
     if length args < 2 then answer (nl ''-ERR syntax error'') (store, s)
     else case store_user_delete store (Some (args ! 1)) of
            (STORE_USER_OK, store') \<Rightarrow> answer (nl ''+OK'') (store', s)
          | (STORE_USER_NOT_FOUND, store') \<Rightarrow> answer (nl ''-ERR user not found'') (store', s)
          | (STORE_USER_LAST_ADMIN, store') \<Rightarrow> answer (nl ''-ERR cannot delete last admin'') (store', s)
          | (_, store') \<Rightarrow> answer (nl ''-ERR syntax error'') (store', s))"

definition handle_set_password :: "string list \<Rightarrow> mstate \<Rightarrow> mstate run" where
  "handle_set_password args = (\<lambda>(store, s).
     if length args < 3 then answer (nl ''-ERR syntax error'') (store, s)
     else case store_user_set_password store (Some (args ! 1)) (Some (args ! 2)) of
            (STORE_USER_OK, store') \<Rightarrow> answer (nl ''+OK'') (store', s)
          | (_, store') \<Rightarrow> answer (nl ''-ERR user not found'') (store', s))"

definition handle_deny_host :: "cmd_env \<Rightarrow> string list \<Rightarrow> mstate \<Rightarrow> mstate run" where
  "handle_deny_host env args = (\<lambda>(store, s).
     if length args < 2 then answer (nl ''-ERR syntax error'') (store, s)
     else run_bind (is_host_denied store (Some (args ! 1))) (\<lambda>denied.
            if denied then answer (nl ''-ERR host already denied'') (store, s)
            else run_bind (store_deny_host (e_net env) (e_calloc env store) store (Some (args ! 1)))
                   (\<lambda>(added, store').
                      if added then answer (nl ''+OK'') (store', s)
                      else answer (nl ''-ERR failed to add rule'') (store', s))))"

definition handle_deny_ip :: "cmd_env \<Rightarrow> string list \<Rightarrow> mstate \<Rightarrow> mstate run" where
  "handle_deny_ip env args = (\<lambda>(store, s).
     if length args < 2 then answer (nl ''-ERR syntax error'') (store, s)
     else run_bind (is_ip_denied (e_net env) store (Some (args ! 1))) (\<lambda>denied.
            if denied then answer (nl ''-ERR address already denied'') (store, s)
            else run_bind (store_deny_ip (e_net env) (e_calloc env store) store (Some (args ! 1)))
                   (\<lambda>(added, store').
                      if added then answer (nl ''+OK'') (store', s)
                      else answer (nl ''-ERR failed to add rule'') (store', s))))"

text \<open>\<open>||\<close> evaluates the second removal only when the first fails.\<close>

definition handle_undeny :: "cmd_env \<Rightarrow> string list \<Rightarrow> mstate \<Rightarrow> mstate run" where
  "handle_undeny env args = (\<lambda>(store, s).
     if length args < 2 then answer (nl ''-ERR syntax error'') (store, s)
     else run_bind (store_undeny_host store (Some (args ! 1))) (\<lambda>(removed, store1).
            if removed then answer (nl ''+OK'') (store1, s)
            else run_bind (store_undeny_ip (e_net env) store1 (Some (args ! 1))) (\<lambda>(removed', store2).
                   if removed' then answer (nl ''+OK'') (store2, s)
                   else answer (nl ''-ERR rule not present'') (store2, s))))"

fun list_rules :: "net_lib \<Rightarrow> acl_rule list \<Rightarrow> monitor_commands_session \<Rightarrow> monitor_commands_session run" where
  "list_rules net [] s = Inr s"
| "list_rules net (r # rs) s =
     run_bind (replyf (nl (''+OK '' @ acl_rule_to_string net (Some r))) s) (list_rules net rs)"

definition show_list ::
  "net_lib \<Rightarrow> string \<Rightarrow> monitor_store \<Rightarrow> nat option \<Rightarrow> monitor_commands_session \<Rightarrow> monitor_commands_session run" where
  "show_list net title store head s =
     run_bind (reply title s) (\<lambda>s1.
     run_bind (acl_rules_of store head) (\<lambda>rs. list_rules net rs s1))"

definition handle_deny_list :: "cmd_env \<Rightarrow> string list \<Rightarrow> mstate \<Rightarrow> mstate run" where
  "handle_deny_list env args = (\<lambda>(store, s).
     let show_hosts = (if length args \<ge> 2 then args ! 1 = ''host'' else True);
         show_ips = (if length args \<ge> 2 then args ! 1 \<noteq> ''host'' \<and> args ! 1 = ''ip'' else True)
     in run_bind (if show_hosts
                  then show_list (e_net env) (nl ''+OK Denied hosts:'') store (get_denied_hosts store) s
                  else Inr s) (\<lambda>s1.
        run_bind (if show_ips
                  then show_list (e_net env) (nl ''+OK Denied IPs:'') store (get_denied_ips store) s1
                  else Inr s1) (\<lambda>s2. Inr (store, s2))))"

definition handle_quit :: "mstate \<Rightarrow> mstate run" where
  "handle_quit = (\<lambda>(store, s).
     run_bind (answer (nl ''+OK'') (store, s)) (\<lambda>(store', s').
       Inr (store', s'\<lparr>mc_close_after_flush := True\<rparr>)))"

section \<open>Dispatch and framing\<close>

definition run_command :: "cmd_env \<Rightarrow> string \<Rightarrow> string list \<Rightarrow> mstate \<Rightarrow> mstate run" where
  "run_command env cmd args ms =
     (if cmd = ''STATS'' then handle_stats ms
      else if cmd = ''CONNECTIONS'' then handle_connections ms
      else if cmd = ''USERS'' then handle_users ms
      else if cmd = ''CONFIG'' then handle_config env args ms
      else if cmd = ''ACCESS_LOG'' then handle_access_log args ms
      else if cmd = ''ADD_USER'' then handle_add_user args ms
      else if cmd = ''DEL_USER'' then handle_del_user args ms
      else if cmd = ''SET_PASSWORD'' then handle_set_password args ms
      else if cmd = ''DENY_HOST'' then handle_deny_host env args ms
      else if cmd = ''DENY_IP'' then handle_deny_ip env args ms
      else if cmd = ''UNDENY'' then handle_undeny env args ms
      else if cmd = ''DENY_LIST'' then handle_deny_list env args ms
      else if cmd = ''QUIT'' then handle_quit ms
      else answer (nl ''-ERR unknown command'') ms)"

definition dispatch_line :: "cmd_env \<Rightarrow> string \<Rightarrow> mstate \<Rightarrow> mstate run" where
  "dispatch_line env line ms =
     (let args = split_line line
      in if args = [] then Inr ms
         else if mc_state (snd ms) = MONITOR_ST_AWAIT_AUTH
         then run_bind (if args ! 0 = ''AUTH'' then handle_auth args ms
                        else answer (nl ''-ERR not authenticated'') ms) (answer (nl ''.''))
         else if args ! 0 = ''AUTH''
         then run_bind (answer (nl ''-ERR already authenticated'') ms) (answer (nl ''.''))
         else run_bind (run_command env (args ! 0) args ms) (answer (nl ''.'')))"

text \<open>The text of the C string in \<open>line_buf\<close> once the terminator is stored and a final \<open>'\r'\<close> is cut.\<close>

definition line_text :: "string \<Rightarrow> string" where
  "line_text line = cstr (if line \<noteq> [] \<and> last line = CHR 0x0D then butlast line else line)"

text \<open>
  With \<open>line_len = 0\<close> the terminator is stored at index 0, so an empty line is not dispatched.
\<close>

definition process_byte :: "cmd_env \<Rightarrow> char \<Rightarrow> mstate \<Rightarrow> mstate run" where
  "process_byte env ch = (\<lambda>(store, s).
     if length (mc_line s) \<ge> MONITOR_LINE_MAX
     then run_bind (answer (nl ''-ERR line too long'') (store, s\<lparr>mc_line := []\<rparr>)) (answer (nl ''.''))
     else if ch = CHR 0x0A
     then run_bind (if mc_line s \<noteq> [] then dispatch_line env (line_text (mc_line s)) (store, s)
                    else Inr (store, s)) (\<lambda>(store', s'). Inr (store', s'\<lparr>mc_line := []\<rparr>))
     else Inr (store, s\<lparr>mc_line := mc_line s @ [ch]\<rparr>))"

fun monitor_commands_feed :: "cmd_env \<Rightarrow> byte list \<Rightarrow> mstate \<Rightarrow> mstate run" where
  "monitor_commands_feed env [] ms = Inr ms"
| "monitor_commands_feed env (b # bs) ms =
     run_bind (process_byte env (char_of_byte b) ms) (monitor_commands_feed env bs)"

definition monitor_commands_flush_on_eof :: "cmd_env \<Rightarrow> mstate \<Rightarrow> mstate run" where
  "monitor_commands_flush_on_eof env = (\<lambda>(store, s).
     if mc_line s \<noteq> []
     then run_bind (dispatch_line env (cstr (mc_line s)) (store, s)) (\<lambda>(store', s').
            Inr (store', s'\<lparr>mc_line := []\<rparr>))
     else Inr (store, s))"

section \<open>Replies as list operations\<close>

definition wb_put :: "buffer \<Rightarrow> byte list \<Rightarrow> buffer" where
  "wb_put b xs = (if length xs \<le> buffer_room b then (case buffer_push b xs of Inr b' \<Rightarrow> b' | Inl e \<Rightarrow> b) else b)"

lemma wb_put_props:
  assumes "buffer_inv b"
  shows "buffer_inv (wb_put b xs)" "b_limit (wb_put b xs) = b_limit b"
    "buffer_pending (wb_put b xs) = buffer_pending b @ (if length xs \<le> buffer_room b then xs else [])"
    "buffer_room (wb_put b xs) = buffer_room b - (if length xs \<le> buffer_room b then length xs else 0)"
  using assms buffer_push_ok [of b xs] by (auto simp: wb_put_def)

lemma wb_append_eq:
  assumes "buffer_inv (mc_wb s)"
  shows "commands_wb_append s text =
    Inr (length text \<le> buffer_room (mc_wb s), s\<lparr>mc_wb := wb_put (mc_wb s) (bytes_of text)\<rparr>)"
proof (cases "length text \<le> buffer_room (mc_wb s)")
  case True
  obtain b' where b': "buffer_push (mc_wb s) (bytes_of text) = Inr b'"
    using buffer_push_ok [OF assms, of "bytes_of text"] True by auto
  then obtain wb where "buffer_copy_in (mc_wb s) (bytes_of text) = Inr wb"
    "buffer_write_adv wb (int (length text)) = Inr b'"
    by (auto simp: buffer_push_def run_simps)
  with b' show ?thesis
    using True assms by (simp add: commands_wb_append_def buffer_write_ptr_ok wb_put_def)
qed (use assms in \<open>simp add: commands_wb_append_def buffer_write_ptr_ok wb_put_def\<close>)

definition wb_putf :: "buffer \<Rightarrow> string \<Rightarrow> buffer" where
  "wb_putf b text = (if length text < MONITOR_BUFFER_SIZE then wb_put b (bytes_of text) else b)"

lemma wb_putf_props:
  "buffer_inv b \<Longrightarrow> buffer_inv (wb_putf b text)" "buffer_inv b \<Longrightarrow> b_limit (wb_putf b text) = b_limit b"
  by (simp_all add: wb_putf_def wb_put_props)

lemma reply_eq: "buffer_inv (mc_wb s) \<Longrightarrow> reply text s = Inr (s\<lparr>mc_wb := wb_put (mc_wb s) (bytes_of text)\<rparr>)"
  by (simp add: reply_def wb_append_eq)

lemma replyf_eq: "buffer_inv (mc_wb s) \<Longrightarrow> replyf text s = Inr (s\<lparr>mc_wb := wb_putf (mc_wb s) text\<rparr>)"
  by (simp add: replyf_def commands_wb_appendf_def wb_append_eq wb_putf_def)

lemma answer_eq:
  "buffer_inv (mc_wb s) \<Longrightarrow> answer text (store, s) = Inr (store, s\<lparr>mc_wb := wb_put (mc_wb s) (bytes_of text)\<rparr>)"
  by (simp add: answer_def reply_eq)

lemma answerf_eq:
  "buffer_inv (mc_wb s) \<Longrightarrow> answerf text (store, s) = Inr (store, s\<lparr>mc_wb := wb_putf (mc_wb s) text\<rparr>)"
  by (simp add: answerf_def replyf_eq)

text \<open>A step that only appends to the output buffer.\<close>

definition out_step :: "monitor_commands_session \<Rightarrow> monitor_commands_session \<Rightarrow> bool" where
  "out_step s s' \<longleftrightarrow>
     (\<exists>b. s' = s\<lparr>mc_wb := b\<rparr> \<and> buffer_inv b \<and> b_limit b = b_limit (mc_wb s) \<and>
        (\<exists>out. buffer_pending b = buffer_pending (mc_wb s) @ out))"

lemma out_step_refl [simp, intro]: "buffer_inv (mc_wb s) \<Longrightarrow> out_step s s"
  by (auto simp: out_step_def intro!: exI [of _ "mc_wb s"])

lemma out_step_trans: "out_step s t \<Longrightarrow> out_step t u \<Longrightarrow> out_step s u"
  by (auto simp: out_step_def)

lemma out_step_fields:
  assumes "out_step s s'"
  shows "mc_state s' = mc_state s" "mc_line s' = mc_line s" "mc_close_after_flush s' = mc_close_after_flush s"
    "buffer_inv (mc_wb s')" "b_limit (mc_wb s') = b_limit (mc_wb s)"
    "\<exists>out. buffer_pending (mc_wb s') = buffer_pending (mc_wb s) @ out"
  using assms by (auto simp: out_step_def)

lemma reply_ok [simp, intro]: "buffer_inv (mc_wb s) \<Longrightarrow> run_ok (reply text s) (out_step s)"
  by (auto simp: reply_eq out_step_def wb_put_props)

lemma replyf_ok [simp, intro]:
  assumes "buffer_inv (mc_wb s)"
  shows "run_ok (replyf text s) (out_step s)"
proof (cases "length text < MONITOR_BUFFER_SIZE")
  case True
  then show ?thesis using assms by (auto simp: replyf_eq wb_putf_def out_step_def wb_put_props)
next
  case False
  then show ?thesis using assms by (simp add: replyf_eq wb_putf_def)
qed

definition answers :: "monitor_store \<Rightarrow> monitor_commands_session \<Rightarrow> mstate \<Rightarrow> bool" where
  "answers store s = (\<lambda>(store', s'). store' = store \<and> out_step s s')"

lemma answers_iff [simp]: "answers store s (store', s') \<longleftrightarrow> store' = store \<and> out_step s s'"
  by (simp add: answers_def)

lemma answer_ok [simp, intro]: "buffer_inv (mc_wb s) \<Longrightarrow> run_ok (answer text (store, s)) (answers store s)"
  by (simp add: answer_def run_ok_mono [OF reply_ok])

lemma answerf_ok [simp, intro]: "buffer_inv (mc_wb s) \<Longrightarrow> run_ok (answerf text (store, s)) (answers store s)"
  by (simp add: answerf_def run_ok_mono [OF replyf_ok])

lemma foreach_ok:
  assumes "\<And>x c. fn x c = (True, run_bind c (replyf (line x)))" and "run_ok c (out_step s)"
  shows "run_ok (foreach fn xs c) (out_step s)"
  using assms(2)
proof (induction xs arbitrary: c)
  case (Cons x xs)
  have "run_ok (run_bind c (replyf (line x))) (out_step s)"
    using Cons.prems
    by (auto intro!: run_ok_mono [OF Cons.prems] run_ok_mono [OF replyf_ok] elim: out_step_trans
        dest: out_step_fields)
  from Cons.IH [OF this] show ?case by (simp add: assms(1))
qed simp

lemma list_rules_ok: "run_ok (list_rules net rs s) (out_step s)" if "buffer_inv (mc_wb s)"
  using that
proof (induction rs arbitrary: s)
  case (Cons r rs)
  then show ?case
    by (auto intro!: run_ok_mono [OF replyf_ok] intro: run_ok_mono [OF Cons.IH] elim: out_step_trans
        dest: out_step_fields)
qed simp

section \<open>What a command may change\<close>

text \<open>
  A read-only command leaves the store alone; a user command goes through the three operations
  of the user table (\<open>adds\<close> are the names that may be added); \<open>CONFIG\<close> through \<open>store_config_set\<close>; an ACL command changes the rules only.
\<close>

definition user_change :: "(string \<Rightarrow> bool) \<Rightarrow> monitor_store \<Rightarrow> monitor_store \<Rightarrow> bool" where
  "user_change adds store store' \<longleftrightarrow>
     (\<exists>n p adm. adds n \<and> store' = snd (store_user_add store (Some n) (Some p) adm)) \<or>
     (\<exists>n. store' = snd (store_user_delete store (Some n))) \<or>
     (\<exists>n p. store' = snd (store_user_set_password store (Some n) (Some p)))"

definition config_change :: "monitor_store \<Rightarrow> monitor_store \<Rightarrow> bool" where
  "config_change store store' \<longleftrightarrow> (\<exists>mem key v. store' = snd (store_config_set mem store key v))"

definition acl_change :: "monitor_store \<Rightarrow> monitor_store \<Rightarrow> bool" where
  "acl_change store store' \<longleftrightarrow> acl_frame store store' \<and> acl_inv store'"

definition store_change :: "(string \<Rightarrow> bool) \<Rightarrow> monitor_store \<Rightarrow> monitor_store \<Rightarrow> bool" where
  "store_change adds store store' \<longleftrightarrow>
     store' = store \<or> user_change adds store store' \<or> config_change store store' \<or> acl_change store store'"

definition cmd_step :: "(string \<Rightarrow> bool) \<Rightarrow> monitor_store \<Rightarrow> monitor_commands_session \<Rightarrow> mstate \<Rightarrow> bool" where
  "cmd_step adds store s = (\<lambda>(store', s'). store_change adds store store' \<and> out_step s s')"

lemma cmd_step_iff [simp]: "cmd_step adds store s (store', s') \<longleftrightarrow> store_change adds store store' \<and> out_step s s'"
  by (simp add: cmd_step_def)

lemma store_change_refl [simp]: "store_change adds store store"
  by (simp add: store_change_def)

lemma answer_step:
  assumes "buffer_inv (mc_wb s)" and "store_change adds store store'"
  shows "run_ok (answer text (store', s)) (cmd_step adds store s)"
  by (rule run_ok_mono [OF answer_ok [OF assms(1)]]) (use assms(2) in auto)

lemma answerf_step:
  assumes "buffer_inv (mc_wb s)" and "store_change adds store store'"
  shows "run_ok (answerf text (store', s)) (cmd_step adds store s)"
  by (rule run_ok_mono [OF answerf_ok [OF assms(1)]]) (use assms(2) in auto)

lemma user_changes:
  "adds n \<Longrightarrow> store_change adds store (snd (store_user_add store (Some n) (Some p) adm))"
  "store_change adds store (snd (store_user_delete store (Some n)))"
  "store_change adds store (snd (store_user_set_password store (Some n) (Some p)))"
  "store_change adds store (snd (store_config_set mem store key v))"
  unfolding store_change_def user_change_def config_change_def by blast+

lemma stats_step: "buffer_inv (mc_wb s) \<Longrightarrow> run_ok (handle_stats (store, s)) (cmd_step adds store s)"
  by (simp add: handle_stats_def Let_def answerf_step)

lemma connections_step: "buffer_inv (mc_wb s) \<Longrightarrow> run_ok (handle_connections (store, s)) (cmd_step adds store s)"
  using foreach_ok [of append_connection connection_line "Inr s" s]
  by (auto simp: handle_connections_def answer_step store_sessions_foreach_def append_connection_def
      intro: run_ok_mono)

lemma users_step: "buffer_inv (mc_wb s) \<Longrightarrow> run_ok (handle_users (store, s)) (cmd_step adds store s)"
  using foreach_ok [of append_user user_line "Inr s" s]
  by (auto simp: handle_users_def answer_step store_users_foreach_def append_user_def intro: run_ok_mono)

lemma config_step: "buffer_inv (mc_wb s) \<Longrightarrow> run_ok (handle_config env args (store, s)) (cmd_step adds store s)"
  using user_changes(4) [of adds store "e_realloc env"]
  by (auto simp: handle_config_def answer_step answerf_step Let_def
      split: option.splits prod.splits store_config_result.splits) (metis answer_step snd_conv)+

lemma access_log_step:
  assumes "buffer_inv (mc_wb s)"
  shows "run_ok (handle_access_log args (store, s)) (cmd_step adds store s)"
proof -
  have ok: "run_ok m (out_step s) \<Longrightarrow>
      run_ok (run_bind m (\<lambda>s1. run_bind (store_log_foreach store flt append_log_entry (Inr s1)) (\<lambda>s2. Inr (store, s2))))
        (cmd_step adds store s)" for m flt
    using foreach_ok [of append_log_entry log_reply_line]
    by (auto simp: store_log_foreach_def append_log_entry_def elim!: run_ok_mono)
  show ?thesis
    using assms ok by (auto simp: handle_access_log_def Let_def answer_step simp del: run_ok_bind split: option.splits)
qed

lemma add_user_step: "buffer_inv (mc_wb s) \<Longrightarrow> (3 \<le> length args \<Longrightarrow> adds (args ! 1)) \<Longrightarrow>
    run_ok (handle_add_user args (store, s)) (cmd_step adds store s)"
  using user_changes(1) [of adds _ store]
  by (auto simp: handle_add_user_def answer_step Let_def split: prod.splits store_user_result.splits)
     (metis answer_step snd_conv)+

lemma del_user_step: "buffer_inv (mc_wb s) \<Longrightarrow> run_ok (handle_del_user args (store, s)) (cmd_step adds store s)"
  using user_changes(2) [of adds store]
  by (auto simp: handle_del_user_def answer_step Let_def split: prod.splits store_user_result.splits)
     (metis answer_step snd_conv)+

lemma set_password_step:
  "buffer_inv (mc_wb s) \<Longrightarrow> run_ok (handle_set_password args (store, s)) (cmd_step adds store s)"
  using user_changes(3) [of adds store]
  by (auto simp: handle_set_password_def answer_step Let_def split: prod.splits store_user_result.splits)
     (metis answer_step snd_conv)+

text \<open>What \<open>calloc\<close> documents: a successful call returns memory that is not in use.\<close>

definition calloc_fresh :: "cmd_env \<Rightarrow> bool" where
  "calloc_fresh env \<longleftrightarrow> (\<forall>store. \<exists>a. e_calloc env store = Some a \<and> map_of (ms_rules store) a = None)"

lemma acl_changes: "acl_frame store store' \<Longrightarrow> acl_inv store' \<Longrightarrow> store_change adds store store'"
  by (simp add: store_change_def acl_change_def)

lemma deny_host_step:
  assumes "buffer_inv (mc_wb s)" "acl_inv store" "calloc_fresh env"
    and fits: "2 \<le> length args \<longrightarrow> length (args ! 1) \<le> STORE_MAX_DEST_HOST"
  shows "run_ok (handle_deny_host env args (store, s)) (cmd_step adds store s)"
proof (cases "length args < 2")
  case False
  obtain a where a: "e_calloc env store = Some a" "map_of (ms_rules store) a = None"
    using assms(3) by (auto simp: calloc_fresh_def)
  obtain b store' where d: "store_deny_host (e_net env) (Some a) store (Some (args ! 1)) = Inr (b, store')"
    "acl_inv store'" "acl_frame store store'"
    using deny_host_law [OF assms(2) a(2), of "args ! 1" "e_net env"] fits False by auto
  show ?thesis
    using False a d assms(1,2)
    by (simp add: handle_deny_host_def is_denied_members answer_step acl_changes)
qed (use assms in \<open>simp add: handle_deny_host_def answer_step\<close>)

lemma deny_host_overflow:
  assumes "acl_inv store" "e_calloc env store = Some a" "2 \<le> length args"
    and "STORE_MAX_DEST_HOST < length (args ! 1)"
    and "Acl_host (args ! 1) \<notin> set (host_members store)"
    and "inet_pton4 (e_net env) (args ! 1) = None" "inet_pton6 (e_net env) (args ! 1) = None"
  shows "handle_deny_host env args (store, s) = Inl Out_of_bounds"
  using assms by (simp add: handle_deny_host_def store_deny_host_def is_denied_members)

lemma deny_ip_step:
  assumes "buffer_inv (mc_wb s)" "acl_inv store" "calloc_fresh env"
  shows "run_ok (handle_deny_ip env args (store, s)) (cmd_step adds store s)"
proof (cases "length args < 2")
  case False
  obtain a where a: "e_calloc env store = Some a" "map_of (ms_rules store) a = None"
    using assms(3) by (auto simp: calloc_fresh_def)
  obtain b store' where d: "store_deny_ip (e_net env) (Some a) store (Some (args ! 1)) = Inr (b, store')"
    "acl_inv store'" "acl_frame store store'"
    using deny_ip_law [OF assms(2) a(2), of "e_net env" "args ! 1"] by auto
  show ?thesis
    using False a d assms(1,2)
    by (simp add: handle_deny_ip_def is_denied_members answer_step acl_changes)
qed (use assms in \<open>simp add: handle_deny_ip_def answer_step\<close>)

lemma undeny_step:
  assumes "buffer_inv (mc_wb s)" "acl_inv store"
  shows "run_ok (handle_undeny env args (store, s)) (cmd_step adds store s)"
proof (cases "length args < 2")
  case False
  obtain b t where d: "store_undeny_host store (Some (args ! 1)) = Inr (b, t)" "acl_inv t" "acl_frame store t"
    using undeny_host_law [OF assms(2), of "args ! 1"] by auto
  obtain b' u where e: "store_undeny_ip (e_net env) t (Some (args ! 1)) = Inr (b', u)" "acl_inv u" "acl_frame t u"
    using undeny_ip_law [OF d(2), of "e_net env" "args ! 1"] by auto
  show ?thesis
    using False d e assms(1) acl_frame_trans [OF d(3) e(3)]
    by (simp add: handle_undeny_def answer_step acl_changes)
qed (use assms in \<open>simp add: handle_undeny_def answer_step\<close>)

lemma show_list_ok:
  assumes "buffer_inv (mc_wb s)" "acl_rules_of store head = Inr rs"
  shows "run_ok (show_list net title store head s) (out_step s)"
  using assms
  by (auto simp: show_list_def intro!: run_ok_mono [OF reply_ok] intro: run_ok_mono [OF list_rules_ok]
      elim: out_step_trans dest: out_step_fields)

lemma deny_list_step:
  assumes "buffer_inv (mc_wb s)" "acl_inv store"
  shows "run_ok (handle_deny_list env args (store, s)) (cmd_step adds store s)"
proof -
  from assms(2) obtain hs as where st: "acl_state store hs as" by (auto simp: acl_inv_def)
  note rs = acl_rules_state [OF st]
  have one: "run_ok (if c then show_list net t store (get_denied_hosts store) s else Inr s) (out_step s)" for c net t
    using show_list_ok [OF assms(1) rs(1)] assms(1) by auto
  have two: "run_ok (if c then show_list net t store (get_denied_ips store) u else Inr u) (out_step u)"
    if "out_step s u" for c net t u
    using show_list_ok [OF _ rs(2), of u] out_step_fields(4) [OF that] by auto
  show ?thesis
    unfolding handle_deny_list_def Let_def prod.case run_ok_bind
    by (rule run_ok_mono [OF one], rule run_ok_mono [OF two]) (auto elim: out_step_trans)
qed

lemma quit_result:
  assumes "buffer_inv (mc_wb s)"
  shows "handle_quit (store, s) =
    Inr (store, s\<lparr>mc_wb := wb_put (mc_wb s) (bytes_of (nl ''+OK'')), mc_close_after_flush := True\<rparr>)"
  using assms by (simp add: handle_quit_def answer_eq)

section \<open>A line and a byte\<close>

text \<open>A step of the session: output is appended, \<open>close_after_flush\<close> is only ever set.\<close>

definition sess_step :: "monitor_commands_session \<Rightarrow> monitor_commands_session \<Rightarrow> bool" where
  "sess_step s s' \<longleftrightarrow>
     buffer_inv (mc_wb s') \<and> b_limit (mc_wb s') = b_limit (mc_wb s) \<and>
     (\<exists>out. buffer_pending (mc_wb s') = buffer_pending (mc_wb s) @ out) \<and>
     (mc_close_after_flush s \<longrightarrow> mc_close_after_flush s')"

lemma out_sess_step: "out_step s s' \<Longrightarrow> sess_step s s'"
  by (auto simp: out_step_def sess_step_def)

lemma sess_step_trans: "sess_step s t \<Longrightarrow> sess_step t u \<Longrightarrow> sess_step s u"
  by (auto simp: sess_step_def)

definition line_step :: "(string \<Rightarrow> bool) \<Rightarrow> monitor_store \<Rightarrow> monitor_commands_session \<Rightarrow> mstate \<Rightarrow> bool" where
  "line_step adds store s = (\<lambda>(store', s'). store_change adds store store' \<and> sess_step s s' \<and>
     mc_state s' = mc_state s \<and> mc_line s' = mc_line s)"

lemma cmd_line_step: "cmd_step adds store s ms \<Longrightarrow> line_step adds store s ms"
  by (auto simp: line_step_def cmd_step_def out_sess_step out_step_fields split: prod.splits)

text \<open>The host name of a \<open>DENY_HOST\<close> line fits the array of the rule.\<close>

definition added_name :: "string list \<Rightarrow> string \<Rightarrow> bool" where
  "added_name args n \<longleftrightarrow> 3 \<le> length args \<and> args ! 0 = ''ADD_USER'' \<and> n = args ! 1"

definition line_fits :: "string list \<Rightarrow> bool" where
  "line_fits args \<longleftrightarrow>
     (2 \<le> length args \<and> args ! 0 = ''DENY_HOST'' \<longrightarrow> length (args ! 1) \<le> STORE_MAX_DEST_HOST)"

lemma run_command_step:
  assumes "buffer_inv (mc_wb s)" "acl_inv store" "calloc_fresh env" "line_fits args"
  shows "run_ok (run_command env (args ! 0) args (store, s)) (line_step (added_name args) store s)"
proof (cases "args ! 0 = ''QUIT''")
  case True
  have "sess_step s (s\<lparr>mc_wb := wb_put (mc_wb s) (bytes_of (nl ''+OK'')), mc_close_after_flush := True\<rparr>)"
    using assms(1) by (simp add: sess_step_def wb_put_props)
  with True quit_result [OF assms(1), of store] show ?thesis
    by (simp add: run_command_def line_step_def)
next
  case False
  have "args ! 0 = ''DENY_HOST'' \<Longrightarrow> run_ok (handle_deny_host env args (store, s)) (cmd_step (added_name args) store s)"
    using assms by (intro deny_host_step) (auto simp: line_fits_def)
  moreover have "args ! 0 = ''ADD_USER'' \<Longrightarrow>
      run_ok (handle_add_user args (store, s)) (cmd_step (added_name args) store s)"
    using assms by (intro add_user_step) (auto simp: added_name_def)
  ultimately have "run_ok (run_command env (args ! 0) args (store, s)) (cmd_step (added_name args) store s)"
    unfolding run_command_def
    by (simp add: stats_step connections_step users_step config_step access_log_step
        del_user_step set_password_step deny_ip_step undeny_step deny_list_step answer_step assms False)
  then show ?thesis by (rule run_ok_mono) (rule cmd_line_step)
qed

definition auth_line :: "monitor_store \<Rightarrow> string list \<Rightarrow> bool" where
  "auth_line store args \<longleftrightarrow> 3 \<le> length args \<and> args ! 0 = ''AUTH'' \<and>
     store_admin_authenticate store (Some (args ! 1)) (Some (args ! 2)) = STORE_AUTH_OK"

text \<open>What a line of an unauthenticated session does.\<close>

definition gate_step :: "monitor_store \<Rightarrow> monitor_commands_session \<Rightarrow> bool \<Rightarrow> mstate \<Rightarrow> bool" where
  "gate_step store s authed = (\<lambda>(store', s'). store' = store \<and> sess_step s s' \<and>
     mc_line s' = mc_line s \<and> mc_close_after_flush s' = mc_close_after_flush s \<and>
     mc_state s' = (if authed then MONITOR_ST_AUTHENTICATED else mc_state s))"

lemma answer_gate:
  assumes "buffer_inv (mc_wb s)" "gate_step store s authed (store, t)" "buffer_inv (mc_wb t)"
  shows "run_ok (answer text (store, t)) (gate_step store s authed)"
  using assms(2,3)
  by (auto simp: answer_eq gate_step_def sess_step_def wb_put_props)

lemma sess_step_refl [simp]: "buffer_inv (mc_wb s) \<Longrightarrow> sess_step s s"
  by (simp add: sess_step_def)

lemma handle_auth_gate:
  assumes "buffer_inv (mc_wb s)" "mc_state s = MONITOR_ST_AWAIT_AUTH" "args ! 0 = ''AUTH''"
  shows "run_ok (handle_auth args (store, s)) (gate_step store s (auth_line store args))"
proof -
  have "gate_step store s False (store, s)" "gate_step store s True (store, s\<lparr>mc_state := MONITOR_ST_AUTHENTICATED\<rparr>)"
    using assms(1) by (simp_all add: gate_step_def sess_step_def)
  note g = answer_gate [OF assms(1) this(1) assms(1)] answer_gate [OF assms(1) this(2)]
  show ?thesis
    using assms g
    by (cases "length args < 3"; cases "store_admin_authenticate store (Some (args ! 1)) (Some (args ! 2))")
       (simp_all add: handle_auth_def auth_line_def)
qed

lemma await_dispatch:
  assumes "buffer_inv (mc_wb s)" "mc_state s = MONITOR_ST_AWAIT_AUTH"
  shows "run_ok (dispatch_line env line (store, s)) (gate_step store s (auth_line store (split_line line)))"
proof (cases "split_line line = []")
  case True
  with assms show ?thesis by (simp add: dispatch_line_def gate_step_def auth_line_def)
next
  case False
  let ?args = "split_line line"
  let ?m = "if ?args ! 0 = ''AUTH'' then handle_auth ?args (store, s) else answer (nl ''-ERR not authenticated'') (store, s)"
  have "gate_step store s False (store, s)" using assms(1) by (simp add: gate_step_def)
  from answer_gate [OF assms(1) this assms(1)] handle_auth_gate [OF assms, of ?args store]
  have m: "run_ok ?m (gate_step store s (auth_line store ?args))"
    by (auto simp: auth_line_def)
  have "run_ok (answer (nl ''.'') x) (gate_step store s (auth_line store ?args))"
    if g: "gate_step store s (auth_line store ?args) x" for x
  proof -
    obtain t where t: "x = (store, t)" "buffer_inv (mc_wb t)"
      using g by (cases x) (auto simp: gate_step_def sess_step_def)
    with answer_gate [OF assms(1) _ t(2)] g show ?thesis by simp
  qed
  from run_ok_mono [OF m this] show ?thesis
    using False assms(2) by (simp add: dispatch_line_def Let_def)
qed

lemma answer_line_step:
  "line_step adds store s x \<Longrightarrow> run_ok (answer t x) (line_step adds store s)"
  by (cases x) (auto simp: line_step_def answer_eq sess_step_def wb_put_props)

lemma authed_dispatch:
  assumes "buffer_inv (mc_wb s)" "mc_state s = MONITOR_ST_AUTHENTICATED" "acl_inv store" "calloc_fresh env"
    and "line_fits (split_line line)"
  shows "run_ok (dispatch_line env line (store, s)) (line_step (added_name (split_line line)) store s)"
proof (cases "split_line line = []")
  case True
  with assms show ?thesis by (simp add: dispatch_line_def line_step_def)
next
  case False
  let ?args = "split_line line"
  let ?m = "if ?args ! 0 = ''AUTH'' then answer (nl ''-ERR already authenticated'') (store, s)
            else run_command env (?args ! 0) ?args (store, s)"
  have "run_ok (answer t (store, s)) (line_step adds store s)" for adds t
    by (rule run_ok_mono [OF answer_step [OF assms(1) store_change_refl]]) (rule cmd_line_step)
  then have m: "run_ok ?m (line_step (added_name ?args) store s)"
    using run_command_step [OF assms(1,3,4,5)] by auto
  have "run_ok ?m (\<lambda>x. run_ok (answer (nl ''.'') x) (line_step (added_name ?args) store s))"
    by (rule run_ok_mono [OF m]) (rule answer_line_step)
  then show ?thesis
    using False assms(2) by (simp add: dispatch_line_def Let_def split: if_splits)
qed

text \<open>Any line at all: the only fault is the copy of an over-long host name.\<close>

lemma deny_host_faults:
  assumes "buffer_inv (mc_wb s)" "acl_inv store" "calloc_fresh env"
  shows "run_ok (handle_deny_host env args (store, s)) (cmd_step adds store s) \<or>
    handle_deny_host env args (store, s) = Inl Out_of_bounds"
proof (cases "2 \<le> length args \<longrightarrow> length (args ! 1) \<le> STORE_MAX_DEST_HOST")
  case True
  from deny_host_step [OF assms True] show ?thesis by blast
next
  case False
  obtain a where "e_calloc env store = Some a" using assms(3) by (auto simp: calloc_fresh_def)
  with False show ?thesis
    using assms(1,2)
    by (auto simp: handle_deny_host_def is_denied_members store_deny_host_def answer_step)
qed

lemma authed_dispatch_faults:
  assumes "buffer_inv (mc_wb s)" "mc_state s = MONITOR_ST_AUTHENTICATED" "acl_inv store" "calloc_fresh env"
  shows "run_ok (dispatch_line env line (store, s)) (line_step (added_name (split_line line)) store s) \<or>
    dispatch_line env line (store, s) = Inl Out_of_bounds"
proof (cases "line_fits (split_line line)")
  case True
  from authed_dispatch [OF assms True] show ?thesis by blast
next
  case False
  let ?args = "split_line line"
  have a: "?args ! 0 = ''DENY_HOST''" "?args \<noteq> []" using False by (auto simp: line_fits_def)
  then have eq: "dispatch_line env line (store, s) = run_bind (handle_deny_host env ?args (store, s)) (answer (nl ''.''))"
    using assms(2) by (simp add: dispatch_line_def Let_def run_command_def)
  have ans: "run_ok (answer t x) (line_step adds store s)" if "cmd_step adds store s x" for x adds t
    using that cmd_line_step answer_line_step by blast
  from deny_host_faults [OF assms(1,3,4), of ?args] show ?thesis
  proof
    assume ok: "run_ok (handle_deny_host env ?args (store, s)) (cmd_step (added_name ?args) store s)"
    have "run_ok (dispatch_line env line (store, s)) (line_step (added_name ?args) store s)"
      unfolding eq run_ok_bind by (rule run_ok_mono [OF ok]) (rule ans)
    then show ?thesis ..
  next
    assume "handle_deny_host env ?args (store, s) = Inl Out_of_bounds"
    then show ?thesis by (simp add: eq)
  qed
qed

section \<open>Feeding a session\<close>

definition mon_inv :: "mstate \<Rightarrow> bool" where
  "mon_inv = (\<lambda>(store, s). acl_inv store \<and> buffer_inv (mc_wb s) \<and> length (mc_line s) \<le> MONITOR_LINE_MAX)"

text \<open>What happens between two states of a session: output is only appended, the last admin
  stays, and before authentication the store is not changed.\<close>

definition mon_rel :: "mstate \<Rightarrow> mstate \<Rightarrow> bool" where
  "mon_rel = (\<lambda>(store, s) (store', s').
     mon_inv (store', s') \<and> sess_step s s' \<and>
     (0 < store_admin_count store \<longrightarrow> 0 < store_admin_count store') \<and> (tables_inv store \<longrightarrow> tables_inv store') \<and>
     (mc_state s = MONITOR_ST_AUTHENTICATED \<longrightarrow> mc_state s' = MONITOR_ST_AUTHENTICATED) \<and>
     (mc_state s = MONITOR_ST_AWAIT_AUTH \<longrightarrow>
        mc_state s' = MONITOR_ST_AWAIT_AUTH \<and> store' = store \<or>
        mc_state s' = MONITOR_ST_AUTHENTICATED \<and> (\<exists>u p. users_map store u = Some (p, STORE_ROLE_ADMIN))))"

lemma mon_rel_refl: "mon_inv ms \<Longrightarrow> mon_rel ms ms"
  by (cases "mc_state (snd ms)") (auto simp: mon_rel_def mon_inv_def)

lemma mon_rel_trans: "mon_rel a b \<Longrightarrow> mon_rel b c \<Longrightarrow> mon_rel a c"
  by (cases a; cases b; cases c) (auto simp: mon_rel_def intro: sess_step_trans)

lemma mon_rel_inv: "mon_rel a b \<Longrightarrow> mon_inv b"
  by (cases a; cases b) (auto simp: mon_rel_def)

lemma admin_count_delete:
  assumes "0 < store_admin_count store"
  shows "0 < store_admin_count (snd (store_user_delete store (Some n)))"
proof (cases "first_idx (named_user n) (ms_users store)")
  case (Some i)
  let ?us = "ms_users store" and ?u = "(ms_users store ! i)\<lparr>u_used := False, u_username := [], u_password := []\<rparr>"
  note f = first_idx_SomeD [OF Some]
  have c: "length (filter is_admin_user (?us[i := ?u])) + (if is_admin_user (?us ! i) then 1 else 0) =
      length (filter is_admin_user ?us)"
    using count_update [of i ?us is_admin_user ?u] f by (simp add: is_admin_user_def)
  show ?thesis
    using Some f c assms
    by (auto simp: store_user_delete_def store_admin_count_def Let_def is_admin_user_def named_user_def
        simp del: length_greater_0_conv split: if_splits)
qed (use assms in \<open>simp add: store_user_delete_def del: first_idx_None\<close>)

lemma admin_count_add:
  "store_admin_count store \<le> store_admin_count (snd (store_user_add store (Some n) (Some p) adm))"
proof (cases "first_idx (\<lambda>u. \<not> u_used u) (ms_users store)")
  case (Some i)
  note f = first_idx_SomeD [OF Some]
  show ?thesis
    using Some f count_update [of i "ms_users store" is_admin_user]
    by (auto simp: store_user_add_def store_admin_count_def is_admin_user_def)
qed (simp add: store_user_add_def del: first_idx_None)

lemma admin_count_set_password:
  "store_admin_count (snd (store_user_set_password store (Some n) (Some p))) = store_admin_count store"
proof (cases "first_idx (named_user n) (ms_users store)")
  case (Some i)
  with first_idx_SomeD [OF Some] show ?thesis
    by (simp add: store_user_set_password_def store_admin_count_def is_admin_user_def)
qed (simp add: store_user_set_password_def del: first_idx_None)

lemma config_users [simp]:
  "ms_users (snd (store_config_set mem store key v)) = ms_users store"
  "ms_user_count (snd (store_config_set mem store key v)) = ms_user_count store"
  by (auto simp: store_config_set_def store_grow_sessions_slots_def Let_def split: store_config_key.splits)

lemma config_acl [simp]:
  "ms_rules (snd (store_config_set mem store key v)) = ms_rules store"
  "ms_denied_hosts (snd (store_config_set mem store key v)) = ms_denied_hosts store"
  "ms_last_denied_host (snd (store_config_set mem store key v)) = ms_last_denied_host store"
  "ms_denied_addresses (snd (store_config_set mem store key v)) = ms_denied_addresses store"
  "ms_last_denied_addr (snd (store_config_set mem store key v)) = ms_last_denied_addr store"
  by (auto simp: store_config_set_def store_grow_sessions_slots_def Let_def split: store_config_key.splits)

lemma users_ops_frame:
  "\<exists>us c. snd (store_user_add store (Some n) (Some p) adm) = store\<lparr>ms_users := us, ms_user_count := c\<rparr>"
  "\<exists>us c. snd (store_user_delete store (Some n)) = store\<lparr>ms_users := us, ms_user_count := c\<rparr>"
  "\<exists>us c. snd (store_user_set_password store (Some n) (Some p)) = store\<lparr>ms_users := us, ms_user_count := c\<rparr>"
proof -
  have same: "\<exists>us c. store = store\<lparr>ms_users := us, ms_user_count := c\<rparr>"
    by (intro exI [of _ "ms_users store"] exI [of _ "ms_user_count store"]) simp
  have same': "\<exists>vs c. store\<lparr>ms_users := us\<rparr> = store\<lparr>ms_users := vs, ms_user_count := c\<rparr>" for us
    by (intro exI [of _ us] exI [of _ "ms_user_count store"]) simp
  show "\<exists>us c. snd (store_user_add store (Some n) (Some p) adm) = store\<lparr>ms_users := us, ms_user_count := c\<rparr>"
    using same by (auto simp: store_user_add_def split: option.splits)
  show "\<exists>us c. snd (store_user_delete store (Some n)) = store\<lparr>ms_users := us, ms_user_count := c\<rparr>"
    using same by (auto simp: store_user_delete_def Let_def split: option.splits)
  show "\<exists>us c. snd (store_user_set_password store (Some n) (Some p)) = store\<lparr>ms_users := us, ms_user_count := c\<rparr>"
    using same same' by (auto simp: store_user_set_password_def split: option.splits)
qed

lemma store_change_kept:
  assumes "store_change adds store store'" and "acl_inv store"
  shows "acl_inv store'" and "0 < store_admin_count store \<Longrightarrow> 0 < store_admin_count store'" and "tables_inv store \<Longrightarrow> tables_inv store'"
proof -
  have u: "acl_inv (store\<lparr>ms_users := us, ms_user_count := c\<rparr>)" for us c
    using assms(2) by (rule acl_inv_cong) simp_all
  have f: "store_admin_count store' = store_admin_count store" if "acl_frame store store'"
    using that by (auto simp: acl_frame_def store_admin_count_def)
  show "acl_inv store'"
    using assms u users_ops_frame
    unfolding store_change_def user_change_def config_change_def acl_change_def
    by (metis acl_inv_cong [OF assms(2)] config_acl)
  show "0 < store_admin_count store'" if pos: "0 < store_admin_count store"
  proof -
    consider "store' = store" | n p adm where "store' = snd (store_user_add store (Some n) (Some p) adm)"
      | n where "store' = snd (store_user_delete store (Some n))"
      | n p where "store' = snd (store_user_set_password store (Some n) (Some p))"
      | mem key v where "store' = snd (store_config_set mem store key v)" | "acl_frame store store'"
      using assms(1) unfolding store_change_def user_change_def config_change_def acl_change_def by blast
    then show ?thesis
    proof cases
      case (2 n p adm)
      then show ?thesis using pos admin_count_add [of store n p adm] by simp
    next
      case (5 mem key v)
      then show ?thesis using pos by (simp add: store_admin_count_def)
    qed (use pos f admin_count_delete [OF pos] in \<open>simp_all add: admin_count_set_password\<close>)
  qed
  show "tables_inv store'" if "tables_inv store"
  proof -
    have users: "tables_inv (store\<lparr>ms_users := us, ms_user_count := c\<rparr>)" for us c
      using that by (auto simp: tables_inv_def intro: sessions_inv_cong log_inv_cong)
    have frame: "tables_inv store'" if "acl_frame store store'"
      using that \<open>tables_inv store\<close> by (auto simp: tables_inv_def acl_frame_def intro: sessions_inv_cong log_inv_cong)
    show ?thesis
      using assms(1) that users frame users_ops_frame tables_config
      unfolding store_change_def user_change_def config_change_def acl_change_def by metis
  qed
qed

text \<open>
  A run is fine when it ends in a related state, or when it faults on the copy of an over-long
  host name, for which an admin must have logged in.
\<close>

definition admin_known :: "mstate \<Rightarrow> bool" where
  "admin_known = (\<lambda>(store, s). mc_state s = MONITOR_ST_AUTHENTICATED \<or>
     (\<exists>u p. users_map store u = Some (p, STORE_ROLE_ADMIN)))"

definition mon_run :: "mstate \<Rightarrow> mstate run \<Rightarrow> bool" where
  "mon_run ms m \<longleftrightarrow> run_ok m (mon_rel ms) \<or> m = Inl Out_of_bounds \<and> admin_known ms"

lemma mon_rel_known: "mon_rel a b \<Longrightarrow> admin_known b \<Longrightarrow> admin_known a"
  by (cases a; cases b; cases "mc_state (snd a)") (auto simp: mon_rel_def admin_known_def)

lemma mon_run_Inr: "mon_rel ms x \<Longrightarrow> mon_run ms (Inr x)"
  by (simp add: mon_run_def)

lemma mon_run_bind:
  assumes "mon_run ms m" and "\<And>x. mon_rel ms x \<Longrightarrow> mon_run x (f x)"
  shows "mon_run ms (run_bind m f)"
proof (cases m)
  case (Inr x)
  with assms(1) have x: "mon_rel ms x" by (simp add: mon_run_def)
  from assms(2) [OF x] show ?thesis
  proof (unfold mon_run_def, elim disjE)
    assume "run_ok (f x) (mon_rel x)"
    then have "run_ok (f x) (mon_rel ms)" by (rule run_ok_mono) (rule mon_rel_trans [OF x])
    then show "run_ok (run_bind m f) (mon_rel ms) \<or> run_bind m f = Inl Out_of_bounds \<and> admin_known ms"
      using Inr by simp
  next
    assume "f x = Inl Out_of_bounds \<and> admin_known x"
    then show "run_ok (run_bind m f) (mon_rel ms) \<or> run_bind m f = Inl Out_of_bounds \<and> admin_known ms"
      using Inr mon_rel_known [OF x] by simp
  qed
qed (use assms in \<open>auto simp: mon_run_def\<close>)

lemma answer_mon:
  assumes "mon_inv ms"
  shows "mon_run ms (answer text ms)"
proof -
  obtain store s where ms: "ms = (store, s)" by force
  have "run_ok (answer text (store, s)) (mon_rel (store, s))"
    by (rule run_ok_mono [OF answer_ok])
       (use assms ms in \<open>auto simp: mon_inv_def mon_rel_def out_sess_step out_step_fields
          intro: monitor_commands_state.exhaust [of "mc_state s"]\<close>)
  then show ?thesis by (simp add: ms mon_run_def)
qed

lemma dispatch_mon:
  assumes "mon_inv ms" "calloc_fresh env"
  shows "mon_run ms (dispatch_line env line ms)"
proof -
  obtain store s where ms: "ms = (store, s)" by force
  have inv: "acl_inv store" "buffer_inv (mc_wb s)" "length (mc_line s) \<le> MONITOR_LINE_MAX"
    using assms(1) ms by (simp_all add: mon_inv_def)
  show ?thesis
  proof (cases "mc_state s")
    case MONITOR_ST_AWAIT_AUTH
    have "mon_rel (store, s) x" if "gate_step store s (auth_line store (split_line line)) x" for x
    proof -
      have "\<exists>u p. users_map store u = Some (p, STORE_ROLE_ADMIN)" if "auth_line store (split_line line)"
        using that by (auto simp: auth_line_def authenticate_map split: option.splits if_splits) metis
      then show ?thesis
        using that inv MONITOR_ST_AWAIT_AUTH
        by (cases x) (auto simp: gate_step_def mon_rel_def mon_inv_def sess_step_def)
    qed
    with await_dispatch [OF inv(2) MONITOR_ST_AWAIT_AUTH] show ?thesis
      unfolding ms mon_run_def by (blast intro: run_ok_mono)
  next
    case MONITOR_ST_AUTHENTICATED
    have "mon_rel (store, s) x" if l: "line_step adds store s x" for x adds
    proof -
      obtain store' s' where x: "x = (store', s')" by force
      have sc: "store_change adds store store'" "sess_step s s'" "mc_state s' = mc_state s" "mc_line s' = mc_line s"
        using l by (simp_all add: x line_step_def)
      show ?thesis
        using sc(2-4) store_change_kept [OF sc(1) inv(1)] inv(3) MONITOR_ST_AUTHENTICATED
        by (simp add: x mon_rel_def mon_inv_def sess_step_def)
    qed
    with authed_dispatch_faults [OF inv(2) MONITOR_ST_AUTHENTICATED inv(1) assms(2), of line]
    show ?thesis
      unfolding ms mon_run_def using MONITOR_ST_AUTHENTICATED
      by (auto simp: admin_known_def intro: run_ok_mono)
  qed
qed

lemma set_line_rel:
  "mon_rel a (store, s) \<Longrightarrow> length l \<le> MONITOR_LINE_MAX \<Longrightarrow> mon_rel a (store, s\<lparr>mc_line := l\<rparr>)"
  by (cases a) (simp add: mon_rel_def mon_inv_def sess_step_def)

lemma process_byte_mon:
  assumes "mon_inv ms" "calloc_fresh env"
  shows "mon_run ms (process_byte env ch ms)"
proof -
  obtain store s where ms: "ms = (store, s)" by force
  have rel: "mon_rel ms (store, s\<lparr>mc_line := l\<rparr>)" if "length l \<le> MONITOR_LINE_MAX" for l
    using set_line_rel mon_rel_refl [OF assms(1)] ms that by blast
  consider (long) "length (mc_line s) \<ge> MONITOR_LINE_MAX"
    | (nl) "length (mc_line s) < MONITOR_LINE_MAX" "ch = CHR 0x0A"
    | (ch) "length (mc_line s) < MONITOR_LINE_MAX" "ch \<noteq> CHR 0x0A" by linarith
  then show ?thesis
  proof cases
    case long
    let ?t = "(store, s\<lparr>mc_line := []\<rparr>)"
    have "mon_run ms (Inr ?t)" using rel [of "[]"] by (simp add: mon_run_Inr)
    then have "mon_run ms (run_bind (Inr ?t) (\<lambda>t. run_bind (answer (nl ''-ERR line too long'') t) (answer (nl ''.''))))"
      by (rule mon_run_bind) (intro mon_run_bind answer_mon, auto dest: mon_rel_inv)
    then show ?thesis using long ms by (simp add: process_byte_def)
  next
    case nl
    let ?m = "if mc_line s \<noteq> [] then dispatch_line env (line_text (mc_line s)) (store, s) else Inr (store, s)"
    have "mon_run ms ?m"
      using dispatch_mon [OF assms, of "line_text (mc_line s)"] mon_rel_refl [OF assms(1)] ms
      by (auto simp: mon_run_Inr)
    then have "mon_run ms (run_bind ?m (\<lambda>(store', s'). Inr (store', s'\<lparr>mc_line := []\<rparr>)))"
    proof (rule mon_run_bind)
      fix x assume "mon_rel ms x"
      then have "mon_rel x x" using mon_rel_inv mon_rel_refl by blast
      then show "mon_run x (case x of (store', s') \<Rightarrow> Inr (store', s'\<lparr>mc_line := []\<rparr>))"
        by (cases x) (simp add: mon_run_Inr set_line_rel)
    qed
    then show ?thesis using nl ms by (simp add: process_byte_def)
  next
    case ch
    then show ?thesis using rel [of "mc_line s @ [ch]"] ms by (simp add: process_byte_def mon_run_Inr)
  qed
qed

lemma feed_mon:
  assumes "mon_inv ms" "calloc_fresh env"
  shows "mon_run ms (monitor_commands_feed env bs ms)"
  using assms(1)
proof (induction bs arbitrary: ms)
  case (Cons b bs)
  show ?case
    unfolding monitor_commands_feed.simps
    by (rule mon_run_bind [OF process_byte_mon [OF Cons.prems assms(2)]])
       (rule Cons.IH, rule mon_rel_inv)
qed (simp add: mon_run_Inr mon_rel_refl)

lemma flush_on_eof_mon:
  assumes "mon_inv ms" "calloc_fresh env"
  shows "mon_run ms (monitor_commands_flush_on_eof env ms)"
proof -
  obtain store s where ms: "ms = (store, s)" by force
  show ?thesis
  proof (cases "mc_line s = []")
    case False
    have "mon_run ms (run_bind (dispatch_line env (cstr (mc_line s)) (store, s))
        (\<lambda>(store', s'). Inr (store', s'\<lparr>mc_line := []\<rparr>)))"
    proof (rule mon_run_bind)
      show "mon_run ms (dispatch_line env (cstr (mc_line s)) (store, s))"
        using dispatch_mon [OF assms] ms by simp
      fix x assume "mon_rel ms x"
      then have "mon_rel x x" using mon_rel_inv mon_rel_refl by blast
      then show "mon_run x (case x of (store', s') \<Rightarrow> Inr (store', s'\<lparr>mc_line := []\<rparr>))"
        by (cases x) (simp add: mon_run_Inr set_line_rel)
    qed
    then show ?thesis using False ms by (simp add: monitor_commands_flush_on_eof_def)
  qed (use ms assms(1) in \<open>simp add: monitor_commands_flush_on_eof_def mon_run_Inr mon_rel_refl\<close>)
qed

section \<open>Framing\<close>

lemma feed_append:
  "monitor_commands_feed env (xs @ ys) ms =
    run_bind (monitor_commands_feed env xs ms) (monitor_commands_feed env ys)"
  by (induction xs arbitrary: ms) (simp_all add: run_bind_assoc cong: run_bind_cong)

lemma feed_Nil [simp]: "monitor_commands_feed env [] = Inr"
  by (simp add: fun_eq_iff)

lemma feed_accumulates:
  assumes "CHR 0x0A \<notin> set l" "length (mc_line s) + length l \<le> MONITOR_LINE_MAX"
  shows "monitor_commands_feed env (bytes_of l) (store, s) = Inr (store, s\<lparr>mc_line := mc_line s @ l\<rparr>)"
  using assms
proof (induction l arbitrary: s)
  case (Cons c l)
  have "monitor_commands_feed env (bytes_of (c # l)) (store, s) =
      monitor_commands_feed env (bytes_of l) (store, s\<lparr>mc_line := mc_line s @ [c]\<rparr>)"
    using Cons.prems by (auto simp: process_byte_def)
  with Cons.IH [of "s\<lparr>mc_line := mc_line s @ [c]\<rparr>"] Cons.prems show ?case by simp
qed simp

lemma feed_line:
  assumes "CHR 0x0A \<notin> set l" "length l < MONITOR_LINE_MAX" "l \<noteq> []" "mc_line s = []"
  shows "monitor_commands_feed env (bytes_of (nl l)) (store, s) =
    run_bind (dispatch_line env (line_text l) (store, s\<lparr>mc_line := l\<rparr>))
      (\<lambda>(store', s'). Inr (store', s'\<lparr>mc_line := []\<rparr>))"
proof -
  have "bytes_of (nl l) = bytes_of l @ [byte_of_char (CHR 0x0A)]" by (simp add: nl_def)
  then have "monitor_commands_feed env (bytes_of (nl l)) (store, s) =
      run_bind (monitor_commands_feed env (bytes_of l) (store, s))
        (monitor_commands_feed env [byte_of_char (CHR 0x0A)])"
    by (simp only: feed_append)
  also have "\<dots> = process_byte env (CHR 0x0A) (store, s\<lparr>mc_line := l\<rparr>)"
    using assms feed_accumulates [of l s env store] by simp
  also have "\<dots> = run_bind (dispatch_line env (line_text l) (store, s\<lparr>mc_line := l\<rparr>))
      (\<lambda>(store', s'). Inr (store', s'\<lparr>mc_line := []\<rparr>))"
    using assms by (simp add: process_byte_def)
  finally show ?thesis .
qed

lemma feed_too_long:
  assumes "CHR 0x0A \<notin> set l" "length l = MONITOR_LINE_MAX" "mc_line s = []" "buffer_inv (mc_wb s)"
  shows "monitor_commands_feed env (bytes_of l @ [b]) (store, s) =
    Inr (store, s\<lparr>mc_line := [], mc_wb := wb_put (wb_put (mc_wb s) (bytes_of (nl ''-ERR line too long'')))
      (bytes_of (nl ''.''))\<rparr>)"
  using assms feed_accumulates [of l s env store]
  by (simp add: feed_append process_byte_def answer_eq wb_put_props)

lemma answer_sess:
  "buffer_inv (mc_wb s) \<Longrightarrow> run_ok (answer t (store, s)) (\<lambda>(_, t). sess_step s t)"
  by (rule run_ok_mono [OF answer_ok]) (auto simp: out_sess_step)

lemma run_command_sess:
  assumes "buffer_inv (mc_wb s)" "acl_inv store" "calloc_fresh env"
  shows "run_ok (run_command env (args ! 0) args (store, s)) (\<lambda>(_, t). sess_step s t) \<or>
    run_command env (args ! 0) args (store, s) = Inl Out_of_bounds"
proof (cases "line_fits args")
  case True
  have "run_ok (run_command env (args ! 0) args (store, s)) (\<lambda>(_, t). sess_step s t)"
    by (rule run_ok_mono [OF run_command_step [OF assms True]]) (auto simp: line_step_def)
  then show ?thesis ..
next
  case False
  then have "run_command env (args ! 0) args (store, s) = handle_deny_host env args (store, s)"
    by (auto simp: line_fits_def run_command_def)
  moreover have "run_ok (handle_deny_host env args (store, s)) (\<lambda>(_, t). sess_step s t)"
    if "run_ok (handle_deny_host env args (store, s)) (cmd_step (\<lambda>_. True) store s)"
    by (rule run_ok_mono [OF that]) (auto simp: out_sess_step)
  ultimately show ?thesis using deny_host_faults [OF assms, of args "\<lambda>_. True"] by auto
qed

text \<open>The part of \<open>dispatch_line\<close> before the terminator.\<close>

definition dispatch_body :: "cmd_env \<Rightarrow> string list \<Rightarrow> mstate \<Rightarrow> mstate run" where
  "dispatch_body env args ms =
     (if mc_state (snd ms) = MONITOR_ST_AWAIT_AUTH
      then if args ! 0 = ''AUTH'' then handle_auth args ms else answer (nl ''-ERR not authenticated'') ms
      else if args ! 0 = ''AUTH'' then answer (nl ''-ERR already authenticated'') ms
      else run_command env (args ! 0) args ms)"

lemma dispatch_line_body:
  "dispatch_line env line ms =
    (if split_line line = [] then Inr ms
     else run_bind (dispatch_body env (split_line line) ms) (answer (nl ''.'')))"
  by (simp add: dispatch_line_def dispatch_body_def Let_def)

lemma dispatch_body_sess:
  assumes b: "buffer_inv (mc_wb s)" "acl_inv store" "calloc_fresh env"
  shows "run_ok (dispatch_body env args (store, s)) (\<lambda>(_, t). sess_step s t) \<or>
    dispatch_body env args (store, s) = Inl Out_of_bounds"
proof (cases "mc_state s")
  case MONITOR_ST_AWAIT_AUTH
  have "run_ok (handle_auth args (store, s)) (\<lambda>(_, t). sess_step s t)" if "args ! 0 = ''AUTH''"
    by (rule run_ok_mono [OF handle_auth_gate [OF b(1) MONITOR_ST_AWAIT_AUTH that]]) (auto simp: gate_step_def)
  then show ?thesis
    using answer_sess [OF b(1)] by (simp add: dispatch_body_def MONITOR_ST_AWAIT_AUTH)
next
  case MONITOR_ST_AUTHENTICATED
  then show ?thesis
    using answer_sess [OF b(1)] run_command_sess [OF b, of args] by (auto simp: dispatch_body_def)
qed

lemma dispatch_terminated:
  assumes inv: "mon_inv (store, s)" "calloc_fresh env" and ne: "split_line line \<noteq> []"
    and d: "dispatch_line env line (store, s) = Inr (store', s')" and room: "2 \<le> buffer_room (mc_wb s')"
  shows "\<exists>out. buffer_pending (mc_wb s') = buffer_pending (mc_wb s) @ out @ bytes_of (nl ''.'')"
proof -
  from d ne obtain st1 s1 where m: "dispatch_body env (split_line line) (store, s) = Inr (st1, s1)"
    "answer (nl ''.'') (st1, s1) = Inr (store', s')"
    by (auto simp: dispatch_line_body run_simps)
  have "sess_step s s1"
    using dispatch_body_sess [of s store env "split_line line"] inv m(1) by (simp add: mon_inv_def)
  then obtain out where out: "buffer_inv (mc_wb s1)" "buffer_pending (mc_wb s1) = buffer_pending (mc_wb s) @ out"
    by (auto simp: sess_step_def)
  then have s': "mc_wb s' = wb_put (mc_wb s1) (bytes_of (nl ''.''))"
    using m(2) by (auto simp: answer_eq)
  then have "2 \<le> buffer_room (mc_wb s1)"
    using room out by (auto simp: wb_put_props nl_def split: if_splits)
  then have "buffer_pending (mc_wb s') = buffer_pending (mc_wb s) @ out @ bytes_of (nl ''.'')"
    unfolding s' using out by (simp add: wb_put_props nl_def)
  then show ?thesis ..
qed

section \<open>The store invariant\<close>

lemma registry_users:
  "registry_inv store \<Longrightarrow> registry_inv (store\<lparr>ms_users := us, ms_user_count := c\<rparr>)"
  by (auto simp: registry_inv_def intro: sessions_inv_cong ids_inv_cong log_inv_cong)

lemma frame_inv:
  assumes "acl_frame store store'"
  shows "users_inv store \<Longrightarrow> users_inv store'" "registry_inv store \<Longrightarrow> registry_inv store'"
    "users_map store' = users_map store" "sessions_map store' = sessions_map store"
  using assms
  by (auto simp: acl_frame_def registry_inv_def users_inv_def users_map_def
      intro: sessions_inv_cong ids_inv_cong log_inv_cong sessions_map_cong)

lemma users_op_inv:
  assumes "store_inv store" "users_inv store'" "\<exists>us c. store' = store\<lparr>ms_users := us, ms_user_count := c\<rparr>"
  shows "store_inv store'"
  using assms by (auto simp: store_inv_def registry_users intro: acl_inv_cong)

lemma store_change_inv:
  assumes "store_change adds store store'" "store_inv store" "\<And>n. adds n \<Longrightarrow> name_fits n"
  shows "store_inv store'"
proof -
  have u: "users_inv store" using assms(2) by (simp add: store_inv_def)
  consider "store' = store" | n p adm where "adds n" "store' = snd (store_user_add store (Some n) (Some p) adm)"
    | n where "store' = snd (store_user_delete store (Some n))"
    | n p where "store' = snd (store_user_set_password store (Some n) (Some p))"
    | mem key v where "store' = snd (store_config_set mem store key v)" | "acl_change store store'"
    using assms(1) unfolding store_change_def user_change_def config_change_def by blast
  then show ?thesis
  proof cases
    case (2 n p adm)
    then show ?thesis
      using ut.step_inv [OF u, of "Op_add n p adm"] assms(3) users_ops_frame(1) [of store n p adm]
      by (intro users_op_inv [OF assms(2)]) auto
  next
    case (3 n)
    then show ?thesis
      using ut.step_inv [OF u, of "Op_delete n"] users_ops_frame(2) [of store n]
      by (intro users_op_inv [OF assms(2)]) auto
  next
    case (4 n p)
    then show ?thesis
      using ut.step_inv [OF u, of "Op_set_password n p"] users_ops_frame(3) [of store n p]
      by (intro users_op_inv [OF assms(2)]) auto
  next
    case (5 mem key v)
    then show ?thesis
      using assms(2) config_registry [of store mem key v] users_inv_cong [of store store']
      by (auto simp: store_inv_def intro: acl_inv_cong)
  next
    case 6
    then show ?thesis
      using assms(2) frame_inv by (auto simp: store_inv_def acl_change_def)
  qed (use assms(2) in simp)
qed

lemma dispatch_store_inv:
  assumes "store_inv store" "mon_inv (store, s)" "calloc_fresh env"
    and "\<And>n. added_name (split_line line) n \<Longrightarrow> name_fits n"
    and "dispatch_line env line (store, s) = Inr (store', s')"
  shows "store_inv store'"
proof (cases "mc_state s")
  case MONITOR_ST_AWAIT_AUTH
  then show ?thesis
    using await_dispatch [of s env line store] assms(1,2,5) by (simp add: mon_inv_def gate_step_def)
next
  case MONITOR_ST_AUTHENTICATED
  then have "store_change (added_name (split_line line)) store store'"
    using authed_dispatch_faults [of s store env line] assms(2,3,5) by (simp add: mon_inv_def line_step_def)
  then show ?thesis using store_change_inv assms(1,4) by blast
qed

section \<open>Configuration over the wire\<close>

definition key_name :: "store_config_key \<Rightarrow> string" where
  "key_name key = (case key of
      STORE_CFG_TIMEOUT \<Rightarrow> ''timeout''
    | STORE_CFG_SESSIONS_CAP \<Rightarrow> ''max_connections''
    | STORE_CFG_IO_BUFFER_SIZE \<Rightarrow> ''io_buffer_size'')"

lemma key_name_parse [simp]: "store_config_key_from_name (Some (key_name key)) = Some key"
  by (cases key) (simp_all add: store_config_key_from_name_def key_name_def)

lemma key_name_word: "key_name key \<noteq> []" "CHR '' '' \<notin> set (key_name key)"
  by (cases key; simp add: key_name_def)+

lemma dec_word: "CHR '' '' \<notin> set (dec n)"
  using dec_digits [of n] by (auto simp: is_digit_def)

lemma split_two:
  assumes "w \<noteq> []" "CHR '' '' \<notin> set w" "v \<noteq> []" "CHR '' '' \<notin> set v"
  shows "split_line (w @ '' '' @ v) = [w, v]"
  using tokens_word [OF assms(1,2), of "'' '' @ v"] tokens_word [OF assms(3,4), of "[]"]
  by (simp add: split_line_def)

lemma split_three:
  assumes "w \<noteq> []" "CHR '' '' \<notin> set w" "v \<noteq> []" "CHR '' '' \<notin> set v" "u \<noteq> []" "CHR '' '' \<notin> set u"
  shows "split_line (w @ '' '' @ v @ '' '' @ u) = [w, v, u]"
  using tokens_word [OF assms(1,2), of "'' '' @ v @ '' '' @ u"] tokens_word [OF assms(3,4), of "'' '' @ u"]
    tokens_word [OF assms(5,6), of "[]"]
  by (simp add: split_line_def)

lemma config_write:
  assumes "sessions_inv store" "config_accepts (e_realloc env) store key v"
  shows "\<exists>store'. (\<forall>s. handle_config env [''CONFIG'', key_name key, dec v] (store, s) = answer (nl ''+OK'') (store', s)) \<and>
    unat (store_config_get store' key) = v"
proof -
  have small: "v \<le> 86400" using assms(2) by (cases key) (auto simp: config_accepts_def)
  then have u: "unat (word_of_int (int v) :: u32) = v"
    by (simp add: unsigned_of_nat take_bit_nat_eq_self)
  have st: "strtol (dec v) = (int v, [])" using small by (intro strtol_dec) (simp add: LONG_MAX_def)
  obtain r store' where r: "store_config_set (e_realloc env) store key (word_of_int (int v)) = (r, store')"
    by force
  have ok: "r = STORE_CFG_OK"
    using config_set_iff [OF assms(1), of "e_realloc env" key "word_of_int (int v)"] assms(2) u r by simp
  have "unat (store_config_get store' key) = v"
    using config_set_get [of "e_realloc env" store key "word_of_int (int v)" key] u r ok by simp
  moreover have "handle_config env [''CONFIG'', key_name key, dec v] (store, s) = answer (nl ''+OK'') (store', s)" for s
    using st r ok assms(2)
    by (cases key) (simp_all add: handle_config_def key_name_def store_config_key_from_name_def config_accepts_def
        STORE_SESSIONS_CAP_MIN_def STORE_SESSIONS_CAP_MAX_def dec_nonempty [of v, symmetric])
  ultimately show ?thesis by blast
qed

lemma config_read:
  "handle_config env [''CONFIG'', key_name key] (store, s) =
    answerf (nl (''+OK '' @ dec (unat (store_config_get store key)))) (store, s)"
  by (simp add: handle_config_def)

lemma pending_put:
  assumes "buffer_inv b" "length xs \<le> buffer_room b"
  shows "buffer_pending (wb_put b xs) = buffer_pending b @ xs" "buffer_room (wb_put b xs) = buffer_room b - length xs"
  using assms by (simp_all add: wb_put_props)

lemma config_over_wire:
  assumes inv: "sessions_inv store" "buffer_inv (mc_wb s)" and au: "mc_state s = MONITOR_ST_AUTHENTICATED"
    and acc: "config_accepts (e_realloc env) store key v"
    and r18: "18 \<le> buffer_room (mc_wb s)"
  shows "\<exists>store' s1 s2.
    dispatch_line env (''CONFIG'' @ '' '' @ key_name key @ '' '' @ dec v) (store, s) = Inr (store', s1) \<and>
    dispatch_line env (''CONFIG'' @ '' '' @ key_name key) (store', s1) = Inr (store', s2) \<and>
    buffer_pending (mc_wb s2) = buffer_pending (mc_wb s) @
      bytes_of (nl ''+OK'' @ nl ''.'' @ nl (''+OK '' @ dec v) @ nl ''.'')"
proof -
  have "v < 10 ^ Suc 4" using acc by (cases key) (auto simp: config_accepts_def)
  then have "length (dec v) \<le> 5" using length_dec [of v 4] by simp
  with r18 have room: "length (dec v) + 13 \<le> buffer_room (mc_wb s)" "length (dec v) < 1000" by simp_all
  obtain store' where w: "handle_config env [''CONFIG'', key_name key, dec v] (store, s) = answer (nl ''+OK'') (store', s)"
    "unat (store_config_get store' key) = v"
    using config_write [OF inv(1) acc] by blast
  define b1 where "b1 = wb_put (mc_wb s) (bytes_of (nl ''+OK''))"
  define b2 where "b2 = wb_put b1 (bytes_of (nl ''.''))"
  define b3 where "b3 = wb_put b2 (bytes_of (nl (''+OK '' @ dec v)))"
  define b4 where "b4 = wb_put b3 (bytes_of (nl ''.''))"
  have binv: "buffer_inv b1" "buffer_inv b2" "buffer_inv b3"
    using inv(2) by (simp_all add: b1_def b2_def b3_def wb_put_props)
  have r1: "buffer_pending b1 = buffer_pending (mc_wb s) @ bytes_of (nl ''+OK'')" "buffer_room b1 = buffer_room (mc_wb s) - 4"
    unfolding b1_def using room inv(2) by (subst pending_put; simp add: nl_def)+
  have r2: "buffer_pending b2 = buffer_pending b1 @ bytes_of (nl ''.'')" "buffer_room b2 = buffer_room (mc_wb s) - 6"
    unfolding b2_def using room binv r1(2) by (subst pending_put; simp add: nl_def)+
  have r3: "buffer_pending b3 = buffer_pending b2 @ bytes_of (nl (''+OK '' @ dec v))"
      "buffer_room b3 = buffer_room (mc_wb s) - (length (dec v) + 11)"
    unfolding b3_def using room binv r2(2) by (subst pending_put; simp add: nl_def)+
  have r4: "buffer_pending b4 = buffer_pending b3 @ bytes_of (nl ''.'')"
    unfolding b4_def using room binv r3(2) by (subst pending_put; simp add: nl_def)
  have "dispatch_line env (''CONFIG'' @ '' '' @ key_name key @ '' '' @ dec v) (store, s) = Inr (store', s\<lparr>mc_wb := b2\<rparr>)"
  proof -
    have sp: "split_line (''CONFIG'' @ '' '' @ key_name key @ '' '' @ dec v) = [''CONFIG'', key_name key, dec v]"
      by (rule split_three) (simp_all add: key_name_word dec_word)
    show ?thesis
      unfolding dispatch_line_body sp using au w(1) inv(2) binv
      by (simp add: dispatch_body_def run_command_def answer_eq b1_def b2_def)
  qed
  moreover have "dispatch_line env (''CONFIG'' @ '' '' @ key_name key) (store', s\<lparr>mc_wb := b2\<rparr>) =
      Inr (store', s\<lparr>mc_wb := b4\<rparr>)"
  proof -
    have sp: "split_line (''CONFIG'' @ '' '' @ key_name key) = [''CONFIG'', key_name key]"
      by (rule split_two) (simp_all add: key_name_word)
    have "length (nl (''+OK '' @ dec v)) < MONITOR_BUFFER_SIZE"
      using room by (simp add: nl_def MONITOR_BUFFER_SIZE_def)
    then show ?thesis
      unfolding dispatch_line_body sp using au w(2) binv
      by (simp add: dispatch_body_def run_command_def config_read answer_eq answerf_eq wb_putf_def b3_def b4_def)
  qed
  ultimately show ?thesis
    using r1 r2 r3 r4 by (intro exI [of _ store'] exI [of _ "s\<lparr>mc_wb := b2\<rparr>"] exI [of _ "s\<lparr>mc_wb := b4\<rparr>"]) simp
qed

end
