(* ===== verification/World.thy ===== *)
theory World
  imports Actions Selector Stm Byte_Buffer Request Monitor_Commands
begin

text \<open>
  The state the event handlers of the server act on: the multiplexer, the shared store, the
  sessions on the heap (an object that has been freed is no longer in its map, so that using
  it is \<open>Use_after_free\<close>), the two servers and the operating system. A handler is an action,
  a function from the world to a result and the new world, or to a fault.

  The operating system answers the calls in order: the \<open>k\<close>-th call is answered by
  \<open>w_os w k\<close>, whatever it is, and each call reads of the answer what it needs. Descriptors
  are numbered as POSIX requires, the lowest one that is not open. What the program does to
  the network is recorded in \<open>w_trace\<close>.
\<close>

section \<open>Sessions and servers\<close>

datatype handler_id =
  H_socks_client | H_socks_origin | H_socks_passive | H_monitor_client | H_monitor_passive

datatype key_data = D_session nat | D_monitor nat | D_socks_server | D_monitor_server

type_synonym key = "key_data selector_key"

datatype errno =
  EAGAIN | EINPROGRESS | ENETUNREACH | EHOSTUNREACH | EHOSTDOWN | ECONNREFUSED | EAFNOSUPPORT | E_other

datatype gai_rc = GAI_OK | EAI_NONAME | EAI_NODATA | EAI_ADDRFAMILY | EAI_FAMILY | EAI_other

record addrinfo =
  ai_addr :: sockaddr_storage
  ai_addrlen :: nat

text \<open>
  \<open>struct socks_session\<close>: \<open>se_cur\<close> is \<open>stm.current\<close>, the list \<open>dns_result\<close> and its suffix at
  \<open>dns_cursor\<close> are lists, and the links of the idle list are addresses of sessions. The
  field \<open>srv\<close> always points to the one server.
\<close>

record socks_session =
  se_client_fd :: int
  se_origin_fd :: int
  se_c2o :: buffer
  se_o2c :: buffer
  se_cur :: "nat option"
  se_greeting :: socks_greeting_parser
  se_auth :: socks_auth_parser
  se_request :: socks_request_parser
  se_dns_result :: "addrinfo list"
  se_dns_cursor :: "addrinfo list"
  se_dns_gai_rc :: gai_rc
  se_dns_resolving :: bool
  se_close_after_flush :: bool
  se_dest_addr :: sockaddr_storage
  se_dest_addr_len :: nat
  se_store_id :: store_session_id
  se_last_activity :: int
  se_dest_recorded :: bool
  se_idle_prev :: "nat option"
  se_idle_next :: "nat option"
  se_in_idle_list :: bool
  se_ttl_expired :: bool

record monitor_session =
  mo_rb :: buffer
  mo_commands :: monitor_commands_session

record socks_server =
  sv_listen_fd :: int
  sv_port :: u16
  sv_active_sessions :: nat
  sv_idle_head :: "nat option"
  sv_idle_tail :: "nat option"

record monitor_server =
  mv_listen_fd :: int
  mv_port :: u16
  mv_active_sessions :: nat

record os_answer =
  o_ret :: int
  o_err :: errno
  o_data :: "byte list"
  o_alloc :: "(handler_id, key_data) alloc"

text \<open>A connection attempt is recorded with the store as it was when \<open>connect\<close> was called.\<close>

datatype effect =
    Received int "byte list"
  | Sent int "byte list"
  | Connecting int sockaddr_storage monitor_store
  | Opened int
  | Closed int

text \<open>A resolution running in its own thread: the session, the descriptor to notify, host and port.\<close>

record socks_dns_ctx =
  dc_session :: nat
  dc_notify_fd :: int
  dc_host :: string
  dc_port_str :: string

record world =
  w_sel :: "(handler_id, key_data) fdselector"
  w_store :: monitor_store
  w_env :: cmd_env
  w_sessions :: "nat \<Rightarrow> socks_session option"
  w_monitors :: "nat \<Rightarrow> monitor_session option"
  w_next :: nat
  w_socks :: socks_server
  w_monitor :: monitor_server
  w_stop :: bool
  w_dns :: "socks_dns_ctx list"
  w_os :: "nat \<Rightarrow> os_answer"
  w_calls :: nat
  w_open :: "int list"
  w_trace :: "effect list"

section \<open>Actions\<close>

type_synonym 'a act = "(world, 'a) action"

section \<open>System calls\<close>

definition syscall :: "os_answer act" where
  "syscall = (\<lambda>w. Inr (w_os w (w_calls w), w\<lparr>w_calls := Suc (w_calls w)\<rparr>))"

definition record_effect :: "effect \<Rightarrow> unit act" where
  "record_effect e = act_mod (\<lambda>w. w\<lparr>w_trace := w_trace w @ [e]\<rparr>)"

definition sys_read :: "int \<Rightarrow> nat \<Rightarrow> (errno + byte list) act" where
  "sys_read fd n = act_bind syscall (\<lambda>a.
     if o_ret a < 0 then act_ret (Inl (o_err a))
     else act_then (record_effect (Received fd (take n (o_data a)))) (act_ret (Inr (take n (o_data a)))))"

definition sys_write :: "int \<Rightarrow> byte list \<Rightarrow> (errno + nat) act" where
  "sys_write fd bs = act_bind syscall (\<lambda>a.
     if o_ret a < 0 then act_ret (Inl (o_err a))
     else let n = min (nat (o_ret a)) (length bs)
          in act_then (record_effect (Sent fd (take n bs))) (act_ret (Inr n)))"

definition lowest_fd :: "int list \<Rightarrow> int" where
  "lowest_fd fds = (case filter (\<lambda>i. i \<notin> set fds) (map int [0..<Suc (length fds)]) of [] \<Rightarrow> 0 | i # _ \<Rightarrow> i)"

text \<open>\<open>accept\<close> and \<open>socket\<close>.\<close>

definition sys_open :: "(errno + int) act" where
  "sys_open = act_bind syscall (\<lambda>a.
     if o_ret a < 0 then act_ret (Inl (o_err a))
     else act_bind (act_get (\<lambda>w. lowest_fd (w_open w))) (\<lambda>fd.
          act_then (act_mod (\<lambda>w. w\<lparr>w_open := fd # w_open w\<rparr>))
            (act_then (record_effect (Opened fd)) (act_ret (Inr fd)))))"

definition sys_close :: "int \<Rightarrow> unit act" where
  "sys_close fd = act_then (act_mod (\<lambda>w. w\<lparr>w_open := removeAll fd (w_open w)\<rparr>)) (record_effect (Closed fd))"

definition sys_connect :: "int \<Rightarrow> sockaddr_storage \<Rightarrow> errno option act" where
  "sys_connect fd addr = act_bind (act_get w_store) (\<lambda>store.
     act_then (record_effect (Connecting fd addr store)) (act_bind syscall (\<lambda>a.
     act_ret (if o_ret a < 0 then Some (o_err a) else None))))"

text \<open>A call whose answer is only success or failure.\<close>

definition sys_ok :: "bool act" where
  "sys_ok = act_bind syscall (\<lambda>a. act_ret (o_ret a \<ge> 0))"

text \<open>The descriptor is made non-blocking by reading its flags and writing them back.\<close>

definition selector_fd_set_nio :: "bool act" where
  "selector_fd_set_nio = act_bind sys_ok (\<lambda>got. if got then sys_ok else act_ret False)"

definition sys_time :: "int act" where
  "sys_time = act_bind syscall (\<lambda>a. act_ret (o_ret a))"

text \<open>\<open>getsockopt(SO_ERROR)\<close>: no error, or the pending one.\<close>

definition sys_so_error :: "errno option act" where
  "sys_so_error = act_bind syscall (\<lambda>a. act_ret (if o_ret a = 0 then None else Some (o_err a)))"

text \<open>\<open>malloc\<close> of \<open>n\<close> bytes: \<open>NULL\<close>, or memory with whatever it held.\<close>

definition sys_malloc :: "nat \<Rightarrow> byte list option act" where
  "sys_malloc n = act_bind syscall (\<lambda>a.
     act_ret (if o_ret a < 0 then None else Some (take n (o_data a @ replicate n 0))))"

section \<open>The heap and the selector\<close>

definition session_get :: "nat \<Rightarrow> socks_session act" where
  "session_get sid = (\<lambda>w. case w_sessions w sid of None \<Rightarrow> Inl Use_after_free | Some se \<Rightarrow> Inr (se, w))"

definition session_mod :: "nat \<Rightarrow> (socks_session \<Rightarrow> socks_session) \<Rightarrow> unit act" where
  "session_mod sid f = (\<lambda>w. case w_sessions w sid of
     None \<Rightarrow> Inl Use_after_free
   | Some se \<Rightarrow> Inr ((), w\<lparr>w_sessions := (w_sessions w)(sid \<mapsto> f se)\<rparr>))"

definition monitor_get :: "nat \<Rightarrow> monitor_session act" where
  "monitor_get mid = (\<lambda>w. case w_monitors w mid of None \<Rightarrow> Inl Use_after_free | Some m \<Rightarrow> Inr (m, w))"

definition monitor_mod :: "nat \<Rightarrow> (monitor_session \<Rightarrow> monitor_session) \<Rightarrow> unit act" where
  "monitor_mod mid f = (\<lambda>w. case w_monitors w mid of
     None \<Rightarrow> Inl Use_after_free
   | Some m \<Rightarrow> Inr ((), w\<lparr>w_monitors := (w_monitors w)(mid \<mapsto> f m)\<rparr>))"

definition store_mod :: "(monitor_store \<Rightarrow> monitor_store) \<Rightarrow> unit act" where
  "store_mod f = act_mod (\<lambda>w. w\<lparr>w_store := f (w_store w)\<rparr>)"

definition put_sel :: "(handler_id, key_data) fdselector \<Rightarrow> world \<Rightarrow> world" where
  "put_sel s w = w\<lparr>w_sel := s\<rparr>"

definition set_interest :: "int \<Rightarrow> fd_interest \<Rightarrow> unit act" where
  "set_interest fd i = (\<lambda>w. run_bind (selector_set_interest (w_sel w) fd i) (\<lambda>(_, s). Inr ((), put_sel s w)))"

definition set_interest_key :: "key \<Rightarrow> fd_interest \<Rightarrow> unit act" where
  "set_interest_key key i =
     (\<lambda>w. run_bind (selector_set_interest_key (w_sel w) key i) (\<lambda>(_, s). Inr ((), put_sel s w)))"

definition register_fd :: "int \<Rightarrow> handler_id \<Rightarrow> fd_interest \<Rightarrow> key_data \<Rightarrow> selector_status act" where
  "register_fd fd h i d = act_bind syscall (\<lambda>a w.
     run_bind (selector_register (o_alloc a) (w_sel w) fd (Some h) i (Some d)) (\<lambda>(st, s). Inr (st, put_sel s w)))"

text \<open>The clock as the log prints it.\<close>

definition now_string :: "string act" where
  "now_string = act_bind syscall (\<lambda>a. act_ret (chars_of (o_data a)))"

lemma heap_simps [simp]:
  "w_sessions w sid = Some se \<Longrightarrow> session_get sid w = Inr (se, w)"
  "w_sessions w sid = None \<Longrightarrow> session_get sid w = Inl Use_after_free"
  "w_sessions w sid = Some se \<Longrightarrow> session_mod sid f w = Inr ((), w\<lparr>w_sessions := (w_sessions w)(sid \<mapsto> f se)\<rparr>)"
  "w_sessions w sid = None \<Longrightarrow> session_mod sid f w = Inl Use_after_free"
  "w_monitors w mid = Some m \<Longrightarrow> monitor_get mid w = Inr (m, w)"
  "w_monitors w mid = None \<Longrightarrow> monitor_get mid w = Inl Use_after_free"
  "w_monitors w mid = Some m \<Longrightarrow> monitor_mod mid g w = Inr ((), w\<lparr>w_monitors := (w_monitors w)(mid \<mapsto> g m)\<rparr>)"
  by (simp_all add: session_get_def session_mod_def monitor_get_def monitor_mod_def)

lemma lowest_fd_fresh: "lowest_fd fds \<notin> set fds" "0 \<le> lowest_fd fds" "lowest_fd fds \<le> int (length fds)"
proof -
  let ?c = "map int [0..<Suc (length fds)]"
  have "card (set ?c) = Suc (length fds)" by (subst distinct_card) (simp_all add: distinct_map del: upt_Suc)
  then have "\<not> set ?c \<subseteq> set fds"
    using card_mono [of "set fds" "set ?c"] card_length [of fds] by auto
  then have "filter (\<lambda>i. i \<notin> set fds) ?c \<noteq> []" by (auto simp: filter_empty_conv simp del: upt_Suc)
  then obtain i js where f: "filter (\<lambda>i. i \<notin> set fds) ?c = i # js" by (cases "filter (\<lambda>i. i \<notin> set fds) ?c") auto
  then have "i \<in> set (filter (\<lambda>i. i \<notin> set fds) ?c)" by simp
  then have "i \<notin> set fds" "0 \<le> i" "i \<le> int (length fds)" by (auto simp del: upt_Suc)
  moreover have "lowest_fd fds = i" using f by (simp add: lowest_fd_def del: upt_Suc)
  ultimately show "lowest_fd fds \<notin> set fds" "0 \<le> lowest_fd fds" "lowest_fd fds \<le> int (length fds)" by simp_all
qed

section \<open>Streams\<close>

text \<open>The bytes a list of effects received from a descriptor and sent to it.\<close>

fun received :: "int \<Rightarrow> effect list \<Rightarrow> byte list" where
  "received fd [] = []"
| "received fd (Received f bs # es) = (if f = fd then bs else []) @ received fd es"
| "received fd (_ # es) = received fd es"

fun sent :: "int \<Rightarrow> effect list \<Rightarrow> byte list" where
  "sent fd [] = []"
| "sent fd (Sent f bs # es) = (if f = fd then bs else []) @ sent fd es"
| "sent fd (_ # es) = sent fd es"

lemma received_append [simp]: "received fd (es @ fs) = received fd es @ received fd fs"
  by (induction fd es rule: received.induct) simp_all

lemma sent_append [simp]: "sent fd (es @ fs) = sent fd es @ sent fd fs"
  by (induction fd es rule: sent.induct) simp_all

end
