(* ===== verification/Socks_Idle.thy ===== *)
theory Socks_Idle
  imports World
begin

text \<open>
  The list of sessions by inactivity of \<^verbatim>\<open>socks.c\<close>: a doubly linked list through the fields
  \<open>idle_prev\<close> and \<open>idle_next\<close>, with its ends in the server. \<open>idle_list\<close> says that the links
  spell a given list of sessions; on it removing a session is \<open>remove1\<close> and touching one moves
  it to the end.
\<close>

section \<open>Operations\<close>

definition set_head :: "nat option \<Rightarrow> unit act" where
  "set_head h = act_mod (\<lambda>w. w\<lparr>w_socks := (w_socks w)\<lparr>sv_idle_head := h\<rparr>\<rparr>)"

definition set_tail :: "nat option \<Rightarrow> unit act" where
  "set_tail t = act_mod (\<lambda>w. w\<lparr>w_socks := (w_socks w)\<lparr>sv_idle_tail := t\<rparr>\<rparr>)"

definition idle_list_remove :: "nat \<Rightarrow> unit act" where
  "idle_list_remove sid = act_bind (session_get sid) (\<lambda>se.
     if \<not> se_in_idle_list se then act_ret ()
     else act_then (case se_idle_prev se of
                      Some p \<Rightarrow> session_mod p (\<lambda>s. s\<lparr>se_idle_next := se_idle_next se\<rparr>)
                    | None \<Rightarrow> set_head (se_idle_next se))
          (act_bind (session_get sid) (\<lambda>se1.
          act_then (case se_idle_next se1 of
                      Some n \<Rightarrow> session_mod n (\<lambda>s. s\<lparr>se_idle_prev := se_idle_prev se1\<rparr>)
                    | None \<Rightarrow> set_tail (se_idle_prev se1))
          (session_mod sid (\<lambda>s. s\<lparr>se_idle_prev := None, se_idle_next := None, se_in_idle_list := False\<rparr>)))))"

definition idle_list_push_tail :: "nat \<Rightarrow> unit act" where
  "idle_list_push_tail sid = act_bind (session_get sid) (\<lambda>se.
     act_bind (act_get (\<lambda>w. sv_idle_tail (w_socks w))) (\<lambda>tl0.
     if se_in_idle_list se \<and> Some sid = tl0 then act_ret ()
     else act_then (act_when (se_in_idle_list se) (idle_list_remove sid))
          (act_bind (act_get (\<lambda>w. sv_idle_tail (w_socks w))) (\<lambda>tl1.
          act_then (session_mod sid (\<lambda>s. s\<lparr>se_idle_prev := tl1, se_idle_next := None\<rparr>))
          (act_then (case tl1 of
                       Some t \<Rightarrow> session_mod t (\<lambda>s. s\<lparr>se_idle_next := Some sid\<rparr>)
                     | None \<Rightarrow> set_head (Some sid))
          (act_then (set_tail (Some sid)) (session_mod sid (\<lambda>s. s\<lparr>se_in_idle_list := True\<rparr>))))))))"

definition socks_session_touch :: "nat \<Rightarrow> unit act" where
  "socks_session_touch sid = act_bind sys_time (\<lambda>now.
     act_then (session_mod sid (\<lambda>s. s\<lparr>se_last_activity := now\<rparr>))
     (act_bind (session_get sid) (\<lambda>se. act_when (se_in_idle_list se) (idle_list_push_tail sid))))"

section \<open>Linked segments\<close>

fun dll :: "(nat \<Rightarrow> socks_session option) \<Rightarrow> nat option \<Rightarrow> nat list \<Rightarrow> nat option \<Rightarrow> bool" where
  "dll H p [] n \<longleftrightarrow> True"
| "dll H p (a # as) n \<longleftrightarrow>
     (\<exists>se. H a = Some se \<and> se_in_idle_list se \<and> se_idle_prev se = p \<and>
        se_idle_next se = (if as = [] then n else Some (hd as))) \<and> dll H (Some a) as n"

lemma dll_append:
  "dll H p (as @ bs) n \<longleftrightarrow>
     dll H p as (if bs = [] then n else Some (hd bs)) \<and> dll H (if as = [] then p else Some (last as)) bs n"
  by (induction as arbitrary: p) auto

lemma dll_other [simp]: "k \<notin> set ids \<Longrightarrow> dll (H(k := v)) p ids n = dll H p ids n"
  by (induction ids arbitrary: p) auto

lemma dll_in: "dll H p ids n \<Longrightarrow> a \<in> set ids \<Longrightarrow> \<exists>se. H a = Some se \<and> se_in_idle_list se"
  by (induction ids arbitrary: p) auto

text \<open>Redirecting the end of a segment and its beginning.\<close>

lemma dll_set_next:
  assumes "dll H p (as @ [a]) n" and "a \<notin> set as" and "H a = Some se"
  shows "dll (H(a \<mapsto> se\<lparr>se_idle_next := n'\<rparr>)) p (as @ [a]) n'"
  using assms by (auto simp: dll_append)

lemma dll_set_prev:
  assumes "dll H p (a # as) n" and "a \<notin> set as" and "H a = Some se"
  shows "dll (H(a \<mapsto> se\<lparr>se_idle_prev := p'\<rparr>)) p' (a # as) n"
  using assms by auto

definition idle_list :: "world \<Rightarrow> nat list \<Rightarrow> bool" where
  "idle_list w ids \<longleftrightarrow> distinct ids \<and> dll (w_sessions w) None ids None \<and>
     sv_idle_head (w_socks w) = (if ids = [] then None else Some (hd ids)) \<and>
     sv_idle_tail (w_socks w) = (if ids = [] then None else Some (last ids)) \<and>
     (\<forall>k se. w_sessions w k = Some se \<longrightarrow> se_in_idle_list se \<longrightarrow> k \<in> set ids)"

text \<open>Everything of a world but the links.\<close>

definition no_links :: "socks_session \<Rightarrow> socks_session" where
  "no_links se = se\<lparr>se_idle_prev := None, se_idle_next := None, se_in_idle_list := False\<rparr>"

definition idle_frame :: "world \<Rightarrow> world \<Rightarrow> bool" where
  "idle_frame w w' \<longleftrightarrow>
     (\<exists>H srv. w' = w\<lparr>w_sessions := H, w_socks := srv\<rparr> \<and> (\<forall>k. map_option no_links (H k) = map_option no_links (w_sessions w k)) \<and>
        srv\<lparr>sv_idle_head := None, sv_idle_tail := None\<rparr> = (w_socks w)\<lparr>sv_idle_head := None, sv_idle_tail := None\<rparr>)"

lemma idle_frame_refl [simp]: "idle_frame w w"
  unfolding idle_frame_def by (intro exI [of _ "w_sessions w"] exI [of _ "w_socks w"]) simp

lemma idle_frame_trans: "idle_frame a b \<Longrightarrow> idle_frame b c \<Longrightarrow> idle_frame a c"
  unfolding idle_frame_def by fastforce

lemma idle_frameI:
  assumes "\<And>k. map_option no_links (H k) = map_option no_links (w_sessions w k)"
  shows "idle_frame w (w\<lparr>w_sessions := H, w_socks := (w_socks w)\<lparr>sv_idle_head := h, sv_idle_tail := t\<rparr>\<rparr>)"
  unfolding idle_frame_def using assms
  by (intro exI [of _ H] exI [of _ "(w_socks w)\<lparr>sv_idle_head := h, sv_idle_tail := t\<rparr>"]) simp

section \<open>The operations on the list\<close>

lemma no_links_simps [simp]:
  "no_links (se\<lparr>se_idle_prev := a\<rparr>) = no_links se" "no_links (se\<lparr>se_idle_next := a\<rparr>) = no_links se"
  "no_links (se\<lparr>se_in_idle_list := b\<rparr>) = no_links se" "no_links (no_links se) = no_links se"
  "\<not> se_in_idle_list (no_links se)"
  by (simp_all add: no_links_def)

text \<open>The heap after unlinking \<open>sid\<close> between \<open>as\<close> and \<open>bs\<close>.\<close>

definition unlinked :: "nat list \<Rightarrow> nat \<Rightarrow> nat list \<Rightarrow> (nat \<Rightarrow> socks_session option) \<Rightarrow> nat \<Rightarrow> socks_session option" where
  "unlinked as sid bs H =
     (let pv = (if as = [] then None else Some (last as)); nx = (if bs = [] then None else Some (hd bs));
          H1 = (if as = [] then H else H(last as \<mapsto> (the (H (last as)))\<lparr>se_idle_next := nx\<rparr>));
          H2 = (if bs = [] then H1 else H1(hd bs \<mapsto> (the (H1 (hd bs)))\<lparr>se_idle_prev := pv\<rparr>))
      in H2(sid \<mapsto> no_links (the (H sid))))"

lemma same_no_links_upd:
  assumes "H a \<noteq> None" and "no_links x = no_links (the (H a))"
  shows "map_option no_links ((H(a \<mapsto> x)) k) = map_option no_links (H k)"
  using assms by auto

lemma unlinked_frame:
  assumes "dll H None (as @ sid # bs) None" and "distinct (as @ sid # bs)"
  shows "map_option no_links (unlinked as sid bs H k) = map_option no_links (H k)"
proof -
  define nx where "nx = (if bs = [] then None else Some (hd bs))"
  define pv where "pv = (if as = [] then None else Some (last as))"
  define H1 where "H1 = (if as = [] then H else H(last as \<mapsto> (the (H (last as)))\<lparr>se_idle_next := nx\<rparr>))"
  define H2 where "H2 = (if bs = [] then H1 else H1(hd bs \<mapsto> (the (H1 (hd bs)))\<lparr>se_idle_prev := pv\<rparr>))"
  have some: "a \<in> set (as @ sid # bs) \<Longrightarrow> H a \<noteq> None" for a using dll_in [OF assms(1)] by blast
  have 1: "map_option no_links (H1 k) = map_option no_links (H k)" for k
    unfolding H1_def using some [of "last as"] same_no_links_upd [of H "last as"] by simp
  have s1: "H1 a \<noteq> None" if "a \<in> set (as @ sid # bs)" for a
    using 1 [of a] some [OF that] by (metis option.map_disc_iff)
  have 2: "map_option no_links (H2 k) = map_option no_links (H k)" for k
    unfolding H2_def using 1 s1 [of "hd bs"] same_no_links_upd [of H1 "hd bs"] by simp
  have s2: "H2 sid \<noteq> None" using 2 [of sid] some [of sid] by (metis in_set_conv_decomp option.map_disc_iff)
  have "no_links (the (H sid)) = no_links (the (H2 sid))"
    using 2 [of sid] s2 some [of sid] by (metis in_set_conv_decomp option.map_sel)
  then have "map_option no_links ((H2(sid \<mapsto> no_links (the (H sid)))) k) = map_option no_links (H2 k)"
    using s2 by (intro same_no_links_upd) simp_all
  moreover have "unlinked as sid bs H = H2(sid \<mapsto> no_links (the (H sid)))"
    by (simp add: unlinked_def H2_def H1_def nx_def pv_def Let_def)
  ultimately show ?thesis using 2 [of k] by (simp only:)
qed

lemma unlinked_dll:
  assumes d: "dll H None (as @ sid # bs) None" and dist: "distinct (as @ sid # bs)"
  shows "dll (unlinked as sid bs H) None (as @ bs) None"
proof -
  have a: "dll H None as (Some sid)" and b: "dll H (Some sid) bs None" using d by (simp_all add: dll_append)
  define nx where "nx = (if bs = [] then None else Some (hd bs))"
  define pv where "pv = (if as = [] then None else Some (last as))"
  define H1 where "H1 = (if as = [] then H else H(last as \<mapsto> (the (H (last as)))\<lparr>se_idle_next := nx\<rparr>))"
  define H2 where "H2 = (if bs = [] then H1 else H1(hd bs \<mapsto> (the (H1 (hd bs)))\<lparr>se_idle_prev := pv\<rparr>))"
  have a1: "dll H1 None as nx"
  proof (cases as rule: rev_cases)
    case (snoc as' x)
    moreover have "\<exists>se. H x = Some se" using dll_in [OF a, of x] snoc by auto
    ultimately show ?thesis using a dist dll_set_next [of H None as' x "Some sid" _ nx] by (auto simp: H1_def)
  qed simp
  have b1: "dll H1 (Some sid) bs None"
    using b dist by (cases as rule: rev_cases) (auto simp: H1_def)
  have b2: "dll H2 pv bs None"
  proof (cases bs)
    case (Cons y ys)
    moreover have "\<exists>se. H1 y = Some se" using dll_in [OF b1, of y] Cons by auto
    ultimately show ?thesis using b1 dist dll_set_prev [of H1 "Some sid" y ys None _ pv] by (auto simp: H2_def)
  qed simp
  have a2: "dll H2 None as nx" using a1 dist by (cases bs) (auto simp: H2_def)
  have u: "unlinked as sid bs H = H2(sid \<mapsto> no_links (the (H sid)))"
    by (simp add: unlinked_def H2_def H1_def nx_def pv_def Let_def)
  show ?thesis unfolding u dll_append using a2 b2 dist by (simp add: nx_def pv_def)
qed

lemma idle_list_split:
  assumes "idle_list w ids" and "sid \<in> set ids"
  obtains as bs se where "ids = as @ sid # bs" "sid \<notin> set as" "sid \<notin> set bs" "w_sessions w sid = Some se"
    "se_in_idle_list se" "se_idle_prev se = (if as = [] then None else Some (last as))"
    "se_idle_next se = (if bs = [] then None else Some (hd bs))"
proof -
  from assms(2) obtain as bs where ids: "ids = as @ sid # bs" by (metis split_list)
  then show ?thesis using assms(1) that [of as bs] by (auto simp: idle_list_def dll_append)
qed

lemma idle_remove_run:
  assumes il: "idle_list w (as @ sid # bs)"
  shows "idle_list_remove sid w = Inr ((), w\<lparr>w_sessions := unlinked as sid bs (w_sessions w),
    w_socks := (w_socks w)\<lparr>sv_idle_head := (if as @ bs = [] then None else Some (hd (as @ bs))),
                            sv_idle_tail := (if as @ bs = [] then None else Some (last (as @ bs)))\<rparr>\<rparr>)"
proof -
  let ?H = "w_sessions w"
  have d: "dll ?H None as (Some sid)" "dll ?H (Some sid) bs None" and dist: "distinct (as @ sid # bs)"
    using il by (simp_all add: idle_list_def dll_append)
  obtain se where se: "?H sid = Some se" "se_in_idle_list se"
    "se_idle_prev se = (if as = [] then None else Some (last as))"
    "se_idle_next se = (if bs = [] then None else Some (hd bs))"
    using il by (auto simp: idle_list_def dll_append)
  have ends: "sv_idle_head (w_socks w) = Some (hd (as @ [sid]))" "sv_idle_tail (w_socks w) = Some (last (sid # bs))"
    using il by (auto simp: idle_list_def hd_append)
  have p: "as \<noteq> [] \<Longrightarrow> \<exists>x. ?H (last as) = Some x" using dll_in [OF d(1), of "last as"] by fastforce
  have n: "bs \<noteq> [] \<Longrightarrow> \<exists>x. ?H (hd bs) = Some x" using dll_in [OF d(2), of "hd bs"] by fastforce
  have ne: "as \<noteq> [] \<Longrightarrow> last as \<noteq> sid" "bs \<noteq> [] \<Longrightarrow> hd bs \<noteq> sid" "as \<noteq> [] \<Longrightarrow> bs \<noteq> [] \<Longrightarrow> last as \<noteq> hd bs"
    using dist by (auto dest: last_in_set hd_in_set)
  show ?thesis
  proof (cases "as = []"; cases "bs = []")
    assume "as = []" "bs = []"
    then show ?thesis using se ends
      by (simp add: idle_list_remove_def set_head_def set_tail_def unlinked_def no_links_def)
  next
    assume c: "as = []" "bs \<noteq> []"
    obtain y where "?H (hd bs) = Some y" using n c by blast
    then show ?thesis using se ends c ne
      by (simp add: idle_list_remove_def set_head_def set_tail_def unlinked_def no_links_def fun_upd_twist)
  next
    assume c: "as \<noteq> []" "bs = []"
    obtain x where "?H (last as) = Some x" using p c by blast
    then show ?thesis using se ends c ne
      by (simp add: idle_list_remove_def set_head_def set_tail_def unlinked_def no_links_def fun_upd_twist)
  next
    assume c: "as \<noteq> []" "bs \<noteq> []"
    obtain x y where "?H (last as) = Some x" "?H (hd bs) = Some y" using p n c by blast
    then show ?thesis using se ends c ne
      by (simp add: idle_list_remove_def set_head_def set_tail_def unlinked_def no_links_def Let_def)
  qed
qed


lemma idle_remove_ok:
  assumes il: "idle_list w ids" and s: "w_sessions w sid \<noteq> None"
  shows "act_ok (idle_list_remove sid) (\<lambda>_ w'. idle_list w' (remove1 sid ids) \<and> idle_frame w w') w"
proof (cases "sid \<in> set ids")
  case False
  then obtain se where "w_sessions w sid = Some se" "\<not> se_in_idle_list se"
    using il s by (auto simp: idle_list_def)
  then have "idle_list_remove sid w = Inr ((), w)" by (simp add: idle_list_remove_def)
  with il False show ?thesis by (simp add: act_ok_iff remove1_idem)
next
  case True
  then obtain as bs where ids: "ids = as @ sid # bs" by (metis split_list)
  have d: "dll (w_sessions w) None (as @ sid # bs) None" and dist: "distinct (as @ sid # bs)"
    using il ids by (simp_all add: idle_list_def)
  let ?H = "unlinked as sid bs (w_sessions w)"
  let ?w = "w\<lparr>w_sessions := ?H,
    w_socks := (w_socks w)\<lparr>sv_idle_head := (if as @ bs = [] then None else Some (hd (as @ bs))),
                            sv_idle_tail := (if as @ bs = [] then None else Some (last (as @ bs)))\<rparr>\<rparr>"
  have r: "idle_list_remove sid w = Inr ((), ?w)" using idle_remove_run il ids by blast
  have "k \<in> set (as @ bs)" if k: "?H k = Some se" "se_in_idle_list se" for k se
  proof -
    have "k \<noteq> sid" using k by (auto simp: unlinked_def Let_def)
    have "k \<in> set (as @ sid # bs)"
    proof (rule ccontr)
      assume out: "k \<notin> set (as @ sid # bs)"
      have "as \<noteq> [] \<Longrightarrow> k \<noteq> last as" "bs \<noteq> [] \<Longrightarrow> k \<noteq> hd bs" using out by auto
      then have "?H k = w_sessions w k" using out by (auto simp: unlinked_def Let_def)
      then have "w_sessions w k = Some se" using k(1) by simp
      moreover have "\<And>k se. w_sessions w k = Some se \<Longrightarrow> se_in_idle_list se \<Longrightarrow> k \<in> set (as @ sid # bs)"
        using il ids by (simp add: idle_list_def)
      ultimately show False using k(2) out by blast
    qed
    with \<open>k \<noteq> sid\<close> show ?thesis by simp
  qed
  then have "idle_list ?w (as @ bs)"
    using unlinked_dll [OF d dist] dist by (simp add: idle_list_def)
  moreover have "remove1 sid ids = as @ bs" using dist ids by (simp add: remove1_append)
  moreover have "idle_frame w ?w" using unlinked_frame [OF d dist] by (intro idle_frameI)
  ultimately show ?thesis using r by (simp add: act_ok_iff)
qed

text \<open>The heap after linking \<open>sid\<close> behind \<open>ids\<close>.\<close>

definition appended :: "nat list \<Rightarrow> nat \<Rightarrow> socks_session \<Rightarrow> (nat \<Rightarrow> socks_session option) \<Rightarrow> nat \<Rightarrow> socks_session option" where
  "appended ids sid se H =
     (if ids = [] then H else H(last ids \<mapsto> (the (H (last ids)))\<lparr>se_idle_next := Some sid\<rparr>))
       (sid \<mapsto> se\<lparr>se_idle_prev := (if ids = [] then None else Some (last ids)), se_idle_next := None, se_in_idle_list := True\<rparr>)"

lemma idle_append:
  fixes w :: world
  assumes il: "idle_list w ids" and se: "w_sessions w sid = Some se" "\<not> se_in_idle_list se"
  defines "w' \<equiv> w\<lparr>w_sessions := appended ids sid se (w_sessions w),
      w_socks := (w_socks w)\<lparr>sv_idle_head := (if ids = [] then Some sid else Some (hd ids)), sv_idle_tail := Some sid\<rparr>\<rparr>"
  shows "idle_list_push_tail sid w = Inr ((), w')" and "idle_list w' (ids @ [sid])" and "idle_frame w w'"
proof -
  let ?H = "w_sessions w"
  have d: "dll ?H None ids None" "distinct ids" and no: "sid \<notin> set ids"
    using il se dll_in [of ?H None ids None sid] by (auto simp: idle_list_def)
  have l: "\<exists>x. ?H (last ids) = Some x" "last ids \<noteq> sid" if "ids \<noteq> []"
    using dll_in [OF d(1), of "last ids"] that no by auto
  have ends: "sv_idle_head (w_socks w) = (if ids = [] then None else Some (hd ids))"
    "sv_idle_tail (w_socks w) = (if ids = [] then None else Some (last ids))" using il by (simp_all add: idle_list_def)
  show "idle_list_push_tail sid w = Inr ((), w')"
  proof (cases "ids = []")
    case True
    then show ?thesis using se ends unfolding w'_def
      by (simp add: idle_list_push_tail_def set_head_def set_tail_def act_when_def appended_def)
  next
    case False
    then obtain x where x: "?H (last ids) = Some x" using l(1) by blast
    then show ?thesis using se ends False l(2) unfolding w'_def
      by (simp add: idle_list_push_tail_def set_tail_def act_when_def appended_def fun_upd_twist)
  qed
  let ?G = "(if ids = [] then ?H else ?H(last ids \<mapsto> (the (?H (last ids)))\<lparr>se_idle_next := Some sid\<rparr>))"
  have g: "dll ?G None ids (Some sid)"
  proof (cases ids rule: rev_cases)
    case (snoc as a)
    then obtain x where "?H a = Some x" using l(1) by auto
    with snoc d dll_set_next [of ?H None as a None x "Some sid"] show ?thesis by simp
  qed simp
  have "k \<in> set ids" if "?G k = Some x" "se_in_idle_list x" for k x
  proof (cases "ids \<noteq> [] \<and> k = last ids")
    case False
    then have "?H k = Some x" using that by (auto split: if_splits)
    then show ?thesis using il that(2) by (auto simp: idle_list_def)
  qed auto
  then have all: "k \<in> set (ids @ [sid])" if "appended ids sid se ?H k = Some x" "se_in_idle_list x" for k x
    using that by (cases "k = sid") (simp_all add: appended_def)
  have dl: "dll (appended ids sid se ?H) None (ids @ [sid]) None"
    unfolding dll_append appended_def using g no by simp
  show "idle_list w' (ids @ [sid])"
    using all dl no d(2) unfolding w'_def idle_list_def by simp
  show "idle_frame w w'" unfolding w'_def
  proof (rule idle_frameI)
    fix k
    have 1: "map_option no_links (?G k) = map_option no_links (?H k)" for k
      using l(1) same_no_links_upd [of ?H "last ids"] by (cases "ids = []") auto
    have "?G sid = Some se" using se no l(2) by auto
    then have "map_option no_links ((?G(sid \<mapsto> se\<lparr>se_idle_prev := (if ids = [] then None else Some (last ids)),
        se_idle_next := None, se_in_idle_list := True\<rparr>)) k) = map_option no_links (?G k)"
      by (intro same_no_links_upd) simp_all
    with 1 [of k] show "map_option no_links (appended ids sid se ?H k) = map_option no_links (?H k)"
      by (simp only: appended_def)
  qed
qed

lemma idle_frame_session:
  assumes "idle_frame w w'" and "w_sessions w sid = Some se"
  obtains se' where "w_sessions w' sid = Some se'" "no_links se' = no_links se"
proof -
  have "map_option no_links (w_sessions w' sid) = map_option no_links (w_sessions w sid)"
    using assms(1) by (auto simp: idle_frame_def)
  then show ?thesis using assms(2) that by auto
qed

lemma idle_push_ok:
  assumes il: "idle_list w ids" and se: "w_sessions w sid = Some se"
  shows "act_ok (idle_list_push_tail sid) (\<lambda>_ w'. idle_list w' (remove1 sid ids @ [sid]) \<and> idle_frame w w') w"
proof (cases "sid \<in> set ids")
  case False
  then have "\<not> se_in_idle_list se" using il se by (auto simp: idle_list_def)
  from idle_append [OF il se this] False show ?thesis by (auto simp: act_ok_iff remove1_idem)
next
  case True
  then have inl: "se_in_idle_list se" using il se dll_in [of "w_sessions w" None ids None sid] by (auto simp: idle_list_def)
  show ?thesis
  proof (cases "sv_idle_tail (w_socks w) = Some sid")
    case tail: True
    then obtain as where ids: "ids = as @ [sid]"
      using il True by (cases ids rule: rev_cases) (auto simp: idle_list_def)
    have "distinct ids" using il by (simp add: idle_list_def)
    then have "remove1 sid ids @ [sid] = ids" using ids by (simp add: remove1_append)
    moreover have "idle_list_push_tail sid w = Inr ((), w)" using se inl tail by (simp add: idle_list_push_tail_def)
    ultimately show ?thesis using il by (simp add: act_ok_iff)
  next
    case tail: False
    obtain w1 where w1: "idle_list_remove sid w = Inr ((), w1)" "idle_list w1 (remove1 sid ids)" "idle_frame w w1"
      using idle_remove_ok [OF il, of sid] se by (auto simp: act_ok_iff)
    obtain se1 where se1: "w_sessions w1 sid = Some se1" using idle_frame_session [OF w1(3) se] by blast
    have out: "\<not> se_in_idle_list se1"
      using w1(2) se1 il by (auto simp: idle_list_def)
    have "idle_list_push_tail sid w = idle_list_push_tail sid w1"
      using se se1 inl out tail w1(1) by (simp add: idle_list_push_tail_def act_when_def)
    with idle_append [OF w1(2) se1 out] idle_frame_trans [OF w1(3)] show ?thesis by (auto simp: act_ok_iff)
  qed
qed


end
