(* ===== verification/Close_Handlers.thy ===== *)
theory Close_Handlers
  imports Socks_Idle
begin

text \<open>
  What runs when a descriptor is unregistered: the close handlers of \<^verbatim>\<open>socks.c\<close> and
  \<^verbatim>\<open>monitor.c\<close>. Closing a SOCKS client unregisters its origin, whose handler unregisters
  nothing, so the mutual recursion of \<open>selector_unregister_fd\<close> and the handlers is unrolled
  twice; a deeper one would be the fault \<open>No_return\<close>.

  The state machine of a session is also set up here as far as the handlers that do not parse
  input need it: \<open>stm_state\<close> reads only the numbers of the states, \<open>stm_handler_write\<close> only the
  write callbacks, which all are \<open>socks_stub_stay\<close>.
\<close>

section \<open>The machine of a session\<close>

definition SOCKS_ST_AUTH_GREETING :: nat where "SOCKS_ST_AUTH_GREETING = 0"
definition SOCKS_ST_AUTH_USERPASS :: nat where "SOCKS_ST_AUTH_USERPASS = 1"
definition SOCKS_ST_REQUEST :: nat where "SOCKS_ST_REQUEST = 2"
definition SOCKS_ST_RESOLVING :: nat where "SOCKS_ST_RESOLVING = 3"
definition SOCKS_ST_ORIGIN_CONNECTING :: nat where "SOCKS_ST_ORIGIN_CONNECTING = 4"
definition SOCKS_ST_RELAY :: nat where "SOCKS_ST_RELAY = 5"
definition SOCKS_ST_DONE :: nat where "SOCKS_ST_DONE = 6"

lemmas socks_st_defs = SOCKS_ST_AUTH_GREETING_def SOCKS_ST_AUTH_USERPASS_def SOCKS_ST_REQUEST_def
  SOCKS_ST_RESOLVING_def SOCKS_ST_ORIGIN_CONNECTING_def SOCKS_ST_RELAY_def SOCKS_ST_DONE_def

definition session_cur :: "nat \<Rightarrow> world \<Rightarrow> nat option run" where
  "session_cur sid w = (case w_sessions w sid of None \<Rightarrow> Inl Use_after_free | Some se \<Rightarrow> Inr (se_cur se))"

definition session_put_cur :: "nat \<Rightarrow> nat option \<Rightarrow> world \<Rightarrow> world" where
  "session_put_cur sid c w =
     w\<lparr>w_sessions := (w_sessions w)(sid := map_option (\<lambda>se. se\<lparr>se_cur := c\<rparr>) (w_sessions w sid))\<rparr>"

definition session_set_cur :: "nat \<Rightarrow> nat option \<Rightarrow> world \<Rightarrow> world run" where
  "session_set_cur sid c w =
     (case w_sessions w sid of None \<Rightarrow> Inl Use_after_free | Some se \<Rightarrow> Inr (session_put_cur sid c w))"

definition bare_state :: "nat \<Rightarrow> world state_definition" where
  "bare_state n = \<lparr>sd_state = n, on_arrival = None, on_departure = None, on_read_ready = None,
     on_write_ready = None, on_block_ready = None\<rparr>"

definition socks_bare_machine :: "world state_machine" where
  "socks_bare_machine = \<lparr>stm_initial = SOCKS_ST_AUTH_GREETING, stm_states = map bare_state [0..<Suc SOCKS_ST_DONE],
     stm_max_state = SOCKS_ST_DONE\<rparr>"

definition session_state :: "nat \<Rightarrow> nat act" where
  "session_state sid = (\<lambda>w. run_bind (stm_state (session_cur sid) socks_bare_machine w) (\<lambda>st. Inr (st, w)))"

definition socks_stub_stay :: "nat \<Rightarrow> nat act" where
  "socks_stub_stay sid = session_state sid"

definition socks_write_machine :: "nat \<Rightarrow> world state_machine" where
  "socks_write_machine sid = socks_bare_machine\<lparr>stm_states :=
     map (\<lambda>n. (bare_state n)\<lparr>on_write_ready := Some (socks_stub_stay sid)\<rparr>) [0..<Suc SOCKS_ST_DONE]\<rparr>"

section \<open>Close handlers that unregister nothing\<close>

definition as_handler :: "unit act \<Rightarrow> world \<Rightarrow> world run" where
  "as_handler m w = run_bind (m w) (\<lambda>(_, w1). Inr w1)"

definition socks_origin_close :: "key \<Rightarrow> unit act" where
  "socks_origin_close key =
     act_then (case key_data key of
                 Some (D_session sid) \<Rightarrow> session_mod sid (\<lambda>se. se\<lparr>se_origin_fd := -1\<rparr>)
               | None \<Rightarrow> act_ret ()
               | _ \<Rightarrow> act_fail Bad_argument)
       (act_when (key_fd key \<ge> 0) (sys_close (key_fd key)))"

definition socks_passive_close :: "key \<Rightarrow> unit act" where
  "socks_passive_close key =
     act_then (act_when (key_data key \<noteq> None) (act_mod (\<lambda>w. w\<lparr>w_socks := (w_socks w)\<lparr>sv_listen_fd := -1\<rparr>\<rparr>)))
       (act_when (key_fd key \<ge> 0) (sys_close (key_fd key)))"

definition monitor_passive_close :: "key \<Rightarrow> unit act" where
  "monitor_passive_close key =
     act_then (act_when (key_data key \<noteq> None) (act_mod (\<lambda>w. w\<lparr>w_monitor := (w_monitor w)\<lparr>mv_listen_fd := -1\<rparr>\<rparr>)))
       (act_when (key_fd key \<ge> 0) (sys_close (key_fd key)))"

definition monitor_client_close :: "key \<Rightarrow> unit act" where
  "monitor_client_close key =
     act_then (case key_data key of
                 Some (D_monitor mid) \<Rightarrow> act_then (monitor_get mid)
                   (act_mod (\<lambda>w. if mv_active_sessions (w_monitor w) > 0
                      then w\<lparr>w_monitor := (w_monitor w)\<lparr>mv_active_sessions := mv_active_sessions (w_monitor w) - 1\<rparr>\<rparr> else w))
               | None \<Rightarrow> act_ret ()
               | _ \<Rightarrow> act_fail Bad_argument)
     (act_then (act_when (key_fd key \<ge> 0) (sys_close (key_fd key)))
       (case key_data key of
          Some (D_monitor mid) \<Rightarrow> act_mod (\<lambda>w. w\<lparr>w_monitors := (w_monitors w)(mid := None)\<rparr>)
        | _ \<Rightarrow> act_ret ()))"

definition closer0 :: "handler_id \<Rightarrow> (key \<Rightarrow> world \<Rightarrow> world run) option" where
  "closer0 h = Some (case h of
      H_socks_client \<Rightarrow> (\<lambda>_ _. Inl No_return)
    | H_socks_origin \<Rightarrow> (\<lambda>key. as_handler (socks_origin_close key))
    | H_socks_passive \<Rightarrow> (\<lambda>key. as_handler (socks_passive_close key))
    | H_monitor_client \<Rightarrow> (\<lambda>key. as_handler (monitor_client_close key))
    | H_monitor_passive \<Rightarrow> (\<lambda>key. as_handler (monitor_passive_close key)))"

definition unregister_with :: "(handler_id \<Rightarrow> (key \<Rightarrow> world \<Rightarrow> world run) option) \<Rightarrow> int \<Rightarrow> unit act" where
  "unregister_with closer fd = (\<lambda>w. run_bind (selector_unregister_fd w_sel put_sel closer fd w) (\<lambda>(_, w1). Inr ((), w1)))"

section \<open>Closing a SOCKS client\<close>

definition destroy_origin :: "(int \<Rightarrow> unit act) \<Rightarrow> nat \<Rightarrow> unit act" where
  "destroy_origin unreg sid = act_bind (session_get sid) (\<lambda>se.
     if se_origin_fd se < 0 then act_ret ()
     else act_then (unreg (se_origin_fd se)) (session_mod sid (\<lambda>se. se\<lparr>se_origin_fd := -1\<rparr>)))"

definition socks_free_dns :: "nat \<Rightarrow> unit act" where
  "socks_free_dns sid = act_bind (session_get sid) (\<lambda>se.
     if se_dns_result se = [] then act_ret ()
     else session_mod sid (\<lambda>se. se\<lparr>se_dns_result := [], se_dns_cursor := []\<rparr>))"

definition socks_client_close :: "key \<Rightarrow> unit act" where
  "socks_client_close key = (case key_data key of
      None \<Rightarrow> act_when (key_fd key \<ge> 0) (sys_close (key_fd key))
    | Some (D_session sid) \<Rightarrow>
        act_then (idle_list_remove sid)
        (act_bind (session_get sid) (\<lambda>se.
        act_then (act_when (se_store_id se \<noteq> STORE_SESSION_INVALID)
                   (act_then (if se_ttl_expired se
                              then act_bind now_string (\<lambda>now.
                                     store_mod (\<lambda>store. store_session_mark_ttl_expired now store (se_store_id se)))
                              else store_mod (\<lambda>store. store_session_end store (se_store_id se)))
                     (session_mod sid (\<lambda>se. se\<lparr>se_store_id := STORE_SESSION_INVALID\<rparr>))))
        (act_then (\<lambda>w. run_bind (stm_handler_close (session_cur sid) socks_bare_machine w) (\<lambda>w1. Inr ((), w1)))
        (act_then (destroy_origin (unregister_with closer0) sid)
        (act_then (socks_free_dns sid)
        (act_then (act_mod (\<lambda>w. if sv_active_sessions (w_socks w) > 0
                      then w\<lparr>w_socks := (w_socks w)\<lparr>sv_active_sessions := sv_active_sessions (w_socks w) - 1\<rparr>\<rparr> else w))
        (act_then (act_when (key_fd key \<ge> 0) (sys_close (key_fd key)))
          (act_mod (\<lambda>w. w\<lparr>w_sessions := (w_sessions w)(sid := None)\<rparr>)))))))))
    | Some _ \<Rightarrow> act_fail Bad_argument)"

definition closer :: "handler_id \<Rightarrow> (key \<Rightarrow> world \<Rightarrow> world run) option" where
  "closer h = (case h of H_socks_client \<Rightarrow> Some (\<lambda>key. as_handler (socks_client_close key)) | _ \<Rightarrow> closer0 h)"

definition unregister :: "int \<Rightarrow> unit act" where
  "unregister = unregister_with closer"

definition socks_session_destroy_origin :: "nat \<Rightarrow> unit act" where
  "socks_session_destroy_origin = destroy_origin unregister"

section \<open>The state machine contract\<close>

lemma bare_states [simp]:
  "i \<le> SOCKS_ST_DONE \<Longrightarrow> stm_states socks_bare_machine ! i = bare_state i"
  "stm_max_state socks_bare_machine = SOCKS_ST_DONE" "stm_initial socks_bare_machine = SOCKS_ST_AUTH_GREETING"
  "length (stm_states socks_bare_machine) = Suc SOCKS_ST_DONE"
  by (simp_all add: socks_bare_machine_def del: upt_Suc)

lemma write_states [simp]:
  "i \<le> SOCKS_ST_DONE \<Longrightarrow> stm_states (socks_write_machine sid) ! i = (bare_state i)\<lparr>on_write_ready := Some (socks_stub_stay sid)\<rparr>"
  "stm_max_state (socks_write_machine sid) = SOCKS_ST_DONE" "stm_initial (socks_write_machine sid) = SOCKS_ST_AUTH_GREETING"
  "length (stm_states (socks_write_machine sid)) = Suc SOCKS_ST_DONE"
  by (simp_all add: socks_write_machine_def del: upt_Suc)

definition session_look :: "nat \<Rightarrow> world \<Rightarrow> nat option" where
  "session_look sid w = (case w_sessions w sid of None \<Rightarrow> None | Some se \<Rightarrow> se_cur se)"

definition session_alive :: "nat \<Rightarrow> world \<Rightarrow> bool" where
  "session_alive sid w \<longleftrightarrow> w_sessions w sid \<noteq> None"

interpretation bm: stm_world "session_cur sid" "session_set_cur sid" "session_put_cur sid" "session_look sid"
  "session_alive sid" socks_bare_machine for sid
  by unfold_locales
    (auto simp: session_cur_def session_set_cur_def session_put_cur_def session_look_def session_alive_def
      stm_table_ok_def bare_state_def socks_st_defs split: option.splits)

interpretation wm: stm_world "session_cur sid" "session_set_cur sid" "session_put_cur sid" "session_look sid"
  "session_alive sid" "socks_write_machine sid" for sid
  by unfold_locales
    (auto simp: session_cur_def session_set_cur_def session_put_cur_def session_look_def session_alive_def
      stm_table_ok_def bare_state_def socks_st_defs split: option.splits)

end
