(* ===== verification/Socks_Session.thy ===== *)
theory Socks_Session
  imports Close_Handlers
begin

text \<open>
  One proxied connection, the part of \<^verbatim>\<open>src/server/socks/socks.c\<close> that works on a session: the
  callbacks of the state machine (greeting, authentication, request, name resolution), the
  connection to the origin, the relay between the two sockets and the handlers of the client
  and origin descriptors. A session is the object \<open>sid\<close> of the heap \<open>w_sessions\<close>; \<open>key\<close> is the
  argument of the handler. A loop over the pending input has as many rounds as there are bytes.
\<close>

section \<open>Replies\<close>

definition socks_o2c_append :: "nat \<Rightarrow> byte list \<Rightarrow> bool act" where
  "socks_o2c_append sid bs = act_bind (session_get sid) (\<lambda>se.
     act_bind (act_lift (buffer_write_ptr (se_o2c se))) (\<lambda>(ptr, available).
     if available < length bs then act_ret False
     else act_bind (act_lift (run_bind (buffer_copy_in (se_o2c se) bs) (\<lambda>b. buffer_write_adv b (int (length bs))))) (\<lambda>b.
          act_then (session_mod sid (\<lambda>se. se\<lparr>se_o2c := b\<rparr>)) (act_ret True))))"

definition socks_dest_addr_is_denied :: "net_lib \<Rightarrow> monitor_store \<Rightarrow> sockaddr_storage option \<Rightarrow> bool run" where
  "socks_dest_addr_is_denied net store addr =
     (case addr of
        None \<Rightarrow> Inr False
      | Some a \<Rightarrow>
          (case (if ss_family a = AF_INET then inet_ntop4 net (ss_addr4 a)
                 else if ss_family a = AF_INET6 then inet_ntop6 net (ss_addr6 a) else None) of
             None \<Rightarrow> Inr False
           | Some buf \<Rightarrow> is_ip_denied net store (Some buf)))"

definition socks_send_connect_reply :: "nat \<Rightarrow> byte \<Rightarrow> bool act" where
  "socks_send_connect_reply sid rep = socks_o2c_append sid ([5, 0, 0, 1, 0, 0, 0, 0, 0, 0][1 := rep])"

abbreviation (input) SOCKS_REP_SUCCEEDED :: byte where "SOCKS_REP_SUCCEEDED \<equiv> 0"
abbreviation (input) SOCKS_REP_GENERAL_FAILURE :: byte where "SOCKS_REP_GENERAL_FAILURE \<equiv> 1"
abbreviation (input) SOCKS_REP_DENIED_BY_RULESET :: byte where "SOCKS_REP_DENIED_BY_RULESET \<equiv> 2"
abbreviation (input) SOCKS_REP_NETWORK_UNREACHABLE :: byte where "SOCKS_REP_NETWORK_UNREACHABLE \<equiv> 3"
abbreviation (input) SOCKS_REP_HOST_UNREACHABLE :: byte where "SOCKS_REP_HOST_UNREACHABLE \<equiv> 4"
abbreviation (input) SOCKS_REP_CONNECTION_REFUSED :: byte where "SOCKS_REP_CONNECTION_REFUSED \<equiv> 5"
abbreviation (input) SOCKS_REP_TTL_EXPIRED :: byte where "SOCKS_REP_TTL_EXPIRED \<equiv> 6"
abbreviation (input) SOCKS_REP_COMMAND_NOT_SUPPORTED :: byte where "SOCKS_REP_COMMAND_NOT_SUPPORTED \<equiv> 7"
abbreviation (input) SOCKS_REP_ATYP_NOT_SUPPORTED :: byte where "SOCKS_REP_ATYP_NOT_SUPPORTED \<equiv> 8"

definition socks_errno_to_rep :: "errno \<Rightarrow> byte" where
  "socks_errno_to_rep err = (case err of
      ENETUNREACH \<Rightarrow> SOCKS_REP_NETWORK_UNREACHABLE
    | EHOSTUNREACH \<Rightarrow> SOCKS_REP_HOST_UNREACHABLE
    | EHOSTDOWN \<Rightarrow> SOCKS_REP_HOST_UNREACHABLE
    | ECONNREFUSED \<Rightarrow> SOCKS_REP_CONNECTION_REFUSED
    | EAFNOSUPPORT \<Rightarrow> SOCKS_REP_ATYP_NOT_SUPPORTED
    | _ \<Rightarrow> SOCKS_REP_GENERAL_FAILURE)"

definition socks_gai_rc_to_rep :: "gai_rc \<Rightarrow> byte" where
  "socks_gai_rc_to_rep gai = (case gai of
      EAI_NONAME \<Rightarrow> SOCKS_REP_HOST_UNREACHABLE
    | EAI_NODATA \<Rightarrow> SOCKS_REP_HOST_UNREACHABLE
    | EAI_ADDRFAMILY \<Rightarrow> SOCKS_REP_ATYP_NOT_SUPPORTED
    | EAI_FAMILY \<Rightarrow> SOCKS_REP_ATYP_NOT_SUPPORTED
    | _ \<Rightarrow> SOCKS_REP_GENERAL_FAILURE)"

definition socks_request_status_to_rep :: "socks_request_status \<Rightarrow> byte" where
  "socks_request_status_to_rep st = (case st of
      SOCKS_REQUEST_REJECT_CMD \<Rightarrow> SOCKS_REP_COMMAND_NOT_SUPPORTED
    | SOCKS_REQUEST_REJECT_ATYP \<Rightarrow> SOCKS_REP_ATYP_NOT_SUPPORTED
    | _ \<Rightarrow> SOCKS_REP_GENERAL_FAILURE)"

section \<open>Interests and flushing\<close>

definition socks_client_interest :: "socks_session \<Rightarrow> fd_interest" where
  "socks_client_interest se =
     (if buffer_can_write (se_c2o se) then OP_READ else OP_NOOP) OR
     (if buffer_can_read (se_o2c se) then OP_WRITE else OP_NOOP)"

definition socks_origin_interest :: "socks_session \<Rightarrow> fd_interest" where
  "socks_origin_interest se =
     (if buffer_can_write (se_o2c se) then OP_READ else OP_NOOP) OR
     (if buffer_can_read (se_c2o se) then OP_WRITE else OP_NOOP)"

definition socks_unregister_session :: "key \<Rightarrow> unit act" where
  "socks_unregister_session key = unregister (key_fd key)"

definition session_stm_write :: "nat \<Rightarrow> unit act" where
  "session_stm_write sid = (\<lambda>w. run_bind
     (stm_handler_write (session_cur sid) (session_set_cur sid) (socks_write_machine sid) w) (\<lambda>(_, w1). Inr ((), w1)))"

definition socks_flush_client :: "nat \<Rightarrow> bool act" where
  "socks_flush_client sid = act_bind (session_get sid) (\<lambda>se.
     if se_client_fd se < 0 then act_ret False
     else act_bind (act_lift (buffer_read_ptr (se_o2c se))) (\<lambda>(ptr, pending).
       if pending = 0 then act_ret True
       else act_bind (sys_write (se_client_fd se) (buffer_pending (se_o2c se))) (\<lambda>r.
         case r of
           Inl e \<Rightarrow> if e = EAGAIN then act_ret True
                    else act_then (unregister (se_client_fd se)) (act_ret False)
         | Inr n \<Rightarrow>
             act_bind (act_lift (buffer_read_adv (se_o2c se) (int n))) (\<lambda>b.
             act_then (session_mod sid (\<lambda>se. se\<lparr>se_o2c := buffer_compact b\<rparr>))
             (act_then (socks_session_touch sid)
             (act_then (session_stm_write sid) (act_ret True)))))))"

definition socks_close_if_flushed :: "nat \<Rightarrow> bool act" where
  "socks_close_if_flushed sid = act_bind (session_get sid) (\<lambda>se.
     if \<not> se_close_after_flush se \<or> buffer_can_read (se_o2c se) then act_ret True
     else act_then (unregister (se_client_fd se)) (act_ret False))"

definition socks_session_close_from_origin :: "nat \<Rightarrow> unit act" where
  "socks_session_close_from_origin sid = act_bind (session_get sid) (\<lambda>se. unregister (se_client_fd se))"

definition session_add_bytes :: "nat \<Rightarrow> u64 \<Rightarrow> u64 \<Rightarrow> unit act" where
  "session_add_bytes sid up down = act_bind (session_get sid) (\<lambda>se.
     act_when (se_store_id se \<noteq> STORE_SESSION_INVALID)
       (store_mod (\<lambda>store. store_session_add_bytes store (se_store_id se) up down)))"

definition socks_flush_origin :: "nat \<Rightarrow> bool act" where
  "socks_flush_origin sid = act_bind (session_get sid) (\<lambda>se.
     if se_origin_fd se < 0 then act_ret True
     else act_bind (act_lift (buffer_read_ptr (se_c2o se))) (\<lambda>(ptr, pending).
       if pending = 0 then act_ret True
       else act_bind (sys_write (se_origin_fd se) (buffer_pending (se_c2o se))) (\<lambda>r.
         case r of
           Inl e \<Rightarrow> if e = EAGAIN then act_ret True
                    else act_then (socks_session_close_from_origin sid) (act_ret False)
         | Inr n \<Rightarrow>
             act_bind (act_lift (buffer_read_adv (se_c2o se) (int n))) (\<lambda>b.
             act_then (session_mod sid (\<lambda>se. se\<lparr>se_c2o := buffer_compact b\<rparr>))
             (act_then (socks_session_touch sid)
             (act_then (session_add_bytes sid (of_nat n) 0) (act_ret True)))))))"

definition socks_fail_request :: "key \<Rightarrow> nat \<Rightarrow> byte \<Rightarrow> unit act" where
  "socks_fail_request key sid rep = act_bind (session_get sid) (\<lambda>se.
     act_then (act_when (se_store_id se \<noteq> STORE_SESSION_INVALID)
                (act_bind now_string (\<lambda>now.
                 act_then (store_mod (\<lambda>store. store_session_mark_failed now store (se_store_id se)))
                   (session_mod sid (\<lambda>se. se\<lparr>se_store_id := STORE_SESSION_INVALID\<rparr>)))))
     (act_bind (socks_send_connect_reply sid rep) (\<lambda>ok.
       if \<not> ok then socks_unregister_session key
       else act_then (session_mod sid (\<lambda>se. se\<lparr>se_close_after_flush := True, se_cur := Some SOCKS_ST_DONE\<rparr>))
            (act_bind (socks_flush_client sid) (\<lambda>go.
              if \<not> go then act_ret ()
              else act_bind (session_get sid) (\<lambda>se1.
                   set_interest (se_client_fd se1) (socks_client_interest se1)))))))"

section \<open>Greeting and authentication\<close>

text \<open>A byte of the input: the one at the read pointer, and the buffer behind it.\<close>

definition take_byte :: "buffer \<Rightarrow> (byte \<times> buffer) run" where
  "take_byte b = run_bind (buffer_read_adv b 1) (\<lambda>b1. Inr (hd (buffer_pending b), b1))"

definition reply_and_close :: "key \<Rightarrow> nat \<Rightarrow> byte list \<Rightarrow> nat act" where
  "reply_and_close key sid bs = act_bind (socks_o2c_append sid bs) (\<lambda>ok.
     if \<not> ok then act_then (socks_unregister_session key) (act_ret SOCKS_ST_DONE)
     else act_then (session_mod sid (\<lambda>se. se\<lparr>se_close_after_flush := True\<rparr>)) (act_ret SOCKS_ST_DONE))"

definition greeting_done :: "key \<Rightarrow> nat \<Rightarrow> socks_greeting_status \<Rightarrow> nat act" where
  "greeting_done key sid st =
     (if st = SOCKS_GREETING_ACCEPT
      then act_bind (session_get sid) (\<lambda>se.
           let method = socks_greeting_chosen_method (Some (se_greeting se)) in
           act_bind (socks_o2c_append sid [5, method]) (\<lambda>ok.
             if \<not> ok then act_then (socks_unregister_session key) (act_ret SOCKS_ST_DONE)
             else if method = SOCKS_METHOD_USERPASS then act_ret SOCKS_ST_AUTH_USERPASS
             else act_then (store_mod (\<lambda>store. store_session_set_user store (se_store_id se) (Some ''Anon'')))
                  (act_then (store_mod (\<lambda>store. store_session_set_phase store (se_store_id se) STORE_SESSION_AUTH))
                    (act_ret SOCKS_ST_REQUEST))))
      else reply_and_close key sid [5, 0xFF])"

fun greeting_loop :: "nat \<Rightarrow> key \<Rightarrow> nat \<Rightarrow> nat act" where
  "greeting_loop 0 key sid = act_fail No_return"
| "greeting_loop (Suc fuel) key sid = act_bind (session_get sid) (\<lambda>se.
     if \<not> buffer_can_read (se_c2o se) then act_ret SOCKS_ST_AUTH_GREETING
     else act_bind (act_lift (take_byte (se_c2o se))) (\<lambda>(c, b).
          act_bind (act_lift (socks_greeting_parser_feed (se_greeting se) c)) (\<lambda>(st, p).
          act_then (session_mod sid (\<lambda>se. se\<lparr>se_greeting := p, se_c2o := b\<rparr>))
            (if st = SOCKS_GREETING_NEED_MORE then greeting_loop fuel key sid else greeting_done key sid st))))"

definition pending_bytes :: "nat \<Rightarrow> nat act" where
  "pending_bytes sid = act_bind (session_get sid) (\<lambda>se. act_ret (length (buffer_pending (se_c2o se))))"

definition socks_on_read_greeting :: "key \<Rightarrow> nat \<Rightarrow> nat act" where
  "socks_on_read_greeting key sid = act_bind (pending_bytes sid) (\<lambda>n. greeting_loop (Suc n) key sid)"

definition socks_auth_validate :: "socks_auth_parser option \<Rightarrow> monitor_store \<Rightarrow> bool" where
  "socks_auth_validate parser store =
     (case parser of
        None \<Rightarrow> False
      | Some p \<Rightarrow>
          if uname_len p = 0 \<or> unat (uname_len p) > SOCKS_AUTH_MAX_LEN \<or>
             passwd_len p = 0 \<or> unat (passwd_len p) > SOCKS_AUTH_MAX_LEN then False
          else store_user_validate store (Some (cstr (chars_of (take (unat (uname_len p)) (uname p)))))
                 (Some (cstr (chars_of (take (unat (passwd_len p)) (passwd p))))))"

definition socks_auth_store_user :: "nat \<Rightarrow> unit act" where
  "socks_auth_store_user sid = act_bind (session_get sid) (\<lambda>se.
     let len = socks_auth_username_len (Some (se_auth se)) in
     if se_store_id se = STORE_SESSION_INVALID \<or> len = 0 \<or> len > SOCKS_AUTH_MAX_LEN then act_ret ()
     else store_mod (\<lambda>store. store_session_set_user store (se_store_id se)
            (Some (cstr (chars_of (take len (uname (se_auth se))))))))"

definition auth_done :: "key \<Rightarrow> nat \<Rightarrow> socks_auth_status \<Rightarrow> nat act" where
  "auth_done key sid st =
     (if st = SOCKS_AUTH_REJECT then reply_and_close key sid [1, 1]
      else act_bind (session_get sid) (\<lambda>se.
           act_bind (act_get w_store) (\<lambda>store.
           if socks_auth_validate (Some (se_auth se)) store
           then act_then (socks_auth_store_user sid)
                (act_then (store_mod (\<lambda>store. store_session_set_phase store (se_store_id se) STORE_SESSION_AUTH))
                (act_bind (socks_o2c_append sid [1, 0]) (\<lambda>ok.
                  if \<not> ok then act_then (socks_unregister_session key) (act_ret SOCKS_ST_DONE)
                  else act_ret SOCKS_ST_REQUEST)))
           else reply_and_close key sid [1, 1])))"

fun auth_loop :: "nat \<Rightarrow> key \<Rightarrow> nat \<Rightarrow> nat act" where
  "auth_loop 0 key sid = act_fail No_return"
| "auth_loop (Suc fuel) key sid = act_bind (session_get sid) (\<lambda>se.
     if \<not> buffer_can_read (se_c2o se) then act_ret SOCKS_ST_AUTH_USERPASS
     else act_bind (act_lift (take_byte (se_c2o se))) (\<lambda>(c, b).
          act_bind (act_lift (socks_auth_parser_feed (se_auth se) c)) (\<lambda>(st, p).
          act_then (session_mod sid (\<lambda>se. se\<lparr>se_auth := p, se_c2o := b\<rparr>))
            (if st = SOCKS_AUTH_NEED_MORE then auth_loop fuel key sid else auth_done key sid st))))"

definition socks_on_read_auth :: "key \<Rightarrow> nat \<Rightarrow> nat act" where
  "socks_on_read_auth key sid = act_bind (pending_bytes sid) (\<lambda>n. auth_loop (Suc n) key sid)"

section \<open>Request, resolution and connection\<close>

definition socks_start_dns_resolve :: "key \<Rightarrow> nat \<Rightarrow> nat act" where
  "socks_start_dns_resolve key sid = act_bind sys_ok (\<lambda>mem.
     if \<not> mem then act_then (socks_fail_request key sid SOCKS_REP_GENERAL_FAILURE) (act_ret SOCKS_ST_DONE)
     else act_then (session_mod sid (\<lambda>se. se\<lparr>se_dns_resolving := True, se_dns_gai_rc := GAI_OK,
                      se_dns_result := [], se_dns_cursor := []\<rparr>))
          (act_bind (session_get sid) (\<lambda>se.
          let ctx = \<lparr>dc_session = sid, dc_notify_fd = se_client_fd se,
                     dc_host = strncpy_term SOCKS_REQUEST_FQDN_MAX (the (socks_request_fqdn (Some (se_request se)))),
                     dc_port_str = dec (unat (socks_request_dest_port (Some (se_request se))))\<rparr> in
          act_bind sys_ok (\<lambda>thread.
            if \<not> thread then act_then (socks_fail_request key sid SOCKS_REP_GENERAL_FAILURE) (act_ret SOCKS_ST_DONE)
            else act_then (act_mod (\<lambda>w. w\<lparr>w_dns := w_dns w @ [ctx]\<rparr>)) (act_ret SOCKS_ST_RESOLVING)))))"

text \<open>The thread when \<open>getaddrinfo\<close> has returned.\<close>

definition socks_dns_thread :: "socks_dns_ctx \<Rightarrow> gai_rc \<Rightarrow> addrinfo list \<Rightarrow> unit act" where
  "socks_dns_thread ctx rc result =
     act_then (session_mod (dc_session ctx) (\<lambda>se. se\<lparr>se_dns_resolving := False, se_dns_gai_rc := rc,
                 se_dns_result := (if rc = GAI_OK then result else [])\<rparr>))
     (act_bind sys_ok (\<lambda>mem.
      act_mod (\<lambda>w. w\<lparr>w_sel := snd (selector_notify_block mem (w_sel w) (dc_notify_fd ctx)),
                     w_dns := removeAll ctx (w_dns w)\<rparr>)))"

definition connect_target :: "socks_session \<Rightarrow> (sockaddr_storage \<times> nat) option" where
  "connect_target se =
     (if se_dns_cursor se \<noteq> [] then Some (ai_addr (hd (se_dns_cursor se)), ai_addrlen (hd (se_dns_cursor se)))
      else if se_dest_addr_len se > 0 then Some (se_dest_addr se, se_dest_addr_len se)
      else map_option (\<lambda>a. (a, socks_request_dest_addr_len (Some (se_request se))))
             (socks_request_dest_addr (Some (se_request se))))"

fun connect_loop :: "nat \<Rightarrow> key \<Rightarrow> nat \<Rightarrow> nat act" where
  "connect_loop 0 key sid = act_fail No_return"
| "connect_loop (Suc fuel) key sid = act_bind (session_get sid) (\<lambda>se.
     case connect_target se of
       None \<Rightarrow> act_then (socks_fail_request key sid SOCKS_REP_GENERAL_FAILURE) (act_ret SOCKS_ST_DONE)
     | Some (addr, len) \<Rightarrow>
         if len = 0 then act_then (socks_fail_request key sid SOCKS_REP_GENERAL_FAILURE) (act_ret SOCKS_ST_DONE)
         else act_bind (act_get (\<lambda>w. socks_dest_addr_is_denied (e_net (w_env w)) (w_store w) (Some addr))) (\<lambda>q.
              act_bind (act_lift q) (\<lambda>denied.
              if denied then act_then (socks_fail_request key sid SOCKS_REP_DENIED_BY_RULESET) (act_ret SOCKS_ST_DONE)
              else act_bind sys_open (\<lambda>r.
                case r of
                  Inl _ \<Rightarrow> act_then (socks_fail_request key sid SOCKS_REP_GENERAL_FAILURE) (act_ret SOCKS_ST_DONE)
                | Inr fd \<Rightarrow> act_bind selector_fd_set_nio (\<lambda>nio.
                    if \<not> nio
                    then act_then (sys_close fd)
                         (act_then (socks_fail_request key sid SOCKS_REP_GENERAL_FAILURE) (act_ret SOCKS_ST_DONE))
                    else act_bind (sys_connect fd addr) (\<lambda>rc.
                      if rc \<noteq> None \<and> rc \<noteq> Some EINPROGRESS
                      then act_then (sys_close fd)
                           (if se_dns_cursor se \<noteq> [] \<and> tl (se_dns_cursor se) \<noteq> []
                            then act_then (session_mod sid (\<lambda>se. se\<lparr>se_dns_cursor := tl (se_dns_cursor se)\<rparr>))
                                   (connect_loop fuel key sid)
                            else act_then (socks_fail_request key sid (socks_errno_to_rep (the rc))) (act_ret SOCKS_ST_DONE))
                      else act_then (session_mod sid (\<lambda>se. se\<lparr>se_origin_fd := fd\<rparr>))
                           (act_bind (register_fd fd H_socks_origin OP_WRITE (D_session sid)) (\<lambda>st.
                             if st \<noteq> SELECTOR_SUCCESS
                             then act_then (sys_close fd)
                                  (act_then (session_mod sid (\<lambda>se. se\<lparr>se_origin_fd := -1\<rparr>))
                                  (act_then (socks_fail_request key sid SOCKS_REP_GENERAL_FAILURE) (act_ret SOCKS_ST_DONE)))
                             else act_then (session_mod sid (\<lambda>se. se\<lparr>se_dest_addr := addr, se_dest_addr_len := len\<rparr>))
                                    (act_ret SOCKS_ST_ORIGIN_CONNECTING)))))))))"

definition socks_begin_origin_connect :: "key \<Rightarrow> nat \<Rightarrow> nat act" where
  "socks_begin_origin_connect key sid = act_bind (session_get sid) (\<lambda>se.
     connect_loop (Suc (length (se_dns_cursor se))) key sid)"

definition request_done :: "key \<Rightarrow> nat \<Rightarrow> socks_request_status \<Rightarrow> nat act" where
  "request_done key sid st = act_bind (session_get sid) (\<lambda>se.
     if st = SOCKS_REQUEST_PARSED_FQDN
     then act_bind (act_get (\<lambda>w. is_host_denied (w_store w) (socks_request_fqdn (Some (se_request se))))) (\<lambda>q.
          act_bind (act_lift q) (\<lambda>denied.
          if denied then act_then (socks_fail_request key sid SOCKS_REP_DENIED_BY_RULESET) (act_ret SOCKS_ST_DONE)
          else act_then (store_mod (\<lambda>store. store_session_set_phase store (se_store_id se) STORE_SESSION_CONNECTING))
                 (socks_start_dns_resolve key sid)))
     else if st = SOCKS_REQUEST_PARSED_ADDR
     then act_bind (act_get (\<lambda>w. socks_dest_addr_is_denied (e_net (w_env w)) (w_store w)
                      (socks_request_dest_addr (Some (se_request se))))) (\<lambda>q.
          act_bind (act_lift q) (\<lambda>denied.
          if denied then act_then (socks_fail_request key sid SOCKS_REP_DENIED_BY_RULESET) (act_ret SOCKS_ST_DONE)
          else act_then (store_mod (\<lambda>store. store_session_set_phase store (se_store_id se) STORE_SESSION_CONNECTING))
               (act_then (session_mod sid (\<lambda>se. se\<lparr>se_dest_addr_len := socks_request_dest_addr_len (Some (se_request se)),
                   se_dest_addr := (case socks_request_dest_addr (Some (se_request se)) of
                                      None \<Rightarrow> se_dest_addr se | Some a \<Rightarrow> a)\<rparr>))
                 (socks_begin_origin_connect key sid))))
     else act_then (socks_fail_request key sid (socks_request_status_to_rep st)) (act_ret SOCKS_ST_DONE))"

fun request_loop :: "nat \<Rightarrow> key \<Rightarrow> nat \<Rightarrow> nat act" where
  "request_loop 0 key sid = act_fail No_return"
| "request_loop (Suc fuel) key sid = act_bind (session_get sid) (\<lambda>se.
     if \<not> buffer_can_read (se_c2o se) then act_ret SOCKS_ST_REQUEST
     else act_bind (act_lift (take_byte (se_c2o se))) (\<lambda>(c, b).
          act_bind (act_lift (socks_request_parser_feed (se_request se) c)) (\<lambda>(st, p).
          act_then (session_mod sid (\<lambda>se. se\<lparr>se_request := p, se_c2o := b\<rparr>))
            (if st = SOCKS_REQUEST_NEED_MORE then request_loop fuel key sid else request_done key sid st))))"

definition socks_on_read_request :: "key \<Rightarrow> nat \<Rightarrow> nat act" where
  "socks_on_read_request key sid = act_bind (pending_bytes sid) (\<lambda>n. request_loop (Suc n) key sid)"

definition socks_on_block_resolving :: "key \<Rightarrow> nat \<Rightarrow> nat act" where
  "socks_on_block_resolving key sid = act_bind (session_get sid) (\<lambda>se.
     if se_dns_resolving se then act_ret SOCKS_ST_RESOLVING
     else if se_dns_gai_rc se \<noteq> GAI_OK \<or> se_dns_result se = []
     then act_then (socks_fail_request key sid (socks_gai_rc_to_rep (se_dns_gai_rc se))) (act_ret SOCKS_ST_DONE)
     else act_then (session_mod sid (\<lambda>se. se\<lparr>se_dns_cursor := se_dns_result se\<rparr>))
            (socks_begin_origin_connect key sid))"

end
