(* ===== verification/Socks_Relay.thy ===== *)
theory Socks_Relay
  imports Socks_Session
begin

text \<open>
  The handlers of the two descriptors of a session in \<^verbatim>\<open>socks.c\<close> and its state machine: the
  table \<open>socks_state_table\<close>, reading from the client (handshake or relay), reading from and
  writing to the origin, the end of an asynchronous \<open>connect\<close>, and the notification that a name
  has been resolved.
\<close>

section \<open>The state table\<close>

definition socks_state_table :: "key \<Rightarrow> nat \<Rightarrow> world state_definition list" where
  "socks_state_table key sid =
    [(bare_state SOCKS_ST_AUTH_GREETING)\<lparr>on_read_ready := Some (socks_on_read_greeting key sid),
        on_write_ready := Some (socks_stub_stay sid)\<rparr>,
     (bare_state SOCKS_ST_AUTH_USERPASS)\<lparr>on_read_ready := Some (socks_on_read_auth key sid),
        on_write_ready := Some (socks_stub_stay sid)\<rparr>,
     (bare_state SOCKS_ST_REQUEST)\<lparr>on_read_ready := Some (socks_on_read_request key sid),
        on_write_ready := Some (socks_stub_stay sid)\<rparr>,
     (bare_state SOCKS_ST_RESOLVING)\<lparr>on_read_ready := Some (socks_stub_stay sid),
        on_write_ready := Some (socks_stub_stay sid), on_block_ready := Some (socks_on_block_resolving key sid)\<rparr>,
     (bare_state SOCKS_ST_ORIGIN_CONNECTING)\<lparr>on_read_ready := Some (socks_stub_stay sid),
        on_write_ready := Some (socks_stub_stay sid)\<rparr>,
     (bare_state SOCKS_ST_RELAY)\<lparr>on_read_ready := Some (socks_stub_stay sid),
        on_write_ready := Some (socks_stub_stay sid)\<rparr>,
     (bare_state SOCKS_ST_DONE)\<lparr>on_read_ready := Some (socks_stub_stay sid),
        on_write_ready := Some (socks_stub_stay sid)\<rparr>]"

definition socks_machine :: "key \<Rightarrow> nat \<Rightarrow> world state_machine" where
  "socks_machine key sid = \<lparr>stm_initial = SOCKS_ST_AUTH_GREETING, stm_states = socks_state_table key sid,
     stm_max_state = SOCKS_ST_DONE\<rparr>"

definition session_stm_read :: "key \<Rightarrow> nat \<Rightarrow> unit act" where
  "session_stm_read key sid = (\<lambda>w. run_bind
     (stm_handler_read (session_cur sid) (session_set_cur sid) (socks_machine key sid) w) (\<lambda>(_, w1). Inr ((), w1)))"

definition session_stm_block :: "key \<Rightarrow> nat \<Rightarrow> unit act" where
  "session_stm_block key sid = (\<lambda>w. run_bind
     (stm_handler_block (session_cur sid) (session_set_cur sid) (socks_machine key sid) w) (\<lambda>(_, w1). Inr ((), w1)))"

definition socks_session_stm_init :: "key \<Rightarrow> nat \<Rightarrow> unit act" where
  "socks_session_stm_init key sid = (\<lambda>w. run_bind
     (stm_init (session_set_cur sid) (socks_machine key sid) w) (\<lambda>w1. Inr ((), w1)))"

section \<open>The client descriptor\<close>

text \<open>Bytes read from a socket into a buffer.\<close>

definition buffer_fill :: "buffer \<Rightarrow> byte list \<Rightarrow> buffer run" where
  "buffer_fill b bs = run_bind (buffer_copy_in b bs) (\<lambda>b1. buffer_write_adv b1 (int (length bs)))"

definition client_rearm :: "key \<Rightarrow> nat \<Rightarrow> unit act" where
  "client_rearm key sid = act_bind (session_get sid) (\<lambda>se. set_interest_key key (socks_client_interest se))"

text \<open>The loop that drains the input while a handshake message is expected.\<close>

fun handshake_loop :: "nat \<Rightarrow> key \<Rightarrow> nat \<Rightarrow> unit act" where
  "handshake_loop 0 key sid = act_fail No_return"
| "handshake_loop (Suc fuel) key sid = act_bind (session_get sid) (\<lambda>se.
     if \<not> buffer_can_read (se_c2o se) then act_ret ()
     else act_bind (session_state sid) (\<lambda>st.
       if st \<noteq> SOCKS_ST_AUTH_GREETING \<and> st \<noteq> SOCKS_ST_AUTH_USERPASS \<and> st \<noteq> SOCKS_ST_REQUEST then act_ret ()
       else act_then (session_stm_read key sid) (handshake_loop fuel key sid)))"

text \<open>The end of \<open>socks_client_read\<close>.\<close>

definition client_read_end :: "key \<Rightarrow> nat \<Rightarrow> unit act" where
  "client_read_end key sid = act_bind (socks_close_if_flushed sid) (\<lambda>go.
     if \<not> go then act_ret () else client_rearm key sid)"

text \<open>What is done with the bytes just read, in the relay and before it.\<close>

definition client_relay :: "key \<Rightarrow> nat \<Rightarrow> unit act" where
  "client_relay key sid = act_bind (session_get sid) (\<lambda>se.
     if se_origin_fd se \<ge> 0
     then act_bind (socks_flush_origin sid) (\<lambda>go.
            if \<not> go then act_ret ()
            else act_bind (session_get sid) (\<lambda>se1.
                 act_then (set_interest (se_origin_fd se1) (socks_origin_interest se1)) (client_read_end key sid)))
     else client_read_end key sid)"

definition client_handshake :: "key \<Rightarrow> nat \<Rightarrow> unit act" where
  "client_handshake key sid =
     act_bind (pending_bytes sid) (\<lambda>n.
     act_then (handshake_loop (Suc n) key sid)
     (act_bind (session_get sid) (\<lambda>se.
        if buffer_can_read (se_o2c se)
        then act_bind (socks_flush_client sid) (\<lambda>go. if \<not> go then act_ret () else client_read_end key sid)
        else client_read_end key sid)))"

definition socks_client_read :: "key \<Rightarrow> nat \<Rightarrow> unit act" where
  "socks_client_read key sid = act_bind (session_get sid) (\<lambda>se.
     act_bind (act_lift (buffer_write_ptr (se_c2o se))) (\<lambda>(ptr, available).
     if available = 0 then client_rearm key sid
     else act_bind (sys_read (key_fd key) available) (\<lambda>r.
       case r of
         Inl e \<Rightarrow> if e = EAGAIN then client_rearm key sid else socks_unregister_session key
       | Inr bs \<Rightarrow>
           if bs = [] then socks_unregister_session key
           else act_bind (act_lift (buffer_fill (se_c2o se) bs)) (\<lambda>b.
                act_then (session_mod sid (\<lambda>se. se\<lparr>se_c2o := b\<rparr>))
                (act_then (socks_session_touch sid)
                (act_bind (session_state sid) (\<lambda>st.
                  if st = SOCKS_ST_RELAY then client_relay key sid else client_handshake key sid)))))))"

definition socks_client_write :: "key \<Rightarrow> nat \<Rightarrow> unit act" where
  "socks_client_write key sid = act_bind (socks_flush_client sid) (\<lambda>go.
     if \<not> go then act_ret () else client_read_end key sid)"

definition socks_client_block :: "key \<Rightarrow> nat \<Rightarrow> unit act" where
  "socks_client_block key sid = act_then (session_stm_block key sid)
     (act_bind (socks_flush_client sid) (\<lambda>go.
        if \<not> go then act_ret () else client_read_end key sid))"

section \<open>The origin descriptor\<close>

definition dest_host :: "net_lib \<Rightarrow> socks_session \<Rightarrow> string" where
  "dest_host net se =
     (let name = the (socks_request_fqdn (Some (se_request se)));
          a = se_dest_addr se;
          text = (if ss_family a = AF_INET then inet_ntop4 net (ss_addr4 a)
                  else if ss_family a = AF_INET6 then inet_ntop6 net (ss_addr6 a) else None)
      in if name \<noteq> [] then strncpy_term STORE_MAX_DEST_HOST name
         else if se_dest_addr_len se > 0
         then (case text of None \<Rightarrow> ''unknown'' | Some t \<Rightarrow> strncpy_term STORE_MAX_DEST_HOST t)
         else ''unknown'')"

definition socks_session_record_dest :: "nat \<Rightarrow> unit act" where
  "socks_session_record_dest sid = act_bind (session_get sid) (\<lambda>se.
     if se_dest_recorded se \<or> se_store_id se = STORE_SESSION_INVALID then act_ret ()
     else act_bind (act_get (\<lambda>w. e_net (w_env w))) (\<lambda>net.
          act_bind now_string (\<lambda>now.
          act_then (store_mod (\<lambda>store. snd (store_session_set_dest now store (se_store_id se)
                      (Some (dest_host net se)) (socks_request_dest_port (Some (se_request se))))))
            (session_mod sid (\<lambda>se. se\<lparr>se_dest_recorded := True\<rparr>)))))"

definition socks_origin_connect_complete :: "key \<Rightarrow> nat \<Rightarrow> unit act" where
  "socks_origin_connect_complete key sid = act_bind sys_so_error (\<lambda>err.
     case err of
       Some e \<Rightarrow>
         act_then (socks_session_destroy_origin sid)
         (act_bind (session_get sid) (\<lambda>se.
            if se_dns_cursor se \<noteq> [] \<and> tl (se_dns_cursor se) \<noteq> []
            then act_then (session_mod sid (\<lambda>se. se\<lparr>se_dns_cursor := tl (se_dns_cursor se)\<rparr>))
                 (act_bind (socks_begin_origin_connect key sid) (\<lambda>nxt.
                    session_mod sid (\<lambda>se. se\<lparr>se_cur := Some nxt\<rparr>)))
            else act_then (socks_fail_request key sid (socks_errno_to_rep e))
                   (act_then (socks_close_if_flushed sid) (act_ret ()))))
     | None \<Rightarrow>
         act_bind (socks_send_connect_reply sid SOCKS_REP_SUCCEEDED) (\<lambda>ok.
           if \<not> ok then socks_unregister_session key
           else act_then (socks_session_record_dest sid)
                (act_then (session_mod sid (\<lambda>se. se\<lparr>se_cur := Some SOCKS_ST_RELAY\<rparr>))
                (act_bind (socks_flush_client sid) (\<lambda>go.
                  if \<not> go then act_ret ()
                  else act_bind (session_get sid) (\<lambda>se.
                       act_then (set_interest (se_origin_fd se) (socks_origin_interest se))
                         (set_interest (se_client_fd se) (socks_client_interest se))))))))"

definition origin_rearm :: "key \<Rightarrow> nat \<Rightarrow> unit act" where
  "origin_rearm key sid = act_bind (session_get sid) (\<lambda>se. set_interest_key key (socks_origin_interest se))"

definition socks_origin_read :: "key \<Rightarrow> nat \<Rightarrow> unit act" where
  "socks_origin_read key sid = act_bind (session_get sid) (\<lambda>se.
     act_bind (act_lift (buffer_write_ptr (se_o2c se))) (\<lambda>(ptr, available).
     if available = 0 then origin_rearm key sid
     else act_bind (sys_read (key_fd key) available) (\<lambda>r.
       case r of
         Inl e \<Rightarrow> if e = EAGAIN then origin_rearm key sid else socks_session_close_from_origin sid
       | Inr bs \<Rightarrow>
           if bs = [] then socks_session_close_from_origin sid
           else act_bind (act_lift (buffer_fill (se_o2c se) bs)) (\<lambda>b.
                act_then (session_mod sid (\<lambda>se. se\<lparr>se_o2c := b\<rparr>))
                (act_then (socks_session_touch sid)
                (act_then (session_add_bytes sid 0 (of_nat (length bs)))
                (act_bind (socks_flush_client sid) (\<lambda>go.
                  if \<not> go then act_ret ()
                  else act_bind (session_get sid) (\<lambda>se1.
                       act_then (set_interest (se_client_fd se1) (socks_client_interest se1))
                         (origin_rearm key sid)))))))))) "

definition socks_origin_write :: "key \<Rightarrow> nat \<Rightarrow> unit act" where
  "socks_origin_write key sid = act_bind (session_state sid) (\<lambda>st.
     if st = SOCKS_ST_ORIGIN_CONNECTING then socks_origin_connect_complete key sid
     else act_bind (socks_flush_origin sid) (\<lambda>go.
       if \<not> go then act_ret ()
       else act_bind (session_get sid) (\<lambda>se.
            act_then (set_interest_key key (socks_origin_interest se))
              (set_interest (se_client_fd se) (socks_client_interest se)))))"

end
