(* ===== verification/Action_Order.thy ===== *)
theory Action_Order
  imports Actions
begin

text \<open>
  What an action can do whatever its input and the answers of the system: it keeps a relation \<open>R\<close> between the states before
  and after. The rules for sequencing hold for any state; \<open>Action_Calculus\<close> extends them to the world of the server,
  \<open>Client_Modes\<close> uses them for the terminal of the administration client.
\<close>

named_theorems keeps_rules \<open>an action keeps the relation\<close>

section \<open>Sequencing\<close>

text \<open>
  A relation that holds between the states before and after: any run of such actions stays
  within it. \<open>S\<close> is what has been checked before the action.
\<close>

locale action_order =
  fixes R :: "'w \<Rightarrow> 'w \<Rightarrow> bool"
    and clear :: "'c \<Rightarrow> 'w \<Rightarrow> bool"
  assumes R_refl: "R w w"
    and R_trans: "R w0 w1 \<Longrightarrow> R w1 w2 \<Longrightarrow> R w0 w2"
    and R_clear: "R w w' \<Longrightarrow> clear a w \<Longrightarrow> clear a w'"
begin

definition keeps :: "'c set \<Rightarrow> ('w, 'a) action \<Rightarrow> bool" where
  "keeps S m \<longleftrightarrow> (\<forall>w x w'. (\<forall>a \<in> S. clear a w) \<longrightarrow> m w = Inr (x, w') \<longrightarrow> R w w')"

definition keeps_w :: "'c set \<Rightarrow> ('w \<Rightarrow> 'w run) \<Rightarrow> bool" where
  "keeps_w S f \<longleftrightarrow> (\<forall>w w'. (\<forall>a \<in> S. clear a w) \<longrightarrow> f w = Inr w' \<longrightarrow> R w w')"

lemma keeps_ret [keeps_rules]: "keeps S (act_ret x)"
  by (simp add: keeps_def R_refl)

lemma keeps_get [keeps_rules]: "keeps S (act_get f)"
  by (simp add: keeps_def R_refl)

lemma keeps_fail [keeps_rules]: "keeps S (act_fail e)"
  by (simp add: keeps_def)

lemma keeps_lift [keeps_rules]: "keeps S (act_lift r)"
  by (auto simp: keeps_def act_lift_def run_simps R_refl)

lemma keeps_mod [keeps_rules]: "(\<And>w. R w (f w)) \<Longrightarrow> keeps S (act_mod f)"
  by (simp add: keeps_def)

lemma keeps_bind [keeps_rules]: "keeps S m \<Longrightarrow> (\<And>x. keeps S (f x)) \<Longrightarrow> keeps S (act_bind m f)"
  unfolding keeps_def act_bind_def by (auto simp: run_simps) (meson R_clear R_trans)

lemma keeps_then [keeps_rules]: "keeps S m \<Longrightarrow> keeps S n \<Longrightarrow> keeps S (act_then m n)"
  unfolding act_then_def by (rule keeps_bind)

lemma keeps_when [keeps_rules]: "keeps S m \<Longrightarrow> keeps S (act_when b m)"
  by (simp add: act_when_def keeps_ret)

lemma keeps_if [keeps_rules]: "keeps S m \<Longrightarrow> keeps S n \<Longrightarrow> keeps S (if b then m else n)"
  by simp

lemma keeps_option [keeps_rules]:
  "keeps S m \<Longrightarrow> (\<And>x. keeps S (f x)) \<Longrightarrow> keeps S (case z of None \<Rightarrow> m | Some x \<Rightarrow> f x)"
  by (cases z) simp_all

lemma keeps_sum [keeps_rules]:
  "(\<And>x. keeps S (f x)) \<Longrightarrow> (\<And>x. keeps S (g x)) \<Longrightarrow> keeps S (case z of Inl x \<Rightarrow> f x | Inr x \<Rightarrow> g x)"
  by (cases z) simp_all

lemma keeps_prod [keeps_rules]: "(\<And>x y. keeps S (f x y)) \<Longrightarrow> keeps S (case z of (x, y) \<Rightarrow> f x y)"
  by (cases z) simp

lemma keeps_let [keeps_rules]: "keeps S (f x) \<Longrightarrow> keeps S (Let x f)"
  by simp

lemma keeps_w_fail: "keeps_w S (\<lambda>_. Inl e)"
  by (simp add: keeps_w_def)

end

end
