(* ===== verification/Action_Calculus.thy ===== *)
theory Action_Calculus
  imports Socks_Relay Action_Order
begin

text \<open>
  A calculus for what a handler can do whatever its input and the answers of the system: an action
  keeps a relation \<open>R\<close> between the worlds before and after. \<open>system_order\<close> extends the rules for
  sequencing of \<open>action_order\<close> by those for the operations every handler shares (the list of idle sessions,
  the close handlers, unregistering a descriptor, the state machine), from what \<open>R\<close> must allow. Theories
  \<open>Effects\<close> and \<open>Relay_Flow\<close> interpret them.
\<close>

section \<open>What a SOCKS session leaves of the store\<close>

text \<open>Users, configuration and access lists.\<close>

definition store_policy :: "monitor_store \<Rightarrow> _" where
  "store_policy store = (ms_users store, ms_user_count store, (ms_timeout store, ms_sessions_cap store, ms_io_buffer_size store),
     (ms_denied_hosts store, ms_last_denied_host store, ms_denied_addresses store, ms_last_denied_addr store, ms_rules store))"

lemma field_policy [simp]:
  "store_policy (store\<lparr>ms_sessions := ss\<rparr>) = store_policy store"
  "store_policy (store\<lparr>ms_metrics := m\<rparr>) = store_policy store"
  "store_policy (store\<lparr>ms_next_session_id := n\<rparr>) = store_policy store"
  "store_policy (put_node k node store) = store_policy store"
  by (simp_all add: store_policy_def put_node_def)

lemma log_policy [simp]:
  "store_policy (snd (store_log_append now store u h p st)) = store_policy store"
  "store_policy (store_log_update store i st up down) = store_policy store"
  by (auto simp: store_policy_def store_log_append_def store_log_update_def store_log_print_def Let_def split: option.splits)

lemma remove_policy [simp]: "store_policy (store_session_remove store k) = store_policy store"
  by (simp add: store_session_remove_def Let_def)

lemma session_policy [simp]:
  "store_policy (snd (store_session_begin store)) = store_policy store"
  "store_policy (store_session_set_user store i u) = store_policy store"
  "store_policy (store_session_set_phase store i ph) = store_policy store"
  by (simp_all add: store_session_begin_def store_session_set_user_def store_session_set_phase_def Let_def split: option.split)

lemma close_policy [simp]:
  "store_policy (store_session_add_bytes store i up down) = store_policy store"
  "store_policy (store_session_mark_failed now store i) = store_policy store"
  "store_policy (store_session_end store i) = store_policy store"
  "store_policy (store_session_mark_ttl_expired now store i) = store_policy store"
  unfolding store_session_add_bytes_def store_session_mark_failed_def store_session_end_def store_session_mark_ttl_expired_def
  by (cases "store_find_session store i"; simp add: Let_def)+

lemma dest_policy [simp]: "store_policy (snd (store_session_set_dest now store i h p)) = store_policy store"
proof -
  have "store_policy st2 = store_policy (put_node k n store)"
    if "store_log_append now (put_node k n store) u hh p STORE_LOG_CONNECTED = (lid, st2)" for k n u hh lid st2
    using log_policy(1) [of now "put_node k n store" u hh p STORE_LOG_CONNECTED] that by simp
  then show ?thesis
    by (cases "store_find_session store i"; cases h) (simp_all add: store_session_set_dest_def Let_def split: prod.split)
qed

lemma begin_policy: "store_session_begin store = (i, store1) \<Longrightarrow> store_policy store1 = store_policy store"
  using session_policy(1) [of store] by simp

text \<open>What \<open>selector_unregister_fd\<close> does to the world it runs in.\<close>

lemma unregister_cases:
  assumes u: "selector_unregister_fd get put cl fd w = Inr (rc, w')"
  obtains "w' = w"
  | h key s1 s3 w2 where "w' = put s3 w2"
      "(case cl h of None \<Rightarrow> Inr (put s1 w) | Some f \<Rightarrow> f key (put s1 w)) = Inr w2"
proof (cases "INVALID_FD fd")
  case True
  then show ?thesis using u that(1) by (simp add: selector_unregister_fd_def)
next
  case False
  then obtain base it where it: "item_get base (nat fd) (get w) = Inr it"
    and k: "(if \<not> ITEM_USED it then Inr (SELECTOR_IARGS, w)
       else run_bind (item_put base (nat fd) (it\<lparr>it_interest := OP_NOOP\<rparr>) (epoll_del fd (get w))) (\<lambda>s1.
               let w1 = put s1 w in
               run_bind (case it_handler it of
                           None \<Rightarrow> Inl Null_pointer
                         | Some h \<Rightarrow> (case cl h of
                                        None \<Rightarrow> Inr w1
                                      | Some f \<Rightarrow> f \<lparr>key_fd = it_fd it, key_data = it_data it\<rparr> w1)) (\<lambda>w2.
               run_bind (item_put base (nat fd) (item_init zero_item) (get w2)) (\<lambda>s3.
                 Inr (SELECTOR_SUCCESS, put s3 w2))))) = Inr (rc, w')"
    using u by (auto simp only: selector_unregister_fd_def if_False run_bind_eq_Inr)
  show ?thesis
  proof (cases "ITEM_USED it")
    case True
    then show ?thesis using k that(2) by (cases "it_handler it") (auto simp: run_simps Let_def)
  qed (use k that(1) in simp)
qed

section \<open>Handlers\<close>

context action_order
begin

lemma keeps_data [keeps_rules]:
  "(\<And>x. keeps S (f x)) \<Longrightarrow> (\<And>x. keeps S (g x)) \<Longrightarrow> keeps S h \<Longrightarrow> keeps S k \<Longrightarrow>
    keeps S (case z of D_session x \<Rightarrow> f x | D_monitor x \<Rightarrow> g x | D_socks_server \<Rightarrow> h | D_monitor_server \<Rightarrow> k)"
  by (cases z) simp_all

end

section \<open>Shared operations\<close>

text \<open>
  \<open>P\<close> is what the operations of the store on sessions keep of the store.
\<close>

text \<open>A change of a session that leaves its descriptors and buffers alone, or forgets its origin.\<close>

definition calm :: "socks_session \<Rightarrow> socks_session \<Rightarrow> bool" where
  "calm se se' \<longleftrightarrow> se_client_fd se' = se_client_fd se \<and> se_c2o se' = se_c2o se \<and> se_o2c se' = se_o2c se \<and>
     (se_origin_fd se' = se_origin_fd se \<or> se_origin_fd se' = -1)"

locale system_order =
  action_order R clear for R and clear :: "'c \<Rightarrow> world \<Rightarrow> bool" +
  fixes P :: "monitor_store \<Rightarrow> monitor_store \<Rightarrow> bool"
  assumes R_calls [keeps_rules]: "R w (w\<lparr>w_calls := n\<rparr>)"
    and R_sel [keeps_rules]: "R w (w\<lparr>w_sel := s\<rparr>)"
    and R_session: "w_sessions w k = Some se \<Longrightarrow> calm se se' \<Longrightarrow> R w (w\<lparr>w_sessions := (w_sessions w)(k \<mapsto> se')\<rparr>)"
    and R_free [keeps_rules]: "R w (w\<lparr>w_sessions := (w_sessions w)(k := None)\<rparr>)"
    and R_socks [keeps_rules]: "R w (w\<lparr>w_socks := srv\<rparr>)"
    and R_monitor [keeps_rules]: "R w (w\<lparr>w_monitor := msrv\<rparr>)"
    and R_monitors [keeps_rules]: "R w (w\<lparr>w_monitors := (w_monitors w)(mid := None)\<rparr>)"
    and R_open [keeps_rules]: "R w (w\<lparr>w_open := fds\<rparr>)"
    and R_store [keeps_rules]: "P (w_store w) st \<Longrightarrow> R w (w\<lparr>w_store := st\<rparr>)"
    and R_closed [keeps_rules]: "R w (w\<lparr>w_trace := w_trace w @ [Closed fd]\<rparr>)"
    and P_begin [simp]: "P store (snd (store_session_begin store))"
    and P_user [simp]: "P store (store_session_set_user store i u)"
    and P_dest [simp]: "P store (snd (store_session_set_dest now store i h p))"
    and P_phase [simp]: "P store (store_session_set_phase store i ph)"
    and P_bytes [simp]: "P store (store_session_add_bytes store i up down)"
    and P_failed [simp]: "P store (store_session_mark_failed now store i)"
    and P_end [simp]: "P store (store_session_end store i)"
    and P_ttl [simp]: "P store (store_session_mark_ttl_expired now store i)"
begin

lemma keeps_as_handler: "keeps S m \<Longrightarrow> keeps_w S (as_handler m)"
  by (auto simp: keeps_def keeps_w_def as_handler_def run_simps)

lemma keeps_syscall [keeps_rules]: "keeps S syscall"
  by (simp add: keeps_def syscall_def R_calls)

lemma keeps_session_get [keeps_rules]: "keeps S (session_get sid)"
  by (auto simp: keeps_def session_get_def R_refl split: option.splits)

lemma keeps_calm: "(\<And>se. calm se (f se)) \<Longrightarrow> keeps S (session_mod sid f)"
  by (auto simp: keeps_def session_mod_def R_session split: option.splits)

lemma keeps_monitor_get [keeps_rules]: "keeps S (monitor_get mid)"
  by (auto simp: keeps_def monitor_get_def R_refl split: option.splits)

lemma keeps_store_mod [keeps_rules]:
  "(\<And>store. P store (f store)) \<Longrightarrow> keeps S (store_mod f)"
  unfolding store_mod_def by (intro keeps_rules)

lemma keeps_interest [keeps_rules]:
  "keeps S (set_interest fd i)" "keeps S (set_interest_key key i)" "keeps S (register_fd fd h i d)"
proof -
  have "keeps S (\<lambda>w. run_bind (q w) (\<lambda>(st, s). Inr (st, put_sel s w)))" for q :: "world \<Rightarrow> ('a \<times> _) run"
    by (auto simp: keeps_def run_simps put_sel_def R_sel)
  then show "keeps S (register_fd fd h i d)" unfolding register_fd_def by (intro keeps_rules)
qed (auto simp: keeps_def set_interest_def set_interest_key_def run_simps put_sel_def R_sel)

lemma keeps_plain_sys [keeps_rules]:
  "keeps S (sys_close fd)" "keeps S sys_ok" "keeps S sys_time" "keeps S sys_so_error" "keeps S (sys_malloc n)" "keeps S now_string"
  "keeps S selector_fd_set_nio"
  unfolding sys_close_def selector_fd_set_nio_def sys_ok_def sys_time_def sys_so_error_def sys_malloc_def now_string_def record_effect_def
  by (intro keeps_rules)+

text \<open>Unregistering and the close handlers.\<close>

lemma keeps_unregister_with:
  assumes closer: "\<And>h f key. cl h = Some f \<Longrightarrow> keeps_w S (f key)"
  shows "keeps S (unregister_with cl fd)"
  unfolding keeps_def
proof (intro allI impI)
  fix w x w'
  assume S: "\<forall>a \<in> S. clear a w" and r: "unregister_with cl fd w = Inr (x, w')"
  have sel: "R w (put_sel s w)" for s w by (simp add: put_sel_def R_sel)
  have step: "R w (put_sel s3 w2)"
    if c: "(case cl h of None \<Rightarrow> Inr (put_sel s1 w) | Some f \<Rightarrow> f key (put_sel s1 w)) = Inr w2" for h key s1 s3 w2
  proof -
    have "\<forall>a \<in> S. clear a (put_sel s1 w)" using S R_clear [OF sel [of w s1]] by blast
    then have "R (put_sel s1 w) w2"
      using c closer [of h] by (cases "cl h") (auto simp: keeps_w_def R_refl)
    then show ?thesis using sel R_trans by blast
  qed
  from r obtain rc where "selector_unregister_fd w_sel put_sel cl fd w = Inr (rc, w')"
    by (auto simp: unregister_with_def run_simps)
  then show "R w w'"
    by (rule unregister_cases) (use step R_refl in blast)+
qed

lemma keeps_idle [keeps_rules]:
  "keeps S (idle_list_remove sid)" "keeps S (idle_list_push_tail sid)" "keeps S (socks_session_touch sid)"
proof -
  show r: "keeps S (idle_list_remove sid)" for sid
    unfolding idle_list_remove_def set_head_def set_tail_def by (intro keeps_rules keeps_calm; simp add: calm_def)
  show p: "keeps S (idle_list_push_tail sid)" for sid
    unfolding idle_list_push_tail_def set_head_def set_tail_def by (intro keeps_rules keeps_calm r; simp add: calm_def)
  show "keeps S (socks_session_touch sid)"
    unfolding socks_session_touch_def by (intro keeps_rules keeps_calm p; simp add: calm_def)
qed

lemma keeps_close [keeps_rules]:
  "keeps S (socks_origin_close key)" "keeps S (socks_passive_close key)"
  "keeps S (monitor_client_close key)" "keeps S (monitor_passive_close key)"
  unfolding socks_origin_close_def socks_passive_close_def monitor_client_close_def monitor_passive_close_def
  by (intro keeps_rules keeps_calm; simp add: calm_def R_refl R_monitor)+

lemma keeps_stm_close [keeps_rules]:
  "keeps S (\<lambda>w. run_bind (stm_handler_close (session_cur sid) socks_bare_machine w) (\<lambda>w1. Inr ((), w1)))"
proof -
  have "state_at socks_bare_machine i = Inr d \<Longrightarrow> on_departure d = None" for i d
    by (auto simp: state_at_def socks_bare_machine_def bare_state_def simp del: upt_Suc split: if_splits)
  then show ?thesis
    by (auto simp: keeps_def stm_handler_close_def notify_def run_simps R_refl split: option.splits)
qed

lemma keeps_client_close [keeps_rules]: "keeps S (socks_client_close key)"
proof -
  have "keeps_w S (f k)" if "closer0 h = Some f" for h f k
    using that by (cases h) (auto simp: closer0_def keeps_w_fail intro!: keeps_as_handler keeps_close)
  then have "keeps S (destroy_origin (unregister_with closer0) sid)" for sid
    unfolding destroy_origin_def by (intro keeps_rules keeps_calm keeps_unregister_with; simp add: calm_def)
  then show ?thesis
    unfolding socks_client_close_def socks_free_dns_def
    by (intro keeps_rules keeps_calm; simp add: calm_def R_refl R_socks)
qed

lemma keeps_unregister [keeps_rules]: "keeps S (unregister fd)"
  unfolding unregister_def
proof (rule keeps_unregister_with)
  fix h f key assume "closer h = Some f"
  then show "keeps_w S (f key)"
    by (cases h) (auto simp: closer_def closer0_def intro!: keeps_as_handler keeps_close keeps_client_close)
qed

text \<open>The state machine runs only its callbacks.\<close>

lemma keeps_dispatch:
  assumes h: "\<And>d f. d \<in> set (stm_states m) \<Longrightarrow> sel d = Some f \<Longrightarrow> keeps S f"
    and n: "\<And>d. d \<in> set (stm_states m) \<Longrightarrow> on_arrival d = None \<and> on_departure d = None"
  shows "keeps S (\<lambda>w. run_bind (stm_dispatch sel (session_cur sid) (session_set_cur sid) m w) (\<lambda>(_, w1). Inr ((), w1)))"
proof -
  have at: "state_at m i = Inr d \<Longrightarrow> d \<in> set (stm_states m)" for i d
    by (auto simp: state_at_def split: if_splits)
  have set: "session_set_cur sid c w = Inr w' \<Longrightarrow> R w w'" for c w w'
    by (auto simp: session_set_cur_def session_put_cur_def calm_def intro!: R_session split: option.splits)
  have first: "handle_first (session_cur sid) (session_set_cur sid) m w = Inr w' \<Longrightarrow> R w w'" for w w'
    using n at set by (fastforce simp: handle_first_def notify_def run_simps R_refl split: if_splits option.splits)
  have jmp: "jump (session_cur sid) (session_set_cur sid) m k w = Inr w' \<Longrightarrow> R w w'" for k w w'
    using n at set by (fastforce simp: jump_def notify_def run_simps R_refl split: if_splits option.splits)
  have "R w w'" if S: "\<forall>a \<in> S. clear a w"
    and r: "stm_dispatch sel (session_cur sid) (session_set_cur sid) m w = Inr (ret, w')" for w ret w'
  proof -
    from r obtain w1 i d f w2 where
      w1: "handle_first (session_cur sid) (session_set_cur sid) m w = Inr w1"
      and d: "state_at m i = Inr d" "sel d = Some f" and f: "f w1 = Inr (ret, w2)"
      and j: "jump (session_cur sid) (session_set_cur sid) m ret w2 = Inr w'"
      by (fastforce simp: stm_dispatch_def run_simps split: option.splits)
    have "\<forall>a \<in> S. clear a w1" using S R_clear [OF first [OF w1]] by blast
    then have "R w1 w2" using h [OF at [OF d(1)] d(2)] f by (simp add: keeps_def)
    then show ?thesis using first [OF w1] jmp [OF j] R_trans by blast
  qed
  then show ?thesis by (auto simp: keeps_def run_simps)
qed

lemma keeps_state [keeps_rules]: "keeps S (session_state sid)" "keeps S (socks_stub_stay sid)"
  by (auto simp: keeps_def session_state_def socks_stub_stay_def run_simps R_refl)

lemma keeps_stm_write [keeps_rules]: "keeps S (session_stm_write sid)"
  unfolding session_stm_write_def stm_handler_write_def
  by (rule keeps_dispatch)
    (auto simp: socks_write_machine_def bare_state_def keeps_state simp del: upt_Suc)

end

end
