(* ===== verification/Monitor_Server.thy ===== *)
theory Monitor_Server
  imports Close_Handlers
begin

text \<open>
  The administration port, \<^verbatim>\<open>src/server/monitor/monitor.c\<close>: the handlers of a client connection
  between its socket, the input buffer \<open>rb\<close> and the command interpreter, and the handler of the
  listening socket. A session is the object \<open>mid\<close> of the heap \<open>w_monitors\<close>.
\<close>

section \<open>Operations\<close>

definition monitor_client_interest :: "monitor_session \<Rightarrow> fd_interest" where
  "monitor_client_interest m =
     (if buffer_can_write (mo_rb m) then OP_READ else OP_NOOP) OR
     (if buffer_can_read (mc_wb (mo_commands m)) then OP_WRITE else OP_NOOP)"

definition monitor_unregister_session :: "key \<Rightarrow> unit act" where
  "monitor_unregister_session key = unregister (key_fd key)"

text \<open>The result is \<open>False\<close> when the session has been closed.\<close>

definition monitor_flush :: "key \<Rightarrow> nat \<Rightarrow> bool act" where
  "monitor_flush key mid = act_bind (monitor_get mid) (\<lambda>m.
     act_bind (act_lift (buffer_read_ptr (mc_wb (mo_commands m)))) (\<lambda>(ptr, pending).
     if pending = 0
     then if monitor_commands_should_close (mo_commands m)
          then act_then (monitor_unregister_session key) (act_ret False)
          else act_ret True
     else act_bind (sys_write (key_fd key) (buffer_pending (mc_wb (mo_commands m)))) (\<lambda>r.
       case r of
         Inl e \<Rightarrow> if e = EAGAIN then act_ret True
                  else act_then (monitor_unregister_session key) (act_ret False)
       | Inr n \<Rightarrow>
           act_bind (act_lift (buffer_read_adv (mc_wb (mo_commands m)) (int n))) (\<lambda>wb.
           act_then (monitor_mod mid (\<lambda>m. m\<lparr>mo_commands := (mo_commands m)\<lparr>mc_wb := buffer_compact wb\<rparr>\<rparr>))
           (act_bind (monitor_get mid) (\<lambda>m1.
             if monitor_commands_should_close (mo_commands m1)
             then act_then (monitor_unregister_session key) (act_ret False)
             else act_ret True))))))"

text \<open>The loop of \<open>feed_rb_to_commands\<close>, with fuel for its iterations.\<close>

fun feed_rb_loop :: "nat \<Rightarrow> nat \<Rightarrow> unit act" where
  "feed_rb_loop 0 mid = act_fail No_return"
| "feed_rb_loop (Suc fuel) mid = act_bind (monitor_get mid) (\<lambda>m.
     if \<not> buffer_can_read (mo_rb m) then act_ret ()
     else act_bind (act_lift (buffer_read_ptr (mo_rb m))) (\<lambda>(ptr, pending).
          act_bind (act_get (\<lambda>w. (w_env w, w_store w))) (\<lambda>(env, store).
          act_bind (act_lift (monitor_commands_feed env (buffer_pending (mo_rb m)) (store, mo_commands m))) (\<lambda>(store1, s1).
          act_then (store_mod (\<lambda>_. store1))
          (act_bind (act_lift (buffer_read_adv (mo_rb m) (int pending))) (\<lambda>rb.
          act_then (monitor_mod mid (\<lambda>m. m\<lparr>mo_rb := buffer_compact rb, mo_commands := s1\<rparr>))
            (feed_rb_loop fuel mid)))))))"

definition feed_rb_to_commands :: "nat \<Rightarrow> unit act" where
  "feed_rb_to_commands mid = feed_rb_loop 2 mid"

definition monitor_flush_on_eof :: "nat \<Rightarrow> unit act" where
  "monitor_flush_on_eof mid = act_bind (monitor_get mid) (\<lambda>m.
     act_bind (act_get (\<lambda>w. (w_env w, w_store w))) (\<lambda>(env, store).
     act_bind (act_lift (monitor_commands_flush_on_eof env (store, mo_commands m))) (\<lambda>(store1, s1).
     act_then (store_mod (\<lambda>_. store1)) (monitor_mod mid (\<lambda>m. m\<lparr>mo_commands := s1\<rparr>)))))"

definition rearm :: "key \<Rightarrow> nat \<Rightarrow> unit act" where
  "rearm key mid = act_bind (monitor_get mid) (\<lambda>m. set_interest_key key (monitor_client_interest m))"

definition monitor_client_read :: "key \<Rightarrow> nat \<Rightarrow> unit act" where
  "monitor_client_read key mid = act_bind (monitor_get mid) (\<lambda>m.
     act_bind (act_lift (buffer_write_ptr (mo_rb m))) (\<lambda>(ptr, available).
     if available = 0 then rearm key mid
     else act_bind (sys_read (key_fd key) available) (\<lambda>r.
       case r of
         Inl e \<Rightarrow> if e = EAGAIN then rearm key mid else monitor_unregister_session key
       | Inr bs \<Rightarrow>
           if bs = []
           then act_then (feed_rb_to_commands mid)
                (act_then (monitor_flush_on_eof mid)
                (act_bind (monitor_flush key mid) (\<lambda>go.
                  if \<not> go then act_ret ()
                  else act_bind (monitor_get mid) (\<lambda>m1.
                    if buffer_can_read (mc_wb (mo_commands m1)) then rearm key mid
                    else monitor_unregister_session key))))
           else act_bind (act_lift (run_bind (buffer_copy_in (mo_rb m) bs) (\<lambda>rb.
                    buffer_write_adv rb (int (length bs))))) (\<lambda>rb.
                act_then (monitor_mod mid (\<lambda>m. m\<lparr>mo_rb := rb\<rparr>))
                (act_then (feed_rb_to_commands mid)
                (act_bind (monitor_flush key mid) (\<lambda>go.
                  if \<not> go then act_ret () else rearm key mid)))))))"

definition monitor_client_write :: "key \<Rightarrow> nat \<Rightarrow> unit act" where
  "monitor_client_write key mid = act_bind (monitor_flush key mid) (\<lambda>go.
     if \<not> go then act_ret () else rearm key mid)"

text \<open>A session that \<open>calloc\<close> has zeroed.\<close>

definition monitor_zeroed :: monitor_session where
  "monitor_zeroed = \<lparr>mo_rb = buffer_init 0 (replicate MONITOR_BUFFER_SIZE 0),
     mo_commands = \<lparr>mc_state = MONITOR_ST_AWAIT_AUTH, mc_wb = buffer_init 0 (replicate MONITOR_BUFFER_SIZE 0),
       mc_line = [], mc_close_after_flush = False\<rparr>\<rparr>"

definition monitor_session_init :: "monitor_session \<Rightarrow> monitor_session run" where
  "monitor_session_init m =
     (let m1 = m\<lparr>mo_rb := buffer_init MONITOR_BUFFER_SIZE (b_data (mo_rb m)),
                 mo_commands := monitor_commands_session_init (mo_commands m)\<rparr>
      in run_bind (monitor_commands_queue_greeting (mo_commands m1)) (\<lambda>s. Inr (m1\<lparr>mo_commands := s\<rparr>)))"

text \<open>The accept loop; each round takes at least one answer of the system, so \<open>fuel\<close> bounds the rounds.\<close>

fun monitor_passive_loop :: "nat \<Rightarrow> unit act" where
  "monitor_passive_loop 0 = act_fail No_return"
| "monitor_passive_loop (Suc fuel) = act_bind sys_open (\<lambda>r.
     case r of
       Inl e \<Rightarrow> act_ret ()
     | Inr fd \<Rightarrow> act_bind selector_fd_set_nio (\<lambda>nio.
         if \<not> nio then act_then (sys_close fd) (monitor_passive_loop fuel)
         else act_bind sys_ok (\<lambda>mem.
           if \<not> mem then act_then (sys_close fd) (monitor_passive_loop fuel)
           else act_bind (act_lift (monitor_session_init monitor_zeroed)) (\<lambda>m.
             act_bind (act_get w_next) (\<lambda>mid.
             act_then (act_mod (\<lambda>w. w\<lparr>w_next := Suc (w_next w), w_monitors := (w_monitors w)(mid \<mapsto> m)\<rparr>))
             (act_bind (register_fd fd H_monitor_client (monitor_client_interest m) (D_monitor mid)) (\<lambda>st.
               if st \<noteq> SELECTOR_SUCCESS
               then act_then (act_mod (\<lambda>w. w\<lparr>w_monitors := (w_monitors w)(mid := None)\<rparr>))
                      (act_then (sys_close fd) (monitor_passive_loop fuel))
               else act_then (act_mod (\<lambda>w. w\<lparr>w_monitor :=
                        (w_monitor w)\<lparr>mv_active_sessions := Suc (mv_active_sessions (w_monitor w))\<rparr>\<rparr>))
                      (monitor_passive_loop fuel))))))))"

definition monitor_server_stop_accepting :: "unit act" where
  "monitor_server_stop_accepting = act_bind (act_get w_monitor) (\<lambda>srv.
     if mv_listen_fd srv < 0 then act_ret ()
     else act_then (unregister (mv_listen_fd srv))
            (act_mod (\<lambda>w. w\<lparr>w_monitor := (w_monitor w)\<lparr>mv_listen_fd := -1\<rparr>\<rparr>)))"

definition monitor_server_is_empty :: "world \<Rightarrow> bool" where
  "monitor_server_is_empty w \<longleftrightarrow> mv_listen_fd (w_monitor w) < 0 \<and> mv_active_sessions (w_monitor w) = 0"

definition monitor_server_port :: "world \<Rightarrow> u16" where
  "monitor_server_port w = mv_port (w_monitor w)"

end
