(* ===== verification/Server.thy ===== *)
theory Server
  imports Socks_Relay Monitor_Server
begin

text \<open>
  The server as a whole: accepting SOCKS clients, expiring idle sessions and the life cycle of the
  two servers (\<^verbatim>\<open>socks.c\<close>, \<^verbatim>\<open>monitor.c\<close>), the table of handlers the multiplexer dispatches to,
  and the loop and start-up of \<^verbatim>\<open>main.c\<close>.
\<close>

section \<open>New sessions\<close>

definition SOCKS_BUFFER_SIZE_DEFAULT :: nat where "SOCKS_BUFFER_SIZE_DEFAULT = 4096"

text \<open>\<open>store_config_get\<close> succeeds for the store every server has, so the default is never used.\<close>

definition socks_session_buffer_size :: "monitor_store \<Rightarrow> nat" where
  "socks_session_buffer_size store = unat (store_config_get store STORE_CFG_IO_BUFFER_SIZE)"

definition session_zeroed :: socks_session where
  "session_zeroed = \<lparr>se_client_fd = 0, se_origin_fd = 0, se_c2o = buffer_init 0 [], se_o2c = buffer_init 0 [],
     se_cur = None, se_greeting = socks_greeting_parser_init, se_auth = auth_zeroed, se_request = request_zeroed,
     se_dns_result = [], se_dns_cursor = [], se_dns_gai_rc = GAI_OK, se_dns_resolving = False,
     se_close_after_flush = False, se_dest_addr = zero_sockaddr, se_dest_addr_len = 0, se_store_id = 0,
     se_last_activity = 0, se_dest_recorded = False, se_idle_prev = None, se_idle_next = None,
     se_in_idle_list = False, se_ttl_expired = False\<rparr>"

definition socks_session_init_buffers :: "nat \<Rightarrow> bool act" where
  "socks_session_init_buffers sid = act_bind (act_get (\<lambda>w. socks_session_buffer_size (w_store w))) (\<lambda>size.
     act_bind (sys_malloc size) (\<lambda>c2o. act_bind (sys_malloc size) (\<lambda>o2c.
       case (c2o, o2c) of
         (Some x, Some y) \<Rightarrow> act_then (session_mod sid (\<lambda>se. se\<lparr>se_c2o := buffer_init size x, se_o2c := buffer_init size y\<rparr>))
                               (act_ret True)
       | _ \<Rightarrow> act_ret False)))"

definition socks_session_init :: "nat \<Rightarrow> int \<Rightarrow> bool act" where
  "socks_session_init sid fd =
     act_then (session_mod sid (\<lambda>se. se\<lparr>se_client_fd := fd, se_origin_fd := -1, se_dest_addr_len := 0\<rparr>))
     (act_bind (socks_session_init_buffers sid) (\<lambda>ok.
        if \<not> ok then act_ret False
        else act_bind sys_time (\<lambda>now.
             act_then (session_mod sid (\<lambda>se. se\<lparr>se_greeting := socks_greeting_parser_init,
                 se_auth := socks_auth_parser_init (se_auth se), se_request := socks_request_parser_init (se_request se),
                 se_dns_result := [], se_dns_cursor := [], se_dns_gai_rc := GAI_OK, se_dns_resolving := False,
                 se_close_after_flush := False, se_store_id := STORE_SESSION_INVALID, se_last_activity := now,
                 se_dest_recorded := False, se_ttl_expired := False, se_in_idle_list := False,
                 se_idle_prev := None, se_idle_next := None\<rparr>))
             (act_then (socks_session_stm_init \<lparr>key_fd = fd, key_data = Some (D_session sid)\<rparr> sid) (act_ret True)))))"

text \<open>What \<open>socks_passive_read\<close> does when a step after \<open>store_session_begin\<close> fails.\<close>

definition drop_client :: "int \<Rightarrow> store_session_id \<Rightarrow> nat option \<Rightarrow> unit act" where
  "drop_client fd store_id sid =
     act_then (act_when (store_id \<noteq> STORE_SESSION_INVALID) (store_mod (\<lambda>store. store_session_end store store_id)))
     (act_then (case sid of None \<Rightarrow> act_ret () | Some i \<Rightarrow> act_mod (\<lambda>w. w\<lparr>w_sessions := (w_sessions w)(i := None)\<rparr>))
       (sys_close fd))"

definition accept_client :: "int \<Rightarrow> unit act" where
  "accept_client fd = act_bind (act_get (\<lambda>w. store_session_begin (w_store w))) (\<lambda>(store_id, store).
     if store_id = STORE_SESSION_INVALID then act_then (store_mod (\<lambda>_. store)) (sys_close fd)
     else act_then (store_mod (\<lambda>_. store)) (act_bind sys_ok (\<lambda>mem.
       if \<not> mem then drop_client fd store_id None
       else act_bind (act_get w_next) (\<lambda>sid.
            act_then (act_mod (\<lambda>w. w\<lparr>w_next := Suc (w_next w), w_sessions := (w_sessions w)(sid \<mapsto> session_zeroed)\<rparr>))
            (act_bind (socks_session_init sid fd) (\<lambda>ok.
              if \<not> ok then drop_client fd store_id (Some sid)
              else act_then (session_mod sid (\<lambda>se. se\<lparr>se_store_id := store_id\<rparr>))
                   (act_bind (register_fd fd H_socks_client OP_READ (D_session sid)) (\<lambda>st.
                     if st \<noteq> SELECTOR_SUCCESS then drop_client fd store_id (Some sid)
                     else act_then (act_mod (\<lambda>w. w\<lparr>w_socks :=
                              (w_socks w)\<lparr>sv_active_sessions := Suc (sv_active_sessions (w_socks w))\<rparr>\<rparr>))
                            (idle_list_push_tail sid)))))))))"

text \<open>The accept loop; \<open>fuel\<close> bounds the connections waiting.\<close>

fun socks_passive_loop :: "nat \<Rightarrow> unit act" where
  "socks_passive_loop 0 = act_fail No_return"
| "socks_passive_loop (Suc fuel) = act_bind sys_open (\<lambda>r.
     case r of
       Inl e \<Rightarrow> act_ret ()
     | Inr fd \<Rightarrow> act_bind selector_fd_set_nio (\<lambda>nio.
         act_then (if \<not> nio then sys_close fd else accept_client fd) (socks_passive_loop fuel)))"

section \<open>Idle sessions\<close>

definition socks_expire_session_pre_relay :: "nat \<Rightarrow> unit act" where
  "socks_expire_session_pre_relay sid = act_bind (socks_send_connect_reply sid SOCKS_REP_TTL_EXPIRED) (\<lambda>ok.
     if \<not> ok then act_bind (session_get sid) (\<lambda>se. unregister (se_client_fd se))
     else act_then (session_mod sid (\<lambda>se. se\<lparr>se_close_after_flush := True, se_cur := Some SOCKS_ST_DONE\<rparr>))
          (act_bind (socks_flush_client sid) (\<lambda>go.
            if \<not> go then act_ret ()
            else act_bind (socks_close_if_flushed sid) (\<lambda>go2.
              if \<not> go2 then act_ret ()
              else act_bind (session_get sid) (\<lambda>se. set_interest (se_client_fd se) (socks_client_interest se))))))"

definition expire_one :: "nat \<Rightarrow> unit act" where
  "expire_one sid = act_then (session_mod sid (\<lambda>se. se\<lparr>se_ttl_expired := True\<rparr>))
     (act_then (idle_list_remove sid)
     (act_bind (session_state sid) (\<lambda>st.
        if st = SOCKS_ST_RELAY then act_bind (session_get sid) (\<lambda>se. unregister (se_client_fd se))
        else socks_expire_session_pre_relay sid)))"

fun expire_loop :: "nat \<Rightarrow> int \<Rightarrow> int \<Rightarrow> unit act" where
  "expire_loop 0 now timeout = act_fail No_return"
| "expire_loop (Suc fuel) now timeout = act_bind (act_get (\<lambda>w. sv_idle_head (w_socks w))) (\<lambda>h.
     case h of
       None \<Rightarrow> act_ret ()
     | Some sid \<Rightarrow> act_bind (session_get sid) (\<lambda>se.
         if now - se_last_activity se < timeout then act_ret ()
         else act_then (expire_one sid) (expire_loop fuel now timeout)))"

text \<open>Every round takes a session off the list, so the number of sessions ever made bounds the rounds.\<close>

definition socks_server_expire_idle :: "unit act" where
  "socks_server_expire_idle = act_bind (act_get (\<lambda>w. store_config_get (w_store w) STORE_CFG_TIMEOUT)) (\<lambda>timeout.
     if timeout = 0 then act_ret ()
     else act_bind sys_time (\<lambda>now. act_bind (act_get w_next) (\<lambda>n.
          expire_loop (Suc n) now (uint timeout))))"

section \<open>Servers\<close>

text \<open>The listening socket; the answer to \<open>getsockname\<close> carries the port in \<open>o_ret\<close>.\<close>

definition create_listen_socket :: "u16 \<Rightarrow> (int \<times> u16) act" where
  "create_listen_socket port = act_bind sys_open (\<lambda>r.
     case r of
       Inl _ \<Rightarrow> act_ret (-1, port)
     | Inr fd \<Rightarrow>
         act_bind sys_ok (\<lambda>reuse. if \<not> reuse then act_then (sys_close fd) (act_ret (-1, port)) else
         act_bind sys_ok (\<lambda>v6only. if \<not> v6only then act_then (sys_close fd) (act_ret (-1, port)) else
         act_bind sys_ok (\<lambda>bound. if \<not> bound then act_then (sys_close fd) (act_ret (-1, port)) else
         act_bind sys_ok (\<lambda>listening. if \<not> listening then act_then (sys_close fd) (act_ret (-1, port)) else
         act_bind syscall (\<lambda>a.
         let port1 = (if o_ret a \<ge> 0 then of_int (o_ret a) else port) in
         act_bind selector_fd_set_nio (\<lambda>nio. if \<not> nio then act_then (sys_close fd) (act_ret (-1, port1))
           else act_ret (fd, port1))))))))"

text \<open>The service for administrators has its own copy of the function.\<close>

definition create_monitor_socket :: "u16 \<Rightarrow> (int \<times> u16) act" where
  "create_monitor_socket port = create_listen_socket port"

definition socks_server_init :: "u16 \<Rightarrow> selector_status act" where
  "socks_server_init port = act_bind sys_ok (\<lambda>mem.
     if \<not> mem then act_ret SELECTOR_ENOMEM
     else act_bind (create_listen_socket port) (\<lambda>(fd, bound_port).
       if fd < 0 then act_ret SELECTOR_IO
       else act_bind (register_fd fd H_socks_passive OP_READ D_socks_server) (\<lambda>st.
         if st \<noteq> SELECTOR_SUCCESS then act_then (sys_close fd) (act_ret st)
         else act_then (act_mod (\<lambda>w. w\<lparr>w_socks := \<lparr>sv_listen_fd = fd, sv_port = bound_port, sv_active_sessions = 0,
                          sv_idle_head = None, sv_idle_tail = None\<rparr>\<rparr>)) (act_ret SELECTOR_SUCCESS))))"

definition monitor_server_init :: "u16 \<Rightarrow> selector_status act" where
  "monitor_server_init port = act_bind sys_ok (\<lambda>mem.
     if \<not> mem then act_ret SELECTOR_ENOMEM
     else act_bind (create_monitor_socket port) (\<lambda>(fd, bound_port).
       if fd < 0 then act_ret SELECTOR_IO
       else act_bind (register_fd fd H_monitor_passive OP_READ D_monitor_server) (\<lambda>st.
         if st \<noteq> SELECTOR_SUCCESS then act_then (sys_close fd) (act_ret st)
         else act_then (act_mod (\<lambda>w. w\<lparr>w_monitor := \<lparr>mv_listen_fd = fd, mv_port = bound_port, mv_active_sessions = 0\<rparr>\<rparr>))
                (act_ret SELECTOR_SUCCESS))))"

definition socks_server_stop_accepting :: "unit act" where
  "socks_server_stop_accepting = act_bind (act_get w_socks) (\<lambda>srv.
     if sv_listen_fd srv < 0 then act_ret ()
     else act_then (unregister (sv_listen_fd srv))
            (act_mod (\<lambda>w. w\<lparr>w_socks := (w_socks w)\<lparr>sv_listen_fd := -1\<rparr>\<rparr>)))"

definition socks_server_is_empty :: "world \<Rightarrow> bool" where
  "socks_server_is_empty w \<longleftrightarrow> sv_listen_fd (w_socks w) < 0 \<and> sv_active_sessions (w_socks w) = 0"

definition socks_server_port :: "world \<Rightarrow> u16" where
  "socks_server_port w = sv_port (w_socks w)"

section \<open>The handlers and the main loop\<close>

definition on_session :: "(key \<Rightarrow> nat \<Rightarrow> unit act) \<Rightarrow> key \<Rightarrow> world \<Rightarrow> world run" where
  "on_session f key = as_handler (case key_data key of Some (D_session sid) \<Rightarrow> f key sid | _ \<Rightarrow> act_fail Bad_argument)"

definition on_monitor :: "(key \<Rightarrow> nat \<Rightarrow> unit act) \<Rightarrow> key \<Rightarrow> world \<Rightarrow> world run" where
  "on_monitor f key = as_handler (case key_data key of Some (D_monitor mid) \<Rightarrow> f key mid | _ \<Rightarrow> act_fail Bad_argument)"

definition socks_passive_read :: "nat \<Rightarrow> key \<Rightarrow> unit act" where
  "socks_passive_read backlog key = socks_passive_loop (Suc backlog)"

definition monitor_passive_read :: "nat \<Rightarrow> key \<Rightarrow> unit act" where
  "monitor_passive_read backlog key = monitor_passive_loop (Suc backlog)"

text \<open>\<open>backlog\<close> bounds the connections one round of a passive handler accepts.\<close>

definition handlers :: "nat \<Rightarrow> handler_id \<Rightarrow> (key_data, world) fd_handler" where
  "handlers backlog h = (case h of
      H_socks_client \<Rightarrow> \<lparr>handle_read = Some (on_session socks_client_read), handle_write = Some (on_session socks_client_write),
        handle_block = Some (on_session socks_client_block), handle_close = closer H_socks_client\<rparr>
    | H_socks_origin \<Rightarrow> \<lparr>handle_read = Some (on_session socks_origin_read), handle_write = Some (on_session socks_origin_write),
        handle_block = None, handle_close = closer H_socks_origin\<rparr>
    | H_socks_passive \<Rightarrow> \<lparr>handle_read = Some (\<lambda>key. as_handler (socks_passive_read backlog key)), handle_write = None,
        handle_block = None, handle_close = closer H_socks_passive\<rparr>
    | H_monitor_client \<Rightarrow> \<lparr>handle_read = Some (on_monitor monitor_client_read), handle_write = Some (on_monitor monitor_client_write),
        handle_block = None, handle_close = closer H_monitor_client\<rparr>
    | H_monitor_passive \<Rightarrow> \<lparr>handle_read = Some (\<lambda>key. as_handler (monitor_passive_read backlog key)), handle_write = None,
        handle_block = None, handle_close = closer H_monitor_passive\<rparr>)"

definition servers_is_empty :: "world \<Rightarrow> bool" where
  "servers_is_empty w \<longleftrightarrow> socks_server_is_empty w \<and> monitor_server_is_empty w"

text \<open>
  One round of the loop of \<open>main\<close>: the state of the two signal flags and the answer of
  \<open>epoll_wait\<close> are arguments, the result is whether the loop goes on. A failed
  \<open>selector_select\<close> ends it, an interrupted one does not.
\<close>

definition main_iteration :: "nat \<Rightarrow> bool \<Rightarrow> bool \<Rightarrow> epoll_result \<Rightarrow> bool act" where
  "main_iteration backlog shutdown_requested force_quit res =
     act_then (act_when shutdown_requested (act_mod (\<lambda>w. w\<lparr>w_stop := True\<rparr>)))
     (act_bind (act_get w_stop) (\<lambda>stop.
      act_then (act_when stop (act_then socks_server_stop_accepting monitor_server_stop_accepting))
      (act_bind (selector_select w_sel put_sel (handlers backlog) res) (\<lambda>st.
        if st \<noteq> SELECTOR_SUCCESS then act_ret False
        else act_then socks_server_expire_idle (act_ret (\<not> force_quit))))))"

fun main_loop :: "nat \<Rightarrow> (bool \<times> bool \<times> epoll_result) list \<Rightarrow> unit act" where
  "main_loop backlog [] = act_ret ()"
| "main_loop backlog ((shutdown, force, res) # rounds) = act_bind (act_get servers_is_empty) (\<lambda>empty.
     if empty then act_ret ()
     else act_bind (main_iteration backlog shutdown force res) (\<lambda>go.
       if go then main_loop backlog rounds else act_ret ()))"

text \<open>The users given on the command line, \<open>name:password\<close>.\<close>

definition add_flag_user :: "monitor_store \<Rightarrow> string \<Rightarrow> bool \<Rightarrow> bool \<times> monitor_store" where
  "add_flag_user store input is_admin =
     (let name = takeWhile (\<lambda>c. c \<noteq> CHR '':'') input; rest = dropWhile (\<lambda>c. c \<noteq> CHR '':'') input
      in if rest = [] \<or> name = [] \<or> tl rest = [] then (False, store)
         else let (r, store1) = store_user_add store (Some name) (Some (tl rest)) is_admin
              in (r = STORE_USER_OK, store1))"

end
