(* ===== verification/Effects.thy ===== *)
theory Effects
  imports Action_Calculus Server
begin

text \<open>
  What the handlers of a SOCKS session can do to the outside, whatever their input. \<open>socks_effects\<close>
  extends \<open>system_order\<close> by the steps of the handshake and the relay; in return every handler keeps
  the relation. An address may be connected to only after it has been found not to be denied. The
  locale is interpreted with the relation that says so.
\<close>

section \<open>The handlers\<close>

text \<open>The address is not denied by the access list of the world.\<close>

definition addr_clear :: "sockaddr_storage \<Rightarrow> world \<Rightarrow> bool" where
  "addr_clear a w \<longleftrightarrow> socks_dest_addr_is_denied (e_net (w_env w)) (w_store w) (Some a) = Inr False"

lemma denied_policy:
  "store_policy store = store_policy store' \<Longrightarrow>
    socks_dest_addr_is_denied net store a = socks_dest_addr_is_denied net store' a"
  by (simp add: store_policy_def socks_dest_addr_is_denied_def is_ip_denied_def split: option.splits)

locale socks_effects =
  system_order R addr_clear P for R P +
  assumes R_heap [keeps_rules]: "R w (w\<lparr>w_sessions := H\<rparr>)"
    and R_new [keeps_rules]: "R w (w\<lparr>w_next := n, w_sessions := H\<rparr>)"
    and R_dns [keeps_rules]: "R w (w\<lparr>w_dns := ds\<rparr>)"
    and R_sel_dns [keeps_rules]: "R w (w\<lparr>w_sel := s, w_dns := ds\<rparr>)"
    and R_event [keeps_rules]: "(\<And>fd a st. e \<noteq> Connecting fd a st) \<Longrightarrow> R w (w\<lparr>w_trace := w_trace w @ [e]\<rparr>)"
    and R_connect: "addr_clear a w \<Longrightarrow> R w (w\<lparr>w_trace := w_trace w @ [Connecting fd a (w_store w)]\<rparr>)"
begin

lemma keeps_guard:
  assumes "keeps (insert a S) (f False)" and "keeps S (f True)"
  shows "keeps S (act_bind (act_get (\<lambda>w. socks_dest_addr_is_denied (e_net (w_env w)) (w_store w) (Some a)))
           (\<lambda>q. act_bind (act_lift q) f))"
proof -
  have "R w w'" if S: "\<forall>a \<in> S. addr_clear a w"
    and q: "socks_dest_addr_is_denied (e_net (w_env w)) (w_store w) (Some a) = Inr d" and f: "f d w = Inr (y, w')" for w w' d y
    using assms S q f by (cases d) (auto simp: keeps_def addr_clear_def)
  then show ?thesis by (auto simp: keeps_def act_bind_def act_lift_def run_simps)
qed

lemma keeps_sys_connect [keeps_rules]:
  assumes "a \<in> S" shows "keeps S (sys_connect fd a)"
proof -
  have c: "keeps S (act_bind (act_get w_store) (\<lambda>store. act_then (record_effect (Connecting fd a store)) m))" if "keeps S m" for m :: "'b act"
    using assms R_connect that unfolding keeps_def record_effect_def act_bind_def act_then_def
    by (auto simp: run_simps) (meson R_clear R_trans)
  show ?thesis unfolding sys_connect_def by (intro c keeps_rules)
qed

lemma keeps_session_mod [keeps_rules]: "keeps S (session_mod sid f)"
  by (auto simp: keeps_def session_mod_def R_heap split: option.splits)

lemma keeps_sys [keeps_rules]: "keeps S (sys_read fd n)" "keeps S (sys_write fd bs)" "keeps S sys_open"
  unfolding sys_read_def sys_write_def sys_open_def record_effect_def
  by (intro keeps_rules; simp)+

lemma keeps_flush [keeps_rules]:
  "keeps S (socks_o2c_append sid bs)" "keeps S (socks_flush_client sid)" "keeps S (session_add_bytes sid up down)"
  "keeps S (socks_session_close_from_origin sid)" "keeps S (socks_close_if_flushed sid)" "keeps S (socks_unregister_session key)"
  unfolding socks_o2c_append_def socks_flush_client_def session_add_bytes_def socks_session_close_from_origin_def
    socks_close_if_flushed_def socks_unregister_session_def
  by (intro keeps_rules; simp)+

lemma keeps_flush_origin [keeps_rules]: "keeps S (socks_flush_origin sid)"
  unfolding socks_flush_origin_def by (intro keeps_rules)

lemma keeps_fail_request [keeps_rules]: "keeps S (socks_fail_request key sid rep)"
  unfolding socks_fail_request_def socks_send_connect_reply_def by (intro keeps_rules; simp)

lemma keeps_reply_close [keeps_rules]: "keeps S (reply_and_close key sid bs)" "keeps S (pending_bytes sid)"
  unfolding reply_and_close_def pending_bytes_def by (intro keeps_rules)+

lemma keeps_greeting [keeps_rules]: "keeps S (socks_on_read_greeting key sid)"
proof -
  have "keeps S (greeting_done key sid st)" for st
    unfolding greeting_done_def by (intro keeps_rules; simp)
  note fin = this
  have "keeps S (greeting_loop fuel key sid)" for fuel
    by (induction fuel; simp only: greeting_loop.simps; intro keeps_rules fin)
  then show ?thesis unfolding socks_on_read_greeting_def by (intro keeps_rules)
qed

lemma keeps_auth [keeps_rules]: "keeps S (socks_on_read_auth key sid)"
proof -
  have "keeps S (auth_done key sid st)" for st
    unfolding auth_done_def socks_auth_store_user_def by (intro keeps_rules; simp)
  note fin = this
  have "keeps S (auth_loop fuel key sid)" for fuel
    by (induction fuel; simp only: auth_loop.simps; intro keeps_rules fin)
  then show ?thesis unfolding socks_on_read_auth_def by (intro keeps_rules)
qed

text \<open>Connecting happens behind the test of the access list only.\<close>

lemma keeps_connect [keeps_rules]: "keeps S (socks_begin_origin_connect key sid)"
proof -
  have "keeps S (connect_loop fuel key sid)" for fuel S
  proof (induction fuel arbitrary: S)
    case (Suc fuel)
    show ?case unfolding connect_loop.simps
      apply (rule keeps_bind, rule keeps_session_get, rule keeps_option, intro keeps_rules)
      apply (rule keeps_prod, rule keeps_if, intro keeps_rules)
      apply (rule keeps_guard; simp only: if_True if_False; intro keeps_rules Suc.IH; simp)
      done
  qed (simp only: connect_loop.simps keeps_fail)
  then show ?thesis unfolding socks_begin_origin_connect_def by (intro keeps_rules)
qed

lemma keeps_request [keeps_rules]: "keeps S (socks_on_read_request key sid)"
proof -
  have "keeps S (socks_start_dns_resolve key sid)"
    unfolding socks_start_dns_resolve_def by (intro keeps_rules)
  then have "keeps S (request_done key sid st)" for st
    unfolding request_done_def by (intro keeps_rules; simp)
  note fin = this
  have "keeps S (request_loop fuel key sid)" for fuel
    by (induction fuel; simp only: request_loop.simps; intro keeps_rules fin)
  then show ?thesis unfolding socks_on_read_request_def by (intro keeps_rules)
qed

lemma keeps_block [keeps_rules]: "keeps S (socks_on_block_resolving key sid)"
  unfolding socks_on_block_resolving_def by (intro keeps_rules)

lemma keeps_stm [keeps_rules]: "keeps S (session_stm_read key sid)" "keeps S (session_stm_block key sid)"
  unfolding session_stm_read_def stm_handler_read_def session_stm_block_def stm_handler_block_def
  by (rule keeps_dispatch;
      auto simp: socks_machine_def socks_state_table_def bare_state_def intro: keeps_greeting keeps_auth keeps_request keeps_state keeps_block)+

lemma keeps_client_end [keeps_rules]: "keeps S (client_rearm key sid)" "keeps S (client_read_end key sid)"
  unfolding client_rearm_def client_read_end_def by (intro keeps_rules)+

lemma keeps_handshake [keeps_rules]: "keeps S (handshake_loop fuel key sid)"
  by (induction fuel) (simp_all only: handshake_loop.simps, intro keeps_rules, intro keeps_rules)

lemma keeps_client:
  "keeps S (socks_client_read key sid)" "keeps S (socks_client_write key sid)" "keeps S (socks_client_block key sid)"
  unfolding socks_client_read_def socks_client_write_def socks_client_block_def client_relay_def client_handshake_def
  by (intro keeps_rules)+

lemma keeps_origin:
  "keeps S (socks_origin_read key sid)" "keeps S (socks_origin_write key sid)"
  unfolding socks_origin_read_def socks_origin_write_def socks_origin_connect_complete_def origin_rearm_def
    socks_send_connect_reply_def socks_session_record_dest_def socks_session_destroy_origin_def destroy_origin_def
  by (intro keeps_rules; simp)+

lemma keeps_expire: "keeps S socks_server_expire_idle"
proof -
  have "keeps S (expire_one sid)" for sid
    unfolding expire_one_def socks_expire_session_pre_relay_def socks_send_connect_reply_def by (intro keeps_rules)
  note one = this
  have "keeps S (expire_loop fuel now timeout)" for fuel now timeout
    by (induction fuel; simp only: expire_loop.simps; intro keeps_rules one)
  then show ?thesis unfolding socks_server_expire_idle_def by (intro keeps_rules)
qed

lemma keeps_dns_thread: "keeps S (socks_dns_thread ctx rc result)"
  unfolding socks_dns_thread_def by (intro keeps_rules)

text \<open>Accepting a client: the session of the store is begun before anything else is done.\<close>

lemma keeps_begin:
  assumes "keeps S m" "\<And>i. keeps S (n i)"
  shows "keeps S (act_bind (act_get (\<lambda>w. store_session_begin (w_store w))) (\<lambda>(i, store).
    if i = STORE_SESSION_INVALID then act_then (store_mod (\<lambda>_. store)) m else act_then (store_mod (\<lambda>_. store)) (n i)))"
proof -
  have go: "R w w'" if S: "\<forall>a \<in> S. addr_clear a w" and b: "store_session_begin (w_store w) = (i, st)"
    and f: "keeps S f" "f (w\<lparr>w_store := st\<rparr>) = Inr (x, w')" for w w' i st x and f :: "'b act"
  proof -
    have "R w (w\<lparr>w_store := st\<rparr>)" using R_store [OF P_begin, of w] b by simp
    then show ?thesis using S f R_clear R_trans unfolding keeps_def by blast
  qed
  show ?thesis
    unfolding keeps_def act_bind_def act_then_def store_mod_def
    using go [OF _ _ assms(1)] go [OF _ _ assms(2)] by (auto split: prod.splits if_splits)
qed

lemma keeps_accept [keeps_rules]: "keeps S (accept_client fd)"
proof -
  have stm: "keeps S (socks_session_stm_init key sid)" for key sid
    by (auto simp: keeps_def socks_session_stm_init_def stm_init_def session_set_cur_def session_put_cur_def run_simps Let_def R_heap R_refl
        split: option.splits if_splits)
  have drop: "keeps S (drop_client fd i s)" for i s
    unfolding drop_client_def by (intro keeps_rules; simp)
  show ?thesis
    unfolding accept_client_def socks_session_init_def socks_session_init_buffers_def
    by (rule keeps_begin; intro keeps_rules drop stm)
qed

lemma keeps_passive: "keeps S (socks_passive_read backlog key)"
proof -
  have "keeps S (socks_passive_loop fuel)" for fuel
    by (induction fuel; simp only: socks_passive_loop.simps; intro keeps_rules)
  then show ?thesis unfolding socks_passive_read_def .
qed

lemmas keeps_handlers = keeps_client keeps_origin

end

section \<open>Connections respect the access list\<close>

definition within_policy :: "world \<Rightarrow> world \<Rightarrow> bool" where
  "within_policy w w' \<longleftrightarrow> w_env w' = w_env w \<and> store_policy (w_store w') = store_policy (w_store w) \<and>
     (\<exists>new. w_trace w' = w_trace w @ new \<and> (\<forall>fd a st. Connecting fd a st \<in> set new \<longrightarrow> addr_clear a w \<and> store_policy st = store_policy (w_store w)))"

lemma addr_clear_cong:
  "w_env w' = w_env w \<Longrightarrow> store_policy (w_store w') = store_policy (w_store w) \<Longrightarrow> addr_clear a w' = addr_clear a w"
  using denied_policy [of "w_store w'" "w_store w"] by (simp add: addr_clear_def)

interpretation pe: socks_effects within_policy "\<lambda>store store'. store_policy store' = store_policy store"
proof
  fix w0 w1 w2 assume "within_policy w0 w1" "within_policy w1 w2"
  then show "within_policy w0 w2" using addr_clear_cong [of w1 w0] by (fastforce simp: within_policy_def)
next
  fix w w' a assume "within_policy w w'" "addr_clear a w"
  then show "addr_clear a w'" using addr_clear_cong [of w' w] by (simp add: within_policy_def)
qed (auto simp: within_policy_def)

end
