(* ===== verification/Session_Facts.thy ===== *)
theory Session_Facts
  imports Socks_Relay
begin

text \<open>
  The behaviour of the parts of a SOCKS session: replies, the three handshake callbacks, which are
  one loop over the input of the client (locale \<open>handshake_stage\<close>), and the state machine of
  the session. \<open>put_session sid se w\<close> is the world in which the session \<open>sid\<close> is \<open>se\<close>.
\<close>

definition put_session :: "nat \<Rightarrow> socks_session \<Rightarrow> world \<Rightarrow> world" where
  "put_session sid se w = w\<lparr>w_sessions := (w_sessions w)(sid \<mapsto> se)\<rparr>"

lemma put_session_simps [simp]:
  "w_sessions (put_session sid se w) sid = Some se" "w_sessions (put_session sid se w) = (w_sessions w)(sid \<mapsto> se)"
  "w_store (put_session sid se w) = w_store w" "w_env (put_session sid se w) = w_env w"
  "w_trace (put_session sid se w) = w_trace w" "w_os (put_session sid se w) = w_os w"
  "w_calls (put_session sid se w) = w_calls w" "w_sel (put_session sid se w) = w_sel w"
  "w_socks (put_session sid se w) = w_socks w" "w_open (put_session sid se w) = w_open w"
  "w_dns (put_session sid se w) = w_dns w"
  "put_session sid se2 (put_session sid se1 w) = put_session sid se2 w"
  by (simp_all add: put_session_def)

lemma put_session_frame [simp]:
  "put_session sid se (w\<lparr>w_store := st\<rparr>) = (put_session sid se w)\<lparr>w_store := st\<rparr>"
  "put_session sid se (w\<lparr>w_calls := n\<rparr>) = (put_session sid se w)\<lparr>w_calls := n\<rparr>"
  "put_session sid se (w\<lparr>w_trace := t\<rparr>) = (put_session sid se w)\<lparr>w_trace := t\<rparr>"
  "(put_session sid se w)\<lparr>w_store := w_store w\<rparr> = put_session sid se w"
  by (simp_all add: put_session_def)

lemma store_mod_run [simp]: "store_mod f w = Inr ((), w\<lparr>w_store := f (w_store w)\<rparr>)"
  by (simp add: store_mod_def)

lemma put_session_same: "w_sessions w sid = Some se \<Longrightarrow> put_session sid se w = w"
  by (simp add: put_session_def fun_upd_idem)

declare heap_simps(3) [simp del]

lemma session_mod_put [simp]: "w_sessions w sid = Some se \<Longrightarrow> session_mod sid f w = Inr ((), put_session sid (f se) w)"
  by (simp add: put_session_def session_mod_def)

section \<open>Replies\<close>

lemma append_ok:
  assumes "w_sessions w sid = Some se" and "buffer_inv (se_o2c se)" and "length bs \<le> buffer_room (se_o2c se)"
  shows "\<exists>b. socks_o2c_append sid bs w = Inr (True, put_session sid (se\<lparr>se_o2c := b\<rparr>) w) \<and> buffer_inv b \<and>
    buffer_pending b = buffer_pending (se_o2c se) @ bs \<and> buffer_room b = buffer_room (se_o2c se) - length bs \<and>
    b_limit b = b_limit (se_o2c se)"
proof -
  obtain b where b: "buffer_push (se_o2c se) bs = Inr b" "buffer_inv b"
    "buffer_pending b = buffer_pending (se_o2c se) @ bs" "buffer_room b = buffer_room (se_o2c se) - length bs"
    "b_limit b = b_limit (se_o2c se)"
    using buffer_push_ok [OF assms(2,3)] by blast
  moreover have "socks_o2c_append sid bs w = Inr (True, put_session sid (se\<lparr>se_o2c := b\<rparr>) w)"
    using assms b(1) by (simp add: socks_o2c_append_def act_bind_def act_then_def act_lift_def buffer_write_ptr_ok buffer_push_def)
  ultimately show ?thesis by blast
qed

lemma append_full:
  assumes "w_sessions w sid = Some se" and "buffer_inv (se_o2c se)" and "buffer_room (se_o2c se) < length bs"
  shows "socks_o2c_append sid bs w = Inr (False, w)"
  using assms by (simp add: socks_o2c_append_def act_bind_def act_lift_def buffer_write_ptr_ok)

section \<open>The loop over the input\<close>

lemma take_byte_ok:
  assumes "buffer_inv b" and "buffer_pending b = c # cs"
  shows "\<exists>b'. take_byte b = Inr (c, b') \<and> buffer_inv b' \<and> buffer_pending b' = cs \<and> b_limit b' = b_limit b"
proof -
  obtain b' where "buffer_read_adv b (int 1) = Inr b'" "buffer_inv b'" "buffer_pending b' = drop 1 (buffer_pending b)"
    "b_limit b' = b_limit b"
    using buffer_read_adv_ok [OF assms(1), of 1] assms(2) by (metis One_nat_def Suc_le_eq length_Cons zero_less_Suc)
  then show ?thesis using assms(2) by (simp add: take_byte_def)
qed

locale handshake_stage =
  fixes sid :: nat
    and loop :: "nat \<Rightarrow> nat act"
    and parser :: "socks_session \<Rightarrow> 'p"
    and set_parser :: "'p \<Rightarrow> socks_session \<Rightarrow> socks_session"
    and feed :: "'p \<Rightarrow> byte \<Rightarrow> ('s \<times> 'p) run"
    and more :: "'s \<Rightarrow> bool"
    and stay :: nat
    and finish :: "'s \<Rightarrow> nat act"
  assumes loop_Suc: "loop (Suc fuel) = act_bind (session_get sid) (\<lambda>se.
      if \<not> buffer_can_read (se_c2o se) then act_ret stay
      else act_bind (act_lift (take_byte (se_c2o se))) (\<lambda>(c, b).
           act_bind (act_lift (feed (parser se) c)) (\<lambda>(st, p).
           act_then (session_mod sid (\<lambda>se. (set_parser p se)\<lparr>se_c2o := b\<rparr>))
             (if more st then loop fuel else finish st))))"
    and parser_set: "parser ((set_parser p se)\<lparr>se_c2o := b\<rparr>) = p"
    and set_set: "set_parser q ((set_parser p se)\<lparr>se_c2o := b\<rparr>) = (set_parser q se)\<lparr>se_c2o := b\<rparr>"
    and set_same: "set_parser (parser se) se = se"
begin

lemma loop_run:
  assumes "w_sessions w sid = Some se" and "buffer_inv (se_c2o se)" and "length (buffer_pending (se_c2o se)) < fuel"
    and "consume feed more (parser se) (buffer_pending (se_c2o se)) = Inr (res, p, rest)"
  shows "\<exists>b. buffer_inv b \<and> buffer_pending b = rest \<and> b_limit b = b_limit (se_c2o se) \<and>
    loop fuel w = (case res of None \<Rightarrow> Inr (stay, put_session sid ((set_parser p se)\<lparr>se_c2o := b\<rparr>) w)
                   | Some st \<Rightarrow> finish st (put_session sid ((set_parser p se)\<lparr>se_c2o := b\<rparr>) w))"
  using assms
proof (induction fuel arbitrary: w se)
  case (Suc fuel)
  show ?case
  proof (cases "buffer_pending (se_c2o se)")
    case Nil
    then have "loop (Suc fuel) w = Inr (stay, w)" "p = parser se" "rest = []" "res = None"
      using Suc.prems by (auto simp: loop_Suc buffer_can_read_iff)
    then show ?thesis using Suc.prems Nil
      by (intro exI [of _ "se_c2o se"]) (simp add: set_same put_session_same)
  next
    case (Cons c cs)
    then obtain b where b: "take_byte (se_c2o se) = Inr (c, b)" "buffer_inv b" "buffer_pending b = cs"
      "b_limit b = b_limit (se_c2o se)" using take_byte_ok Suc.prems(2) by blast
    obtain st q where f: "feed (parser se) c = Inr (st, q)" using Suc.prems(4) Cons by (auto simp: run_simps)
    let ?se = "(set_parser q se)\<lparr>se_c2o := b\<rparr>"
    have step: "loop (Suc fuel) w = (if more st then loop fuel else finish st) (put_session sid ?se w)"
      using Suc.prems(1,2) Cons b f
      by (simp add: loop_Suc buffer_can_read_iff act_bind_def act_then_def act_lift_def)
    show ?thesis
    proof (cases "more st")
      case True
      then have "consume feed more (parser ?se) (buffer_pending (se_c2o ?se)) = Inr (res, p, rest)"
        using Suc.prems(4) Cons f b by (simp add: parser_set)
      then obtain b' where "buffer_inv b'" "buffer_pending b' = rest" "b_limit b' = b_limit (se_c2o se)"
        "loop fuel (put_session sid ?se w) = (case res of
            None \<Rightarrow> Inr (stay, put_session sid ((set_parser p ?se)\<lparr>se_c2o := b'\<rparr>) (put_session sid ?se w))
          | Some st \<Rightarrow> finish st (put_session sid ((set_parser p ?se)\<lparr>se_c2o := b'\<rparr>) (put_session sid ?se w)))"
        using Suc.IH [of "put_session sid ?se w" ?se] Suc.prems(3) Cons b by auto
      then show ?thesis using step True by (intro exI [of _ b']) (cases res; simp add: set_set)
    next
      case False
      then have "res = Some st" "p = q" "rest = cs" using Suc.prems(4) Cons f by auto
      then show ?thesis using step False b by (intro exI [of _ b]) simp
    qed
  qed
qed simp

text \<open>A callback that runs the loop until the input is used up.\<close>

lemma callback_run:
  assumes "w_sessions w sid = Some se" and "buffer_inv (se_c2o se)"
    and "consume feed more (parser se) (buffer_pending (se_c2o se)) = Inr (res, p, rest)"
  shows "\<exists>b. buffer_inv b \<and> buffer_pending b = rest \<and> b_limit b = b_limit (se_c2o se) \<and>
    act_bind (pending_bytes sid) (\<lambda>n. loop (Suc n)) w =
      (case res of None \<Rightarrow> Inr (stay, put_session sid ((set_parser p se)\<lparr>se_c2o := b\<rparr>) w)
       | Some st \<Rightarrow> finish st (put_session sid ((set_parser p se)\<lparr>se_c2o := b\<rparr>) w))"
  using loop_run [OF assms(1,2) lessI assms(3)] assms(1)
  by (simp only: pending_bytes_def act_bind_run heap_simps act_simps)

end

interpretation gs: handshake_stage sid "\<lambda>fuel. greeting_loop fuel key sid" se_greeting "\<lambda>p se. se\<lparr>se_greeting := p\<rparr>"
  socks_greeting_parser_feed greeting_more SOCKS_ST_AUTH_GREETING "greeting_done key sid" for sid key
  by unfold_locales simp_all

interpretation us: handshake_stage sid "\<lambda>fuel. auth_loop fuel key sid" se_auth "\<lambda>p se. se\<lparr>se_auth := p\<rparr>"
  socks_auth_parser_feed auth_more SOCKS_ST_AUTH_USERPASS "auth_done key sid" for sid key
  by unfold_locales simp_all

interpretation rs: handshake_stage sid "\<lambda>fuel. request_loop fuel key sid" se_request "\<lambda>p se. se\<lparr>se_request := p\<rparr>"
  socks_request_parser_feed request_more SOCKS_ST_REQUEST "request_done key sid" for sid key
  by unfold_locales simp_all

section \<open>The state machine of a session\<close>

lemma socks_table:
  "stm_max_state (socks_machine key sid) = SOCKS_ST_DONE" "stm_initial (socks_machine key sid) = SOCKS_ST_AUTH_GREETING"
  "stm_states (socks_machine key sid) = socks_state_table key sid" "length (socks_state_table key sid) = Suc SOCKS_ST_DONE"
  by (simp_all add: socks_machine_def socks_state_table_def SOCKS_ST_DONE_def)

lemma le_done: "i \<le> SOCKS_ST_DONE \<longleftrightarrow> i = 0 \<or> i = 1 \<or> i = 2 \<or> i = 3 \<or> i = 4 \<or> i = 5 \<or> i = 6"
  by (auto simp: SOCKS_ST_DONE_def)

lemma table_nth:
  assumes "i \<le> SOCKS_ST_DONE"
  shows "sd_state (socks_state_table key sid ! i) = i" "on_arrival (socks_state_table key sid ! i) = None"
    "on_departure (socks_state_table key sid ! i) = None"
    "i \<noteq> SOCKS_ST_RESOLVING \<Longrightarrow> on_block_ready (socks_state_table key sid ! i) = None"
  using assms unfolding le_done
  by (elim disjE; simp add: socks_state_table_def bare_state_def socks_st_defs)+

interpretation sm: stm_world "session_cur sid" "session_set_cur sid" "session_put_cur sid" "session_look sid"
  "session_alive sid" "socks_machine key sid" for sid key
proof unfold_locales
  show "stm_table_ok (socks_machine key sid)"
    using table_nth(1) by (simp add: stm_table_ok_def socks_table) (simp add: socks_st_defs)
qed (auto simp: session_cur_def session_set_cur_def session_put_cur_def session_look_def session_alive_def
      socks_table table_nth split: option.splits)

definition session_now :: "socks_session \<Rightarrow> nat" where
  "session_now se = (case se_cur se of None \<Rightarrow> SOCKS_ST_AUTH_GREETING | Some c \<Rightarrow> c)"

definition cur_ok :: "socks_session \<Rightarrow> bool" where
  "cur_ok se \<longleftrightarrow> session_now se \<le> SOCKS_ST_DONE"

lemma sm_world:
  assumes "w_sessions w sid = Some se"
  shows "sm.state_of sid key w = session_now se" "session_look sid w = se_cur se" "session_alive sid w"
    "cur_ok se \<Longrightarrow> sm.valid sid key w" "session_put_cur sid c w = put_session sid (se\<lparr>se_cur := c\<rparr>) w"
    "sm.entered sid key w = put_session sid (se\<lparr>se_cur := Some (session_now se)\<rparr>) w"
proof -
  show l: "session_look sid w = se_cur se" and a: "session_alive sid w"
    using assms by (simp_all add: session_look_def session_alive_def)
  show p: "session_put_cur sid c w = put_session sid (se\<lparr>se_cur := c\<rparr>) w" for c
    using assms by (simp add: session_put_cur_def put_session_def)
  show "sm.state_of sid key w = session_now se"
    using l by (cases "se_cur se") (simp_all add: sm.state_of_def session_now_def socks_table)
  show "cur_ok se \<Longrightarrow> sm.valid sid key w"
    using l a by (auto simp: sm.valid_def cur_ok_def session_now_def socks_table)
  have "se_cur se = Some c \<Longrightarrow> se\<lparr>se_cur := Some c\<rparr> = se" for c by simp
  then show "sm.entered sid key w = put_session sid (se\<lparr>se_cur := Some (session_now se)\<rparr>) w"
    using assms l p [of "Some SOCKS_ST_AUTH_GREETING"]
    by (cases "se_cur se") (simp_all add: sm.entered_def session_now_def socks_table put_session_same)
qed

lemma session_state_run:
  assumes "w_sessions w sid = Some se" and "cur_ok se" shows "session_state sid w = Inr (session_now se, w)"
  using assms by (cases "se_cur se")
    (simp_all add: session_state_def stm_state_def session_cur_def session_now_def cur_ok_def state_at_def bare_state_def)

lemma cur_same: "se_cur se = c \<Longrightarrow> se\<lparr>se_cur := c\<rparr> = (se :: socks_session)"
  by simp

lemma put_cur:
  "w_sessions w sid = Some se \<Longrightarrow> (if se_cur se = Some c then w else put_session sid (se\<lparr>se_cur := Some c\<rparr>) w) =
     put_session sid (se\<lparr>se_cur := Some c\<rparr>) w"
  using put_session_same [of w sid se] cur_same [of se] by metis

text \<open>A readable event runs the callback of the current state and moves to the state it returns.\<close>

lemma stm_read_run:
  assumes "w_sessions w sid = Some se" and "cur_ok se"
    and "on_read_ready (socks_state_table key sid ! session_now se) = Some h"
    and "h (put_session sid (se\<lparr>se_cur := Some (session_now se)\<rparr>) w) = Inr (nxt, w2)"
    and "w_sessions w2 sid = Some se2" and "cur_ok se2" and "nxt \<le> SOCKS_ST_DONE"
  shows "session_stm_read key sid w = Inr ((), put_session sid (se2\<lparr>se_cur := Some nxt\<rparr>) w2)"
proof -
  note s1 = sm_world [OF assms(1)] and s2 = sm_world [OF assms(5)]
  have "stm_dispatch on_read_ready (session_cur sid) (session_set_cur sid) (socks_machine key sid) w =
      Inr (nxt, if session_look sid w2 = Some nxt then w2 else session_put_cur sid (Some nxt) w2)"
    using assms by (intro sm.dispatch_ok [where h = h]) (simp_all add: s1 s2 socks_table)
  then show ?thesis
    unfolding session_stm_read_def stm_handler_read_def
    by (simp only: s2(2,5) put_cur [OF assms(5)] run_bind.simps prod.case)
qed

text \<open>A callback that lets the session be freed makes the engine read freed memory.\<close>

lemma stm_read_freed:
  assumes "w_sessions w sid = Some se" and "cur_ok se"
    and "on_read_ready (socks_state_table key sid ! session_now se) = Some h"
    and "h (put_session sid (se\<lparr>se_cur := Some (session_now se)\<rparr>) w) = Inr (nxt, w2)"
    and "w_sessions w2 sid = None"
  shows "session_stm_read key sid w = Inl Use_after_free"
proof -
  note s1 = sm_world [OF assms(1)]
  have "\<not> session_alive sid w2" using assms(5) by (simp add: session_alive_def)
  then have "stm_dispatch on_read_ready (session_cur sid) (session_set_cur sid) (socks_machine key sid) w = Inl Use_after_free"
    using assms(2-4) by (intro sm.dispatch_freed [where h = h]) (simp_all add: s1 socks_table)
  then show ?thesis by (simp add: session_stm_read_def stm_handler_read_def)
qed

lemma stm_block_run:
  assumes "w_sessions w sid = Some se" and "session_now se = SOCKS_ST_RESOLVING"
    and "socks_on_block_resolving key sid (put_session sid (se\<lparr>se_cur := Some (session_now se)\<rparr>) w) = Inr (nxt, w2)"
    and "w_sessions w2 sid = Some se2" and "cur_ok se2" and "nxt \<le> SOCKS_ST_DONE"
  shows "session_stm_block key sid w = Inr ((), put_session sid (se2\<lparr>se_cur := Some nxt\<rparr>) w2)"
proof -
  note s1 = sm_world [OF assms(1)] and s2 = sm_world [OF assms(4)]
  have "cur_ok se" using assms(2) by (simp add: cur_ok_def socks_st_defs)
  moreover have "on_block_ready (socks_state_table key sid ! session_now se) = Some (socks_on_block_resolving key sid)"
    using assms(2) by (simp add: socks_state_table_def socks_st_defs)
  ultimately have "stm_dispatch on_block_ready (session_cur sid) (session_set_cur sid) (socks_machine key sid) w =
      Inr (nxt, if session_look sid w2 = Some nxt then w2 else session_put_cur sid (Some nxt) w2)"
    using assms by (intro sm.dispatch_ok [where h = "socks_on_block_resolving key sid"]) (simp_all add: s1 s2 socks_table)
  then show ?thesis
    unfolding session_stm_block_def stm_handler_block_def
    by (simp only: s2(2,5) put_cur [OF assms(4)] run_bind.simps prod.case)
qed

text \<open>Only \<open>SOCKS_ST_RESOLVING\<close> has a callback for a finished name resolution.\<close>

lemma stm_block_abort:
  assumes "w_sessions w sid = Some se" and "cur_ok se" and "session_now se \<noteq> SOCKS_ST_RESOLVING"
  shows "session_stm_block key sid w = Inl Abort_called"
proof -
  note s1 = sm_world [OF assms(1)]
  have "on_block_ready (socks_state_table key sid ! session_now se) = None"
    using assms(2,3) table_nth(4) by (simp add: cur_ok_def)
  then have "stm_dispatch on_block_ready (session_cur sid) (session_set_cur sid) (socks_machine key sid) w = Inl Abort_called"
    using s1(4) [OF assms(2)] by (intro sm.dispatch_abort) (simp_all add: s1 socks_table)
  then show ?thesis by (simp add: session_stm_block_def stm_handler_block_def)
qed

end
