(* ===== verification/Relay_Flow.thy ===== *)
theory Relay_Flow
  imports Action_Calculus Session_Facts
begin

text \<open>
  The relay between the two sockets of a session: what has been received from one side is what has been
  sent to the other followed by what is still in the buffer, in order and without loss, as long as the
  session has both sockets. The relation \<open>flows sid\<close> says so of any part of a handler; it is an instance
  of \<open>system_order\<close>, and only the reads and writes have to be looked at.
\<close>

section \<open>The relation\<close>

definition relay_wf :: "socks_session \<Rightarrow> bool" where
  "relay_wf se \<longleftrightarrow> buffer_inv (se_c2o se) \<and> buffer_inv (se_o2c se) \<and> 0 \<le> se_origin_fd se \<and> se_client_fd se \<noteq> se_origin_fd se"

definition detached :: "nat \<Rightarrow> world \<Rightarrow> bool" where
  "detached sid w \<longleftrightarrow> (case w_sessions w sid of None \<Rightarrow> True | Some se \<Rightarrow> se_origin_fd se < 0)"

text \<open>Between the two sessions the effects \<open>new\<close> have happened.\<close>

definition in_order :: "socks_session \<Rightarrow> effect list \<Rightarrow> socks_session \<Rightarrow> bool" where
  "in_order se new se' \<longleftrightarrow> se_client_fd se' = se_client_fd se \<and> se_origin_fd se' = se_origin_fd se \<and>
     buffer_pending (se_c2o se) @ received (se_client_fd se) new = sent (se_origin_fd se) new @ buffer_pending (se_c2o se') \<and>
     buffer_pending (se_o2c se) @ received (se_origin_fd se) new = sent (se_client_fd se) new @ buffer_pending (se_o2c se')"

definition flows :: "nat \<Rightarrow> world \<Rightarrow> world \<Rightarrow> bool" where
  "flows sid w w' \<longleftrightarrow> (detached sid w \<longrightarrow> detached sid w') \<and>
     (\<forall>se. w_sessions w sid = Some se \<longrightarrow> relay_wf se \<longrightarrow> detached sid w' \<or>
        (\<exists>se' new. w_sessions w' sid = Some se' \<and> relay_wf se' \<and> w_trace w' = w_trace w @ new \<and> in_order se new se'))"

lemma in_order_trans:
  assumes "in_order se1 xs se2" and "in_order se2 ys se3" shows "in_order se1 (xs @ ys) se3"
proof -
  have e1: "buffer_pending (se_c2o se1) @ received (se_client_fd se1) xs = sent (se_origin_fd se1) xs @ buffer_pending (se_c2o se2)"
    "buffer_pending (se_o2c se1) @ received (se_origin_fd se1) xs = sent (se_client_fd se1) xs @ buffer_pending (se_o2c se2)"
    and f: "se_client_fd se2 = se_client_fd se1" "se_origin_fd se2 = se_origin_fd se1"
    using assms(1) by (simp_all add: in_order_def)
  have e2: "buffer_pending (se_c2o se2) @ received (se_client_fd se1) ys = sent (se_origin_fd se1) ys @ buffer_pending (se_c2o se3)"
    "buffer_pending (se_o2c se2) @ received (se_origin_fd se1) ys = sent (se_client_fd se1) ys @ buffer_pending (se_o2c se3)"
    "se_client_fd se3 = se_client_fd se1" "se_origin_fd se3 = se_origin_fd se1"
    using assms(2) f by (simp_all add: in_order_def)
  have "buffer_pending (se_c2o se1) @ received (se_client_fd se1) (xs @ ys) =
      sent (se_origin_fd se1) (xs @ ys) @ buffer_pending (se_c2o se3)"
    by (simp only: received_append sent_append append_assoc [symmetric] e1) (simp only: append_assoc e2)
  moreover have "buffer_pending (se_o2c se1) @ received (se_origin_fd se1) (xs @ ys) =
      sent (se_client_fd se1) (xs @ ys) @ buffer_pending (se_o2c se3)"
    by (simp only: received_append sent_append append_assoc [symmetric] e1) (simp only: append_assoc e2)
  ultimately show ?thesis using e2 by (simp add: in_order_def)
qed

lemma flowsI:
  assumes "w_sessions w sid = Some se" and "w_sessions w' sid = Some se'" and "w_trace w' = w_trace w @ new"
    and "se_origin_fd se < 0 \<Longrightarrow> se_origin_fd se' < 0"
    and "relay_wf se \<Longrightarrow> se_origin_fd se' < 0 \<or> relay_wf se' \<and> in_order se new se'"
  shows "flows sid w w'"
  using assms by (auto simp: flows_def detached_def)

lemma flows_same:
  assumes "w_sessions w' sid = w_sessions w sid" and "w_trace w' = w_trace w @ new"
    and "\<And>fd. received fd new = []" "\<And>fd. sent fd new = []"
  shows "flows sid w w'"
  using assms by (cases "w_sessions w sid") (auto simp: flows_def detached_def in_order_def)

lemma flows_trans:
  assumes "flows sid w0 w1" and "flows sid w1 w2" shows "flows sid w0 w2"
  unfolding flows_def
proof (intro conjI allI impI)
  show "detached sid w0 \<Longrightarrow> detached sid w2" using assms by (simp add: flows_def)
  fix se assume s: "w_sessions w0 sid = Some se" "relay_wf se"
  have "detached sid w1 \<or> (\<exists>se' new. w_sessions w1 sid = Some se' \<and> relay_wf se' \<and> w_trace w1 = w_trace w0 @ new \<and> in_order se new se')"
    using assms(1) s by (simp add: flows_def)
  then show "detached sid w2 \<or> (\<exists>se' new. w_sessions w2 sid = Some se' \<and> relay_wf se' \<and> w_trace w2 = w_trace w0 @ new \<and> in_order se new se')"
  proof (elim disjE exE conjE)
    fix se1 xs assume 1: "w_sessions w1 sid = Some se1" "relay_wf se1" "w_trace w1 = w_trace w0 @ xs" "in_order se xs se1"
    then have "detached sid w2 \<or> (\<exists>se' ys. w_sessions w2 sid = Some se' \<and> relay_wf se' \<and> w_trace w2 = w_trace w1 @ ys \<and> in_order se1 ys se')"
      using assms(2) by (simp add: flows_def)
    then show ?thesis using 1(3) in_order_trans [OF 1(4)] by fastforce
  qed (use assms(2) in \<open>simp add: flows_def\<close>)
qed

interpretation ro: system_order "flows sid" "\<lambda>_ _. True" "\<lambda>_ _. True" for sid
proof
  fix w0 w1 w2 show "flows sid w0 w1 \<Longrightarrow> flows sid w1 w2 \<Longrightarrow> flows sid w0 w2" by (rule flows_trans)
next
  fix w :: world and k se se' assume "w_sessions w k = Some se" "calm se se'"
  then show "flows sid w (w\<lparr>w_sessions := (w_sessions w)(k \<mapsto> se')\<rparr>)"
  proof (cases "k = sid")
    case True
    then show ?thesis using \<open>w_sessions w k = Some se\<close> \<open>calm se se'\<close>
      by (intro flowsI [where new = "[]" and se = se and se' = se']) (auto simp: calm_def relay_wf_def in_order_def)
  qed (auto intro: flows_same [where new = "[]"])
next
  fix w :: world and k show "flows sid w (w\<lparr>w_sessions := (w_sessions w)(k := None)\<rparr>)"
    by (cases "k = sid") (simp add: flows_def detached_def, rule flows_same [where new = "[]"], simp_all)
next
  fix w :: world and fd show "flows sid w (w\<lparr>w_trace := w_trace w @ [Closed fd]\<rparr>)"
    by (rule flows_same [where new = "[Closed fd]"]) simp_all
qed (rule flows_same [where new = "[]"], simp_all)+

section \<open>Reading and writing\<close>

declare heap_simps(3) [simp del]

text \<open>What happens from a world where the session is \<open>se\<close>.\<close>

definition flows_at :: "nat \<Rightarrow> socks_session \<Rightarrow> 'a act \<Rightarrow> bool" where
  "flows_at sid se m \<longleftrightarrow> (\<forall>w x w'. w_sessions w sid = Some se \<longrightarrow> m w = Inr (x, w') \<longrightarrow> flows sid w w')"

lemma keeps_session_bind: "(\<And>se. flows_at sid se (f se)) \<Longrightarrow> ro.keeps sid {} (act_bind (session_get sid) f)"
  by (auto simp: ro.keeps_def act_bind_def session_get_def flows_at_def split: option.splits)

lemma flows_at_keeps: "ro.keeps sid {} m \<Longrightarrow> flows_at sid se m"
  by (simp add: ro.keeps_def flows_at_def)

lemma flows_at_if: "(b \<Longrightarrow> flows_at sid se m) \<Longrightarrow> (\<not> b \<Longrightarrow> flows_at sid se n) \<Longrightarrow> flows_at sid se (if b then m else n)"
  by simp

lemma flows_at_lift:
  "(\<And>x. r = Inr x \<Longrightarrow> flows_at sid se (f x)) \<Longrightarrow> flows_at sid se (act_bind (act_lift r) f)"
  by (cases r) (auto simp: flows_at_def act_bind_def act_lift_def)

lemma flows_at_prod: "(\<And>a b. x = (a, b) \<Longrightarrow> flows_at sid se (f a b)) \<Longrightarrow> flows_at sid se (case x of (a, b) \<Rightarrow> f a b)"
  by (cases x) simp

lemma flows_at_state:
  assumes "\<And>st. flows_at sid se (f st)" shows "flows_at sid se (act_bind (session_state sid) f)"
  using assms by (auto simp: flows_at_def act_bind_def session_state_def run_simps)

text \<open>Sending the front of a buffer: \<open>get\<close> and \<open>upd\<close> are one of the two buffers of the session.\<close>

lemma flush_step:
  assumes A: "\<And>e. ro.keeps sid {} (A e)" and B: "\<And>n. ro.keeps sid {} (B n)"
    and step: "\<And>n b w w1. n \<le> length (buffer_pending (get se)) \<Longrightarrow> buffer_read_adv (get se) (int n) = Inr b \<Longrightarrow>
      w_sessions w sid = Some se \<Longrightarrow> w_sessions w1 sid = Some (upd b se) \<Longrightarrow>
      w_trace w1 = w_trace w @ [Sent fd (take n (buffer_pending (get se)))] \<Longrightarrow> flows sid w w1"
  shows "flows_at sid se (act_bind (sys_write fd (buffer_pending (get se))) (\<lambda>r. case r of
        Inl e \<Rightarrow> A e
      | Inr n \<Rightarrow> act_bind (act_lift (buffer_read_adv (get se) (int n))) (\<lambda>b.
          act_then (session_mod sid (upd b)) (B n))))"
  unfolding flows_at_def
proof (intro allI impI)
  fix w x w'
  assume s: "w_sessions w sid = Some se" and r: "act_bind (sys_write fd (buffer_pending (get se))) (\<lambda>r. case r of
        Inl e \<Rightarrow> A e
      | Inr n \<Rightarrow> act_bind (act_lift (buffer_read_adv (get se) (int n))) (\<lambda>b.
          act_then (session_mod sid (upd b)) (B n))) w = Inr (x, w')"
  let ?a = "w_os w (w_calls w)" and ?p = "buffer_pending (get se)"
  let ?w1 = "w\<lparr>w_calls := Suc (w_calls w)\<rparr>"
  show "flows sid w w'"
  proof (cases "o_ret ?a < 0")
    case True
    then have "A (o_err ?a) ?w1 = Inr (x, w')"
      using r by (simp add: sys_write_def syscall_def)
    then have "flows sid ?w1 w'" using A by (auto simp: ro.keeps_def)
    moreover have "flows sid w ?w1" by (rule ro.R_calls)
    ultimately show ?thesis by (blast intro: ro.R_trans)
  next
    case False
    define n where "n = min (nat (o_ret ?a)) (length ?p)"
    let ?w2 = "?w1\<lparr>w_trace := w_trace w @ [Sent fd (take n ?p)]\<rparr>"
    have "act_bind (act_lift (buffer_read_adv (get se) (int n))) (\<lambda>b. act_then (session_mod sid (upd b)) (B n)) ?w2 = Inr (x, w')"
      using r False by (simp add: sys_write_def syscall_def record_effect_def n_def Let_def)
    then obtain b where b: "buffer_read_adv (get se) (int n) = Inr b" "B n (put_session sid (upd b se) ?w2) = Inr (x, w')"
      using s by (cases "buffer_read_adv (get se) (int n)") (auto simp: act_lift_def)
    have "flows sid w (put_session sid (upd b se) ?w2)" using b(1) s by (intro step [of n b]) (simp_all add: n_def)
    moreover have "flows sid (put_session sid (upd b se) ?w2) w'" using B b(2) by (auto simp: ro.keeps_def)
    ultimately show ?thesis by (blast intro: ro.R_trans)
  qed
qed

lemma read_adv_pending:
  assumes "buffer_inv b" and "n \<le> length (buffer_pending b)" and "buffer_read_adv b (int n) = Inr b'"
  shows "buffer_inv b' \<and> buffer_pending b' = drop n (buffer_pending b)"
  using buffer_read_adv_ok [OF assms(1,2)] assms(3) by auto

lemma keeps_add_bytes [keeps_rules]: "ro.keeps sid S (session_add_bytes sid' up down)"
  unfolding session_add_bytes_def by (intro keeps_rules; simp)

lemma keeps_close_from_origin [keeps_rules]: "ro.keeps sid S (socks_session_close_from_origin sid')"
  unfolding socks_session_close_from_origin_def by (intro keeps_rules)

lemma sent_in_order:
  assumes wf: "relay_wf se"
  shows "n \<le> length (buffer_pending (se_c2o se)) \<Longrightarrow> buffer_read_adv (se_c2o se) (int n) = Inr b \<Longrightarrow>
      relay_wf (se\<lparr>se_c2o := buffer_compact b\<rparr>) \<and>
      in_order se [Sent (se_origin_fd se) (take n (buffer_pending (se_c2o se)))] (se\<lparr>se_c2o := buffer_compact b\<rparr>)"
    and "n \<le> length (buffer_pending (se_o2c se)) \<Longrightarrow> buffer_read_adv (se_o2c se) (int n) = Inr b \<Longrightarrow>
      relay_wf (se\<lparr>se_o2c := buffer_compact b\<rparr>) \<and>
      in_order se [Sent (se_client_fd se) (take n (buffer_pending (se_o2c se)))] (se\<lparr>se_o2c := buffer_compact b\<rparr>)"
proof -
  have inv: "buffer_inv (se_c2o se)" "buffer_inv (se_o2c se)" and fd: "se_client_fd se \<noteq> se_origin_fd se" "se_origin_fd se \<noteq> se_client_fd se"
    using wf by (auto simp: relay_wf_def)
  show "relay_wf (se\<lparr>se_c2o := buffer_compact b\<rparr>) \<and>
      in_order se [Sent (se_origin_fd se) (take n (buffer_pending (se_c2o se)))] (se\<lparr>se_c2o := buffer_compact b\<rparr>)"
    if "n \<le> length (buffer_pending (se_c2o se))" "buffer_read_adv (se_c2o se) (int n) = Inr b"
    using wf fd read_adv_pending [OF inv(1) that] by (simp add: relay_wf_def in_order_def)
  show "relay_wf (se\<lparr>se_o2c := buffer_compact b\<rparr>) \<and>
      in_order se [Sent (se_client_fd se) (take n (buffer_pending (se_o2c se)))] (se\<lparr>se_o2c := buffer_compact b\<rparr>)"
    if "n \<le> length (buffer_pending (se_o2c se))" "buffer_read_adv (se_o2c se) (int n) = Inr b"
    using wf fd read_adv_pending [OF inv(2) that] by (simp add: relay_wf_def in_order_def)
qed

lemma flush_origin_flows [keeps_rules]: "ro.keeps sid {} (socks_flush_origin sid)"
  unfolding socks_flush_origin_def
  apply (rule keeps_session_bind, rule flows_at_if, rule flows_at_keeps, rule ro.keeps_ret)
  apply (rule flows_at_lift, rule flows_at_prod, rule flows_at_if, rule flows_at_keeps, rule ro.keeps_ret)
  apply (rule flush_step [where get = se_c2o])
    apply (intro keeps_rules)[1]
   apply (intro keeps_rules)[1]
  apply (rule flowsI, assumption, assumption, assumption)
   apply simp
  apply (blast dest: sent_in_order(1))
  done

lemma keeps_flush_client [keeps_rules]: "ro.keeps sid {} (socks_flush_client sid)"
  unfolding socks_flush_client_def
  apply (rule keeps_session_bind, rule flows_at_if, rule flows_at_keeps, rule ro.keeps_ret)
  apply (rule flows_at_lift, rule flows_at_prod, rule flows_at_if, rule flows_at_keeps, rule ro.keeps_ret)
  apply (rule flush_step [where get = se_o2c])
    apply (intro keeps_rules)[1]
   apply (intro keeps_rules)[1]
  apply (rule flowsI, assumption, assumption, assumption)
   apply simp
  apply (blast dest: sent_in_order(2))
  done

text \<open>Receiving into a buffer; an end of file is recorded as a read of nothing.\<close>

lemma fill_step:
  assumes A: "\<And>e. ro.keeps sid {} (A e)" and E: "ro.keeps sid {} E"
    and B: "\<And>bs b. buffer_fill (get se) bs = Inr b \<Longrightarrow> flows_at sid (upd b se) (B bs)"
    and step: "\<And>bs b w w1. length bs \<le> n \<Longrightarrow> buffer_fill (get se) bs = Inr b \<Longrightarrow>
      w_sessions w sid = Some se \<Longrightarrow> w_sessions w1 sid = Some (upd b se) \<Longrightarrow>
      w_trace w1 = w_trace w @ [Received fd bs] \<Longrightarrow> flows sid w w1"
  shows "flows_at sid se (act_bind (sys_read fd n) (\<lambda>r. case r of
        Inl e \<Rightarrow> A e
      | Inr bs \<Rightarrow> if bs = [] then E else act_bind (act_lift (buffer_fill (get se) bs)) (\<lambda>b.
          act_then (session_mod sid (upd b)) (B bs))))"
  unfolding flows_at_def
proof (intro allI impI)
  fix w x w'
  let ?f = "\<lambda>bs. if bs = [] then E else act_bind (act_lift (buffer_fill (get se) bs)) (\<lambda>b. act_then (session_mod sid (upd b)) (B bs))"
  assume s: "w_sessions w sid = Some se"
    and r: "act_bind (sys_read fd n) (\<lambda>r. case r of Inl e \<Rightarrow> A e | Inr bs \<Rightarrow> ?f bs) w = Inr (x, w')"
  let ?a = "w_os w (w_calls w)"
  let ?w1 = "w\<lparr>w_calls := Suc (w_calls w)\<rparr>"
  define bs where "bs = take n (o_data ?a)"
  let ?w2 = "?w1\<lparr>w_trace := w_trace w @ [Received fd bs]\<rparr>"
  consider "A (o_err ?a) ?w1 = Inr (x, w')" | "?f bs ?w2 = Inr (x, w')"
    using r by (cases "o_ret ?a < 0") (simp_all add: sys_read_def syscall_def record_effect_def bs_def [symmetric])
  then show "flows sid w w'"
  proof cases
    case 1
    then have "flows sid ?w1 w'" using A by (auto simp: ro.keeps_def)
    moreover have "flows sid w ?w1" by (rule ro.R_calls)
    ultimately show ?thesis by (blast intro: ro.R_trans)
  next
    case 2
    show ?thesis
    proof (cases "bs = []")
      case True
      then have "flows sid ?w2 w'" using 2 E by (auto simp: ro.keeps_def)
      moreover have "flows sid w ?w2" using True by (intro flows_same [where new = "[Received fd []]"]) simp_all
      ultimately show ?thesis by (blast intro: ro.R_trans)
    next
      case False
      then obtain b where b: "buffer_fill (get se) bs = Inr b" "B bs (put_session sid (upd b se) ?w2) = Inr (x, w')"
        using 2 s by (cases "buffer_fill (get se) bs") (auto simp: act_lift_def)
      have "flows sid w (put_session sid (upd b se) ?w2)" using b(1) s by (intro step [of bs b]) (simp_all add: bs_def)
      moreover have "flows sid (put_session sid (upd b se) ?w2) w'" using B [OF b(1)] b(2) by (simp add: flows_at_def)
      ultimately show ?thesis by (blast intro: ro.R_trans)
    qed
  qed
qed

lemma received_in_order:
  assumes wf: "relay_wf se"
  shows "length bs \<le> buffer_room (se_c2o se) \<Longrightarrow> buffer_fill (se_c2o se) bs = Inr b \<Longrightarrow>
      relay_wf (se\<lparr>se_c2o := b\<rparr>) \<and> in_order se [Received (se_client_fd se) bs] (se\<lparr>se_c2o := b\<rparr>)"
    and "length bs \<le> buffer_room (se_o2c se) \<Longrightarrow> buffer_fill (se_o2c se) bs = Inr b \<Longrightarrow>
      relay_wf (se\<lparr>se_o2c := b\<rparr>) \<and> in_order se [Received (se_origin_fd se) bs] (se\<lparr>se_o2c := b\<rparr>)"
proof -
  have inv: "buffer_inv (se_c2o se)" "buffer_inv (se_o2c se)" and fd: "se_client_fd se \<noteq> se_origin_fd se" "se_origin_fd se \<noteq> se_client_fd se"
    using wf by (auto simp: relay_wf_def)
  have fill: "buffer_inv b \<and> buffer_pending b = buffer_pending c @ bs"
    if "buffer_inv c" "length bs \<le> buffer_room c" "buffer_fill c bs = Inr b" for c
    using buffer_push_ok [OF that(1,2)] that(3) by (auto simp: buffer_fill_def buffer_push_def)
  show "relay_wf (se\<lparr>se_c2o := b\<rparr>) \<and> in_order se [Received (se_client_fd se) bs] (se\<lparr>se_c2o := b\<rparr>)"
    if "length bs \<le> buffer_room (se_c2o se)" "buffer_fill (se_c2o se) bs = Inr b"
    using wf fd fill [OF inv(1) that] by (simp add: relay_wf_def in_order_def)
  show "relay_wf (se\<lparr>se_o2c := b\<rparr>) \<and> in_order se [Received (se_origin_fd se) bs] (se\<lparr>se_o2c := b\<rparr>)"
    if "length bs \<le> buffer_room (se_o2c se)" "buffer_fill (se_o2c se) bs = Inr b"
    using wf fd fill [OF inv(2) that] by (simp add: relay_wf_def in_order_def)
qed

lemma write_ptr_room: "buffer_write_ptr b = Inr (ptr, n) \<Longrightarrow> n = buffer_room b"
  by (auto simp: buffer_write_ptr_def buffer_room_def run_simps)

lemma keeps_rearm [keeps_rules]:
  "ro.keeps sid S (client_rearm key sid')" "ro.keeps sid S (origin_rearm key sid')" "ro.keeps sid S (socks_unregister_session key)"
  "ro.keeps sid S (socks_close_if_flushed sid')" "ro.keeps sid S (client_read_end key sid')"
  unfolding client_rearm_def origin_rearm_def socks_unregister_session_def client_read_end_def socks_close_if_flushed_def
  by (intro keeps_rules)+

text \<open>The state of the machine survives the touch of a session.\<close>

definition same_cur :: "nat \<Rightarrow> world \<Rightarrow> world \<Rightarrow> bool" where
  "same_cur sid w w' \<longleftrightarrow> map_option se_cur (w_sessions w' sid) = map_option se_cur (w_sessions w sid)"

interpretation co: action_order "same_cur sid" "\<lambda>_ _. True" for sid
  by unfold_locales (simp_all add: same_cur_def)

lemma co_mod: "(\<And>se. se_cur (f se) = se_cur se) \<Longrightarrow> co.keeps sid S (session_mod k f)"
  by (auto simp: co.keeps_def session_mod_def same_cur_def split: option.splits)

lemma co_get: "co.keeps sid S (session_get k)" "co.keeps sid S sys_time" "co.keeps sid S (set_head h)" "co.keeps sid S (set_tail h)"
  by (auto simp: co.keeps_def session_get_def sys_time_def syscall_def set_head_def set_tail_def same_cur_def act_bind_def split: option.splits)

lemma touch_cur: "co.keeps sid S (socks_session_touch k)"
proof -
  have r: "co.keeps sid S (idle_list_remove k)"
    unfolding idle_list_remove_def by (intro keeps_rules co_get co_mod; simp)
  have "co.keeps sid S (idle_list_push_tail k)"
    unfolding idle_list_push_tail_def by (intro keeps_rules co_get co_mod r; simp)
  then show ?thesis
    unfolding socks_session_touch_def by (intro keeps_rules co_get co_mod; simp)
qed

section \<open>The handlers of the relay\<close>

lemma relay_branch:
  assumes cur: "se_cur se = Some SOCKS_ST_RELAY" and m: "ro.keeps sid {} m"
  shows "flows_at sid se (act_then (socks_session_touch sid) (act_bind (session_state sid) (\<lambda>st. if st = SOCKS_ST_RELAY then m else n)))"
  unfolding flows_at_def
proof (intro allI impI)
  fix w x w'
  assume s: "w_sessions w sid = Some se"
    and r: "act_then (socks_session_touch sid) (act_bind (session_state sid) (\<lambda>st. if st = SOCKS_ST_RELAY then m else n)) w = Inr (x, w')"
  from r obtain w1 st where w1: "socks_session_touch sid w = Inr ((), w1)" and st: "session_state sid w1 = Inr (st, w1)"
    and k: "(if st = SOCKS_ST_RELAY then m else n) w1 = Inr (x, w')"
    by (auto simp: act_then_def act_bind_def session_state_def run_simps)
  have "same_cur sid w w1" using touch_cur [of sid "{}" sid] w1 by (auto simp: co.keeps_def)
  then obtain se1 where "w_sessions w1 sid = Some se1" "se_cur se1 = Some SOCKS_ST_RELAY"
    using s cur by (auto simp: same_cur_def)
  then have "st = SOCKS_ST_RELAY"
    using st by (auto simp: session_state_def stm_state_def session_cur_def state_at_def bare_state_def socks_st_defs run_simps split: if_splits)
  then have "flows sid w1 w'" using k m by (auto simp: ro.keeps_def)
  moreover have "flows sid w w1" using ro.keeps_idle(3) [of sid "{}" sid] w1 by (auto simp: ro.keeps_def)
  ultimately show "flows sid w w'" by (blast intro: ro.R_trans)
qed

lemma keeps_client_relay: "ro.keeps sid {} (client_relay key sid)"
  unfolding client_relay_def by (intro keeps_rules)

lemma client_read_flows:
  assumes "se_cur se = Some SOCKS_ST_RELAY" and "key_fd key = se_client_fd se"
    and "w_sessions w sid = Some se" and "socks_client_read key sid w = Inr (x, w')"
  shows "flows sid w w'"
proof -
  have "flows_at sid se (act_bind (act_lift (buffer_write_ptr (se_c2o se))) (\<lambda>(ptr, available).
     if available = 0 then client_rearm key sid
     else act_bind (sys_read (key_fd key) available) (\<lambda>r.
       case r of
         Inl e \<Rightarrow> if e = EAGAIN then client_rearm key sid else socks_unregister_session key
       | Inr bs \<Rightarrow>
           if bs = [] then socks_unregister_session key
           else act_bind (act_lift (buffer_fill (se_c2o se) bs)) (\<lambda>b.
                act_then (session_mod sid (\<lambda>se. se\<lparr>se_c2o := b\<rparr>))
                (act_then (socks_session_touch sid)
                (act_bind (session_state sid) (\<lambda>st.
                  if st = SOCKS_ST_RELAY then client_relay key sid else client_handshake key sid)))))))"
    apply (rule flows_at_lift, rule flows_at_prod, rule flows_at_if, rule flows_at_keeps, rule keeps_rearm)
    apply (rule fill_step [where get = se_c2o])
       apply (intro keeps_rules)[1]
      apply (rule keeps_rearm)
     apply (rule relay_branch, simp add: assms(1), rule keeps_client_relay)
    apply (rule flowsI, assumption, assumption, assumption)
     apply simp
    using assms(2) apply (auto dest: received_in_order(1) write_ptr_room)
    done
  then show ?thesis using assms(3,4) by (simp add: flows_at_def socks_client_read_def)
qed

lemma origin_read_flows:
  assumes "key_fd key = se_origin_fd se" and "w_sessions w sid = Some se" and "socks_origin_read key sid w = Inr (x, w')"
  shows "flows sid w w'"
proof -
  have "flows_at sid se (act_bind (act_lift (buffer_write_ptr (se_o2c se))) (\<lambda>(ptr, available).
     if available = 0 then origin_rearm key sid
     else act_bind (sys_read (key_fd key) available) (\<lambda>r.
       case r of
         Inl e \<Rightarrow> if e = EAGAIN then origin_rearm key sid else socks_session_close_from_origin sid
       | Inr bs \<Rightarrow>
           if bs = [] then socks_session_close_from_origin sid
           else act_bind (act_lift (buffer_fill (se_o2c se) bs)) (\<lambda>b.
                act_then (session_mod sid (\<lambda>se. se\<lparr>se_o2c := b\<rparr>))
                (act_then (socks_session_touch sid)
                (act_then (session_add_bytes sid 0 (of_nat (length bs)))
                (act_bind (socks_flush_client sid) (\<lambda>go.
                  if \<not> go then act_ret ()
                  else act_bind (session_get sid) (\<lambda>se1.
                       act_then (set_interest (se_client_fd se1) (socks_client_interest se1))
                         (origin_rearm key sid)))))))))) "
    apply (rule flows_at_lift, rule flows_at_prod, rule flows_at_if, rule flows_at_keeps, rule keeps_rearm)
    apply (rule fill_step [where get = se_o2c])
       apply (intro keeps_rules)[1]
      apply (intro keeps_rules)[1]
     apply (rule flows_at_keeps, intro keeps_rules)[1]
    apply (rule flowsI, assumption, assumption, assumption)
     apply simp
    using assms(1) apply (auto dest: received_in_order(2) write_ptr_room)
    done
  then show ?thesis using assms(2,3) by (simp add: flows_at_def socks_origin_read_def)
qed

lemma client_write_flows: "socks_client_write key sid w = Inr (x, w') \<Longrightarrow> flows sid w w'"
proof -
  have "ro.keeps sid {} (socks_client_write key sid)" unfolding socks_client_write_def by (intro keeps_rules)
  then show "socks_client_write key sid w = Inr (x, w') \<Longrightarrow> flows sid w w'" by (auto simp: ro.keeps_def)
qed

lemma origin_write_flows:
  assumes "w_sessions w sid = Some se" and "se_cur se = Some SOCKS_ST_RELAY" and "socks_origin_write key sid w = Inr (x, w')"
  shows "flows sid w w'"
proof -
  let ?m = "act_bind (socks_flush_origin sid) (\<lambda>go.
       if \<not> go then act_ret ()
       else act_bind (session_get sid) (\<lambda>se.
            act_then (set_interest_key key (socks_origin_interest se))
              (set_interest (se_client_fd se) (socks_client_interest se))))"
  have "session_state sid w = Inr (SOCKS_ST_RELAY, w)"
    using assms(1,2) by (simp add: session_state_def stm_state_def session_cur_def state_at_def bare_state_def socks_st_defs)
  then have "?m w = Inr (x, w')" using assms(3) by (simp add: socks_origin_write_def socks_st_defs)
  moreover have "ro.keeps sid {} ?m" by (intro keeps_rules)
  ultimately show ?thesis by (auto simp: ro.keeps_def)
qed

text \<open>
  A session in the relay, as the multiplexer drives it: a handler runs with the descriptor it is
  registered for.
\<close>

definition relaying :: "nat \<Rightarrow> world \<Rightarrow> socks_session \<Rightarrow> bool" where
  "relaying sid w se \<longleftrightarrow> w_sessions w sid = Some se \<and> se_cur se = Some SOCKS_ST_RELAY"

inductive relay_step :: "nat \<Rightarrow> world \<Rightarrow> world \<Rightarrow> bool" for sid where
  client_readable: "relaying sid w se \<Longrightarrow> key_fd key = se_client_fd se \<Longrightarrow>
    socks_client_read key sid w = Inr ((), w') \<Longrightarrow> relay_step sid w w'"
| client_writable: "relaying sid w se \<Longrightarrow> key_fd key = se_client_fd se \<Longrightarrow>
    socks_client_write key sid w = Inr ((), w') \<Longrightarrow> relay_step sid w w'"
| origin_readable: "relaying sid w se \<Longrightarrow> key_fd key = se_origin_fd se \<Longrightarrow>
    socks_origin_read key sid w = Inr ((), w') \<Longrightarrow> relay_step sid w w'"
| origin_writable: "relaying sid w se \<Longrightarrow> key_fd key = se_origin_fd se \<Longrightarrow>
    socks_origin_write key sid w = Inr ((), w') \<Longrightarrow> relay_step sid w w'"

inductive_cases relay_stepE: "relay_step sid w w'"

lemma relay_step_flows: "relay_step sid w w' \<Longrightarrow> flows sid w w'"
  by (erule relay_stepE)
    (auto simp: relaying_def intro: client_read_flows client_write_flows origin_read_flows origin_write_flows)

lemma relay_steps_flow: "(relay_step sid)\<^sup>*\<^sup>* w w' \<Longrightarrow> flows sid w w'"
  by (induction rule: rtranclp_induct) (auto intro: ro.R_refl ro.R_trans relay_step_flows)

lemma relay_in_order:
  assumes "(relay_step sid)\<^sup>*\<^sup>* w w'" and "w_sessions w sid = Some se" "relay_wf se"
    and "w_sessions w' sid = Some se'" "0 \<le> se_origin_fd se'"
  shows "\<exists>new. w_trace w' = w_trace w @ new \<and> in_order se new se'"
  using relay_steps_flow [OF assms(1)] assms(2-5) by (auto simp: flows_def detached_def)

end
