(* ===== verification/Session_Close.thy ===== *)
theory Session_Close
  imports Session_Facts
begin

text \<open>
  Closing a SOCKS session: what \<open>selector_unregister_fd\<close> of the descriptor of the client does in a
  world where the session is registered. The close handler unlinks the session, ends it in the
  store, closes the origin through a nested unregistration and frees it.
\<close>

section \<open>The origin\<close>

definition origin_closed :: "nat \<Rightarrow> socks_session \<Rightarrow> world \<Rightarrow> world" where
  "origin_closed sid se w = w\<lparr>w_sel := cleared (se_origin_fd se) (closing (se_origin_fd se) (w_sel w)),
     w_sessions := (w_sessions w)(sid \<mapsto> se\<lparr>se_origin_fd := -1\<rparr>),
     w_open := removeAll (se_origin_fd se) (w_open w), w_trace := w_trace w @ [Closed (se_origin_fd se)]\<rparr>"

lemma forget_sel:
  assumes "sel_ok F s" and "registered s fd = Some (h, i, d)" and "fd \<notin> F"
  shows "sel_ok F (cleared fd (closing fd s))" "registered (cleared fd (closing fd s)) = (registered s)(fd := None)"
proof -
  note c = closing_ok [OF assms]
  have "registered (closing fd s) fd = Some (h, OP_NOOP, d)" using c(2) by simp
  from cleared_ok [OF c(1) this assms(3)] c(2)
  show "sel_ok F (cleared fd (closing fd s))" "registered (cleared fd (closing fd s)) = (registered s)(fd := None)"
    by simp_all
qed

lemma unregister_origin:
  assumes ok: "sel_ok F (w_sel w)" and reg: "registered (w_sel w) (se_origin_fd se) = Some (H_socks_origin, j, Some (D_session sid))"
    and F: "se_origin_fd se \<notin> F" and s: "w_sessions w sid = Some se"
    and cl: "cl H_socks_origin = closer0 H_socks_origin"
  shows "unregister_with cl (se_origin_fd se) w = Inr ((), origin_closed sid se w)"
proof -
  let ?fd = "se_origin_fd se"
  let ?w1 = "put_sel (closing ?fd (w_sel w)) w"
  let ?w2 = "?w1\<lparr>w_sessions := (w_sessions w)(sid \<mapsto> se\<lparr>se_origin_fd := -1\<rparr>),
     w_open := removeAll ?fd (w_open w), w_trace := w_trace w @ [Closed ?fd]\<rparr>"
  have pos: "0 \<le> ?fd" using registered_range [OF reg] by simp
  have r: "as_handler (socks_origin_close \<lparr>key_fd = ?fd, key_data = Some (D_session sid)\<rparr>) ?w1 = Inr ?w2"
    using s pos by (simp add: as_handler_def socks_origin_close_def put_sel_def sys_close_def record_effect_def act_when_def put_session_def)
  note c = closing_ok [OF ok reg F]
  have "selector_unregister_fd w_sel put_sel cl ?fd w = Inr (SELECTOR_SUCCESS, put_sel (cleared ?fd (w_sel ?w2)) ?w2)"
    by (rule unregister_run [where get = w_sel and put = put_sel and closer = cl and
        f = "\<lambda>key. as_handler (socks_origin_close key)" and ?F2.0 = "insert ?fd F", OF ok reg _ r])
      (use cl c in \<open>simp_all add: closer0_def put_sel_def\<close>)
  then show ?thesis by (simp add: unregister_with_def origin_closed_def put_sel_def)
qed

section \<open>The client\<close>

text \<open>A session as the accept loop and \<open>socks_begin_origin_connect\<close> leave it.\<close>

definition origin_ok :: "nat \<Rightarrow> socks_session \<Rightarrow> world \<Rightarrow> bool" where
  "origin_ok sid se w \<longleftrightarrow> se_origin_fd se < 0 \<or>
     se_origin_fd se \<noteq> se_client_fd se \<and> (\<exists>j. registered (w_sel w) (se_origin_fd se) = Some (H_socks_origin, j, Some (D_session sid)))"

definition session_open :: "nat \<Rightarrow> socks_session \<Rightarrow> nat list \<Rightarrow> world \<Rightarrow> bool" where
  "session_open sid se ids w \<longleftrightarrow> w_sessions w sid = Some se \<and> cur_ok se \<and> idle_list w ids \<and> sel_inv (w_sel w) \<and>
     (\<exists>i. registered (w_sel w) (se_client_fd se) = Some (H_socks_client, i, Some (D_session sid))) \<and> origin_ok sid se w"

definition ended_store :: "string \<Rightarrow> socks_session \<Rightarrow> monitor_store \<Rightarrow> monitor_store" where
  "ended_store now se store =
     (if se_store_id se = STORE_SESSION_INVALID then store
      else if se_ttl_expired se then store_session_mark_ttl_expired now store (se_store_id se)
      else store_session_end store (se_store_id se))"

definition session_closed :: "nat \<Rightarrow> socks_session \<Rightarrow> nat list \<Rightarrow> world \<Rightarrow> world \<Rightarrow> bool" where
  "session_closed sid se ids w w' \<longleftrightarrow>
     w_sessions w' sid = None \<and> (\<forall>k. k \<noteq> sid \<longrightarrow> map_option no_links (w_sessions w' k) = map_option no_links (w_sessions w k)) \<and>
     idle_list w' (remove1 sid ids) \<and> sel_inv (w_sel w') \<and>
     registered (w_sel w') = (registered (w_sel w))(se_client_fd se := None, se_origin_fd se := None) \<and>
     w_open w' = removeAll (se_client_fd se) (if se_origin_fd se < 0 then w_open w else removeAll (se_origin_fd se) (w_open w)) \<and>
     w_trace w' = w_trace w @ (if se_origin_fd se < 0 then [] else [Closed (se_origin_fd se)]) @ [Closed (se_client_fd se)] \<and>
     sv_active_sessions (w_socks w') = sv_active_sessions (w_socks w) - 1 \<and>
     (\<exists>now. w_store w' = ended_store now se (w_store w))"

text \<open>The handler up to the point where the session ends in the store.\<close>

lemma end_in_store:
  assumes "w_sessions w sid = Some se"
  shows "\<exists>n now. act_when (se_store_id se \<noteq> STORE_SESSION_INVALID)
       (act_then (if se_ttl_expired se
                  then act_bind now_string (\<lambda>now. store_mod (\<lambda>store. store_session_mark_ttl_expired now store (se_store_id se)))
                  else store_mod (\<lambda>store. store_session_end store (se_store_id se)))
         (session_mod sid (\<lambda>se. se\<lparr>se_store_id := STORE_SESSION_INVALID\<rparr>))) w =
     Inr ((), (put_session sid (se\<lparr>se_store_id := STORE_SESSION_INVALID\<rparr>) w)
       \<lparr>w_store := ended_store now se (w_store w), w_calls := n\<rparr>)"
proof -
  have same: "se\<lparr>se_store_id := STORE_SESSION_INVALID\<rparr> = se" if "se_store_id se = STORE_SESSION_INVALID" using that by simp
  consider "se_store_id se = STORE_SESSION_INVALID" | "se_store_id se \<noteq> STORE_SESSION_INVALID" "se_ttl_expired se"
    | "se_store_id se \<noteq> STORE_SESSION_INVALID" "\<not> se_ttl_expired se" by blast
  then show ?thesis
  proof cases
    case 1
    have "(put_session sid (se\<lparr>se_store_id := STORE_SESSION_INVALID\<rparr>) w)\<lparr>w_store := w_store w, w_calls := w_calls w\<rparr> = w"
      unfolding same [OF 1] using put_session_same [OF assms] by simp
    then show ?thesis using 1
      by (intro exI [of _ "w_calls w"] exI [of _ "[]"]) (simp add: act_when_def ended_store_def)
  next
    case 2
    then show ?thesis using assms
      by (intro exI [of _ "Suc (w_calls w)"] exI [of _ "chars_of (o_data (w_os w (w_calls w)))"])
         (simp add: act_when_def ended_store_def now_string_def syscall_def store_mod_def put_session_def)
  next
    case 3
    then show ?thesis using assms
      by (intro exI [of _ "w_calls w"] exI [of _ "[]"]) (simp add: act_when_def ended_store_def store_mod_def put_session_def)
  qed
qed

lemma no_links_fields:
  assumes "no_links a = no_links b"
  shows "se_store_id a = se_store_id b" "se_origin_fd a = se_origin_fd b" "se_client_fd a = se_client_fd b"
    "se_cur a = se_cur b" "se_ttl_expired a = se_ttl_expired b" "se_c2o a = se_c2o b" "se_o2c a = se_o2c b"
    "se_last_activity a = se_last_activity b" "se_close_after_flush a = se_close_after_flush b"
    "se_request a = se_request b" "se_dns_cursor a = se_dns_cursor b" "se_dest_recorded a = se_dest_recorded b"
    "se_greeting a = se_greeting b" "se_auth a = se_auth b"
  using arg_cong [OF assms, of se_store_id] arg_cong [OF assms, of se_ttl_expired] arg_cong [OF assms, of se_origin_fd]
    arg_cong [OF assms, of se_client_fd] arg_cong [OF assms, of se_cur] arg_cong [OF assms, of se_c2o]
    arg_cong [OF assms, of se_o2c] arg_cong [OF assms, of se_last_activity] arg_cong [OF assms, of se_close_after_flush]
    arg_cong [OF assms, of se_request] arg_cong [OF assms, of se_dns_cursor] arg_cong [OF assms, of se_dest_recorded]
    arg_cong [OF assms, of se_greeting] arg_cong [OF assms, of se_auth]
  by (simp_all add: no_links_def)

lemma idle_frame_fields:
  assumes "idle_frame w w'"
  shows "w_sel w' = w_sel w" "w_store w' = w_store w" "w_env w' = w_env w" "w_open w' = w_open w" "w_trace w' = w_trace w"
    "w_os w' = w_os w" "w_calls w' = w_calls w" "sv_active_sessions (w_socks w') = sv_active_sessions (w_socks w)"
    "w_next w' = w_next w"
    "map_option no_links (w_sessions w' k) = map_option no_links (w_sessions w k)"
proof -
  obtain H srv where H: "w' = w\<lparr>w_sessions := H, w_socks := srv\<rparr>" "\<forall>k. map_option no_links (H k) = map_option no_links (w_sessions w k)"
    "srv\<lparr>sv_idle_head := None, sv_idle_tail := None\<rparr> = (w_socks w)\<lparr>sv_idle_head := None, sv_idle_tail := None\<rparr>"
    using assms by (auto simp: idle_frame_def)
  from H(3) have "sv_active_sessions (srv\<lparr>sv_idle_head := None, sv_idle_tail := None\<rparr>) =
      sv_active_sessions ((w_socks w)\<lparr>sv_idle_head := None, sv_idle_tail := None\<rparr>)" by simp
  then show "sv_active_sessions (w_socks w') = sv_active_sessions (w_socks w)" using H(1) by simp
qed (use assms in \<open>auto simp: idle_frame_def\<close>)

lemma idle_list_forget:
  assumes "idle_list w ids" and "sid \<notin> set ids"
    and "w_sessions w' = (w_sessions w)(sid := v)" and "\<And>se. v = Some se \<Longrightarrow> \<not> se_in_idle_list se"
    and "sv_idle_head (w_socks w') = sv_idle_head (w_socks w)" "sv_idle_tail (w_socks w') = sv_idle_tail (w_socks w)"
  shows "idle_list w' ids"
  using assms by (auto simp: idle_list_def)

lemma free_dns_run:
  "w_sessions w sid = Some se \<Longrightarrow> \<exists>se'. socks_free_dns sid w = Inr ((), put_session sid se' w)"
  using put_session_same [of w sid se] by (auto simp: socks_free_dns_def intro: exI [of _ se])

lemma destroy_origin_run:
  assumes s: "w_sessions w sid = Some se" and sel: "sel_ok F (w_sel w)"
    and orig: "se_origin_fd se < 0 \<or>
      (se_origin_fd se \<notin> F \<and> registered (w_sel w) (se_origin_fd se) = Some (H_socks_origin, j, Some (D_session sid)))"
    and cl: "cl H_socks_origin = closer0 H_socks_origin"
  shows "destroy_origin (unregister_with cl) sid w = Inr ((), if se_origin_fd se < 0 then w else origin_closed sid se w)"
proof (cases "se_origin_fd se < 0")
  case False
  then have "unregister_with cl (se_origin_fd se) w = Inr ((), origin_closed sid se w)"
    using orig by (intro unregister_origin [where cl = cl, OF sel _ _ s cl]) auto
  then show ?thesis using False s
    by (simp add: destroy_origin_def origin_closed_def put_session_def)
qed (use s in \<open>simp add: destroy_origin_def\<close>)

lemma dec_active:
  "(if 0 < sv_active_sessions (w_socks w)
    then w\<lparr>w_socks := (w_socks w)\<lparr>sv_active_sessions := sv_active_sessions (w_socks w) - 1\<rparr>\<rparr> else w) =
   w\<lparr>w_socks := (w_socks w)\<lparr>sv_active_sessions := sv_active_sessions (w_socks w) - 1\<rparr>\<rparr>"
  by simp

lemma client_close_run:
  fixes cfd ofd :: int
  assumes s: "w_sessions w sid = Some se" and cur: "cur_ok se" and il: "idle_list w ids" and sel: "sel_ok F (w_sel w)"
    and orig: "se_origin_fd se < 0 \<or>
      (se_origin_fd se \<notin> F \<and> registered (w_sel w) (se_origin_fd se) = Some (H_socks_origin, j, Some (D_session sid)))"
    and fd: "0 \<le> cfd"
  shows "\<exists>w' now. socks_client_close \<lparr>key_fd = cfd, key_data = Some (D_session sid)\<rparr> w = Inr ((), w') \<and>
    w_sessions w' sid = None \<and> (\<forall>k. k \<noteq> sid \<longrightarrow> map_option no_links (w_sessions w' k) = map_option no_links (w_sessions w k)) \<and>
    idle_list w' (remove1 sid ids) \<and>
    w_sel w' = (if se_origin_fd se < 0 then w_sel w else cleared (se_origin_fd se) (closing (se_origin_fd se) (w_sel w))) \<and>
    w_open w' = removeAll cfd (if se_origin_fd se < 0 then w_open w else removeAll (se_origin_fd se) (w_open w)) \<and>
    w_trace w' = w_trace w @ (if se_origin_fd se < 0 then [] else [Closed (se_origin_fd se)]) @ [Closed cfd] \<and>
    sv_active_sessions (w_socks w') = sv_active_sessions (w_socks w) - 1 \<and> w_store w' = ended_store now se (w_store w)"
proof -
  obtain w1 where w1: "idle_list_remove sid w = Inr ((), w1)" "idle_list w1 (remove1 sid ids)" "idle_frame w w1"
    using idle_remove_ok [OF il, of sid] s by (auto simp: act_ok_iff)
  obtain se1 where se1: "w_sessions w1 sid = Some se1" "no_links se1 = no_links se"
    using idle_frame_session [OF w1(3) s] by blast
  note fr = idle_frame_fields [OF w1(3)] and lk = no_links_fields [OF se1(2)]
  obtain n now where e: "act_when (se_store_id se1 \<noteq> STORE_SESSION_INVALID)
       (act_then (if se_ttl_expired se1
                  then act_bind now_string (\<lambda>now. store_mod (\<lambda>store. store_session_mark_ttl_expired now store (se_store_id se1)))
                  else store_mod (\<lambda>store. store_session_end store (se_store_id se1)))
         (session_mod sid (\<lambda>se. se\<lparr>se_store_id := STORE_SESSION_INVALID\<rparr>))) w1 =
     Inr ((), (put_session sid (se1\<lparr>se_store_id := STORE_SESSION_INVALID\<rparr>) w1)
       \<lparr>w_store := ended_store now se1 (w_store w1), w_calls := n\<rparr>)"
    using end_in_store [OF se1(1)] by blast
  define se2 where "se2 = se1\<lparr>se_store_id := STORE_SESSION_INVALID\<rparr>"
  define w2 where "w2 = (put_session sid se2 w1)\<lparr>w_store := ended_store now se1 (w_store w1), w_calls := n\<rparr>"
  note e2 = e [folded se2_def, folded w2_def]
  have se2: "w_sessions w2 sid = Some se2" "se_origin_fd se2 = se_origin_fd se" "w_sel w2 = w_sel w"
    using lk fr by (simp_all add: w2_def se2_def)
  have cl: "stm_handler_close (session_cur sid) socks_bare_machine w2 = Inr w2"
  proof (rule bm.close_eq)
    show "bm.valid sid w2"
      using se2(1) cur lk(4) by (auto simp: bm.valid_def session_alive_def session_look_def cur_ok_def session_now_def se2_def)
  qed
  define w3 where "w3 = (if se_origin_fd se2 < 0 then w2 else origin_closed sid se2 w2)"
  have d: "destroy_origin (unregister_with closer0) sid w2 = Inr ((), w3)"
    unfolding w3_def using sel orig se2 by (intro destroy_origin_run [where F = F and j = j]) simp_all
  have "w_sessions w3 sid \<noteq> None" using se2(1) by (simp add: w3_def origin_closed_def)
  then obtain se3 where se3: "w_sessions w3 sid = Some se3" by blast
  obtain se4 where f: "socks_free_dns sid w3 = Inr ((), put_session sid se4 w3)" using free_dns_run [OF se3] by blast
  define w4 where "w4 = (put_session sid se4 w3)\<lparr>w_socks := (w_socks w3)\<lparr>sv_active_sessions := sv_active_sessions (w_socks w3) - 1\<rparr>,
     w_open := removeAll cfd (w_open w3), w_trace := w_trace w3 @ [Closed cfd], w_sessions := (w_sessions w3)(sid := None)\<rparr>"
  have run: "socks_client_close \<lparr>key_fd = cfd, key_data = Some (D_session sid)\<rparr> w = Inr ((), w4)"
    using w1(1) se1(1) e2 cl d f fd
    by (simp add: socks_client_close_def dec_active sys_close_def record_effect_def act_when_def [of True] w4_def)
  have w3: "(w_sessions w3)(sid := None) = (w_sessions w1)(sid := None)" "w_socks w3 = w_socks w1"
    "w_store w3 = ended_store now se1 (w_store w1)"
    "w_sel w3 = (if se_origin_fd se < 0 then w_sel w else cleared (se_origin_fd se) (closing (se_origin_fd se) (w_sel w)))"
    "w_open w3 = (if se_origin_fd se < 0 then w_open w else removeAll (se_origin_fd se) (w_open w))"
    "w_trace w3 = w_trace w @ (if se_origin_fd se < 0 then [] else [Closed (se_origin_fd se)])"
    using se2 fr by (simp_all add: w3_def w2_def origin_closed_def)
  have dist: "sid \<notin> set (remove1 sid ids)" using il by (simp add: idle_list_def)
  have "idle_list w4 (remove1 sid ids)"
    by (rule idle_list_forget [OF w1(2) dist, of _ None]) (simp_all add: w4_def w3)
  moreover have "ended_store now se1 (w_store w1) = ended_store now se (w_store w)"
    by (simp only: ended_store_def lk fr)
  moreover have "map_option no_links (w_sessions w4 k) = map_option no_links (w_sessions w k)" if "k \<noteq> sid" for k
    using fr(10) [of k] that by (simp add: w4_def w3)
  ultimately show ?thesis
    using run w3 fr by (intro exI [of _ w4] exI [of _ now]) (simp add: w4_def)
qed

text \<open>The whole unregistration, with the table of the multiplexer.\<close>

lemma unregister_client:
  assumes so: "session_open sid se ids w"
  shows "\<exists>w'. unregister (se_client_fd se) w = Inr ((), w') \<and> session_closed sid se ids w w'"
proof -
  let ?cfd = "se_client_fd se" and ?ofd = "se_origin_fd se"
  obtain i where s: "w_sessions w sid = Some se" "cur_ok se" and il: "idle_list w ids" and inv: "sel_inv (w_sel w)"
    and reg: "registered (w_sel w) ?cfd = Some (H_socks_client, i, Some (D_session sid))" and oo: "origin_ok sid se w"
    using so by (auto simp: session_open_def)
  let ?w1 = "put_sel (closing ?cfd (w_sel w)) w"
  have nF: "?cfd \<notin> {}" by simp
  note c = closing_ok [OF inv reg nF]
  have "\<exists>j. ?ofd < 0 \<or> (?ofd \<notin> {?cfd} \<and> registered (w_sel ?w1) ?ofd = Some (H_socks_origin, j, Some (D_session sid)))"
    using oo c(2) by (auto simp: origin_ok_def put_sel_def)
  then obtain j where o: "?ofd < 0 \<or> (?ofd \<notin> {?cfd} \<and> registered (w_sel ?w1) ?ofd = Some (H_socks_origin, j, Some (D_session sid)))" ..
  have pre: "w_sessions ?w1 sid = Some se" "idle_list ?w1 ids" "sel_ok {?cfd} (w_sel ?w1)" "0 \<le> ?cfd"
    using s il c(1) registered_range [OF reg] by (simp_all add: put_sel_def idle_list_def)
  obtain w2 now where run: "socks_client_close \<lparr>key_fd = ?cfd, key_data = Some (D_session sid)\<rparr> ?w1 = Inr ((), w2)"
    and w2: "w_sessions w2 sid = None" "\<forall>k. k \<noteq> sid \<longrightarrow> map_option no_links (w_sessions w2 k) = map_option no_links (w_sessions ?w1 k)"
      "idle_list w2 (remove1 sid ids)"
      "w_sel w2 = (if ?ofd < 0 then w_sel ?w1 else cleared ?ofd (closing ?ofd (w_sel ?w1)))"
      "w_open w2 = removeAll ?cfd (if ?ofd < 0 then w_open ?w1 else removeAll ?ofd (w_open ?w1))"
      "w_trace w2 = w_trace ?w1 @ (if ?ofd < 0 then [] else [Closed ?ofd]) @ [Closed ?cfd]"
      "sv_active_sessions (w_socks w2) = sv_active_sessions (w_socks ?w1) - 1" "w_store w2 = ended_store now se (w_store ?w1)"
    using client_close_run [OF pre(1) s(2) pre(2,3) o pre(4)] by blast
  have sel2: "sel_ok {?cfd} (w_sel w2)" "registered (w_sel w2) = (registered (w_sel w))(?cfd \<mapsto> (H_socks_client, OP_NOOP, Some (D_session sid)), ?ofd := None)"
    "sel_base (w_sel w2) = sel_base (w_sel w)" "?ofd \<noteq> ?cfd"
  proof -
    have neg: "?ofd < 0 \<Longrightarrow> registered s ?ofd = None" for s :: "(handler_id, key_data) fdselector" by (simp add: registered_def)
    show ne: "?ofd \<noteq> ?cfd" using o pre(4) by auto
    show "sel_base (w_sel w2) = sel_base (w_sel w)" using w2(4) by (simp add: put_sel_def)
    have "sel_ok {?cfd} (w_sel w2) \<and> registered (w_sel w2) = (registered (w_sel ?w1))(?ofd := None)"
    proof (cases "?ofd < 0")
      case True
      then show ?thesis using w2(4) pre(3) neg [of "w_sel ?w1"] by (simp add: fun_upd_idem)
    next
      case False
      then show ?thesis using w2(4) o forget_sel [OF pre(3), of ?ofd] by auto
    qed
    then show "sel_ok {?cfd} (w_sel w2)"
      "registered (w_sel w2) = (registered (w_sel w))(?cfd \<mapsto> (H_socks_client, OP_NOOP, Some (D_session sid)), ?ofd := None)"
      using c(2) by (simp_all add: put_sel_def)
  qed
  have r: "as_handler (socks_client_close \<lparr>key_fd = ?cfd, key_data = Some (D_session sid)\<rparr>) ?w1 = Inr w2"
    using run by (simp add: as_handler_def)
  have "selector_unregister_fd w_sel put_sel closer ?cfd w = Inr (SELECTOR_SUCCESS, put_sel (cleared ?cfd (w_sel w2)) w2)"
    by (rule unregister_run [where get = w_sel and put = put_sel and closer = closer and
        f = "\<lambda>key. as_handler (socks_client_close key)" and ?F2.0 = "{?cfd}", OF inv reg _ r])
      (use sel2 in \<open>simp_all add: closer_def\<close>)
  then have "unregister ?cfd w = Inr ((), put_sel (cleared ?cfd (w_sel w2)) w2)"
    by (simp add: unregister_def unregister_with_def)
  moreover have "sel_inv (cleared ?cfd (w_sel w2))"
    "registered (cleared ?cfd (w_sel w2)) = (registered (w_sel w))(?cfd := None, ?ofd := None)"
    using cleared_ok [OF sel2(1) _ nF] sel2(2,4) by (simp_all add: fun_upd_twist)
  then have "session_closed sid se ids w (put_sel (cleared ?cfd (w_sel w2)) w2)"
    unfolding session_closed_def using w2 by (simp add: put_sel_def idle_list_def) blast
  ultimately show ?thesis by blast
qed

end
