(* ===== verification/Session_Handshake.thy ===== *)
theory Session_Handshake
  imports Session_Facts
begin

text \<open>
  The handshake of a session end to end: what the state machine does with the bytes that have
  arrived, in terms of the message-level parse of everything received in this state, however it was cut
  into reads. A step is the next state, the reply, the bytes left for the next state and
  whether the session is closed once the reply has been sent.
\<close>

section \<open>Steps\<close>

type_synonym handshake_step = "nat \<times> byte list \<times> byte list \<times> bool"

definition greeting_step :: "(socks_greeting_status \<times> byte \<times> byte list) option \<Rightarrow> handshake_step" where
  "greeting_step r = (case r of
      None \<Rightarrow> (SOCKS_ST_AUTH_GREETING, [], [], False)
    | Some (st, m, rest) \<Rightarrow>
        if st = SOCKS_GREETING_ACCEPT
        then (if m = SOCKS_METHOD_USERPASS then SOCKS_ST_AUTH_USERPASS else SOCKS_ST_REQUEST, [5, m], rest, False)
        else (SOCKS_ST_DONE, [5, 0xFF], rest, True))"

definition auth_step :: "(credentials \<Rightarrow> bool) \<Rightarrow> (socks_auth_status \<times> credentials option \<times> byte list) option \<Rightarrow> handshake_step" where
  "auth_step known r = (case r of
      None \<Rightarrow> (SOCKS_ST_AUTH_USERPASS, [], [], False)
    | Some (st, cred, rest) \<Rightarrow>
        if (case cred of None \<Rightarrow> False | Some c \<Rightarrow> known c) then (SOCKS_ST_REQUEST, [1, 0], rest, False)
        else (SOCKS_ST_DONE, [1, 1], rest, True))"

text \<open>A client that need not authenticate is entered as the user \<open>Anon\<close>.\<close>

definition greeting_store :: "nat \<Rightarrow> store_session_id \<Rightarrow> monitor_store \<Rightarrow> monitor_store" where
  "greeting_store nxt i store =
     (if nxt = SOCKS_ST_REQUEST
      then store_session_set_phase (store_session_set_user store i (Some ''Anon'')) i STORE_SESSION_AUTH else store)"

text \<open>The session after a step.\<close>

definition step_result :: "handshake_step \<Rightarrow> socks_session \<Rightarrow> socks_session \<Rightarrow> bool" where
  "step_result step se se' \<longleftrightarrow> (case step of (nxt, ans, rest, fin) \<Rightarrow>
     se_cur se' = Some nxt \<and> buffer_inv (se_c2o se') \<and> buffer_inv (se_o2c se') \<and>
     buffer_pending (se_c2o se') = rest \<and> buffer_pending (se_o2c se') = buffer_pending (se_o2c se) @ ans \<and>
     buffer_room (se_o2c se') = buffer_room (se_o2c se) - length ans \<and>
     se_close_after_flush se' = (se_close_after_flush se \<or> fin) \<and>
     se_client_fd se' = se_client_fd se \<and> se_origin_fd se' = se_origin_fd se \<and> se_request se' = se_request se \<and>
     se_dns_cursor se' = se_dns_cursor se \<and> se_store_id se' = se_store_id se)"

section \<open>Replies that end the session\<close>

lemma reply_and_close_ok:
  assumes "w_sessions w sid = Some se" and "buffer_inv (se_o2c se)" and "length bs \<le> buffer_room (se_o2c se)"
  shows "\<exists>b. reply_and_close key sid bs w =
      Inr (SOCKS_ST_DONE, put_session sid (se\<lparr>se_o2c := b, se_close_after_flush := True\<rparr>) w) \<and>
    buffer_inv b \<and> buffer_pending b = buffer_pending (se_o2c se) @ bs \<and> buffer_room b = buffer_room (se_o2c se) - length bs"
proof -
  obtain b where "socks_o2c_append sid bs w = Inr (True, put_session sid (se\<lparr>se_o2c := b\<rparr>) w)" "buffer_inv b"
    "buffer_pending b = buffer_pending (se_o2c se) @ bs" "buffer_room b = buffer_room (se_o2c se) - length bs" using append_ok [OF assms] by blast
  then show ?thesis by (intro exI [of _ b]) (simp add: reply_and_close_def)
qed

section \<open>The greeting\<close>

lemma greeting_done_ok:
  assumes s: "w_sessions w sid = Some se" and o: "buffer_inv (se_o2c se)" "2 \<le> buffer_room (se_o2c se)"
    and step: "greeting_step (Some (st, chosen_method (se_greeting se), rest)) = (nxt, ans, rest, fin)"
  shows "\<exists>b. greeting_done key sid st w =
      Inr (nxt, (put_session sid (se\<lparr>se_o2c := b, se_close_after_flush := se_close_after_flush se \<or> fin\<rparr>) w)
        \<lparr>w_store := greeting_store nxt (se_store_id se) (w_store w)\<rparr>) \<and>
    buffer_inv b \<and> buffer_pending b = buffer_pending (se_o2c se) @ ans \<and> buffer_room b = buffer_room (se_o2c se) - length ans"
proof (cases "st = SOCKS_GREETING_ACCEPT")
  case True
  let ?m = "chosen_method (se_greeting se)"
  obtain b where b: "socks_o2c_append sid [5, ?m] w = Inr (True, put_session sid (se\<lparr>se_o2c := b\<rparr>) w)"
    "buffer_inv b" "buffer_pending b = buffer_pending (se_o2c se) @ [5, ?m]" "buffer_room b = buffer_room (se_o2c se) - 2"
    using append_ok [OF s o(1), of "[5, ?m]"] o(2) by auto
  then show ?thesis using True s step
    by (intro exI [of _ b])
       (auto simp: greeting_done_def greeting_step_def greeting_store_def socks_greeting_chosen_method_def socks_st_defs split: if_splits)
next
  case False
  then obtain b where "reply_and_close key sid [5, 0xFF] w =
      Inr (SOCKS_ST_DONE, put_session sid (se\<lparr>se_o2c := b, se_close_after_flush := True\<rparr>) w)"
    "buffer_inv b" "buffer_pending b = buffer_pending (se_o2c se) @ [5, 0xFF]" "buffer_room b = buffer_room (se_o2c se) - length [5, 0xFF :: byte]"
    using reply_and_close_ok [OF s o(1), of "[5, 0xFF]" key] o(2) by auto
  then show ?thesis using False step
    by (intro exI [of _ b]) (auto simp: greeting_done_def greeting_step_def greeting_store_def socks_st_defs)
qed

lemma greeting_run:
  assumes s: "w_sessions w sid = Some se" and c: "buffer_inv (se_c2o se)" and o: "buffer_inv (se_o2c se)" "2 \<le> buffer_room (se_o2c se)"
    and now: "session_now se = SOCKS_ST_AUTH_GREETING"
    and seen: "consume socks_greeting_parser_feed greeting_more socks_greeting_parser_init seen = Inr (None, se_greeting se, [])"
    and step: "greeting_step (greeting_ref (seen @ buffer_pending (se_c2o se))) = (nxt, ans, rest, fin)"
  shows "\<exists>se'. session_stm_read key sid w = Inr ((), (put_session sid se' w)
        \<lparr>w_store := greeting_store nxt (se_store_id se) (w_store w)\<rparr>) \<and>
    step_result (nxt, ans, rest, fin) se se' \<and> se_auth se' = se_auth se \<and>
    (nxt = SOCKS_ST_AUTH_GREETING \<longrightarrow>
      consume socks_greeting_parser_feed greeting_more socks_greeting_parser_init (seen @ buffer_pending (se_c2o se)) =
        Inr (None, se_greeting se', []))"
proof -
  let ?bs = "buffer_pending (se_c2o se)" and ?se0 = "se\<lparr>se_cur := Some (session_now se)\<rparr>"
  let ?w0 = "put_session sid ?se0 w"
  have all: "consume socks_greeting_parser_feed greeting_more socks_greeting_parser_init (seen @ ?bs) =
      consume socks_greeting_parser_feed greeting_more (se_greeting se) ?bs"
    by (simp add: consume_append seen)
  then obtain res p rest1 where cons: "consume socks_greeting_parser_feed greeting_more (se_greeting se) ?bs = Inr (res, p, rest1)"
    and ref: "greeting_ref (seen @ ?bs) = map_option (\<lambda>st. (st, chosen_method p, rest1)) res"
    using greeting_equiv [of "seen @ ?bs"]
    by (auto simp: greeting_outcome_def socks_greeting_chosen_method_def run_simps)
  obtain b where b: "buffer_inv b" "buffer_pending b = rest1" "b_limit b = b_limit (se_c2o se)"
    "socks_on_read_greeting key sid ?w0 = (case res of
        None \<Rightarrow> Inr (SOCKS_ST_AUTH_GREETING, put_session sid (?se0\<lparr>se_greeting := p, se_c2o := b\<rparr>) ?w0)
      | Some st \<Rightarrow> greeting_done key sid st (put_session sid (?se0\<lparr>se_greeting := p, se_c2o := b\<rparr>) ?w0))"
    using gs.callback_run [of ?w0 sid ?se0 res p rest1 key] c cons unfolding socks_on_read_greeting_def by auto
  have read: "on_read_ready (socks_state_table key sid ! session_now se) = Some (socks_on_read_greeting key sid)"
    and ok: "cur_ok se" using now by (simp_all add: socks_state_table_def cur_ok_def socks_st_defs)
  show ?thesis
  proof (cases res)
    case None
    then have "rest1 = []" using consume_rest [OF cons] by auto
    moreover have "nxt = SOCKS_ST_AUTH_GREETING" "ans = []" "rest = []" "\<not> fin"
      using step ref None by (simp_all add: greeting_step_def)
    ultimately show ?thesis
      using stm_read_run [OF s ok read, of SOCKS_ST_AUTH_GREETING "put_session sid (?se0\<lparr>se_greeting := p, se_c2o := b\<rparr>) ?w0"
          "?se0\<lparr>se_greeting := p, se_c2o := b\<rparr>"] b None now all cons o(1)
      by (intro exI [of _ "?se0\<lparr>se_greeting := p, se_c2o := b, se_cur := Some SOCKS_ST_AUTH_GREETING\<rparr>"])
         (simp add: step_result_def cur_ok_def session_now_def greeting_store_def socks_st_defs)
  next
    case (Some st)
    let ?se1 = "?se0\<lparr>se_greeting := p, se_c2o := b\<rparr>"
    have st: "greeting_step (Some (st, chosen_method (se_greeting ?se1), rest1)) = (nxt, ans, rest1, fin)" "rest = rest1"
      using step ref Some by (auto simp: greeting_step_def split: if_splits)
    obtain d where d: "greeting_done key sid st (put_session sid ?se1 ?w0) =
        Inr (nxt, (put_session sid (?se1\<lparr>se_o2c := d, se_close_after_flush := se_close_after_flush se \<or> fin\<rparr>) w)
          \<lparr>w_store := greeting_store nxt (se_store_id se) (w_store w)\<rparr>)" "buffer_inv d" "buffer_pending d = buffer_pending (se_o2c se) @ ans"
          "buffer_room d = buffer_room (se_o2c se) - length ans"
      using greeting_done_ok [of "put_session sid ?se1 ?w0" sid ?se1 st rest1 nxt ans fin key] o st(1) by auto
    have n: "nxt \<le> SOCKS_ST_DONE" "nxt \<noteq> SOCKS_ST_AUTH_GREETING" using st(1) by (auto simp: greeting_step_def socks_st_defs split: if_splits)
    let ?se2 = "?se1\<lparr>se_o2c := d, se_close_after_flush := se_close_after_flush se \<or> fin\<rparr>"
    let ?w2 = "(put_session sid ?se2 w)\<lparr>w_store := greeting_store nxt (se_store_id se) (w_store w)\<rparr>"
    have "socks_on_read_greeting key sid ?w0 = Inr (nxt, ?w2)" using b(4) d(1) Some by simp
    then have "session_stm_read key sid w = Inr ((), put_session sid (?se2\<lparr>se_cur := Some nxt\<rparr>) ?w2)"
      using n(1) ok by (intro stm_read_run [OF s ok read]) (simp_all add: cur_ok_def session_now_def)
    then show ?thesis
      using b d n(2) st(2)
      by (intro exI [of _ "?se2\<lparr>se_cur := Some nxt\<rparr>"]) (simp add: step_result_def)
  qed
qed

section \<open>User and password\<close>

text \<open>What is known of the credentials in the store, and the user the session is entered with.\<close>

definition known_user :: "monitor_store \<Rightarrow> credentials \<Rightarrow> bool" where
  "known_user store = (\<lambda>(u, p). store_user_validate store (Some (cstr (chars_of u))) (Some (cstr (chars_of p))))"

definition auth_store :: "nat \<Rightarrow> store_session_id \<Rightarrow> byte list \<Rightarrow> monitor_store \<Rightarrow> monitor_store" where
  "auth_store nxt i u store =
     (if nxt = SOCKS_ST_REQUEST
      then store_session_set_phase (store_session_set_user store i (Some (cstr (chars_of u)))) i STORE_SESSION_AUTH else store)"

lemma auth_validate_known:
  assumes "auth_credentials p = (u, pw)" and "uname_len p \<noteq> 0" and "passwd_len p \<noteq> 0"
  shows "socks_auth_validate (Some p) store = known_user store (u, pw)"
  using assms unat_byte_less [of "uname_len p"] unat_byte_less [of "passwd_len p"]
  by (auto simp: socks_auth_validate_def known_user_def auth_credentials_def SOCKS_AUTH_MAX_LEN_def)

lemma store_user_run:
  assumes "w_sessions w sid = Some se" and "auth_credentials (se_auth se) = (u, pw)" and "uname_len (se_auth se) \<noteq> 0"
  shows "socks_auth_store_user sid w = Inr ((), w\<lparr>w_store := store_session_set_user (w_store w) (se_store_id se) (Some (cstr (chars_of u)))\<rparr>)"
proof -
  have "unat (uname_len (se_auth se)) \<le> SOCKS_AUTH_MAX_LEN" "0 < unat (uname_len (se_auth se))"
    using unat_byte_less [of "uname_len (se_auth se)"] assms(3) by (simp_all add: SOCKS_AUTH_MAX_LEN_def unat_gt_0)
  moreover have "store_session_set_user store STORE_SESSION_INVALID x = store" for store x
    by (simp add: store_session_set_user_def store_find_session_def)
  ultimately show ?thesis using assms
    by (auto simp: socks_auth_store_user_def socks_auth_username_len_def auth_credentials_def Let_def)
qed

lemma auth_done_ok:
  assumes s: "w_sessions w sid = Some se" and o: "buffer_inv (se_o2c se)" "2 \<le> buffer_room (se_o2c se)"
    and parsed: "st = SOCKS_AUTH_PARSED \<Longrightarrow> uname_len (se_auth se) \<noteq> 0 \<and> passwd_len (se_auth se) \<noteq> 0"
    and more: "st \<noteq> SOCKS_AUTH_NEED_MORE"
    and step: "auth_step (known_user (w_store w))
        (Some (st, if st = SOCKS_AUTH_PARSED then Some (auth_credentials (se_auth se)) else None, rest)) = (nxt, ans, rest, fin)"
  shows "\<exists>b. auth_done key sid st w =
      Inr (nxt, (put_session sid (se\<lparr>se_o2c := b, se_close_after_flush := se_close_after_flush se \<or> fin\<rparr>) w)
        \<lparr>w_store := auth_store nxt (se_store_id se) (fst (auth_credentials (se_auth se))) (w_store w)\<rparr>) \<and>
    buffer_inv b \<and> buffer_pending b = buffer_pending (se_o2c se) @ ans \<and> buffer_room b = buffer_room (se_o2c se) - length ans"
proof -
  obtain u pw where cred: "auth_credentials (se_auth se) = (u, pw)" by force
  have reject: ?thesis if "nxt = SOCKS_ST_DONE" "ans = [1, 1]" "fin"
    "auth_done key sid st w = reply_and_close key sid [1, 1] w"
    using reply_and_close_ok [OF s o(1), of "[1, 1]" key] o(2) that by (auto simp: auth_store_def socks_st_defs)
  show ?thesis
  proof (cases "st = SOCKS_AUTH_PARSED")
    case True
    note len = parsed [OF True]
    show ?thesis
    proof (cases "known_user (w_store w) (u, pw)")
      case known: True
      let ?w1 = "w\<lparr>w_store := auth_store SOCKS_ST_REQUEST (se_store_id se) u (w_store w)\<rparr>"
      obtain b where b: "socks_o2c_append sid [1, 0] ?w1 = Inr (True, put_session sid (se\<lparr>se_o2c := b\<rparr>) ?w1)"
        "buffer_inv b" "buffer_pending b = buffer_pending (se_o2c se) @ [1, 0]" "buffer_room b = buffer_room (se_o2c se) - 2"
        using append_ok [of ?w1 sid se "[1, 0]"] s o by auto
      have "auth_done key sid st w = Inr (SOCKS_ST_REQUEST, put_session sid (se\<lparr>se_o2c := b\<rparr>) ?w1)"
        using s True known len b(1) auth_validate_known [OF cred] store_user_run [OF s cred]
        by (simp add: auth_done_def auth_store_def)
      then show ?thesis using True known step b cred
        by (intro exI [of _ b]) (auto simp: auth_step_def)
    next
      case False
      then show ?thesis using True len s step cred auth_validate_known [OF cred]
        by (intro reject) (auto simp: auth_step_def auth_done_def)
    qed
  next
    case False
    then have "st = SOCKS_AUTH_REJECT" using more by (cases st) auto
    then show ?thesis using step by (intro reject) (auto simp: auth_step_def auth_done_def)
  qed
qed

lemma auth_ref_nonempty:
  assumes "auth_ref bs = Some (st, Some (u, p), rest)" shows "u \<noteq> [] \<and> p \<noteq> []"
proof -
  have pw: "u' = v \<and> q \<noteq> []" if "auth_ref_passwd v cs = Some (st, Some (u', q), rest)" for v cs q u'
    using that by (cases cs) (auto simp: unsigned_eq_0_iff split: if_splits)
  have "u' \<noteq> [] \<and> q \<noteq> []" if "auth_ref_uname cs = Some (st, Some (u', q), rest)" for cs q u'
  proof (cases cs)
    case (Cons n ds)
    then have "n \<noteq> 0" "\<not> length ds < unat n" "auth_ref_passwd (take (unat n) ds) (drop (unat n) ds) = Some (st, Some (u', q), rest)"
      using that by (auto split: if_splits)
    moreover from pw [OF this(3)] have "u' = take (unat n) ds" "q \<noteq> []" by simp_all
    ultimately show ?thesis by (auto simp: unsigned_eq_0_iff)
  qed (use that in simp)
  then show ?thesis using assms by (cases bs) (auto split: if_splits)
qed

text \<open>What the parser holds once it has decided on all the bytes seen, in terms of the parse of the message.\<close>

lemma auth_decided:
  assumes ref: "auth_ref bs = Some (st, if st = SOCKS_AUTH_PARSED then Some (auth_credentials p) else None, rest1)"
    and step: "auth_step known (auth_ref bs) = (nxt, ans, rest, fin)"
  shows "rest = rest1" and "nxt \<le> SOCKS_ST_DONE" and "nxt \<noteq> SOCKS_ST_AUTH_USERPASS"
    and "st = SOCKS_AUTH_PARSED \<Longrightarrow> uname_len p \<noteq> 0 \<and> passwd_len p \<noteq> 0"
    and "nxt = SOCKS_ST_REQUEST \<longrightarrow> (\<exists>pw. auth_ref bs = Some (SOCKS_AUTH_PARSED, Some (fst (auth_credentials p), pw), rest))"
proof -
  show r: "rest = rest1" and "nxt \<le> SOCKS_ST_DONE" and "nxt \<noteq> SOCKS_ST_AUTH_USERPASS"
    using step ref by (auto simp: auth_step_def socks_st_defs split: if_splits)
  show "st = SOCKS_AUTH_PARSED \<Longrightarrow> uname_len p \<noteq> 0 \<and> passwd_len p \<noteq> 0"
    using auth_ref_nonempty [of bs st _ _ rest1] ref by (auto simp: auth_credentials_def)
  have "st = SOCKS_AUTH_PARSED" if "nxt = SOCKS_ST_REQUEST"
    using step ref that by (auto simp: auth_step_def socks_st_defs split: if_splits)
  then show "nxt = SOCKS_ST_REQUEST \<longrightarrow> (\<exists>pw. auth_ref bs = Some (SOCKS_AUTH_PARSED, Some (fst (auth_credentials p), pw), rest))"
    using ref r by (auto simp: auth_credentials_def)
qed

lemma auth_run:
  assumes s: "w_sessions w sid = Some se" and c: "buffer_inv (se_c2o se)" and o: "buffer_inv (se_o2c se)" "2 \<le> buffer_room (se_o2c se)"
    and now: "session_now se = SOCKS_ST_AUTH_USERPASS" and arr: "auth_arrays p0"
    and seen: "consume socks_auth_parser_feed auth_more (socks_auth_parser_init p0) seen = Inr (None, se_auth se, [])"
    and step: "auth_step (known_user (w_store w)) (auth_ref (seen @ buffer_pending (se_c2o se))) = (nxt, ans, rest, fin)"
  shows "\<exists>se' u. session_stm_read key sid w = Inr ((), (put_session sid se' w)
        \<lparr>w_store := auth_store nxt (se_store_id se) u (w_store w)\<rparr>) \<and>
    step_result (nxt, ans, rest, fin) se se' \<and>
    (nxt = SOCKS_ST_REQUEST \<longrightarrow> (\<exists>pw. auth_ref (seen @ buffer_pending (se_c2o se)) = Some (SOCKS_AUTH_PARSED, Some (u, pw), rest))) \<and>
    (nxt = SOCKS_ST_AUTH_USERPASS \<longrightarrow>
      consume socks_auth_parser_feed auth_more (socks_auth_parser_init p0) (seen @ buffer_pending (se_c2o se)) =
        Inr (None, se_auth se', []))"
proof -
  let ?bs = "buffer_pending (se_c2o se)" and ?se0 = "se\<lparr>se_cur := Some (session_now se)\<rparr>"
  let ?w0 = "put_session sid ?se0 w"
  have all: "consume socks_auth_parser_feed auth_more (socks_auth_parser_init p0) (seen @ ?bs) =
      consume socks_auth_parser_feed auth_more (se_auth se) ?bs"
    by (simp add: consume_append seen)
  then obtain res p rest1 where cons: "consume socks_auth_parser_feed auth_more (se_auth se) ?bs = Inr (res, p, rest1)"
    and ref: "auth_ref (seen @ ?bs) =
      map_option (\<lambda>st. (st, if st = SOCKS_AUTH_PARSED then Some (auth_credentials p) else None, rest1)) res"
    using auth_equiv [OF arr, of "seen @ ?bs"] by (auto simp: auth_outcome_def run_simps)
  obtain b where b: "buffer_inv b" "buffer_pending b = rest1" "b_limit b = b_limit (se_c2o se)"
    "socks_on_read_auth key sid ?w0 = (case res of
        None \<Rightarrow> Inr (SOCKS_ST_AUTH_USERPASS, put_session sid (?se0\<lparr>se_auth := p, se_c2o := b\<rparr>) ?w0)
      | Some st \<Rightarrow> auth_done key sid st (put_session sid (?se0\<lparr>se_auth := p, se_c2o := b\<rparr>) ?w0))"
    using us.callback_run [of ?w0 sid ?se0 res p rest1 key] c cons unfolding socks_on_read_auth_def by auto
  have read: "on_read_ready (socks_state_table key sid ! session_now se) = Some (socks_on_read_auth key sid)"
    and ok: "cur_ok se" using now by (simp_all add: socks_state_table_def cur_ok_def socks_st_defs)
  show ?thesis
  proof (cases res)
    case None
    then have "rest1 = []" using consume_rest [OF cons] by auto
    moreover have "nxt = SOCKS_ST_AUTH_USERPASS" "ans = []" "rest = []" "\<not> fin"
      using step ref None by (simp_all add: auth_step_def)
    ultimately show ?thesis
      using stm_read_run [OF s ok read, of SOCKS_ST_AUTH_USERPASS "put_session sid (?se0\<lparr>se_auth := p, se_c2o := b\<rparr>) ?w0"
          "?se0\<lparr>se_auth := p, se_c2o := b\<rparr>"] b None now all cons o(1)
      by (intro exI [of _ "?se0\<lparr>se_auth := p, se_c2o := b, se_cur := Some SOCKS_ST_AUTH_USERPASS\<rparr>"])
         (simp add: step_result_def cur_ok_def session_now_def auth_store_def socks_st_defs)
  next
    case (Some st)
    let ?se1 = "?se0\<lparr>se_auth := p, se_c2o := b\<rparr>"
    have more: "st \<noteq> SOCKS_AUTH_NEED_MORE" using consume_final [OF cons [unfolded Some]] .
    note dec = auth_decided [OF ref [unfolded Some option.map] step]
    then have len: "st = SOCKS_AUTH_PARSED \<Longrightarrow> uname_len (se_auth ?se1) \<noteq> 0 \<and> passwd_len (se_auth ?se1) \<noteq> 0" by simp
    have st1: "auth_step (known_user (w_store (put_session sid ?se1 ?w0)))
        (Some (st, if st = SOCKS_AUTH_PARSED then Some (auth_credentials (se_auth ?se1)) else None, rest1)) = (nxt, ans, rest1, fin)"
      using step ref Some dec(1) by (simp split: if_splits)
    obtain d where d: "auth_done key sid st (put_session sid ?se1 ?w0) =
        Inr (nxt, (put_session sid (?se1\<lparr>se_o2c := d, se_close_after_flush := se_close_after_flush se \<or> fin\<rparr>) w)
          \<lparr>w_store := auth_store nxt (se_store_id se) (fst (auth_credentials p)) (w_store w)\<rparr>)" "buffer_inv d"
          "buffer_pending d = buffer_pending (se_o2c se) @ ans" "buffer_room d = buffer_room (se_o2c se) - length ans"
      using auth_done_ok [of "put_session sid ?se1 ?w0" sid ?se1, OF _ _ _ len more st1] o by auto
    let ?se2 = "?se1\<lparr>se_o2c := d, se_close_after_flush := se_close_after_flush se \<or> fin\<rparr>"
    let ?w2 = "(put_session sid ?se2 w)\<lparr>w_store := auth_store nxt (se_store_id se) (fst (auth_credentials p)) (w_store w)\<rparr>"
    have "socks_on_read_auth key sid ?w0 = Inr (nxt, ?w2)" using b(4) d(1) Some by simp
    then have "session_stm_read key sid w = Inr ((), put_session sid (?se2\<lparr>se_cur := Some nxt\<rparr>) ?w2)"
      using dec(2) ok by (intro stm_read_run [OF s ok read]) (simp_all add: cur_ok_def session_now_def)
    moreover have "step_result (nxt, ans, rest, fin) se (?se2\<lparr>se_cur := Some nxt\<rparr>)"
      using b d dec(1) by (simp add: step_result_def)
    ultimately show ?thesis
      using dec(3,5) by (intro exI [of _ "?se2\<lparr>se_cur := Some nxt\<rparr>"] exI [of _ "fst (auth_credentials p)"]) simp
  qed
qed

end
