(* ===== verification/Session_Faults.thy ===== *)
theory Session_Faults
  imports Session_Close Session_Handshake Server
begin

text \<open>
  The ways a session goes wrong in \<^verbatim>\<open>socks.c\<close>: a reply that cannot be sent frees the session
  under the state machine that is still running it, and a session that expires while its name is
  being resolved is met by the resolver in a state that has no callback for it.
\<close>

section \<open>Sessions under update\<close>

text \<open>Two sessions with the same links, descriptors and a state of the table.\<close>

definition same_frame :: "socks_session \<Rightarrow> socks_session \<Rightarrow> bool" where
  "same_frame se se' \<longleftrightarrow> se_idle_prev se' = se_idle_prev se \<and> se_idle_next se' = se_idle_next se \<and>
     se_in_idle_list se' = se_in_idle_list se \<and> se_client_fd se' = se_client_fd se \<and> se_origin_fd se' = se_origin_fd se \<and> cur_ok se'"

lemma dll_put:
  assumes "H sid = Some se" and "same_frame se se'" and "dll H p ids n"
  shows "dll (H(sid \<mapsto> se')) p ids n"
  using assms(3) by (induction ids arbitrary: p) (use assms(1,2) in \<open>auto simp: same_frame_def\<close>)

lemma session_open_put:
  assumes "session_open sid se ids w" and "same_frame se se'"
    and "w' = (put_session sid se' w)\<lparr>w_store := st, w_calls := n\<rparr>"
  shows "session_open sid se' ids w'"
proof -
  have "w_sessions w sid = Some se" "idle_list w ids" using assms(1) by (simp_all add: session_open_def)
  then have "idle_list w' ids"
    using assms(2,3) dll_put [of "w_sessions w" sid se se' None ids None]
    by (auto simp: idle_list_def same_frame_def)
  then show ?thesis using assms by (auto simp: session_open_def origin_ok_def same_frame_def)
qed

section \<open>A reply that cannot be sent\<close>

lemma flush_error:
  assumes so: "session_open sid se ids w" and o: "buffer_inv (se_o2c se)" "buffer_pending (se_o2c se) \<noteq> []"
    and err: "o_ret (w_os w (w_calls w)) < 0" "o_err (w_os w (w_calls w)) \<noteq> EAGAIN"
  shows "\<exists>w'. socks_flush_client sid w = Inr (False, w') \<and> session_closed sid se ids (w\<lparr>w_calls := Suc (w_calls w)\<rparr>) w'"
proof -
  let ?w1 = "w\<lparr>w_calls := Suc (w_calls w)\<rparr>"
  obtain i where s: "w_sessions w sid = Some se" and c: "cur_ok se" and reg: "registered (w_sel w) (se_client_fd se) = Some (H_socks_client, i, Some (D_session sid))"
    using so by (auto simp: session_open_def)
  have "session_open sid se ids ?w1" using so by (auto simp: session_open_def origin_ok_def idle_list_def)
  then obtain w' where w': "unregister (se_client_fd se) ?w1 = Inr ((), w')" "session_closed sid se ids ?w1 w'"
    using unregister_client by blast
  have "sys_write (se_client_fd se) (buffer_pending (se_o2c se)) w = Inr (Inl (o_err (w_os w (w_calls w))), ?w1)"
    using err by (simp add: sys_write_def syscall_def)
  then have "socks_flush_client sid w = Inr (False, w')"
    using s o err w'(1) registered_range [OF reg]
    by (simp add: socks_flush_client_def act_bind_def act_then_def act_lift_def buffer_read_ptr_ok del: length_buffer_pending)
  then show ?thesis using w'(2) by blast
qed

text \<open>The answer of the \<open>k\<close>-th call of the handler from now.\<close>

definition write_fails :: "nat \<Rightarrow> world \<Rightarrow> bool" where
  "write_fails k w \<longleftrightarrow> o_ret (w_os w (w_calls w + k)) < 0 \<and> o_err (w_os w (w_calls w + k)) \<noteq> EAGAIN"

lemma fail_request_frees:
  assumes so: "session_open sid se ids w" and o: "buffer_inv (se_o2c se)" "10 \<le> buffer_room (se_o2c se)"
    and err: "write_fails (if se_store_id se = STORE_SESSION_INVALID then 0 else 1) w"
  shows "\<exists>w'. socks_fail_request key sid rep w = Inr ((), w') \<and> w_sessions w' sid = None"
proof -
  let ?k = "if se_store_id se = STORE_SESSION_INVALID then 0 else 1 :: nat"
  let ?se1 = "se\<lparr>se_store_id := STORE_SESSION_INVALID\<rparr>"
  have s: "w_sessions w sid = Some se" and c: "cur_ok se" using so by (simp_all add: session_open_def)
  have same: "se_store_id se = STORE_SESSION_INVALID \<Longrightarrow> ?se1 = se" by simp
  have "\<exists>st. act_when (se_store_id se \<noteq> STORE_SESSION_INVALID)
                (act_bind now_string (\<lambda>now.
                 act_then (store_mod (\<lambda>store. store_session_mark_failed now store (se_store_id se)))
                   (session_mod sid (\<lambda>se. se\<lparr>se_store_id := STORE_SESSION_INVALID\<rparr>)))) w =
      Inr ((), (put_session sid ?se1 w)\<lparr>w_store := st, w_calls := w_calls w + ?k\<rparr>)"
  proof (cases "se_store_id se = STORE_SESSION_INVALID")
    case True
    have "(put_session sid ?se1 w)\<lparr>w_store := w_store w, w_calls := w_calls w + 0\<rparr> = w"
      unfolding same [OF True] using put_session_same [OF s] by simp
    then show ?thesis using True by (intro exI [of _ "w_store w"]) (simp add: act_when_def)
  next
    case False
    then show ?thesis using s
      by (intro exI [of _ "store_session_mark_failed (chars_of (o_data (w_os w (w_calls w)))) (w_store w) (se_store_id se)"])
         (simp add: act_when_def now_string_def syscall_def put_session_def)
  qed
  then obtain st where w1: "act_when (se_store_id se \<noteq> STORE_SESSION_INVALID)
                (act_bind now_string (\<lambda>now.
                 act_then (store_mod (\<lambda>store. store_session_mark_failed now store (se_store_id se)))
                   (session_mod sid (\<lambda>se. se\<lparr>se_store_id := STORE_SESSION_INVALID\<rparr>)))) w =
      Inr ((), (put_session sid ?se1 w)\<lparr>w_store := st, w_calls := w_calls w + ?k\<rparr>)" by blast
  define w1 where "w1 = (put_session sid ?se1 w)\<lparr>w_store := st, w_calls := w_calls w + ?k\<rparr>"
  let ?r = "[5, 0, 0, 1, 0, 0, 0, 0, 0, 0][1 := rep] :: byte list"
  have s1: "w_sessions w1 sid = Some ?se1" by (simp add: w1_def)
  obtain b where b: "socks_o2c_append sid ?r w1 = Inr (True, put_session sid (?se1\<lparr>se_o2c := b\<rparr>) w1)" "buffer_inv b"
    "buffer_pending b = buffer_pending (se_o2c se) @ ?r"
    using append_ok [OF s1, of ?r] o by auto
  define se2 where "se2 = ?se1\<lparr>se_o2c := b, se_close_after_flush := True, se_cur := Some SOCKS_ST_DONE\<rparr>"
  define w2 where "w2 = put_session sid se2 w1"
  have "session_open sid se2 ids w2"
    by (rule session_open_put [OF so, where st = st and n = "w_calls w + ?k"])
      (simp_all add: same_frame_def se2_def cur_ok_def session_now_def w2_def w1_def)
  moreover have "o_ret (w_os w2 (w_calls w2)) < 0" "o_err (w_os w2 (w_calls w2)) \<noteq> EAGAIN"
    using err by (simp_all add: w2_def w1_def write_fails_def)
  moreover have "buffer_inv (se_o2c se2)" "buffer_pending (se_o2c se2) \<noteq> []" using b by (simp_all add: se2_def)
  ultimately obtain w' where "socks_flush_client sid w2 = Inr (False, w')" "w_sessions w' sid = None"
    using flush_error [of sid se2 ids w2] by (auto simp: session_closed_def)
  then have "socks_fail_request key sid rep w = Inr ((), w')"
    using s s1 w1 b(1) unfolding socks_fail_request_def w1_def [symmetric] w2_def se2_def
    by (simp add: socks_send_connect_reply_def act_bind_def [of "socks_flush_client sid"])
  then show ?thesis using \<open>w_sessions w' sid = None\<close> by blast
qed

text \<open>
  A request that is refused: the reply is written from inside the callback, the failed write frees
  the session, and the state machine goes on with it.
\<close>

lemma rejected_request_freed:
  assumes so: "session_open sid se ids w" and c: "buffer_inv (se_c2o se)"
    and o: "buffer_inv (se_o2c se)" "10 \<le> buffer_room (se_o2c se)"
    and now: "session_now se = SOCKS_ST_REQUEST" and arr: "request_arrays p0"
    and seen: "consume socks_request_parser_feed request_more (socks_request_parser_init p0) seen = Inr (None, se_request se, [])"
    and ref: "request_ref (seen @ buffer_pending (se_c2o se)) = Some (st, None, rest)"
    and err: "write_fails (if se_store_id se = STORE_SESSION_INVALID then 0 else 1) w"
  shows "session_stm_read key sid w = Inl Use_after_free"
proof -
  let ?bs = "buffer_pending (se_c2o se)" and ?se0 = "se\<lparr>se_cur := Some (session_now se)\<rparr>"
  let ?w0 = "put_session sid ?se0 w"
  have s: "w_sessions w sid = Some se" and ok: "cur_ok se" using so by (simp_all add: session_open_def)
  have "consume socks_request_parser_feed request_more (socks_request_parser_init p0) (seen @ ?bs) =
      consume socks_request_parser_feed request_more (se_request se) ?bs"
    by (simp add: consume_append seen)
  then obtain p where cons: "consume socks_request_parser_feed request_more (se_request se) ?bs = Inr (Some st, p, rest)"
    and dest: "request_dest st p = None"
    using request_equiv [OF arr, of "seen @ ?bs"] ref by (auto simp: request_outcome_def run_simps)
  have st: "st \<noteq> SOCKS_REQUEST_PARSED_FQDN" "st \<noteq> SOCKS_REQUEST_PARSED_ADDR"
    using dest by (auto simp: request_dest_def)
  obtain b where b: "socks_on_read_request key sid ?w0 =
      request_done key sid st (put_session sid (?se0\<lparr>se_request := p, se_c2o := b\<rparr>) ?w0)"
    using rs.callback_run [of ?w0 sid ?se0 "Some st" p rest key] c cons unfolding socks_on_read_request_def by auto
  define se1 where "se1 = ?se0\<lparr>se_request := p, se_c2o := b\<rparr>"
  define w1 where "w1 = put_session sid se1 w"
  have "w1 = (put_session sid se1 w)\<lparr>w_store := w_store w, w_calls := w_calls w\<rparr>"
    by (simp add: w1_def put_session_def)
  moreover have "same_frame se se1" using ok by (simp add: same_frame_def se1_def cur_ok_def session_now_def)
  ultimately have so1: "session_open sid se1 ids w1" using session_open_put [OF so] by blast
  have "write_fails (if se_store_id se1 = STORE_SESSION_INVALID then 0 else 1) w1"
    using err by (simp add: se1_def w1_def write_fails_def)
  then obtain w' where w': "socks_fail_request key sid (socks_request_status_to_rep st) w1 = Inr ((), w')" "w_sessions w' sid = None"
    using fail_request_frees [OF so1, of key "socks_request_status_to_rep st"] o by (auto simp: se1_def)
  have "request_done key sid st w1 = Inr (SOCKS_ST_DONE, w')"
    using st w'(1) so1 by (simp add: request_done_def session_open_def)
  then have "socks_on_read_request key sid ?w0 = Inr (SOCKS_ST_DONE, w')"
    using b by (simp add: w1_def se1_def)
  moreover have "on_read_ready (socks_state_table key sid ! session_now se) = Some (socks_on_read_request key sid)"
    using now by (simp add: socks_state_table_def socks_st_defs)
  ultimately show ?thesis using stm_read_freed [OF s ok] w'(2) by blast
qed

section \<open>A session that expires while its name is resolved\<close>

lemma block_aborts:
  assumes "w_sessions w sid = Some se" and "cur_ok se" and "session_now se \<noteq> SOCKS_ST_RESOLVING"
  shows "socks_client_block key sid w = Inl Abort_called"
  using stm_block_abort [OF assms] by (simp add: socks_client_block_def)

text \<open>The client cannot take the reply yet: the session stays, in \<open>SOCKS_ST_DONE\<close>.\<close>

lemma expire_waiting:
  assumes so: "session_open sid se ids w" and st: "session_now se \<noteq> SOCKS_ST_RELAY"
    and o: "buffer_inv (se_o2c se)" "10 \<le> buffer_room (se_o2c se)"
    and again: "o_ret (w_os w (w_calls w)) < 0" "o_err (w_os w (w_calls w)) = EAGAIN"
  shows "\<exists>w' se'. expire_one sid w = Inr ((), w') \<and> w_sessions w' sid = Some se' \<and> se_cur se' = Some SOCKS_ST_DONE"
proof -
  let ?se0 = "se\<lparr>se_ttl_expired := True\<rparr>"
  let ?w0 = "put_session sid ?se0 w"
  obtain i where s: "w_sessions w sid = Some se" and c: "cur_ok se" and sel: "sel_inv (w_sel w)"
    and reg: "registered (w_sel w) (se_client_fd se) = Some (H_socks_client, i, Some (D_session sid))"
    using so by (auto simp: session_open_def)
  have "?w0 = (put_session sid ?se0 w)\<lparr>w_store := w_store w, w_calls := w_calls w\<rparr>" by (simp add: put_session_def)
  moreover have "same_frame se ?se0" using c by (simp add: same_frame_def cur_ok_def session_now_def)
  ultimately have "session_open sid ?se0 ids ?w0" using session_open_put [OF so] by blast
  then have "idle_list ?w0 ids" by (simp add: session_open_def)
  then obtain w1 where w1: "idle_list_remove sid ?w0 = Inr ((), w1)" "idle_frame ?w0 w1"
    using idle_remove_ok [of ?w0 ids sid] by (auto simp: act_ok_iff)
  obtain se1 where se1: "w_sessions w1 sid = Some se1" "no_links se1 = no_links ?se0"
    using idle_frame_session [OF w1(2), of sid ?se0] by auto
  note fr = idle_frame_fields [OF w1(2)] and lk = no_links_fields [OF se1(2)]
  have c1: "cur_ok se1" "session_now se1 = session_now se" using c lk(4) by (simp_all add: cur_ok_def session_now_def)
  let ?r = "[5, 6, 0, 1, 0, 0, 0, 0, 0, 0] :: byte list"
  obtain b where b: "socks_o2c_append sid ?r w1 = Inr (True, put_session sid (se1\<lparr>se_o2c := b\<rparr>) w1)" "buffer_inv b"
    "buffer_pending b = buffer_pending (se_o2c se1) @ ?r"
    using append_ok [OF se1(1), of ?r] o lk by auto
  define se2 where "se2 = se1\<lparr>se_o2c := b, se_close_after_flush := True, se_cur := Some SOCKS_ST_DONE\<rparr>"
  define w2 where "w2 = put_session sid se2 w1"
  define w3 where "w3 = w2\<lparr>w_calls := Suc (w_calls w2)\<rparr>"
  have s2: "w_sessions w2 sid = Some se2" "w_sessions w3 sid = Some se2" "se_client_fd se2 = se_client_fd se"
    "w_os w2 (w_calls w2) = w_os w (w_calls w)" "w_sel w3 = w_sel w" "buffer_inv (se_o2c se2)" "buffer_pending (se_o2c se2) \<noteq> []"
    using fr lk b by (simp_all add: w2_def w3_def se2_def)
  have "sys_write (se_client_fd se2) (buffer_pending (se_o2c se2)) w2 = Inr (Inl EAGAIN, w3)"
    using again s2 by (simp add: sys_write_def syscall_def w3_def)
  then have fl: "socks_flush_client sid w2 = Inr (True, w3)"
    using s2 registered_range [OF reg]
    by (simp add: socks_flush_client_def act_bind_def act_lift_def buffer_read_ptr_ok del: length_buffer_pending)
  have cl: "socks_close_if_flushed sid w3 = Inr (True, w3)"
    using s2 by (simp add: socks_close_if_flushed_def buffer_can_read_iff)
  obtain s4 where s4: "selector_set_interest (w_sel w3) (se_client_fd se2) (socks_client_interest se2) = Inr (SELECTOR_SUCCESS, s4)"
    using set_interest_ok [OF sel reg, of "socks_client_interest se2"] s2 by auto
  have "expire_one sid w = Inr ((), put_sel s4 w3)"
    using s w1(1) se1(1) session_state_run [OF se1(1) c1(1)] c1(2) st b(1) fl cl s4 s2
    by (simp add: expire_one_def socks_expire_session_pre_relay_def socks_send_connect_reply_def set_interest_def
        w2_def [symmetric] se2_def [symmetric] act_bind_def [of "socks_flush_client sid"] act_bind_def [of "socks_close_if_flushed sid"])
  then show ?thesis using s2 by (intro exI [of _ "put_sel s4 w3"] exI [of _ se2]) (simp add: put_sel_def se2_def)
qed

end
