(* ===== verification/Idle_Expiry.thy ===== *)
theory Idle_Expiry
  imports Session_Close Server
begin

text \<open>
  \<open>socks_server_expire_idle\<close> on a list of sessions in the relay: every session at the front of the list
  that has been inactive for the configured time is closed and freed, the others stay, and the loop
  ends.
\<close>

definition idle_expired :: "int \<Rightarrow> int \<Rightarrow> world \<Rightarrow> nat \<Rightarrow> bool" where
  "idle_expired now timeout w sid \<longleftrightarrow>
     (case w_sessions w sid of None \<Rightarrow> False | Some se \<Rightarrow> \<not> now - se_last_activity se < timeout)"

definition relay_sessions :: "world \<Rightarrow> nat list \<Rightarrow> nat list \<Rightarrow> bool" where
  "relay_sessions w all_ids ids \<longleftrightarrow>
     (\<forall>sid \<in> set ids. \<exists>se. session_open sid se all_ids w \<and> se_cur se = Some SOCKS_ST_RELAY)"

text \<open>Everything of the other sessions but their links.\<close>

definition others_kept :: "nat \<Rightarrow> world \<Rightarrow> world \<Rightarrow> bool" where
  "others_kept sid w w' \<longleftrightarrow> (\<forall>k. k \<noteq> sid \<longrightarrow> map_option no_links (w_sessions w' k) = map_option no_links (w_sessions w k))"

lemma expire_one_relay:
  assumes so: "session_open sid se ids w" and cur: "se_cur se = Some SOCKS_ST_RELAY"
  shows "\<exists>w'. expire_one sid w = Inr ((), w') \<and> w_sessions w' sid = None \<and> others_kept sid w w' \<and>
    idle_list w' (remove1 sid ids) \<and> sel_inv (w_sel w') \<and>
    registered (w_sel w') = (registered (w_sel w))(se_client_fd se := None, se_origin_fd se := None)"
proof -
  let ?se0 = "se\<lparr>se_ttl_expired := True\<rparr>"
  let ?w0 = "put_session sid ?se0 w"
  have s: "w_sessions w sid = Some se" and c: "cur_ok se" and il: "idle_list w ids" and sel: "sel_inv (w_sel w)"
    using so by (auto simp: session_open_def)
  have "dll ((w_sessions w)(sid \<mapsto> ?se0)) p is n" if "dll (w_sessions w) p is n" for p "is" n
    using that s by (induction "is" arbitrary: p) auto
  then have "idle_list ?w0 ids" using il s by (auto simp: idle_list_def)
  then obtain w1 where w1: "idle_list_remove sid ?w0 = Inr ((), w1)" "idle_list w1 (remove1 sid ids)" "idle_frame ?w0 w1"
    using idle_remove_ok [of ?w0 ids sid] by (auto simp: act_ok_iff)
  obtain se1 where se1: "w_sessions w1 sid = Some se1" "no_links se1 = no_links ?se0"
    using idle_frame_session [OF w1(3), of sid ?se0] by auto
  note fr = idle_frame_fields [OF w1(3)] and lk = no_links_fields [OF se1(2)]
  have c1: "cur_ok se1" "session_now se1 = SOCKS_ST_RELAY" using c cur lk(4) by (simp_all add: cur_ok_def session_now_def)
  have "session_open sid se1 (remove1 sid ids) w1"
    using so se1(1) c1(1) w1(2) fr lk by (auto simp: session_open_def origin_ok_def)
  then obtain w' where w': "unregister (se_client_fd se1) w1 = Inr ((), w')" "session_closed sid se1 (remove1 sid ids) w1 w'"
    using unregister_client by blast
  have run: "expire_one sid w = Inr ((), w')"
    using s w1(1) se1(1) session_state_run [OF se1(1) c1(1)] c1(2) w'(1) by (simp add: expire_one_def)
  have "remove1 sid (remove1 sid ids) = remove1 sid ids" using il by (simp add: idle_list_def remove1_idem)
  moreover have "map_option no_links (w_sessions w' k) = map_option no_links (w_sessions w k)" if "k \<noteq> sid" for k
    using w'(2) fr(10) [of k] that by (simp add: session_closed_def)
  ultimately show ?thesis using run w'(2) lk fr by (intro exI [of _ w']) (auto simp: session_closed_def others_kept_def)
qed

lemma others_stay_open:
  assumes so: "session_open k sek ids w" and s: "session_open sid se ids w" and ne: "k \<noteq> sid"
    and w': "others_kept sid w w'" "idle_list w' ids'" "sel_inv (w_sel w')"
      "registered (w_sel w') = (registered (w_sel w))(se_client_fd se := None, se_origin_fd se := None)"
  shows "\<exists>sek'. session_open k sek' ids' w' \<and> no_links sek' = no_links sek"
proof -
  have "map_option no_links (w_sessions w' k) = Some (no_links sek)"
    using w'(1) so ne by (simp add: others_kept_def session_open_def)
  then obtain sek' where k: "w_sessions w' k = Some sek'" "no_links sek' = no_links sek" by auto
  note lk = no_links_fields [OF k(2)]
  have neg: "fd < 0 \<Longrightarrow> registered (w_sel w) fd = None" for fd by (simp add: registered_def)
  have other: "registered (w_sel w') fd = registered (w_sel w) fd" if "registered (w_sel w) fd = Some (h, i, Some (D_session k))" for fd h i
    using that s ne w'(4) neg [of "se_origin_fd se"] by (auto simp: session_open_def origin_ok_def)
  have "cur_ok sek'" using so lk by (simp add: session_open_def cur_ok_def session_now_def)
  moreover have "\<exists>i. registered (w_sel w') (se_client_fd sek') = Some (H_socks_client, i, Some (D_session k))"
    using so other lk by (auto simp: session_open_def)
  moreover have "origin_ok k sek' w'"
    using so other lk by (auto simp: session_open_def origin_ok_def)
  ultimately show ?thesis using k w' by (auto simp: session_open_def)
qed

text \<open>Expiring one session leaves the others open, and as idle as they were.\<close>

lemma relay_sessions_rest:
  assumes rs: "relay_sessions w (sid # ids) (sid # ids)" and dist: "distinct (sid # ids)" and so: "session_open sid se (sid # ids) w"
    and w1: "others_kept sid w w1" "idle_list w1 ids" "sel_inv (w_sel w1)"
      "registered (w_sel w1) = (registered (w_sel w))(se_client_fd se := None, se_origin_fd se := None)"
  shows "relay_sessions w1 ids ids"
  unfolding relay_sessions_def
proof
  fix k assume k: "k \<in> set ids"
  then obtain sek where "session_open k sek (sid # ids) w" "se_cur sek = Some SOCKS_ST_RELAY" "k \<noteq> sid"
    using rs dist by (auto simp: relay_sessions_def)
  then show "\<exists>se. session_open k se ids w1 \<and> se_cur se = Some SOCKS_ST_RELAY"
    using others_stay_open [OF _ so _ w1] no_links_fields(4) by metis
qed

lemma idle_expired_kept:
  assumes "others_kept sid w w1" "k \<noteq> sid"
  shows "idle_expired now timeout w1 k = idle_expired now timeout w k"
proof -
  have "map_option no_links (w_sessions w1 k) = map_option no_links (w_sessions w k)"
    using assms by (auto simp: others_kept_def)
  then have "map_option (\<lambda>se. se_last_activity (no_links se)) (w_sessions w1 k) =
      map_option (\<lambda>se. se_last_activity (no_links se)) (w_sessions w k)"
    by (metis (no_types, lifting) map_option_cong option.map_comp comp_def)
  then have "map_option se_last_activity (w_sessions w1 k) = map_option se_last_activity (w_sessions w k)"
    by (simp add: no_links_def)
  then show ?thesis
    by (cases "w_sessions w1 k"; cases "w_sessions w k") (simp_all add: idle_expired_def)
qed

lemma expire_loop_run:
  assumes "idle_list w ids" and "relay_sessions w ids ids" and "length ids < fuel"
  shows "\<exists>w'. expire_loop fuel now timeout w = Inr ((), w') \<and>
    idle_list w' (dropWhile (idle_expired now timeout w) ids) \<and>
    (\<forall>sid \<in> set (takeWhile (idle_expired now timeout w) ids). w_sessions w' sid = None) \<and>
    (\<forall>sid. sid \<notin> set (takeWhile (idle_expired now timeout w) ids) \<longrightarrow>
       map_option no_links (w_sessions w' sid) = map_option no_links (w_sessions w sid))"
  using assms
proof (induction ids arbitrary: w fuel)
  case Nil
  then obtain f where "fuel = Suc f" by (cases fuel) auto
  then show ?case using Nil by (intro exI [of _ w]) (simp add: idle_list_def)
next
  case (Cons sid ids)
  then obtain f where f: "fuel = Suc f" by (cases fuel) auto
  obtain se where so: "session_open sid se (sid # ids) w" "se_cur se = Some SOCKS_ST_RELAY"
    using Cons.prems(2) by (auto simp: relay_sessions_def)
  have s: "w_sessions w sid = Some se" using so(1) by (simp add: session_open_def)
  have h: "sv_idle_head (w_socks w) = Some sid" and dist: "distinct (sid # ids)" using Cons.prems(1) by (simp_all add: idle_list_def)
  show ?case
  proof (cases "idle_expired now timeout w sid")
    case False
    then have "expire_loop fuel now timeout w = Inr ((), w)"
      using s h by (simp add: f idle_expired_def)
    then show ?thesis using False Cons.prems(1) by (intro exI [of _ w]) simp
  next
    case True
    obtain w1 where w1: "expire_one sid w = Inr ((), w1)" "w_sessions w1 sid = None" "others_kept sid w w1"
        "idle_list w1 ids" "sel_inv (w_sel w1)"
        "registered (w_sel w1) = (registered (w_sel w))(se_client_fd se := None, se_origin_fd se := None)"
      using expire_one_relay [OF so] by auto
    have step: "expire_loop fuel now timeout w = expire_loop f now timeout w1"
      using s h True w1(1) by (simp add: f idle_expired_def)
    have "relay_sessions w1 ids ids" using relay_sessions_rest [OF Cons.prems(2) dist so(1) w1(3-6)] .
    then obtain w' where w': "expire_loop f now timeout w1 = Inr ((), w')"
      "idle_list w' (dropWhile (idle_expired now timeout w1) ids)"
      "\<forall>k \<in> set (takeWhile (idle_expired now timeout w1) ids). w_sessions w' k = None"
      "\<forall>k. k \<notin> set (takeWhile (idle_expired now timeout w1) ids) \<longrightarrow>
         map_option no_links (w_sessions w' k) = map_option no_links (w_sessions w1 k)"
      using Cons.IH [OF w1(4), of f] Cons.prems(3) f by auto
    have same: "idle_expired now timeout w1 k = idle_expired now timeout w k" if "k \<in> set ids" for k
      by (rule idle_expired_kept [OF w1(3)]) (use that dist in auto)
    have tw: "takeWhile (idle_expired now timeout w1) ids = takeWhile (idle_expired now timeout w) ids"
      and dw: "dropWhile (idle_expired now timeout w1) ids = dropWhile (idle_expired now timeout w) ids"
      using same by (auto intro: takeWhile_cong dropWhile_cong)
    have "sid \<notin> set (takeWhile (idle_expired now timeout w1) ids)" using dist by (auto dest: set_takeWhileD)
    then have "w_sessions w' sid = None" using w'(4) w1(2) by auto
    then show ?thesis
      using True step w' w1(3) by (intro exI [of _ w']) (auto simp: tw dw others_kept_def)
  qed
qed

end
