(* ===== verification/Accepting.thy ===== *)
theory Accepting
  imports Session_Close Server
begin

text \<open>
  A new SOCKS connection: \<open>accept_client\<close> (the body of the loop of \<open>socks_passive_read\<close>) either ends with
  a session that is registered, on the idle list and waiting for its greeting, or gives back
  everything it took.
\<close>

definition os_at :: "nat \<Rightarrow> world \<Rightarrow> os_answer" where
  "os_at k w = w_os w (w_calls w + k)"

text \<open>The connection is refused: the descriptor is closed and no session is left.\<close>

definition refused :: "int \<Rightarrow> world \<Rightarrow> world \<Rightarrow> bool" where
  "refused fd w w' \<longleftrightarrow> w_sessions w' = w_sessions w \<and> w_socks w' = w_socks w \<and> w_sel w' = w_sel w \<and>
     w_open w' = removeAll fd (w_open w) \<and> w_trace w' = w_trace w @ [Closed fd]"

lemma put_sel_fields [simp]:
  "w_socks (put_sel s w) = w_socks w" "w_sessions (put_sel s w) = w_sessions w" "w_store (put_sel s w) = w_store w"
  "w_trace (put_sel s w) = w_trace w" "w_sel (put_sel s w) = s" "w_calls (put_sel s w) = w_calls w" "w_os (put_sel s w) = w_os w"
  by (simp_all add: put_sel_def)

lemma drop_client_run:
  "drop_client fd i sid w = Inr ((), w\<lparr>w_store := (if i = STORE_SESSION_INVALID then w_store w else store_session_end (w_store w) i),
     w_sessions := (case sid of None \<Rightarrow> w_sessions w | Some k \<Rightarrow> (w_sessions w)(k := None)),
     w_open := removeAll fd (w_open w), w_trace := w_trace w @ [Closed fd]\<rparr>)"
  by (cases sid) (simp_all add: drop_client_def act_when_def sys_close_def record_effect_def)

text \<open>The new session once its buffers have been allocated.\<close>

definition new_session :: "int \<Rightarrow> nat \<Rightarrow> byte list \<Rightarrow> byte list \<Rightarrow> int \<Rightarrow> socks_session" where
  "new_session fd bsize x y now = session_zeroed\<lparr>se_client_fd := fd, se_origin_fd := -1, se_c2o := buffer_init bsize x,
     se_o2c := buffer_init bsize y, se_auth := socks_auth_parser_init auth_zeroed,
     se_request := socks_request_parser_init request_zeroed, se_store_id := STORE_SESSION_INVALID, se_last_activity := now\<rparr>"

definition memory :: "nat \<Rightarrow> os_answer \<Rightarrow> byte list" where
  "memory n a = take n (o_data a @ replicate n 0)"

lemma session_init_run:
  assumes s: "w_sessions w sid = Some session_zeroed"
  defines "bsize \<equiv> socks_session_buffer_size (w_store w)"
  shows "o_ret (os_at 0 w) < 0 \<or> o_ret (os_at 1 w) < 0 \<Longrightarrow>
      \<exists>se. socks_session_init sid fd w = Inr (False, (put_session sid se w)\<lparr>w_calls := w_calls w + 2\<rparr>)"
    and "0 \<le> o_ret (os_at 0 w) \<Longrightarrow> 0 \<le> o_ret (os_at 1 w) \<Longrightarrow>
      socks_session_init sid fd w = Inr (True, (put_session sid
        (new_session fd bsize (memory bsize (os_at 0 w)) (memory bsize (os_at 1 w)) (o_ret (os_at 2 w))) w)
        \<lparr>w_calls := w_calls w + 3\<rparr>)"
proof -
  have set: "session_set_cur sid None v = Inr (put_session sid (se\<lparr>se_cur := None\<rparr>) v)" if "w_sessions v sid = Some se" for v se
    using that by (simp add: session_set_cur_def session_put_cur_def put_session_def)
  have stm: "socks_session_stm_init key sid v = Inr ((), put_session sid (se\<lparr>se_cur := None\<rparr>) v)" if "w_sessions v sid = Some se" for v se key
  proof -
    have "stm_init (session_set_cur sid) (socks_machine key sid) v = Inr (put_session sid (se\<lparr>se_cur := None\<rparr>) v)"
      by (simp only: stm_init_iff sm.table set [OF that] simp_thms)
    then show ?thesis by (simp add: socks_session_stm_init_def)
  qed
  show "\<exists>se. socks_session_init sid fd w = Inr (False, (put_session sid se w)\<lparr>w_calls := w_calls w + 2\<rparr>)"
    if "o_ret (os_at 0 w) < 0 \<or> o_ret (os_at 1 w) < 0"
  proof -
    let ?v = "put_session sid (session_zeroed\<lparr>se_client_fd := fd, se_origin_fd := -1, se_dest_addr_len := 0\<rparr>) w"
    have "socks_session_init_buffers sid ?v = Inr (False, ?v\<lparr>w_calls := w_calls w + 2\<rparr>)"
      using that by (cases "o_ret (os_at 0 w) < 0"; cases "o_ret (os_at 1 w) < 0")
        (simp_all add: socks_session_init_buffers_def sys_malloc_def syscall_def os_at_def)
    then show ?thesis
      using s by (intro exI [of _ "session_zeroed\<lparr>se_client_fd := fd, se_origin_fd := -1, se_dest_addr_len := 0\<rparr>"])
        (simp add: socks_session_init_def act_bind_def [of "socks_session_init_buffers sid"])
  qed
  show "socks_session_init sid fd w = Inr (True, (put_session sid
        (new_session fd bsize (memory bsize (os_at 0 w)) (memory bsize (os_at 1 w)) (o_ret (os_at 2 w))) w)
        \<lparr>w_calls := w_calls w + 3\<rparr>)" if "0 \<le> o_ret (os_at 0 w)" "0 \<le> o_ret (os_at 1 w)"
    using s that stm by (simp add: socks_session_init_def socks_session_init_buffers_def sys_malloc_def sys_time_def syscall_def os_at_def
        new_session_def memory_def bsize_def session_zeroed_def)
qed

section \<open>The outcome of an accepted connection\<close>

text \<open>What the multiplexer must be ready for: a free descriptor in the range of its table.\<close>

definition fd_free :: "int \<Rightarrow> world \<Rightarrow> bool" where
  "fd_free fd w \<longleftrightarrow> 0 \<le> fd \<and> fd < int SELECTOR_ITEMS_MAX_SIZE \<and> fd < int (fd_size (w_sel w)) \<and> fd \<noteq> event_fd (w_sel w) \<and>
     registered (w_sel w) fd = None"

definition fresh_client :: "int \<Rightarrow> store_session_id \<Rightarrow> nat \<Rightarrow> socks_session \<Rightarrow> bool" where
  "fresh_client fd i bsize se \<longleftrightarrow> se_client_fd se = fd \<and> se_origin_fd se = -1 \<and> session_now se = SOCKS_ST_AUTH_GREETING \<and>
     se_store_id se = i \<and> se_greeting se = socks_greeting_parser_init \<and> se_auth se = socks_auth_parser_init auth_zeroed \<and>
     se_request se = socks_request_parser_init request_zeroed \<and> se_dns_cursor se = [] \<and> \<not> se_close_after_flush se \<and>
     buffer_inv (se_c2o se) \<and> buffer_inv (se_o2c se) \<and> buffer_pending (se_c2o se) = [] \<and> buffer_pending (se_o2c se) = [] \<and>
     buffer_room (se_c2o se) = bsize \<and> buffer_room (se_o2c se) = bsize"

lemma accept_ok:
  assumes sel: "sel_inv (w_sel w)" and fd: "fd_free fd w" and il: "idle_list w ids"
    and new: "w_sessions w (w_next w) = None"
    and b: "store_session_begin (w_store w) = (i, store1)" "i \<noteq> STORE_SESSION_INVALID"
    and mem: "\<forall>k < 3. 0 \<le> o_ret (os_at k w)"
  shows "\<exists>w' se. accept_client fd w = Inr ((), w') \<and> session_open (w_next w) se (ids @ [w_next w]) w' \<and>
    fresh_client fd i (socks_session_buffer_size store1) se \<and> w_store w' = store1 \<and>
    sv_active_sessions (w_socks w') = Suc (sv_active_sessions (w_socks w)) \<and> w_trace w' = w_trace w"
proof -
  let ?sid = "w_next w"
  let ?w1 = "w\<lparr>w_store := store1, w_calls := Suc (w_calls w), w_next := Suc ?sid, w_sessions := (w_sessions w)(?sid \<mapsto> session_zeroed)\<rparr>"
  let ?n = "socks_session_buffer_size store1"
  define se0 where "se0 = new_session fd ?n (memory ?n (os_at 1 w)) (memory ?n (os_at 2 w)) (o_ret (os_at 3 w))"
  define se1 where "se1 = se0\<lparr>se_store_id := i\<rparr>"
  have ans: "os_at 0 ?w1 = os_at 1 w" "os_at 1 ?w1 = os_at 2 w" "os_at 2 ?w1 = os_at 3 w"
    by (simp_all add: os_at_def numeral_2_eq_2 numeral_3_eq_3)
  have init: "socks_session_init ?sid fd ?w1 = Inr (True, (put_session ?sid se0 ?w1)\<lparr>w_calls := w_calls w + 4\<rparr>)"
    using session_init_run(2) [of ?w1 ?sid fd] mem ans by (simp add: se0_def)
  define w2 where "w2 = (put_session ?sid se1 ?w1)\<lparr>w_calls := w_calls w + 4\<rparr>"
  obtain s3 where s3: "selector_register (o_alloc (os_at 4 w)) (w_sel w) fd (Some H_socks_client) OP_READ (Some (D_session ?sid)) =
      Inr (SELECTOR_SUCCESS, s3)" "sel_inv s3" "registered s3 = (registered (w_sel w))(fd \<mapsto> (H_socks_client, OP_READ, Some (D_session ?sid)))"
    using register_below [OF sel, where fd = fd and mem = "o_alloc (os_at 4 w)" and h = H_socks_client and i = OP_READ and d = "Some (D_session ?sid)"]
      fd by (auto simp: fd_free_def)
  define w3 where "w3 = (put_sel s3 (w2\<lparr>w_calls := Suc (w_calls w2)\<rparr>))\<lparr>w_socks := (w_socks w)\<lparr>sv_active_sessions := Suc (sv_active_sessions (w_socks w))\<rparr>\<rparr>"
  have notin: "?sid \<notin> set ids" using il new dll_in [of "w_sessions w" None ids None ?sid] by (auto simp: idle_list_def)
  have il3: "idle_list w3 ids"
    by (rule idle_list_forget [OF il notin, of _ "Some se1"])
      (simp_all add: w3_def w2_def put_sel_def put_session_def se1_def se0_def new_session_def session_zeroed_def)
  have s3w: "w_sessions w3 ?sid = Some se1" by (simp add: w3_def w2_def put_sel_def)
  obtain w4 where w4: "idle_list_push_tail ?sid w3 = Inr ((), w4)" "idle_list w4 (ids @ [?sid])" "idle_frame w3 w4"
    using idle_push_ok [OF il3 s3w] notin by (auto simp: act_ok_iff remove1_idem)
  obtain se4 where se4: "w_sessions w4 ?sid = Some se4" "no_links se4 = no_links se1"
    using idle_frame_session [OF w4(3) s3w] by blast
  note fr = idle_frame_fields [OF w4(3)] and lk = no_links_fields [OF se4(2)]
  have "accept_client fd w = Inr ((), w4)"
    using b mem [rule_format, of 0] init s3(1) w4(1)
    by (simp add: accept_client_def sys_ok_def syscall_def os_at_def register_fd_def w3_def w2_def se1_def)
  moreover have "session_open ?sid se4 (ids @ [?sid]) w4"
    using se4 w4(2) fr lk s3 by (auto simp: session_open_def origin_ok_def cur_ok_def session_now_def w3_def put_sel_def
        se1_def se0_def new_session_def session_zeroed_def socks_st_defs)
  moreover have "fresh_client fd i ?n se4"
    using lk by (simp add: fresh_client_def session_now_def se1_def se0_def new_session_def session_zeroed_def memory_def)
  ultimately show ?thesis using fr by (intro exI [of _ w4] exI [of _ se4]) (simp add: w3_def w2_def put_sel_def)
qed

lemma accept_refused:
  assumes b: "store_session_begin (w_store w) = (i, store1)" and new: "w_sessions w (w_next w) = None"
    and no: "i = STORE_SESSION_INVALID \<or> (\<exists>k < 3. o_ret (os_at k w) < 0)"
  shows "\<exists>w'. accept_client fd w = Inr ((), w') \<and> refused fd w w' \<and>
    w_store w' = (if i = STORE_SESSION_INVALID then store1 else store_session_end store1 i)"
proof -
  let ?sid = "w_next w"
  let ?w1 = "w\<lparr>w_store := store1, w_calls := Suc (w_calls w), w_next := Suc ?sid, w_sessions := (w_sessions w)(?sid \<mapsto> session_zeroed)\<rparr>"
  have ans: "os_at 0 ?w1 = os_at 1 w" "os_at 1 ?w1 = os_at 2 w"
    by (simp_all add: os_at_def numeral_2_eq_2)
  have free: "(w_sessions w)(?sid := None) = w_sessions w" using new by (simp add: fun_upd_idem)
  consider "i = STORE_SESSION_INVALID" | "i \<noteq> STORE_SESSION_INVALID" "o_ret (os_at 0 w) < 0"
    | "i \<noteq> STORE_SESSION_INVALID" "0 \<le> o_ret (os_at 0 w)" "o_ret (os_at 1 w) < 0 \<or> o_ret (os_at 2 w) < 0"
  proof -
    have "P 0 \<or> P 1 \<or> P 2" if "\<exists>k < 3. P k" for P :: "nat \<Rightarrow> bool"
      using that by (auto simp: numeral_3_eq_3 numeral_2_eq_2 less_Suc_eq)
    from this [of "\<lambda>k. o_ret (os_at k w) < 0"] show ?thesis using no that by (meson linorder_not_less)
  qed
  then show ?thesis
  proof cases
    case 1
    then show ?thesis using b by (simp add: accept_client_def sys_close_def record_effect_def refused_def)
  next
    case 2
    then show ?thesis using b
      by (simp add: accept_client_def sys_ok_def syscall_def os_at_def drop_client_run refused_def)
  next
    case 3
    obtain se where "socks_session_init ?sid fd ?w1 = Inr (False, (put_session ?sid se ?w1)\<lparr>w_calls := w_calls ?w1 + 2\<rparr>)"
      using session_init_run(1) [of ?w1 ?sid fd] 3(3) ans by auto
    then show ?thesis using b 3 free
      by (simp add: accept_client_def sys_ok_def syscall_def os_at_def drop_client_run refused_def put_session_def)
  qed
qed

end
