(* ===== verification/Monitor_Flow.thy ===== *)
theory Monitor_Flow
  imports Monitor_Server
begin

text \<open>
  The administration port end to end: a read hands the new bytes, in order, to the command interpreter,
  leaves nothing in the input buffer and sends the front of the queued answers.
\<close>

definition put_monitor :: "nat \<Rightarrow> monitor_session \<Rightarrow> world \<Rightarrow> world" where
  "put_monitor mid m w = w\<lparr>w_monitors := (w_monitors w)(mid \<mapsto> m)\<rparr>"

lemma put_monitor_simps [simp]:
  "w_monitors (put_monitor mid m w) = (w_monitors w)(mid \<mapsto> m)"
  "w_store (put_monitor mid m w) = w_store w" "w_env (put_monitor mid m w) = w_env w" "w_sel (put_monitor mid m w) = w_sel w"
  "w_os (put_monitor mid m w) = w_os w" "w_calls (put_monitor mid m w) = w_calls w" "w_trace (put_monitor mid m w) = w_trace w"
  "put_monitor mid m2 (put_monitor mid m1 w) = put_monitor mid m2 w"
  "put_monitor mid m (w\<lparr>w_store := st\<rparr>) = (put_monitor mid m w)\<lparr>w_store := st\<rparr>"
  "put_monitor mid m (w\<lparr>w_calls := n\<rparr>) = (put_monitor mid m w)\<lparr>w_calls := n\<rparr>"
  "put_monitor mid m (w\<lparr>w_trace := t\<rparr>) = (put_monitor mid m w)\<lparr>w_trace := t\<rparr>"
  by (simp_all add: put_monitor_def)

declare heap_simps(7) [simp del]

lemma monitor_mod_put [simp]: "w_monitors w mid = Some m \<Longrightarrow> monitor_mod mid f w = Inr ((), put_monitor mid (f m) w)"
  by (simp add: put_monitor_def monitor_mod_def)

lemma put_monitor_same: "w_monitors w mid = Some m \<Longrightarrow> put_monitor mid m w = w"
  by (simp add: put_monitor_def fun_upd_idem)

section \<open>Feeding the interpreter\<close>

lemma feed_rb_run:
  assumes m: "w_monitors w mid = Some m" and rb: "buffer_inv (mo_rb m)"
    and f: "monitor_commands_feed (w_env w) (buffer_pending (mo_rb m)) (w_store w, mo_commands m) = Inr (store1, s1)"
  shows "\<exists>b. feed_rb_to_commands mid w = Inr ((), (put_monitor mid (m\<lparr>mo_rb := b, mo_commands := s1\<rparr>) w)\<lparr>w_store := store1\<rparr>) \<and>
    buffer_inv b \<and> buffer_pending b = [] \<and> b_limit b = b_limit (mo_rb m)"
proof (cases "buffer_pending (mo_rb m) = []")
  case True
  then have eq: "store1 = w_store w" "s1 = mo_commands m" using f by simp_all
  have "(put_monitor mid (m\<lparr>mo_rb := mo_rb m, mo_commands := mo_commands m\<rparr>) w)\<lparr>w_store := w_store w\<rparr> = w"
    using put_monitor_same [OF m] by simp
  then show ?thesis using True m rb
    by (intro exI [of _ "mo_rb m"]) (simp add: eq feed_rb_to_commands_def numeral_2_eq_2 buffer_can_read_iff)
next
  case False
  let ?n = "length (buffer_pending (mo_rb m))"
  obtain b where b: "buffer_read_adv (mo_rb m) (int ?n) = Inr b" "buffer_inv b" "buffer_pending b = []" "b_limit b = b_limit (mo_rb m)"
    using buffer_read_adv_ok [OF rb, of ?n] by auto
  have c: "buffer_inv (buffer_compact b)" "buffer_pending (buffer_compact b) = []" "b_limit (buffer_compact b) = b_limit (mo_rb m)"
    using b by simp_all
  have "feed_rb_to_commands mid w =
      Inr ((), (put_monitor mid (m\<lparr>mo_rb := buffer_compact b, mo_commands := s1\<rparr>) w)\<lparr>w_store := store1\<rparr>)"
    using False m rb f b(1) c
    by (simp add: feed_rb_to_commands_def numeral_2_eq_2 buffer_can_read_iff act_lift_def act_bind_def act_then_def
        buffer_read_ptr_ok store_mod_def del: length_buffer_pending)
  then show ?thesis using c by blast
qed

section \<open>Sending the answers\<close>

lemma monitor_flush_run:
  assumes m: "w_monitors w mid = Some m" and wb: "buffer_inv (mc_wb (mo_commands m))" "buffer_pending (mc_wb (mo_commands m)) \<noteq> []"
    and a: "0 \<le> o_ret (w_os w (w_calls w))" and open1: "\<not> mc_close_after_flush (mo_commands m)"
  defines "p \<equiv> buffer_pending (mc_wb (mo_commands m))"
  defines "n \<equiv> min (nat (o_ret (w_os w (w_calls w)))) (length p)"
  shows "\<exists>b. monitor_flush key mid w =
      Inr (True, (put_monitor mid (m\<lparr>mo_commands := (mo_commands m)\<lparr>mc_wb := b\<rparr>\<rparr>) w)
        \<lparr>w_calls := Suc (w_calls w), w_trace := w_trace w @ [Sent (key_fd key) (take n p)]\<rparr>) \<and>
    buffer_inv b \<and> buffer_pending b = drop n p"
proof -
  obtain b where b: "buffer_read_adv (mc_wb (mo_commands m)) (int n) = Inr b" "buffer_inv b" "buffer_pending b = drop n p"
    using buffer_read_adv_ok [OF wb(1), of n] by (auto simp: n_def p_def simp del: length_buffer_pending)
  have w: "sys_write (key_fd key) p w = Inr (Inr n, w\<lparr>w_calls := Suc (w_calls w), w_trace := w_trace w @ [Sent (key_fd key) (take n p)]\<rparr>)"
    using a by (simp add: sys_write_def syscall_def record_effect_def n_def Let_def)
  have "monitor_flush key mid w = Inr (True, (put_monitor mid (m\<lparr>mo_commands := (mo_commands m)\<lparr>mc_wb := buffer_compact b\<rparr>\<rparr>) w)
        \<lparr>w_calls := Suc (w_calls w), w_trace := w_trace w @ [Sent (key_fd key) (take n p)]\<rparr>)"
    using m wb w b(1) open1 unfolding p_def
    by (simp add: monitor_flush_def act_lift_def act_bind_def act_then_def buffer_read_ptr_ok monitor_commands_should_close_def
        del: length_buffer_pending)
  then show ?thesis using b by (intro exI [of _ "buffer_compact b"]) simp
qed

section \<open>The read handler\<close>

lemma rearm_run:
  assumes "w_monitors w mid = Some m" and sel: "sel_inv (w_sel w)"
    and reg: "registered (w_sel w) (key_fd key) = Some (h, i, d)"
  shows "\<exists>s. rearm key mid w = Inr ((), put_sel s w) \<and> sel_inv s \<and>
    registered s = (registered (w_sel w))(key_fd key \<mapsto> (h, monitor_client_interest m, d))"
proof -
  obtain s where s: "selector_set_interest (w_sel w) (key_fd key) (monitor_client_interest m) = Inr (SELECTOR_SUCCESS, s)"
    "sel_inv s" "registered s = (registered (w_sel w))(key_fd key \<mapsto> (h, monitor_client_interest m, d))"
    using set_interest_ok [OF sel reg] by auto
  have "\<not> INVALID_FD (key_fd key)"
  proof
    assume "INVALID_FD (key_fd key)"
    then have "selector_set_interest (w_sel w) (key_fd key) (monitor_client_interest m) = Inr (SELECTOR_IARGS, w_sel w)"
      by (simp add: selector_set_interest_def)
    then show False using s(1) by simp
  qed
  then show ?thesis using assms(1) s
    by (intro exI [of _ s]) (simp add: rearm_def set_interest_key_def selector_set_interest_key_def)
qed

lemma monitor_read_run:
  assumes m: "w_monitors w mid = Some m" and rb: "buffer_inv (mo_rb m)" "buffer_pending (mo_rb m) = []" "0 < buffer_room (mo_rb m)"
    and sel: "sel_inv (w_sel w)" and reg: "registered (w_sel w) (key_fd key) = Some (h, i, d)"
    and rd: "0 \<le> o_ret (w_os w (w_calls w))" and wr: "0 \<le> o_ret (w_os w (Suc (w_calls w)))"
    and bs: "bs = take (buffer_room (mo_rb m)) (o_data (w_os w (w_calls w)))" "bs \<noteq> []"
    and f: "monitor_commands_feed (w_env w) bs (w_store w, mo_commands m) = Inr (store1, s1)"
    and wb: "buffer_inv (mc_wb s1)" and open1: "\<not> mc_close_after_flush s1"
    and p: "p = buffer_pending (mc_wb s1)" and n: "n = min (nat (o_ret (w_os w (Suc (w_calls w))))) (length p)"
  shows "\<exists>w' m'. monitor_client_read key mid w = Inr ((), w') \<and> w_monitors w' mid = Some m' \<and> w_store w' = store1 \<and>
    buffer_inv (mo_rb m') \<and> buffer_pending (mo_rb m') = [] \<and> buffer_inv (mc_wb (mo_commands m')) \<and>
    mo_commands m' = s1\<lparr>mc_wb := mc_wb (mo_commands m')\<rparr> \<and> buffer_pending (mc_wb (mo_commands m')) = drop n p \<and>
    w_trace w' = w_trace w @ Received (key_fd key) bs # (if p = [] then [] else [Sent (key_fd key) (take n p)]) \<and>
    sel_inv (w_sel w') \<and> registered (w_sel w') (key_fd key) = Some (h, monitor_client_interest m', d)"
proof -
  let ?fd = "key_fd key"
  let ?w1 = "w\<lparr>w_calls := Suc (w_calls w), w_trace := w_trace w @ [Received ?fd bs]\<rparr>"
  have "length bs \<le> buffer_room (mo_rb m)" using bs(1) by simp
  then obtain b where b: "buffer_push (mo_rb m) bs = Inr b" "buffer_inv b" "buffer_pending b = bs"
    using buffer_push_ok [OF rb(1), of bs] rb(2) by auto
  let ?m1 = "m\<lparr>mo_rb := b\<rparr>"
  let ?w2 = "put_monitor mid ?m1 ?w1"
  obtain b2 where feed: "feed_rb_to_commands mid ?w2 =
      Inr ((), (put_monitor mid (?m1\<lparr>mo_rb := b2, mo_commands := s1\<rparr>) ?w2)\<lparr>w_store := store1\<rparr>)"
    and b2: "buffer_inv b2" "buffer_pending b2 = []"
    using feed_rb_run [of ?w2 mid ?m1 store1 s1] b f by auto
  define m2 where "m2 = m\<lparr>mo_rb := b2, mo_commands := s1\<rparr>"
  define w3 where "w3 = (put_monitor mid m2 ?w1)\<lparr>w_store := store1\<rparr>"
  have m3: "w_monitors w3 mid = Some m2" "w_calls w3 = Suc (w_calls w)" "w_os w3 = w_os w" "w_trace w3 = w_trace w @ [Received ?fd bs]"
    "w_sel w3 = w_sel w" by (simp_all add: w3_def)
  obtain b3 w4 where fl: "monitor_flush key mid w3 = Inr (True, w4)" and b3: "buffer_inv b3" "buffer_pending b3 = drop n p"
    and w4: "w_monitors w4 mid = Some (m2\<lparr>mo_commands := s1\<lparr>mc_wb := b3\<rparr>\<rparr>)" "w_store w4 = store1" "w_sel w4 = w_sel w"
      "w_trace w4 = w_trace w @ Received ?fd bs # (if p = [] then [] else [Sent ?fd (take n p)])"
  proof (cases "p = []")
    case True
    have "monitor_flush key mid w3 = Inr (True, w3)"
      using m3 wb True p open1
      by (simp add: monitor_flush_def act_lift_def act_bind_def buffer_read_ptr_ok m2_def monitor_commands_should_close_def)
    then show ?thesis using True p wb m3 by (intro that [of w3 "mc_wb s1"]) (simp_all add: m2_def w3_def)
  next
    case False
    then obtain b3 where g: "monitor_flush key mid w3 =
        Inr (True, (put_monitor mid (m2\<lparr>mo_commands := s1\<lparr>mc_wb := b3\<rparr>\<rparr>) w3)
          \<lparr>w_calls := Suc (w_calls w3), w_trace := w_trace w3 @ [Sent ?fd (take n p)]\<rparr>)" "buffer_inv b3" "buffer_pending b3 = drop n p"
      using monitor_flush_run [of w3 mid m2 key] m3 wb wr open1 p n by (auto simp: m2_def)
    show ?thesis by (rule that [OF g]) (use False m3 in \<open>simp_all add: w3_def\<close>)
  qed
  obtain s5 where s5: "rearm key mid w4 = Inr ((), put_sel s5 w4)" "sel_inv s5"
    "registered s5 = (registered (w_sel w))(?fd \<mapsto> (h, monitor_client_interest (m2\<lparr>mo_commands := s1\<lparr>mc_wb := b3\<rparr>\<rparr>), d))"
    using rearm_run [OF w4(1), of key h i d] sel reg w4(3) by auto
  have "sys_read ?fd (buffer_room (mo_rb m)) w = Inr (Inr bs, ?w1)"
    using rd by (simp add: sys_read_def syscall_def record_effect_def bs(1))
  then have "monitor_client_read key mid w = Inr ((), put_sel s5 w4)"
    using m rb bs(2) b(1) feed fl s5(1)
    by (simp add: monitor_client_read_def act_lift_def act_bind_def act_then_def buffer_write_ptr_ok buffer_push_def w3_def m2_def)
  then show ?thesis
    using w4 b2 b3 s5
    by (intro exI [of _ "put_sel s5 w4"] exI [of _ "m2\<lparr>mo_commands := s1\<lparr>mc_wb := b3\<rparr>\<rparr>"]) (simp add: put_sel_def m2_def)
qed

end
