(* ===== verification/Demo_World.thy ===== *)
theory Demo_World
  imports Effects Relay_Flow Session_Faults Idle_Expiry Accepting Monitor_Flow
begin

text \<open>
  A concrete server on which the theorems about sessions are exercised: a multiplexer with eight slots in
  which descriptor 5 is the client and descriptor 6 the origin of session 0, a resolution that has just finished for the
  client, and a small store with one user and no rules.
\<close>

definition world_net :: net_lib where
  "world_net = \<lparr>inet_pton4 = (\<lambda>t. if t = ''10.0.0.1'' then Some [10, 0, 0, 1] else None), inet_pton6 = (\<lambda>_. None),
     inet_ntop4 = (\<lambda>b. if b = [10, 0, 0, 1] then Some ''10.0.0.1'' else Some ''10.0.0.2''), inet_ntop6 = (\<lambda>_. None)\<rparr>"

definition world_env :: cmd_env where
  "world_env = \<lparr>e_net = world_net, e_calloc = (\<lambda>_. None), e_realloc = True\<rparr>"

definition world_store :: monitor_store where
  "world_store = \<lparr>ms_users = [\<lparr>u_used = True, u_username = ''ana'', u_password = ''pw'', u_role = STORE_ROLE_USER\<rparr>], ms_user_count = 1,
     ms_metrics = \<lparr>total_connections = 0, concurrent_connections = 0, m_bytes_up = 0, m_bytes_down = 0\<rparr>,
     ms_log = [zero_log_entry], ms_log_count = 0, ms_log_head = 0, ms_next_log_id = 1, ms_timeout = 60, ms_sessions_cap = 2,
     ms_io_buffer_size = 16, ms_denied_hosts = None, ms_last_denied_host = None, ms_denied_addresses = None,
     ms_last_denied_addr = None, ms_sessions = [zero_node, zero_node], ms_next_session_id = 1, ms_rules = [], ms_stdout = []\<rparr>"

definition free_item :: "(handler_id, key_data) item" where
  "free_item = item_init zero_item"

definition used_item :: "int \<Rightarrow> handler_id \<Rightarrow> fd_interest \<Rightarrow> key_data \<Rightarrow> (handler_id, key_data) item" where
  "used_item fd h i d = \<lparr>it_fd = fd, it_interest = i, it_handler = Some h, it_data = Some d\<rparr>"

definition world_sel :: "(handler_id, key_data) fdselector" where
  "world_sel = \<lparr>sel_base = Some 1, sel_fds = [free_item, free_item, free_item, free_item, free_item,
       used_item 5 H_socks_client OP_READ (D_session 0), used_item 6 H_socks_origin OP_READ (D_session 0),
       free_item, free_item],
     fd_size = 9, resolution_jobs = [5], epoll_fd = 3, event_fd = 4, event_count = 0, events_capacity = 8,
     sel_epoll = [4 \<mapsto> EPOLLIN, 5 \<mapsto> interest_to_epoll OP_READ, 6 \<mapsto> interest_to_epoll OP_READ]\<rparr>"

lemma world_sel_inv: "sel_inv world_sel"
proof -
  have "i = 0 \<or> i = 1 \<or> i = 2 \<or> i = 3 \<or> i = 4 \<or> i = 5 \<or> i = 6 \<or> i = 7 \<or> i = 8" if "i < 9" for i :: nat using that by auto
  note cases9 = this
  have "item_ok {} world_sel i" if "i < 9" for i
    using cases9 [OF that] by (elim disjE) (simp_all add: item_ok_def world_sel_def free_item_def used_item_def ITEM_USED_def FD_UNUSED_def item_init_def
        SELECTOR_ITEMS_MAX_SIZE_def)
  then show ?thesis
    by (auto simp: sel_ok_def world_sel_def SELECTOR_ITEMS_MAX_SIZE_def split: if_splits)
qed

lemma world_registered:
  "registered world_sel 5 = Some (H_socks_client, OP_READ, Some (D_session 0))"
  "registered world_sel 6 = Some (H_socks_origin, OP_READ, Some (D_session 0))"
  "registered world_sel 7 = None"
  by (simp_all add: registered_def world_sel_def used_item_def free_item_def ITEM_USED_def FD_UNUSED_def item_init_def nth_Cons')

text \<open>A session with small buffers, alone on the idle list.\<close>

definition empty_buffer :: buffer where
  "empty_buffer = buffer_init 16 (replicate 16 0)"

definition world_session :: "nat \<Rightarrow> socks_session" where
  "world_session st = session_zeroed\<lparr>se_client_fd := 5, se_origin_fd := 6, se_c2o := empty_buffer, se_o2c := empty_buffer,
     se_cur := Some st, se_in_idle_list := True, se_auth := socks_auth_parser_init auth_zeroed,
     se_request := socks_request_parser_init request_zeroed\<rparr>"

text \<open>An answer of the system that succeeds with \<open>r\<close>.\<close>

definition answer_ok :: "int \<Rightarrow> byte list \<Rightarrow> os_answer" where
  "answer_ok r bs = \<lparr>o_ret = r, o_err = E_other, o_data = bs, o_alloc = None\<rparr>"

definition answer_err :: "errno \<Rightarrow> os_answer" where
  "answer_err e = \<lparr>o_ret = -1, o_err = e, o_data = [], o_alloc = None\<rparr>"

definition world_of :: "socks_session \<Rightarrow> (nat \<Rightarrow> os_answer) \<Rightarrow> world" where
  "world_of se os = \<lparr>w_sel = world_sel, w_store = world_store, w_env = world_env, w_sessions = [0 \<mapsto> se], w_monitors = (\<lambda>_. None),
     w_next = 1, w_socks = \<lparr>sv_listen_fd = -1, sv_port = 1080, sv_active_sessions = 1, sv_idle_head = Some 0, sv_idle_tail = Some 0\<rparr>,
     w_monitor = \<lparr>mv_listen_fd = -1, mv_port = 8080, mv_active_sessions = 0\<rparr>, w_stop = False, w_dns = [], w_os = os,
     w_calls = 0, w_open = [0, 1, 2, 3, 4, 5, 6], w_trace = []\<rparr>"

lemma world_of_fields [simp]:
  "w_sel (world_of se os) = world_sel" "w_store (world_of se os) = world_store" "w_env (world_of se os) = world_env"
  "w_sessions (world_of se os) = [0 \<mapsto> se]" "w_os (world_of se os) = os" "w_calls (world_of se os) = 0"
  "w_next (world_of se os) = 1" "w_trace (world_of se os) = []" "w_open (world_of se os) = [0, 1, 2, 3, 4, 5, 6]"
  "sv_idle_head (w_socks (world_of se os)) = Some 0" "w_stop (world_of se os) = False"
  by (simp_all add: world_of_def)

lemma world_buffers [simp]:
  "buffer_inv empty_buffer" "buffer_pending empty_buffer = []" "buffer_room empty_buffer = 16"
  by (simp_all add: empty_buffer_def)

lemma world_session_fields [simp]:
  "se_client_fd (world_session st) = 5" "se_origin_fd (world_session st) = 6" "se_c2o (world_session st) = empty_buffer"
  "se_o2c (world_session st) = empty_buffer" "se_cur (world_session st) = Some st" "se_store_id (world_session st) = 0"
  "session_now (world_session st) = st"
  by (simp_all add: world_session_def session_zeroed_def session_now_def)

lemma world_idle:
  "se_in_idle_list se \<Longrightarrow> se_idle_prev se = None \<Longrightarrow> se_idle_next se = None \<Longrightarrow> idle_list (world_of se os) [0]"
  by (auto simp: idle_list_def world_of_def)

lemma world_open:
  "st \<le> SOCKS_ST_DONE \<Longrightarrow> session_open 0 (world_session st) [0] (world_of (world_session st) os)"
  using world_sel_inv world_registered
  by (auto simp: session_open_def cur_ok_def origin_ok_def intro: world_idle) (auto simp: world_session_def session_zeroed_def intro: world_idle)

section \<open>A session that connects\<close>

definition client_key :: key where
  "client_key = \<lparr>key_fd = 5, key_data = Some (D_session 0)\<rparr>"

definition origin_addr :: sockaddr_storage where
  "origin_addr = \<lparr>ss_family = AF_INET, ss_port = 80, ss_addr4 = [10, 0, 0, 2], ss_addr6 = []\<rparr>"

text \<open>The name of the destination has been resolved; the connection is in progress.\<close>

definition resolved_session :: socks_session where
  "resolved_session = (world_session SOCKS_ST_RESOLVING)\<lparr>se_origin_fd := -1,
     se_dns_result := [\<lparr>ai_addr = origin_addr, ai_addrlen = 16\<rparr>]\<rparr>"

definition connect_os :: "nat \<Rightarrow> os_answer" where
  "connect_os k = (if k = 3 then answer_err EINPROGRESS else answer_ok 0 [])"

lemma world_sel_size [simp]: "fd_size world_sel = 9" "event_fd world_sel = 4"
  by (simp_all add: world_sel_def)

lemma world_lowest [simp]: "lowest_fd [0, 1, 2, 3, 4, 5, 6] = 7"
  by (simp add: lowest_fd_def upt_rec)

lemma origin_clear: "socks_dest_addr_is_denied world_net world_store (Some origin_addr) = Inr False"
  by (simp add: socks_dest_addr_is_denied_def origin_addr_def world_net_def is_ip_denied_def world_store_def acl_search_def)

lemma register_origin:
  "\<exists>s. selector_register None world_sel 7 (Some H_socks_origin) OP_WRITE (Some (D_session 0)) = Inr (SELECTOR_SUCCESS, s) \<and>
     sel_inv s \<and> registered s 5 = Some (H_socks_client, OP_READ, Some (D_session 0))"
  using register_below [OF world_sel_inv, of 7 None H_socks_origin OP_WRITE "Some (D_session 0)"] world_registered
  by (auto simp: SELECTOR_ITEMS_MAX_SIZE_def)

lemma resolved_connects:
  "\<exists>w2 se. socks_on_block_resolving client_key 0 (world_of resolved_session connect_os) = Inr (SOCKS_ST_ORIGIN_CONNECTING, w2) \<and>
     w_trace w2 = [Opened 7, Connecting 7 origin_addr world_store] \<and> w_sessions w2 0 = Some se \<and> se_cur se = Some SOCKS_ST_RESOLVING \<and>
     se_client_fd se = 5 \<and> se_o2c se = empty_buffer \<and> \<not> se_close_after_flush se \<and>
     sel_inv (w_sel w2) \<and> registered (w_sel w2) 5 = Some (H_socks_client, OP_READ, Some (D_session 0)) \<and>
     w_os w2 = connect_os \<and> sv_idle_head (w_socks w2) = Some 0 \<and> se_last_activity se = 0 \<and> w_store w2 = world_store"
  using register_origin
  by (clarsimp simp: socks_on_block_resolving_def socks_begin_origin_connect_def connect_target_def act_bind_def act_then_def
      act_lift_def syscall_def record_effect_def sys_open_def selector_fd_set_nio_def sys_ok_def sys_connect_def resolved_session_def connect_os_def
      answer_ok_def answer_err_def origin_clear world_env_def register_fd_def put_sel_def world_session_def session_zeroed_def
      session_get_def session_mod_def)

lemma block_connects:
  "\<exists>w'. socks_client_block client_key 0 (world_of resolved_session connect_os) = Inr ((), w') \<and>
     w_trace w' = [Opened 7, Connecting 7 origin_addr world_store] \<and> w_os w' = connect_os \<and> w_store w' = world_store \<and>
     sv_idle_head (w_socks w') = Some 0 \<and> (\<exists>se. w_sessions w' 0 = Some se \<and> se_last_activity se = 0)"
proof -
  obtain w2 se where b: "socks_on_block_resolving client_key 0 (world_of resolved_session connect_os) = Inr (SOCKS_ST_ORIGIN_CONNECTING, w2)"
    and t: "w_trace w2 = [Opened 7, Connecting 7 origin_addr world_store]" and s: "w_sessions w2 0 = Some se"
      "se_cur se = Some SOCKS_ST_RESOLVING" "se_client_fd se = 5" "se_o2c se = empty_buffer" "\<not> se_close_after_flush se"
    and sel: "sel_inv (w_sel w2)" "registered (w_sel w2) 5 = Some (H_socks_client, OP_READ, Some (D_session 0))"
    and f: "w_os w2 = connect_os" "sv_idle_head (w_socks w2) = Some 0" "se_last_activity se = 0" "w_store w2 = world_store"
    using resolved_connects by blast
  let ?se = "se\<lparr>se_cur := Some SOCKS_ST_ORIGIN_CONNECTING\<rparr>"
  have "put_session 0 (resolved_session\<lparr>se_cur := Some SOCKS_ST_RESOLVING\<rparr>) (world_of resolved_session connect_os) = world_of resolved_session connect_os"
  proof -
    have "resolved_session\<lparr>se_cur := Some SOCKS_ST_RESOLVING\<rparr> = resolved_session" by (rule cur_same) (simp add: resolved_session_def)
    then show ?thesis by (simp only: put_session_same world_of_fields fun_upd_same)
  qed
  then have st: "session_stm_block client_key 0 (world_of resolved_session connect_os) = Inr ((), put_session 0 ?se w2)"
    using b s by (intro stm_block_run [where se = resolved_session])
      (simp_all add: resolved_session_def session_now_def cur_ok_def world_session_def socks_st_defs)
  obtain s4 where s4: "selector_set_interest (w_sel w2) 5 (socks_client_interest ?se) = Inr (SELECTOR_SUCCESS, s4)"
    using set_interest_ok [OF sel, of "socks_client_interest ?se"] by auto
  have "socks_client_block client_key 0 (world_of resolved_session connect_os) = Inr ((), put_sel s4 (put_session 0 ?se w2))"
    using st s s4 by (simp add: socks_client_block_def socks_flush_client_def act_bind_def act_then_def act_lift_def buffer_read_ptr_ok
        client_read_end_def socks_close_if_flushed_def client_rearm_def set_interest_key_def selector_set_interest_key_def
        client_key_def INVALID_FD_def SELECTOR_ITEMS_MAX_SIZE_def)
  then show ?thesis using t f by (intro exI [of _ "put_sel s4 (put_session 0 ?se w2)"]) simp
qed

end
