(* ===== verification/Server_Properties.thy ===== *)
theory Server_Properties
  imports Demo_World
begin

text \<open>
  The theorems about the running server: what the event handlers of \<^verbatim>\<open>socks.c\<close>, \<^verbatim>\<open>monitor.c\<close> and
  \<^verbatim>\<open>selector.c\<close> do to the sessions, the store, the descriptors and the sockets. Each theorem is followed by an
  instance on the concrete server of \<open>Demo_World\<close>.
\<close>

declare heap_simps(3) [simp del]

text \<open>A buffer that holds the bytes \<open>bs\<close>.\<close>

definition filled :: "byte list \<Rightarrow> buffer" where
  "filled bs = (case buffer_push empty_buffer bs of Inr b \<Rightarrow> b | Inl _ \<Rightarrow> empty_buffer)"

lemma filled_fields:
  assumes "length bs \<le> 16"
  shows "buffer_inv (filled bs)" "buffer_pending (filled bs) = bs" "buffer_room (filled bs) = 16 - length bs"
  using buffer_push_ok [of empty_buffer bs] assms by (auto simp: filled_def)

section \<open>Sessions\<close>

text \<open>
  Every address that a handler of a SOCKS session hands to \<^verbatim>\<open>connect\<close>, whether the
  client gave it literally or the resolver returned it, has passed the test against the denied addresses of the store, and no
  handler changes the access lists, the users or the configuration.
\<close>

theorem denied_never_connected:
  assumes "h \<in> {socks_client_read, socks_client_write, socks_client_block, socks_origin_read, socks_origin_write}"
    and "h key sid w = Inr ((), w')"
  shows "store_policy (w_store w') = store_policy (w_store w) \<and>
    (\<exists>new. w_trace w' = w_trace w @ new \<and>
       (\<forall>fd a st. Connecting fd a st \<in> set new \<longrightarrow> socks_dest_addr_is_denied (e_net (w_env w)) (w_store w) (Some a) = Inr False))"
proof -
  have "pe.keeps {} (h key sid)" using assms(1) pe.keeps_handlers by auto
  then have "within_policy w w'" using assms(2) by (auto simp: pe.keeps_def)
  then show ?thesis by (auto simp: within_policy_def addr_clear_def)
qed

theorem denied_never_connected_witness:
  "\<exists>w'. socks_client_block client_key 0 (world_of resolved_session connect_os) = Inr ((), w') \<and>
     w_trace w' = [Opened 7, Connecting 7 origin_addr world_store] \<and>
     socks_dest_addr_is_denied (e_net world_env) world_store (Some origin_addr) = Inr False"
proof -
  obtain w' where w': "socks_client_block client_key 0 (world_of resolved_session connect_os) = Inr ((), w')"
    "w_trace w' = [Opened 7, Connecting 7 origin_addr world_store]"
    using block_connects by blast
  from denied_never_connected [where h = socks_client_block, OF _ w'(1)] w' show ?thesis by auto
qed

text \<open>
  \<^bold>\<open>C13\<close>. A read event of a session in the greeting state runs the parser over the buffered
  bytes to the end of the message and no further. However the message was cut into earlier reads (\<open>seen\<close>), the session
  moves to the state that RFC 1928 gives for the whole message, appends exactly the method selection to the bytes for the
  client, keeps the bytes behind the message for the next state, and asks for the connection to be closed on a refusal. An
  anonymous session is recorded as such in the store.
\<close>

theorem greeting_session:
  assumes "w_sessions w sid = Some se" and "buffer_inv (se_c2o se)" and "buffer_inv (se_o2c se)" "2 \<le> buffer_room (se_o2c se)"
    and "session_now se = SOCKS_ST_AUTH_GREETING"
    and "consume socks_greeting_parser_feed greeting_more socks_greeting_parser_init seen = Inr (None, se_greeting se, [])"
    and "greeting_step (greeting_ref (seen @ buffer_pending (se_c2o se))) = (nxt, ans, rest, fin)"
  shows "\<exists>se'. session_stm_read key sid w = Inr ((), (put_session sid se' w)
        \<lparr>w_store := greeting_store nxt (se_store_id se) (w_store w)\<rparr>) \<and>
    step_result (nxt, ans, rest, fin) se se' \<and> se_auth se' = se_auth se \<and>
    (nxt = SOCKS_ST_AUTH_GREETING \<longrightarrow>
      consume socks_greeting_parser_feed greeting_more socks_greeting_parser_init (seen @ buffer_pending (se_c2o se)) =
        Inr (None, se_greeting se', []))"
  using assms by (rule greeting_run)

theorem greeting_session_witness:
  "\<exists>se' st. session_stm_read client_key 0 (world_of ((world_session SOCKS_ST_AUTH_GREETING)
        \<lparr>se_greeting := socks_greeting_parser_init, se_c2o := filled [5, 1, 2, 9]\<rparr>) connect_os) =
      Inr ((), (put_session 0 se' (world_of ((world_session SOCKS_ST_AUTH_GREETING)
        \<lparr>se_greeting := socks_greeting_parser_init, se_c2o := filled [5, 1, 2, 9]\<rparr>) connect_os))\<lparr>w_store := st\<rparr>) \<and>
    se_cur se' = Some SOCKS_ST_AUTH_USERPASS \<and> buffer_pending (se_c2o se') = [9] \<and> buffer_pending (se_o2c se') = [5, 2]"
proof -
  let ?se = "(world_session SOCKS_ST_AUTH_GREETING)\<lparr>se_greeting := socks_greeting_parser_init, se_c2o := filled [5, 1, 2, 9]\<rparr>"
  have f: "buffer_inv (filled [5, 1, 2, 9])" "buffer_pending (filled [5, 1, 2, 9]) = [5, 1, 2, 9]"
    by (simp_all add: filled_fields)
  have r: "greeting_step (greeting_ref ([] @ buffer_pending (se_c2o ?se))) = (SOCKS_ST_AUTH_USERPASS, [5, 2], [9], False)"
    unfolding socks_session.simps f by code_simp
  have now: "session_now ?se = SOCKS_ST_AUTH_GREETING" by (simp add: session_now_def)
  have c: "consume socks_greeting_parser_feed greeting_more socks_greeting_parser_init [] = Inr (None, se_greeting ?se, [])"
    by simp
  from greeting_session [of "world_of ?se connect_os" 0 ?se "[]" _ _ _ _ client_key, OF _ _ _ _ now c r] f
  show ?thesis by (auto simp: step_result_def)
qed

text \<open>
  \<^bold>\<open>C3\<close>. A session in the user/password state reaches the request state only with the name and password of a
  user of the store (compared as C strings), which is then recorded; it answers \<open>1 0\<close> in that case and \<open>1 1\<close>, closing,
  in every other, again however the message was cut into reads.
\<close>

theorem auth_session:
  assumes "w_sessions w sid = Some se" and "buffer_inv (se_c2o se)" and "buffer_inv (se_o2c se)" "2 \<le> buffer_room (se_o2c se)"
    and "session_now se = SOCKS_ST_AUTH_USERPASS" and "auth_arrays p0"
    and "consume socks_auth_parser_feed auth_more (socks_auth_parser_init p0) seen = Inr (None, se_auth se, [])"
    and "auth_step (known_user (w_store w)) (auth_ref (seen @ buffer_pending (se_c2o se))) = (nxt, ans, rest, fin)"
  shows "\<exists>se' u. session_stm_read key sid w = Inr ((), (put_session sid se' w)
        \<lparr>w_store := auth_store nxt (se_store_id se) u (w_store w)\<rparr>) \<and>
    step_result (nxt, ans, rest, fin) se se' \<and>
    (nxt = SOCKS_ST_REQUEST \<longrightarrow>
      (\<exists>pw. auth_ref (seen @ buffer_pending (se_c2o se)) = Some (SOCKS_AUTH_PARSED, Some (u, pw), rest))) \<and>
    (nxt = SOCKS_ST_AUTH_USERPASS \<longrightarrow>
      consume socks_auth_parser_feed auth_more (socks_auth_parser_init p0) (seen @ buffer_pending (se_c2o se)) =
        Inr (None, se_auth se', []))"
  using assms by (rule auth_run)

theorem auth_session_witness:
  "\<exists>se' st. session_stm_read client_key 0 (world_of ((world_session SOCKS_ST_AUTH_USERPASS)
        \<lparr>se_c2o := filled [1, 3, 97, 110, 97, 2, 112, 119, 5]\<rparr>) connect_os) =
      Inr ((), (put_session 0 se' (world_of ((world_session SOCKS_ST_AUTH_USERPASS)
        \<lparr>se_c2o := filled [1, 3, 97, 110, 97, 2, 112, 119, 5]\<rparr>) connect_os))\<lparr>w_store := st\<rparr>) \<and>
    se_cur se' = Some SOCKS_ST_REQUEST \<and> buffer_pending (se_c2o se') = [5] \<and> buffer_pending (se_o2c se') = [1, 0]"
proof -
  let ?bs = "[1, 3, 97, 110, 97, 2, 112, 119, 5] :: byte list"
  let ?se = "(world_session SOCKS_ST_AUTH_USERPASS)\<lparr>se_c2o := filled ?bs\<rparr>"
  have f: "buffer_inv (filled ?bs)" "buffer_pending (filled ?bs) = ?bs"
    by (simp_all add: filled_fields)
  have r0: "auth_step (known_user world_store) (auth_ref ?bs) = (SOCKS_ST_REQUEST, [1, 0], [5], False)"
    by code_simp
  have r: "auth_step (known_user (w_store (world_of ?se connect_os))) (auth_ref ([] @ buffer_pending (se_c2o ?se))) =
      (SOCKS_ST_REQUEST, [1, 0], [5], False)"
    using r0 f by simp
  have now: "session_now ?se = SOCKS_ST_AUTH_USERPASS" by (simp add: session_now_def)
  have p: "auth_arrays auth_zeroed" by (simp add: auth_arrays_def auth_zeroed_def)
  have c: "consume socks_auth_parser_feed auth_more (socks_auth_parser_init auth_zeroed) [] = Inr (None, se_auth ?se, [])"
    by (simp add: world_session_def)
  from auth_session [of "world_of ?se connect_os" 0 ?se auth_zeroed "[]" _ _ _ _ client_key, OF _ _ _ _ now p c r] f
  show ?thesis by (auto simp: step_result_def)
qed

text \<open>A relay session whose origin becomes writable with two bytes pending and takes one of them.\<close>

definition relay_session :: socks_session where
  "relay_session = (world_session SOCKS_ST_RELAY)\<lparr>se_c2o := filled [7, 8]\<rparr>"

definition relay_os :: "nat \<Rightarrow> os_answer" where
  "relay_os k = answer_ok 1 []"

definition origin_key :: key where
  "origin_key = \<lparr>key_fd = 6, key_data = Some (D_session 0)\<rparr>"

lemma world_in_list [simp]: "se_in_idle_list (world_session st)" "sv_idle_tail (w_socks (world_of se os)) = Some 0"
  by (simp_all add: world_session_def world_of_def)

lemma touch_tail:
  assumes "w_sessions w sid = Some se" "se_in_idle_list se" "sv_idle_tail (w_socks w) = Some sid"
  shows "socks_session_touch sid w = Inr ((), w\<lparr>w_calls := Suc (w_calls w),
    w_sessions := (w_sessions w)(sid \<mapsto> se\<lparr>se_last_activity := o_ret (w_os w (w_calls w))\<rparr>)\<rparr>)"
  using assms by (simp add: socks_session_touch_def idle_list_push_tail_def sys_time_def syscall_def act_when_def put_session_def)

lemma flush_one:
  "\<exists>w' b se'. socks_flush_origin 0 (world_of relay_session relay_os) = Inr (True, w') \<and> w_sel w' = world_sel \<and>
     w_trace w' = [Sent 6 [7]] \<and> w_sessions w' 0 = Some se' \<and> se_client_fd se' = 5 \<and> se_origin_fd se' = 6 \<and>
     se_c2o se' = b \<and> buffer_inv b \<and> buffer_pending b = [8]"
proof -
  have f: "buffer_inv (filled [7, 8])" "buffer_pending (filled [7, 8]) = [7, 8]" by (simp_all add: filled_fields)
  obtain b where b: "buffer_read_adv (filled [7, 8]) (int 1) = Inr b" "buffer_inv b" "buffer_pending b = [8]"
    using buffer_read_adv_ok [OF f(1), of 1] f(2) by auto
  show ?thesis using f b
    by (simp add: socks_flush_origin_def relay_session_def act_bind_def act_then_def act_lift_def buffer_read_ptr_ok
        sys_write_def syscall_def record_effect_def relay_os_def answer_ok_def session_mod_def session_get_def touch_tail
        session_add_bytes_def act_when_def)
qed

lemma origin_write_one:
  "\<exists>w' se'. socks_origin_write origin_key 0 (world_of relay_session relay_os) = Inr ((), w') \<and>
     w_trace w' = [Sent 6 [7]] \<and> w_sessions w' 0 = Some se' \<and> se_origin_fd se' = 6 \<and> buffer_pending (se_c2o se') = [8]"
proof -
  obtain w1 b se where w1: "socks_flush_origin 0 (world_of relay_session relay_os) = Inr (True, w1)" "w_sel w1 = world_sel"
    "w_trace w1 = [Sent 6 [7]]" "w_sessions w1 0 = Some se" "se_client_fd se = 5" "se_origin_fd se = 6"
    "se_c2o se = b" "buffer_pending b = [8]"
    using flush_one by blast
  obtain s1 where s1: "selector_set_interest world_sel 6 (socks_origin_interest se) = Inr (SELECTOR_SUCCESS, s1)" "sel_inv s1"
    "registered s1 = (registered world_sel)(6 \<mapsto> (H_socks_origin, socks_origin_interest se, Some (D_session 0)))"
    using set_interest_ok [OF world_sel_inv world_registered(2), of "socks_origin_interest se"] by auto
  then have "registered s1 5 = Some (H_socks_client, OP_READ, Some (D_session 0))" by (simp add: world_registered)
  then obtain s2 where s2: "selector_set_interest s1 5 (socks_client_interest se) = Inr (SELECTOR_SUCCESS, s2)"
    using set_interest_ok [OF s1(2), of 5 _ _ _ "socks_client_interest se"] by auto
  have "session_state 0 (world_of relay_session relay_os) = Inr (SOCKS_ST_RELAY, world_of relay_session relay_os)"
    using session_state_run [of "world_of relay_session relay_os" 0 relay_session]
    by (simp add: relay_session_def session_now_def cur_ok_def socks_st_defs)
  then show ?thesis using w1 s1(1) s2
    by (simp add: socks_origin_write_def act_bind_def act_then_def set_interest_key_def set_interest_def selector_set_interest_key_def
        origin_key_def INVALID_FD_def SELECTOR_ITEMS_MAX_SIZE_def socks_st_defs)
qed

text \<open>
  \<^bold>\<open>C6\<close>. While a session relays, under any interleaving of the readable and writable events of its two
  descriptors, with partial reads and writes, full buffers and \<^verbatim>\<open>EAGAIN\<close>, the bytes sent to the origin are the bytes received
  from the client, in order and once each, up to those still in the buffer, and likewise in the other direction.
\<close>

theorem relay_fifo:
  assumes "(relay_step sid)\<^sup>*\<^sup>* w w'" and "w_sessions w sid = Some se" and "relay_wf se"
    and "w_sessions w' sid = Some se'" and "0 \<le> se_origin_fd se'"
  shows "\<exists>new. w_trace w' = w_trace w @ new \<and> in_order se new se'"
  using assms by (rule relay_in_order)

theorem relay_fifo_witness:
  "\<exists>w' se'. (relay_step 0)\<^sup>*\<^sup>* (world_of relay_session relay_os) w' \<and> w_sessions w' 0 = Some se' \<and>
     w_trace w' = [Sent 6 [7]] \<and> in_order relay_session [Sent 6 [7]] se'"
proof -
  obtain w' se' where w': "socks_origin_write origin_key 0 (world_of relay_session relay_os) = Inr ((), w')"
    "w_trace w' = [Sent 6 [7]]" "w_sessions w' 0 = Some se'" "se_origin_fd se' = 6"
    using origin_write_one by blast
  have "relay_step 0 (world_of relay_session relay_os) w'"
    by (rule origin_writable [of 0 _ relay_session origin_key])
      (simp_all add: relaying_def relay_session_def origin_key_def w'(1) [unfolded relay_session_def origin_key_def])
  then have step: "(relay_step 0)\<^sup>*\<^sup>* (world_of relay_session relay_os) w'" by simp
  have wf: "relay_wf relay_session" by (simp add: relay_wf_def relay_session_def filled_fields)
  from relay_fifo [OF step _ wf w'(3)] w' step show ?thesis by auto
qed

text \<open>
  \<^bold>\<open>C7\<close>. Unregistering the client descriptor of a session runs the close handlers to the end without touching
  freed memory: the origin and then the client descriptor are closed once each, both leave the multiplexer, the session is freed
  and taken off the idle list, every other session keeps its contents, the active sessions decrease by one and the
  session of the store is ended or marked as expired.
\<close>

theorem client_closed:
  assumes "session_open sid se ids w"
  shows "\<exists>w'. unregister (se_client_fd se) w = Inr ((), w') \<and> session_closed sid se ids w w'"
  using assms by (rule unregister_client)

theorem client_closed_witness:
  "\<exists>w'. unregister 5 (world_of (world_session SOCKS_ST_RELAY) connect_os) = Inr ((), w') \<and>
     session_closed 0 (world_session SOCKS_ST_RELAY) [0] (world_of (world_session SOCKS_ST_RELAY) connect_os) w' \<and>
     w_open w' = [0, 1, 2, 3, 4] \<and> w_trace w' = [Closed 6, Closed 5]"
proof -
  obtain w' where w': "unregister 5 (world_of (world_session SOCKS_ST_RELAY) connect_os) = Inr ((), w')"
    "session_closed 0 (world_session SOCKS_ST_RELAY) [0] (world_of (world_session SOCKS_ST_RELAY) connect_os) w'"
    using client_closed [OF world_open [of SOCKS_ST_RELAY connect_os]] by (auto simp: socks_st_defs)
  from w'(2) have "w_open w' = [0, 1, 2, 3, 4]" "w_trace w' = [Closed 6, Closed 5]"
    by (simp_all add: session_closed_def)
  with w' show ?thesis by blast
qed

text \<open>
  \<^bold>\<open>C38\<close>. The request handler answers a malformed or unsupported request through
  \<^verbatim>\<open>socks_fail_request\<close>, which flushes the answer at once. When that \<^verbatim>\<open>send\<close> fails (the client has reset the
  connection) the session is unregistered and freed, and the state machine then records the next state in the freed session.
\<close>

theorem rejected_request_use_after_free:
  assumes "session_open sid se ids w" and "buffer_inv (se_c2o se)" and "buffer_inv (se_o2c se)" "10 \<le> buffer_room (se_o2c se)"
    and "session_now se = SOCKS_ST_REQUEST" and "request_arrays p0"
    and "consume socks_request_parser_feed request_more (socks_request_parser_init p0) seen = Inr (None, se_request se, [])"
    and "request_ref (seen @ buffer_pending (se_c2o se)) = Some (st, None, rest)"
    and "write_fails (if se_store_id se = STORE_SESSION_INVALID then 0 else 1) w"
  shows "session_stm_read key sid w = Inl Use_after_free"
  using assms by (rule rejected_request_freed)

definition reset_session :: socks_session where
  "reset_session = (world_session SOCKS_ST_REQUEST)\<lparr>se_c2o := filled [4]\<rparr>"

definition reset_os :: "nat \<Rightarrow> os_answer" where
  "reset_os k = answer_err E_other"

theorem rejected_request_use_after_free_witness:
  "session_stm_read client_key 0 (world_of reset_session reset_os) = Inl Use_after_free"
proof -
  have so: "session_open 0 reset_session [0] (world_of reset_session reset_os)"
    using world_sel_inv world_registered
    by (auto simp: session_open_def cur_ok_def origin_ok_def reset_session_def world_session_def session_zeroed_def session_now_def socks_st_defs intro: world_idle)
  have r: "request_ref ([] @ buffer_pending (se_c2o reset_session)) = Some (SOCKS_REQUEST_REJECT, None, [])"
    by (simp add: reset_session_def filled_fields)
  show ?thesis
    by (rule rejected_request_use_after_free [OF so _ _ _ _ _ _ r, of request_zeroed])
      (simp_all add: reset_session_def filled_fields session_now_def write_fails_def reset_os_def answer_err_def
        request_arrays_def request_zeroed_def world_session_def)
qed



section \<open>Idle sessions\<close>

text \<open>
  \<^bold>\<open>C15\<close>. The intrusive list of idle sessions, with its head and tail in the server and its links in the
  sessions, is a list of distinct sessions: \<^verbatim>\<open>idle_list_push_tail\<close> moves or adds a session to the end, \<^verbatim>\<open>idle_list_remove\<close>
  takes it out wherever it stands, both without dangling links and without changing anything else.
\<close>

theorem idle_list_refines:
  assumes "idle_list w ids" and "w_sessions w sid = Some se"
  shows "(\<exists>w'. idle_list_push_tail sid w = Inr ((), w') \<and> idle_list w' (remove1 sid ids @ [sid]) \<and> idle_frame w w') \<and>
    (\<exists>w'. idle_list_remove sid w = Inr ((), w') \<and> idle_list w' (remove1 sid ids) \<and> idle_frame w w')"
  using idle_push_ok [OF assms] idle_remove_ok [OF assms(1), of sid] assms(2) by (auto simp: act_ok_iff)

theorem idle_list_refines_witness:
  "\<exists>w'. idle_list_remove 0 (world_of (world_session SOCKS_ST_RELAY) relay_os) = Inr ((), w') \<and> idle_list w' []"
  using idle_list_refines [of "world_of (world_session SOCKS_ST_RELAY) relay_os" "[0]" 0 "world_session SOCKS_ST_RELAY"]
    world_open [of SOCKS_ST_RELAY relay_os]
  by (auto simp: session_open_def socks_st_defs)



section \<open>Accepting clients\<close>

text \<open>
  \<^bold>\<open>C23\<close>. A connection accepted with room in the store and memory available becomes an open session in the greeting
  state with empty buffers of the configured size and a session of the store, registered for reading and last on the idle
  list; nothing is sent.
\<close>

theorem accept_opens:
  assumes "sel_inv (w_sel w)" and "fd_free fd w" and "idle_list w ids" and "w_sessions w (w_next w) = None"
    and "store_session_begin (w_store w) = (i, store1)" "i \<noteq> STORE_SESSION_INVALID"
    and "\<forall>k < 3. 0 \<le> o_ret (os_at k w)"
  shows "\<exists>w' se. accept_client fd w = Inr ((), w') \<and> session_open (w_next w) se (ids @ [w_next w]) w' \<and>
    fresh_client fd i (socks_session_buffer_size store1) se \<and> w_store w' = store1 \<and>
    sv_active_sessions (w_socks w') = Suc (sv_active_sessions (w_socks w)) \<and> w_trace w' = w_trace w"
  using assms by (rule accept_ok)

lemma world_begins: "\<exists>store1. store_session_begin world_store = (1, store1)"
  by (simp add: store_session_begin_def world_store_def zero_node_def)

theorem accept_opens_witness:
  "\<exists>w' se. accept_client 7 (world_of (world_session SOCKS_ST_RELAY) relay_os) = Inr ((), w') \<and>
     session_open 1 se [0, 1] w' \<and> se_client_fd se = 7 \<and> w_trace w' = []"
proof -
  let ?w = "world_of (world_session SOCKS_ST_RELAY) relay_os"
  obtain store1 where b: "store_session_begin (w_store ?w) = (1, store1)" using world_begins by auto
  have il: "idle_list ?w [0]" using world_open [of SOCKS_ST_RELAY relay_os] by (simp add: session_open_def socks_st_defs)
  have fd: "fd_free 7 ?w" using world_registered by (simp add: fd_free_def SELECTOR_ITEMS_MAX_SIZE_def)
  show ?thesis using accept_opens [OF _ fd il _ b] world_sel_inv
    by (fastforce simp: os_at_def relay_os_def answer_ok_def fresh_client_def)
qed

text \<open>
  When the store is full, or an allocation fails at any point, \<^verbatim>\<open>accept_client\<close> closes
  the descriptor and leaves sessions, multiplexer, idle list and counters as they were; a store session already begun is ended.
\<close>

theorem accept_refused_clean:
  assumes "store_session_begin (w_store w) = (i, store1)" and "w_sessions w (w_next w) = None"
    and "i = STORE_SESSION_INVALID \<or> (\<exists>k < 3. o_ret (os_at k w) < 0)"
  shows "\<exists>w'. accept_client fd w = Inr ((), w') \<and> refused fd w w' \<and>
    w_store w' = (if i = STORE_SESSION_INVALID then store1 else store_session_end store1 i)"
  using assms by (rule accept_refused)

theorem accept_refused_clean_witness:
  "\<exists>w'. accept_client 7 (world_of (world_session SOCKS_ST_RELAY) reset_os) = Inr ((), w') \<and>
     refused 7 (world_of (world_session SOCKS_ST_RELAY) reset_os) w'"
proof -
  obtain store1 where "store_session_begin (w_store (world_of (world_session SOCKS_ST_RELAY) reset_os)) = (1, store1)"
    using world_begins by auto
  moreover have "\<exists>k < 3. o_ret (os_at k (world_of (world_session SOCKS_ST_RELAY) reset_os)) < 0"
    by (intro exI [of _ 0]) (simp add: os_at_def reset_os_def answer_err_def)
  ultimately show ?thesis using accept_refused_clean [of "world_of (world_session SOCKS_ST_RELAY) reset_os" 1 store1 7] by fastforce
qed

section \<open>The multiplexer\<close>

text \<open>
  Registering a free descriptor inside the table, or behind it when the table can be enlarged, and
  then changing its interest leave exactly the new binding and every other one as it was, in \<^verbatim>\<open>epoll\<close> too; registering
  it again is refused without any change.
\<close>

theorem register_exact:
  assumes "sel_inv s" and "0 \<le> fd" "fd < int SELECTOR_ITEMS_MAX_SIZE" and "fd \<noteq> event_fd s" and "registered s fd = None"
    and "fd < int (fd_size s) \<or> int (fd_size s) < fd \<and> mem = Some (a, junk) \<and> event_low s"
  shows "\<exists>s1 s2. selector_register mem s fd (Some h) i d = Inr (SELECTOR_SUCCESS, s1) \<and>
    selector_set_interest s1 fd i' = Inr (SELECTOR_SUCCESS, s2) \<and> sel_inv s2 \<and>
    registered s2 = (registered s)(fd \<mapsto> (h, i', d)) \<and>
    selector_register mem s2 fd (Some h') i'' d' = Inr (SELECTOR_FDINUSE, s2)"
proof -
  have "\<exists>s1. selector_register mem s fd (Some h) i d = Inr (SELECTOR_SUCCESS, s1) \<and> sel_inv s1 \<and>
      registered s1 = (registered s)(fd \<mapsto> (h, i, d))"
    using assms(6) register_grows [OF assms(1) _ assms(3,4), of a junk h i d] st.register_law [OF assms(1) _ assms(5), of mem h i d] assms(2-4)
    by fastforce
  then obtain s1 where s1: "selector_register mem s fd (Some h) i d = Inr (SELECTOR_SUCCESS, s1)" "sel_inv s1"
    "registered s1 = (registered s)(fd \<mapsto> (h, i, d))" by blast
  obtain s2 where s2: "selector_set_interest s1 fd i' = Inr (SELECTOR_SUCCESS, s2)" "sel_inv s2"
    "registered s2 = (registered s)(fd \<mapsto> (h, i', d))"
    using st.interest_law [OF s1(2), of fd h i d i'] s1(3) by auto
  have "registered s2 fd = Some (h, i', d)" using s2(3) by simp
  from register_in_use [OF s2(2) this assms(3)] s1 s2 show ?thesis by blast
qed

theorem register_exact_witness:
  "\<exists>s1 s2. selector_register None world_sel 7 (Some H_socks_origin) OP_WRITE None = Inr (SELECTOR_SUCCESS, s1) \<and>
    selector_set_interest s1 7 OP_READ = Inr (SELECTOR_SUCCESS, s2) \<and> registered s2 7 = Some (H_socks_origin, OP_READ, None) \<and>
    registered s2 5 = registered world_sel 5 \<and>
    selector_register None s2 7 (Some H_socks_client) OP_READ None = Inr (SELECTOR_FDINUSE, s2)"
proof -
  have "(0 :: int) \<le> 7" "7 < int SELECTOR_ITEMS_MAX_SIZE" "7 \<noteq> event_fd world_sel"
    "7 < int (fd_size world_sel) \<or> int (fd_size world_sel) < 7 \<and>
       (None :: (nat \<times> (nat \<Rightarrow> (handler_id, key_data) item)) option) = Some undefined \<and> event_low world_sel"
    by (simp_all add: SELECTOR_ITEMS_MAX_SIZE_def)
  note pre = this
  obtain s1 s2 where s: "selector_register None world_sel 7 (Some H_socks_origin) OP_WRITE None = Inr (SELECTOR_SUCCESS, s1)"
    "selector_set_interest s1 7 OP_READ = Inr (SELECTOR_SUCCESS, s2)"
    "registered s2 = (registered world_sel)(7 \<mapsto> (H_socks_origin, OP_READ, None))"
    "selector_register None s2 7 (Some H_socks_client) OP_READ None = Inr (SELECTOR_FDINUSE, s2)"
    using register_exact [OF world_sel_inv pre(1-3) world_registered(3), of None _ _ H_socks_origin OP_WRITE None OP_READ H_socks_client OP_READ None]
    by auto
  have "registered s2 7 = Some (H_socks_origin, OP_READ, None)" "registered s2 5 = registered world_sel 5" using s(3) by simp_all
  with s show ?thesis by blast
qed

text \<open>
  \<^verbatim>\<open>selector_register\<close> enlarges the table when the descriptor is greater than its size,
  not when it equals it: a descriptor equal to the size is looked up one element behind the array.
\<close>

theorem register_behind_table:
  assumes "sel_inv s" and "fd = int (fd_size s)" and "fd < int SELECTOR_ITEMS_MAX_SIZE"
  shows "selector_register mem s fd (Some h) i d = Inl Out_of_bounds"
  using assms by (rule register_at_size)

theorem register_behind_table_witness:
  "selector_register None world_sel 9 (Some H_socks_origin) OP_WRITE None = Inl Out_of_bounds"
  by (rule register_behind_table [OF world_sel_inv]) (simp_all add: SELECTOR_ITEMS_MAX_SIZE_def)

text \<open>
  \<^bold>\<open>C40\<close>. \<^verbatim>\<open>handle_iteration\<close> keeps the pointer to the item of a descriptor while its read
  handler runs. When that handler registers a descriptor behind the table, which moves it, and the event also asks for the
  write handler (an error or hang-up always does), the interest is read through the old pointer.
\<close>

theorem moved_table_use_after_free:
  assumes "sel_inv (get w)" and "registered (get w) fd = Some (h, i, d)" and "OP_READ AND i \<noteq> 0"
    and "handle_read (H h) = Some f" and "f \<lparr>key_fd = fd, key_data = d\<rparr> w = Inr w1"
    and "events AND (EPOLLIN OR EPOLLERR OR EPOLLHUP) \<noteq> 0" and "events AND (EPOLLOUT OR EPOLLERR OR EPOLLHUP) \<noteq> 0"
    and "sel_base (get w1) \<noteq> sel_base (get w)"
  shows "handle_event get put H (fd, events) w = Inl Use_after_free"
  using assms by (rule event_dispatch(2))

text \<open>A read handler that registers descriptor 20, for which the table moves to a new block.\<close>

definition growing_handler :: "handler_id \<Rightarrow> (key_data, (handler_id, key_data) fdselector) fd_handler" where
  "growing_handler h = \<lparr>handle_read = Some (\<lambda>_ s. run_bind (selector_register (Some (2, \<lambda>_. free_item)) s 20 (Some h) OP_WRITE None)
       (\<lambda>(_, s1). Inr s1)), handle_write = None, handle_block = None, handle_close = None\<rparr>"

lemma grown_base:
  "\<exists>s1. selector_register (Some (2, \<lambda>_. free_item)) world_sel 20 (Some H_socks_client) OP_WRITE None = Inr (SELECTOR_SUCCESS, s1) \<and>
     sel_base s1 = Some 2"
proof -
  have c: "next_capacity 20 = Inr 33" by (simp add: next_capacity_def bit_count.simps SELECTOR_ITEMS_MAX_SIZE_def)
  have w: "length (sel_fds world_sel) = 9" "sel_base world_sel = Some 1" by (simp_all add: world_sel_def)
  let ?s = "world_sel\<lparr>sel_base := Some 2, sel_fds := sel_fds world_sel @ map (\<lambda>_. free_item) [9..<33], fd_size := 33\<rparr>"
  have i: "items_init ?s 9 = Inr ?s"
    using w by (simp add: items_init_def free_item_def item_init_def o_def)
  have e: "ensure_capacity (Some (2, \<lambda>_. free_item)) world_sel 20 = Inr (SELECTOR_SUCCESS, ?s)"
    using c i w by (simp add: ensure_capacity_def sizeof_item_def SELECTOR_ITEMS_MAX_SIZE_def)
  have "item_get 2 20 ?s = Inr free_item" using w by (simp add: item_get_def nth_append)
  then show ?thesis using e w
    by (simp add: selector_register_def INVALID_FD_def SELECTOR_ITEMS_MAX_SIZE_def fds_base_def free_item_def ITEM_USED_def item_init_def
        FD_UNUSED_def item_put_def epoll_add_def)
qed

theorem moved_table_use_after_free_witness:
  "handle_event (\<lambda>s. s) (\<lambda>s _. s) growing_handler (5, EPOLLIN OR EPOLLHUP) world_sel = Inl Use_after_free"
proof -
  obtain s1 where s1: "selector_register (Some (2, \<lambda>_. free_item)) world_sel 20 (Some H_socks_client) OP_WRITE None = Inr (SELECTOR_SUCCESS, s1)"
    "sel_base s1 = Some 2" using grown_base by blast
  have b: "sel_base world_sel = Some 1" by (simp add: world_sel_def)
  show ?thesis
    by (rule moved_table_use_after_free [where get = "\<lambda>s. s" and w = world_sel and ?w1.0 = s1
          and f = "the (handle_read (growing_handler H_socks_client))", OF world_sel_inv world_registered(1)])
      (use s1 b in \<open>simp_all add: growing_handler_def EPOLLIN_def EPOLLERR_def EPOLLHUP_def EPOLLOUT_def OP_READ_def\<close>)
qed

section \<open>The monitor server\<close>

text \<open>
  A readable event of a monitor client hands all the bytes received to the command interpreter, in
  order and once, sends as much of the replies as the socket takes, keeps the rest in order, and leaves the descriptor
  registered with the interest that matches its buffers.
\<close>

theorem monitor_read_all:
  assumes "w_monitors w mid = Some m" and "buffer_inv (mo_rb m)" "buffer_pending (mo_rb m) = []" "0 < buffer_room (mo_rb m)"
    and "sel_inv (w_sel w)" and "registered (w_sel w) (key_fd key) = Some (h, i, d)"
    and "0 \<le> o_ret (w_os w (w_calls w))" and "0 \<le> o_ret (w_os w (Suc (w_calls w)))"
    and "bs = take (buffer_room (mo_rb m)) (o_data (w_os w (w_calls w)))" "bs \<noteq> []"
    and "monitor_commands_feed (w_env w) bs (w_store w, mo_commands m) = Inr (store1, s1)"
    and "buffer_inv (mc_wb s1)" and "\<not> mc_close_after_flush s1"
    and "p = buffer_pending (mc_wb s1)" and "n = min (nat (o_ret (w_os w (Suc (w_calls w))))) (length p)"
  shows "\<exists>w' m'. monitor_client_read key mid w = Inr ((), w') \<and> w_monitors w' mid = Some m' \<and> w_store w' = store1 \<and>
    buffer_inv (mo_rb m') \<and> buffer_pending (mo_rb m') = [] \<and> buffer_inv (mc_wb (mo_commands m')) \<and>
    mo_commands m' = s1\<lparr>mc_wb := mc_wb (mo_commands m')\<rparr> \<and> buffer_pending (mc_wb (mo_commands m')) = drop n p \<and>
    w_trace w' = w_trace w @ Received (key_fd key) bs # (if p = [] then [] else [Sent (key_fd key) (take n p)]) \<and>
    sel_inv (w_sel w') \<and> registered (w_sel w') (key_fd key) = Some (h, monitor_client_interest m', d)"
  using assms by (rule monitor_read_run)

text \<open>A monitor client with a reply pending that sends the beginning of a line.\<close>

definition monitor_peer :: monitor_session where
  "monitor_peer = \<lparr>mo_rb = empty_buffer, mo_commands = \<lparr>mc_state = MONITOR_ST_AWAIT_AUTH, mc_wb = filled [43, 79, 75],
     mc_line = [], mc_close_after_flush = False\<rparr>\<rparr>"

definition monitor_world :: world where
  "monitor_world = (world_of (world_session SOCKS_ST_RELAY) (\<lambda>_. answer_ok 2 [65, 85]))\<lparr>w_monitors := [3 \<mapsto> monitor_peer]\<rparr>"

theorem monitor_read_all_witness:
  "\<exists>w' m'. monitor_client_read client_key 3 monitor_world = Inr ((), w') \<and> w_monitors w' 3 = Some m' \<and>
     mc_line (mo_commands m') = ''AU'' \<and> buffer_pending (mc_wb (mo_commands m')) = [75] \<and>
     w_trace w' = [Received 5 [65, 85], Sent 5 [43, 79]]"
proof -
  let ?s1 = "(mo_commands monitor_peer)\<lparr>mc_line := ''AU''\<rparr>"
  have ch: "char_of_byte 65 = CHR ''A''" "char_of_byte 85 = CHR ''U''" by code_simp+
  have f: "monitor_commands_feed (w_env monitor_world) [65, 85] (w_store monitor_world, mo_commands monitor_peer) =
      Inr (world_store, ?s1)"
    using ch by (simp add: monitor_world_def monitor_peer_def process_byte_def MONITOR_LINE_MAX_def)
  have w: "buffer_inv (mc_wb ?s1)" "buffer_pending (mc_wb ?s1) = [43, 79, 75]" by (simp_all add: monitor_peer_def filled_fields)
  have "registered (w_sel monitor_world) (key_fd client_key) = Some (H_socks_client, OP_READ, Some (D_session 0))"
    by (simp add: monitor_world_def client_key_def world_registered)
  note reg = this
  have pre: "w_monitors monitor_world 3 = Some monitor_peer" "buffer_inv (mo_rb monitor_peer)" "buffer_pending (mo_rb monitor_peer) = []"
    "0 < buffer_room (mo_rb monitor_peer)" "sel_inv (w_sel monitor_world)"
    "0 \<le> o_ret (w_os monitor_world (w_calls monitor_world))" "0 \<le> o_ret (w_os monitor_world (Suc (w_calls monitor_world)))"
    "[65, 85] = take (buffer_room (mo_rb monitor_peer)) (o_data (w_os monitor_world (w_calls monitor_world)))" "[65 :: byte, 85] \<noteq> []"
    "\<not> mc_close_after_flush ?s1" "2 = min (nat (o_ret (w_os monitor_world (Suc (w_calls monitor_world))))) (length [43 :: byte, 79, 75])"
    "w_trace monitor_world = []" "key_fd client_key = 5"
    by (simp_all add: monitor_world_def monitor_peer_def answer_ok_def world_sel_inv client_key_def)
  obtain w' m' where r: "monitor_client_read client_key 3 monitor_world = Inr ((), w')" "w_monitors w' 3 = Some m'"
    "mo_commands m' = ?s1\<lparr>mc_wb := mc_wb (mo_commands m')\<rparr>" "buffer_pending (mc_wb (mo_commands m')) = drop 2 [43, 79, 75]"
    "w_trace w' = w_trace monitor_world @ Received (key_fd client_key) [65, 85] #
       (if [43 :: byte, 79, 75] = [] then [] else [Sent (key_fd client_key) (take 2 [43, 79, 75])])"
    using monitor_read_all [OF pre(1-5) reg pre(6-9) f w(1) pre(10) w(2) [symmetric] pre(11)] by blast
  have "mc_line (mo_commands m') = ''AU''" by (subst r(3)) simp
  with r(1,2,4,5) pre(12,13) show ?thesis by simp
qed

end
