(* ===== verification/Client_Protocol.thy ===== *)
theory Client_Protocol
  imports Monitor_Commands
begin

text \<open>
  The administration client's side of the monitor protocol, \<^verbatim>\<open>src/client/protocol.c\<close>: blocking writes and reads
  with retries, lines, replies that end with a line holding a dot, and one function per command. A connection carries
  what its next reads and writes will answer: each element of \<open>cn_in\<close> is the outcome of one \<open>read\<close> of one byte and
  each element of \<open>cn_wr\<close> that of one \<open>write\<close>; when they are used up a read reports the end of the stream and a write takes
  everything. \<open>cn_out\<close> collects the bytes written.
\<close>

section \<open>The connection\<close>

definition LINE_BUF_SIZE :: nat where "LINE_BUF_SIZE = 4096"
definition MAX_RESP_LINE_LEN :: nat where "MAX_RESP_LINE_LEN = 256"
definition MAX_RESP_LINES :: nat where "MAX_RESP_LINES = 512"

datatype rd = Got char | R_interrupted | R_failed

datatype wr = Wrote nat | W_interrupted | W_failed

record conn =
  cn_in :: "rd list"
  cn_wr :: "wr list"
  cn_out :: string

text \<open>Each candidate address with the outcome of its \<open>socket\<close> and \<open>connect\<close>; \<open>None\<close> when \<open>getaddrinfo\<close> fails.\<close>

fun connect_cursor :: "(int \<times> bool) list \<Rightarrow> int" where
  "connect_cursor [] = -1"
| "connect_cursor ((fd, connected) # rest) =
     (if fd < 0 then (if rest = [] then fd else connect_cursor rest)
      else if connected then fd else connect_cursor rest)"

definition connect_server :: "(int \<times> bool) list option \<Rightarrow> int" where
  "connect_server addrs = (case addrs of None \<Rightarrow> -1 | Some cands \<Rightarrow> connect_cursor cands)"

fun write_loop :: "wr list \<Rightarrow> string \<Rightarrow> string \<Rightarrow> bool \<times> wr list \<times> string" where
  "write_loop ws [] out = (True, ws, out)"
| "write_loop [] (d # ds) out = (True, [], out @ d # ds)"
| "write_loop (W_interrupted # ws) (d # ds) out = write_loop ws (d # ds) out"
| "write_loop (W_failed # ws) (d # ds) out = (False, ws, out)"
| "write_loop (Wrote n # ws) (d # ds) out = write_loop ws (drop n (d # ds)) (out @ take n (d # ds))"

definition write_all :: "string \<Rightarrow> conn \<Rightarrow> bool \<times> conn" where
  "write_all data c = (let (ok, ws, out) = write_loop (cn_wr c) (cstr data) (cn_out c)
     in (ok, c\<lparr>cn_wr := ws, cn_out := out\<rparr>))"

text \<open>\<open>acc\<close> holds the characters \<open>buf[0]\<close> to \<open>buf[pos - 1]\<close>.\<close>

fun read_line_loop :: "nat \<Rightarrow> string \<Rightarrow> rd list \<Rightarrow> string option \<times> rd list" where
  "read_line_loop buf_len acc ins =
     (if \<not> length acc + 1 < buf_len then (None, ins)
      else case ins of
             [] \<Rightarrow> (None, [])
           | R_interrupted # rest \<Rightarrow> read_line_loop buf_len acc rest
           | R_failed # rest \<Rightarrow> (None, rest)
           | Got ch # rest \<Rightarrow>
               if ch = CHR 0x0A
               then (Some (cstr (if acc \<noteq> [] \<and> last acc = CHR 0x0D then butlast acc else acc)), rest)
               else read_line_loop buf_len (acc @ [ch]) rest)"

declare read_line_loop.simps [simp del]

definition read_line :: "nat \<Rightarrow> conn \<Rightarrow> string option \<times> conn" where
  "read_line buf_len c = (let (l, ins) = read_line_loop buf_len [] (cn_in c) in (l, c\<lparr>cn_in := ins\<rparr>))"

text \<open>The lines stored, or \<open>None\<close> for the result \<open>-1\<close>.\<close>

fun read_response :: "nat \<Rightarrow> conn \<Rightarrow> string list option \<times> conn" where
  "read_response 0 c = (Some [], c)"
| "read_response (Suc n) c = (case read_line LINE_BUF_SIZE c of
      (None, c1) \<Rightarrow> (None, c1)
    | (Some buf, c1) \<Rightarrow>
        if buf = ''.'' then (Some [], c1)
        else (case read_response n c1 of
                (None, c2) \<Rightarrow> (None, c2)
              | (Some ls, c2) \<Rightarrow> (Some (strncpy_term (MAX_RESP_LINE_LEN - 1) buf # ls), c2)))"

section \<open>Commands\<close>

text \<open>A signed number in decimal.\<close>

definition int_text :: "int \<Rightarrow> string" where
  "int_text i = (if i < 0 then CHR ''-'' # dec (nat (- i)) else dec (nat i))"

text \<open>\<open>snprintf\<close> into an array of \<open>n\<close> characters.\<close>

definition snprintf :: "nat \<Rightarrow> string \<Rightarrow> string" where
  "snprintf n text = take (n - 1) text"

definition err_reply :: "string \<Rightarrow> bool" where
  "err_reply l \<longleftrightarrow> take 4 l = ''-ERR''"

definition err_message :: "string \<Rightarrow> string" where
  "err_message l = (if take 1 (drop 4 l) = '' '' then drop 5 l else drop 4 l)"

text \<open>The result, what is left in \<open>err\<close> when it is \<open>false\<close>, and the connection.\<close>

type_synonym outcome = "bool \<times> string \<times> conn"

definition cmd_simple :: "string \<Rightarrow> nat \<Rightarrow> conn \<Rightarrow> outcome" where
  "cmd_simple cmd err_sz c = (case write_all cmd c of
      (False, c1) \<Rightarrow> (False, snprintf err_sz ''Error de escritura'', c1)
    | (True, c1) \<Rightarrow> (case read_response 2 c1 of
          (None, c2) \<Rightarrow> (False, snprintf err_sz ''Conexion perdida'', c2)
        | (Some [], c2) \<Rightarrow> (False, snprintf err_sz ''Conexion perdida'', c2)
        | (Some (l # _), c2) \<Rightarrow>
            if err_reply l then (False, snprintf err_sz (err_message l), c2) else (True, [], c2)))"

definition cmd_text :: "string \<Rightarrow> string" where
  "cmd_text text = snprintf LINE_BUF_SIZE text"

definition cmd_auth :: "string \<Rightarrow> string \<Rightarrow> nat \<Rightarrow> conn \<Rightarrow> outcome" where
  "cmd_auth user pass = cmd_simple (cmd_text (nl (''AUTH '' @ user @ '' '' @ pass)))"

section \<open>Scanning numbers\<close>

text \<open>The conversions of \<open>sscanf\<close> the client uses: blanks, literal characters and unsigned numbers of \<open>w\<close> bits.\<close>

datatype directive = F_blank | F_lit char | F_unsigned nat

definition lits :: "string \<Rightarrow> directive list" where
  "lits s = map (\<lambda>c. if c = CHR '' '' then F_blank else F_lit c) s"

definition unsigned_val :: "nat \<Rightarrow> bool \<Rightarrow> nat \<Rightarrow> nat" where
  "unsigned_val w neg v = (if v \<ge> 2 ^ 64 then 2 ^ 64 - 1 else if neg then (2 ^ 64 - v) mod 2 ^ 64 else v) mod 2 ^ w"

fun sscanf :: "directive list \<Rightarrow> string \<Rightarrow> nat list" where
  "sscanf [] s = []"
| "sscanf (F_blank # ds) s = sscanf ds (dropWhile is_space s)"
| "sscanf (F_lit c # ds) s = (if s \<noteq> [] \<and> hd s = c then sscanf ds (tl s) else [])"
| "sscanf (F_unsigned w # ds) s =
     (let (neg, t) = strtol_sign (dropWhile is_space s); digs = takeWhile is_digit t
      in if digs = [] then [] else unsigned_val w neg (digits_val 0 digs) # sscanf ds (dropWhile is_digit t))"

definition stats_format :: "directive list" where
  "stats_format = lits ''+OK total_connections='' @ [F_unsigned 64] @ lits '' concurrent_connections='' @ [F_unsigned 64] @
     lits '' bytes_up='' @ [F_unsigned 64] @ lits '' bytes_down='' @ [F_unsigned 64]"

text \<open>The conversions that succeed are stored, the other variables keep their values.\<close>

definition cmd_stats :: "u64 list \<Rightarrow> conn \<Rightarrow> bool \<times> u64 list \<times> conn" where
  "cmd_stats old c = (case write_all (nl ''STATS'') c of
      (False, c1) \<Rightarrow> (False, old, c1)
    | (True, c1) \<Rightarrow> (case read_response 2 c1 of
          (None, c2) \<Rightarrow> (False, old, c2)
        | (Some [], c2) \<Rightarrow> (False, old, c2)
        | (Some (l # _), c2) \<Rightarrow>
            if take 1 l = ''-'' then (False, old, c2)
            else (let vs = sscanf stats_format l in (True, map of_nat vs @ drop (length vs) old, c2))))"

definition cmd_list :: "string \<Rightarrow> nat \<Rightarrow> conn \<Rightarrow> string list option \<times> conn" where
  "cmd_list cmd max_lines c = (case write_all cmd c of
      (False, c1) \<Rightarrow> (None, c1)
    | (True, c1) \<Rightarrow> read_response max_lines c1)"

definition cmd_connections :: "nat \<Rightarrow> conn \<Rightarrow> string list option \<times> conn" where
  "cmd_connections = cmd_list (nl ''CONNECTIONS'')"

definition cmd_users :: "nat \<Rightarrow> conn \<Rightarrow> string list option \<times> conn" where
  "cmd_users = cmd_list (nl ''USERS'')"

definition cmd_access_log :: "string option \<Rightarrow> nat \<Rightarrow> conn \<Rightarrow> string list option \<times> conn" where
  "cmd_access_log flt = cmd_list (case flt of
      None \<Rightarrow> nl ''ACCESS_LOG''
    | Some u \<Rightarrow> if u = [] then nl ''ACCESS_LOG'' else cmd_text (nl (''ACCESS_LOG '' @ u)))"

definition config_value :: "string \<Rightarrow> u32 option" where
  "config_value l = (case sscanf (lits ''+OK '' @ [F_unsigned 32]) l of v # _ \<Rightarrow> Some (of_nat v) | [] \<Rightarrow> None)"

definition cmd_config_get :: "string \<Rightarrow> nat \<Rightarrow> conn \<Rightarrow> u32 option \<times> string \<times> conn" where
  "cmd_config_get param err_sz c = (case write_all (cmd_text (nl (''CONFIG '' @ param))) c of
      (False, c1) \<Rightarrow> (None, snprintf err_sz ''Error de escritura'', c1)
    | (True, c1) \<Rightarrow> (case read_response 2 c1 of
          (None, c2) \<Rightarrow> (None, snprintf err_sz ''Conexion perdida'', c2)
        | (Some [], c2) \<Rightarrow> (None, snprintf err_sz ''Conexion perdida'', c2)
        | (Some (l # _), c2) \<Rightarrow>
            if err_reply l then (None, snprintf err_sz (err_message l), c2)
            else (case config_value l of
                    None \<Rightarrow> (None, snprintf err_sz ''respuesta invalida'', c2)
                  | Some v \<Rightarrow> (Some v, [], c2))))"

definition cmd_config :: "string \<Rightarrow> u32 \<Rightarrow> nat \<Rightarrow> conn \<Rightarrow> outcome" where
  "cmd_config param v = cmd_simple (cmd_text (nl (''CONFIG '' @ param @ '' '' @ dec (unat v))))"

definition cmd_add_user :: "string \<Rightarrow> string \<Rightarrow> bool \<Rightarrow> nat \<Rightarrow> conn \<Rightarrow> outcome" where
  "cmd_add_user user pass admin =
     cmd_simple (cmd_text (nl (''ADD_USER '' @ user @ '' '' @ pass @ (if admin then '' admin'' else []))))"

definition cmd_del_user :: "string \<Rightarrow> nat \<Rightarrow> conn \<Rightarrow> outcome" where
  "cmd_del_user user = cmd_simple (cmd_text (nl (''DEL_USER '' @ user)))"

definition cmd_set_password :: "string \<Rightarrow> string \<Rightarrow> nat \<Rightarrow> conn \<Rightarrow> outcome" where
  "cmd_set_password user pass = cmd_simple (cmd_text (nl (''SET_PASSWORD '' @ user @ '' '' @ pass)))"

definition cmd_deny_host :: "string \<Rightarrow> nat \<Rightarrow> conn \<Rightarrow> outcome" where
  "cmd_deny_host hostname = cmd_simple (cmd_text (nl (''DENY_HOST '' @ hostname)))"

definition cmd_deny_ip :: "string \<Rightarrow> nat \<Rightarrow> conn \<Rightarrow> outcome" where
  "cmd_deny_ip ip = cmd_simple (cmd_text (nl (''DENY_IP '' @ ip)))"

definition cmd_undeny :: "string \<Rightarrow> nat \<Rightarrow> conn \<Rightarrow> outcome" where
  "cmd_undeny target = cmd_simple (cmd_text (nl (''UNDENY '' @ target)))"

definition cmd_deny_list :: "nat \<Rightarrow> conn \<Rightarrow> string list option \<times> conn" where
  "cmd_deny_list = cmd_list (nl ''DENY_LIST'')"

lemma read_line_loop_steps [simp]:
  "read_line_loop n acc [] = (None, [])"
  "read_line_loop n acc (R_interrupted # rest) =
     (if length acc + 1 < n then read_line_loop n acc rest else (None, R_interrupted # rest))"
  "read_line_loop n acc (R_failed # rest) = (None, if length acc + 1 < n then rest else R_failed # rest)"
  "read_line_loop n acc (Got ch # rest) =
     (if length acc + 1 < n
      then if ch = CHR 0x0A
           then (Some (cstr (if acc \<noteq> [] \<and> last acc = CHR 0x0D then butlast acc else acc)), rest)
           else read_line_loop n (acc @ [ch]) rest
      else (None, Got ch # rest))"
  by (simp_all add: read_line_loop.simps [of n acc])

lemma read_line_loop_shorter:
  "read_line_loop n acc ins = (Some l, ins') \<Longrightarrow> length ins' < length ins"
proof (induction ins arbitrary: acc)
  case (Cons r rest)
  then show ?case by (cases r) (auto split: if_splits dest!: Cons.IH)
qed simp

text \<open>The rest of the reply to the greeting and to \<open>QUIT\<close> is skipped line by line.\<close>

function skip_reply :: "conn \<Rightarrow> conn" where
  "skip_reply c = (case read_line LINE_BUF_SIZE c of
      (None, c1) \<Rightarrow> c1
    | (Some buf, c1) \<Rightarrow> if buf = ''.'' then c1 else skip_reply c1)"
  by pat_completeness auto
termination
  by (relation "measure (\<lambda>c. length (cn_in c))")
    (auto simp: read_line_def dest!: read_line_loop_shorter split: prod.splits)

declare skip_reply.simps [simp del]

definition cmd_quit :: "conn \<Rightarrow> conn" where
  "cmd_quit c = skip_reply (snd (write_all (nl ''QUIT'') c))"

end
