(* ===== verification/Client_Exchange.thy ===== *)
theory Client_Exchange
  imports Client_Protocol
begin

text \<open>
  The administration client and the command interpreter of the server put together: what the client writes is framed
  and split by the server into the command it meant, and what the server answers is read back as the result of the
  operation on the store, whatever the sizes of the partial writes and however often the reads are interrupted.
\<close>

section \<open>Reading and writing\<close>

text \<open>The bytes a connection still delivers, with any interruptions in between.\<close>

definition delivers :: "rd list \<Rightarrow> string \<Rightarrow> bool" where
  "delivers ins text \<longleftrightarrow> filter (\<lambda>r. r \<noteq> R_interrupted) ins = map Got text"

definition writes_ok :: "conn \<Rightarrow> bool" where
  "writes_ok c \<longleftrightarrow> W_failed \<notin> set (cn_wr c)"

lemma delivers_simps [simp]:
  "delivers (R_interrupted # ins) text = delivers ins text"
  "delivers (Got ch # ins) text = (\<exists>rest. text = ch # rest \<and> delivers ins rest)"
  "\<not> delivers (R_failed # ins) text"
  "delivers [] text = (text = [])"
  by (auto simp: delivers_def)

lemma write_loop_ok:
  "W_failed \<notin> set ws \<Longrightarrow> \<exists>ws'. write_loop ws data out = (True, ws', out @ data) \<and> W_failed \<notin> set ws'"
proof (induction ws data out rule: write_loop.induct)
  case (5 n ws d ds out)
  then obtain ws' where "write_loop ws (drop n (d # ds)) (out @ take n (d # ds)) = (True, ws', (out @ take n (d # ds)) @ drop n (d # ds))"
    "W_failed \<notin> set ws'" by auto
  then show ?case by (simp del: append_assoc) (simp add: append_assoc [of out])
qed auto

lemma write_all_ok:
  assumes "writes_ok c" "CHR 0x00 \<notin> set data"
  shows "\<exists>c1. write_all data c = (True, c1) \<and> writes_ok c1 \<and> cn_out c1 = cn_out c @ data \<and> cn_in c1 = cn_in c"
  using write_loop_ok [of "cn_wr c" data "cn_out c"] assms by (auto simp: writes_ok_def write_all_def cstr_id)

text \<open>A line a reply is made of.\<close>

definition plain :: "string \<Rightarrow> bool" where
  "plain l \<longleftrightarrow> CHR 0x0A \<notin> set l \<and> CHR 0x0D \<notin> set l \<and> CHR 0x00 \<notin> set l"

lemma read_line_loop_delivers:
  assumes "delivers ins (l @ CHR 0x0A # rest)" "plain (acc @ l)" "length (acc @ l) + 1 < n"
  shows "\<exists>ins'. read_line_loop n acc ins = (Some (acc @ l), ins') \<and> delivers ins' rest"
  using assms
proof (induction ins arbitrary: acc l)
  case (Cons r ins)
  have "CHR 0x0D \<notin> set acc" "CHR 0x00 \<notin> set acc" using Cons.prems(2) by (simp_all add: plain_def)
  then have cr: "\<not> (acc \<noteq> [] \<and> last acc = CHR 0x0D)" "cstr acc = acc"
    by (metis last_in_set, simp add: cstr_id)
  show ?case
  proof (cases r)
    case (Got ch)
    show ?thesis
    proof (cases l)
      case Nil
      then show ?thesis using Cons.prems Got cr by (auto simp del: last_in_set)
    next
      case (Cons c l')
      then have "ch = c" "ch \<noteq> CHR 0x0A" "delivers ins (l' @ CHR 0x0A # rest)" "plain ((acc @ [c]) @ l')"
        "length ((acc @ [c]) @ l') + 1 < n"
        using Cons.prems Got by (auto simp: plain_def)
      with Cons.IH [of l' "acc @ [c]"] Got \<open>l = c # l'\<close> show ?thesis by auto
    qed
  qed (use Cons in auto)
qed simp

lemma read_line_delivers:
  assumes "delivers (cn_in c) (nl l @ rest)" "plain l" "length l + 1 < n"
  shows "\<exists>c'. read_line n c = (Some l, c') \<and> delivers (cn_in c') rest \<and> cn_wr c' = cn_wr c \<and> cn_out c' = cn_out c"
  using read_line_loop_delivers [of "cn_in c" l rest "[]" n] assms by (auto simp: read_line_def nl_def)

definition reply_line :: "string \<Rightarrow> bool" where
  "reply_line l \<longleftrightarrow> plain l \<and> l \<noteq> ''.'' \<and> length l < MAX_RESP_LINE_LEN"

fun reply_text :: "string list \<Rightarrow> string" where
  "reply_text [] = nl ''.''"
| "reply_text (l # ls) = nl l @ reply_text ls"

lemma read_response_delivers:
  assumes "delivers (cn_in c) (reply_text ls @ rest)" "\<forall>l \<in> set ls. reply_line l" "length ls < n"
  shows "\<exists>c'. read_response n c = (Some ls, c') \<and> delivers (cn_in c') rest \<and> cn_wr c' = cn_wr c \<and> cn_out c' = cn_out c"
  using assms
proof (induction ls arbitrary: n c)
  case Nil
  obtain k where n: "n = Suc k" using Nil.prems(3) by (cases n) auto
  obtain c' where "read_line LINE_BUF_SIZE c = (Some ''.'', c')" "delivers (cn_in c') rest" "cn_wr c' = cn_wr c" "cn_out c' = cn_out c"
    using read_line_delivers [of c "''.''" rest LINE_BUF_SIZE] Nil.prems by (auto simp: plain_def LINE_BUF_SIZE_def)
  then show ?case by (simp add: n)
next
  case (Cons l ls)
  obtain k where n: "n = Suc k" "length ls < k" using Cons.prems(3) by (cases n) auto
  have l: "plain l" "l \<noteq> ''.''" "length l < 256" using Cons.prems(2) by (auto simp: reply_line_def MAX_RESP_LINE_LEN_def)
  obtain c1 where c1: "read_line LINE_BUF_SIZE c = (Some l, c1)" "delivers (cn_in c1) (reply_text ls @ rest)"
    "cn_wr c1 = cn_wr c" "cn_out c1 = cn_out c"
    using read_line_delivers [of c l "reply_text ls @ rest" LINE_BUF_SIZE] Cons.prems l by (auto simp: LINE_BUF_SIZE_def)
  obtain c2 where c2: "read_response k c1 = (Some ls, c2)" "delivers (cn_in c2) rest" "cn_wr c2 = cn_wr c1" "cn_out c2 = cn_out c1"
    using Cons.IH [OF c1(2) _ n(2)] Cons.prems(2) by auto
  have "strncpy_term (MAX_RESP_LINE_LEN - 1) l = l"
    using l by (intro strncpy_term_fits) (auto simp: plain_def MAX_RESP_LINE_LEN_def)
  with c1 c2 l n show ?case by simp
qed

text \<open>A command sent and its one-line answer received.\<close>

definition sent_over :: "conn \<Rightarrow> string \<Rightarrow> string \<Rightarrow> conn \<Rightarrow> bool" where
  "sent_over c cmd rest c' \<longleftrightarrow> writes_ok c' \<and> cn_out c' = cn_out c @ cmd \<and> delivers (cn_in c') rest"

lemma ask:
  assumes "writes_ok c" "CHR 0x00 \<notin> set cmd" "delivers (cn_in c) (nl l @ nl ''.'' @ rest)" "reply_line l"
  shows "\<exists>c1 c'. write_all cmd c = (True, c1) \<and> read_response 2 c1 = (Some [l], c') \<and> sent_over c cmd rest c'"
proof -
  obtain c1 where c1: "write_all cmd c = (True, c1)" "writes_ok c1" "cn_out c1 = cn_out c @ cmd" "cn_in c1 = cn_in c"
    using write_all_ok [OF assms(1,2)] by blast
  obtain c' where "read_response 2 c1 = (Some [l], c')" "delivers (cn_in c') rest" "cn_wr c' = cn_wr c1" "cn_out c' = cn_out c1"
    using read_response_delivers [of c1 "[l]" rest 2] c1(4) assms(3,4) by auto
  with c1 show ?thesis by (auto simp: sent_over_def writes_ok_def)
qed

lemma cmd_simple_reply:
  assumes "writes_ok c" "CHR 0x00 \<notin> set cmd" "delivers (cn_in c) (nl l @ nl ''.'' @ rest)" "reply_line l"
  shows "\<exists>c'. cmd_simple cmd n c =
      (\<not> err_reply l, if err_reply l then snprintf n (err_message l) else [], c') \<and> sent_over c cmd rest c'"
  using ask [OF assms] by (auto simp: cmd_simple_def)

section \<open>What the server makes of a command\<close>

text \<open>An argument that reaches the server as one token.\<close>

definition word :: "string \<Rightarrow> bool" where
  "word w \<longleftrightarrow> w \<noteq> [] \<and> CHR '' '' \<notin> set w \<and> plain w"

fun spaced :: "string list \<Rightarrow> string" where
  "spaced [] = []"
| "spaced (w # ws) = w @ (if ws = [] then [] else '' '' @ spaced ws)"

lemma tokens_spaced: "\<forall>w \<in> set ws. word w \<Longrightarrow> tokens (spaced ws) = ws"
proof (induction ws)
  case (Cons w ws)
  then show ?case
    using tokens_word [of w "if ws = [] then [] else '' '' @ spaced ws"] by (auto simp: word_def)
qed simp

lemma plain_spaced: "\<forall>w \<in> set ws. word w \<Longrightarrow> plain (spaced ws)"
  by (induction ws) (auto simp: word_def plain_def)

lemma line_text_plain: "plain l \<Longrightarrow> line_text l = l"
  by (auto simp: line_text_def plain_def cstr_id dest: last_in_set)

text \<open>A monitor session in state \<open>st\<close> that waits for a command, with all its answers sent.\<close>

definition waiting :: "monitor_commands_state \<Rightarrow> monitor_commands_session \<Rightarrow> bool" where
  "waiting st s \<longleftrightarrow> buffer_inv (mc_wb s) \<and> buffer_pending (mc_wb s) = [] \<and> 256 \<le> buffer_room (mc_wb s) \<and>
     mc_line s = [] \<and> mc_state s = st"

abbreviation idle_session :: "monitor_commands_session \<Rightarrow> bool" where
  "idle_session \<equiv> waiting MONITOR_ST_AUTHENTICATED"

definition serves :: "cmd_env \<Rightarrow> string \<Rightarrow> mstate \<Rightarrow> monitor_store \<Rightarrow> monitor_commands_state \<Rightarrow> string \<Rightarrow> bool" where
  "serves env cmd ms store1 st t \<longleftrightarrow>
     (\<exists>s1. monitor_commands_feed env (bytes_of cmd) ms = Inr (store1, s1) \<and>
        buffer_pending (mc_wb s1) = bytes_of (nl t @ nl ''.'') \<and> mc_line s1 = [] \<and> mc_state s1 = st)"

lemma served_body:
  assumes s: "waiting st s" and ws: "ws \<noteq> []" "\<forall>w \<in> set ws. word w" "length ws \<le> 8"
    and len: "length (spaced ws) < MONITOR_LINE_MAX" "length t < 250"
    and run: "\<And>s. mc_state s = st \<Longrightarrow> dispatch_body env ws (store, s) = answer (nl t) (store1, s\<lparr>mc_state := st1\<rparr>)"
  shows "serves env (nl (spaced ws)) (store, s) store1 st1 t"
proof -
  let ?l = "spaced ws" and ?s = "s\<lparr>mc_line := spaced ws, mc_state := st1\<rparr>"
  have p: "plain ?l" using ws(2) by (rule plain_spaced)
  have split: "split_line ?l = ws" using tokens_spaced [OF ws(2)] ws(3) by (simp add: split_line_def)
  have ne: "?l \<noteq> []" using ws split by (auto simp: split_line_def)
  have inv: "buffer_inv (mc_wb s)" "256 \<le> buffer_room (mc_wb s)" "mc_line s = []" "mc_state s = st" "buffer_pending (mc_wb s) = []"
    using s by (simp_all add: waiting_def)
  let ?b = "wb_put (mc_wb s) (bytes_of (nl t))"
  have fit: "length (bytes_of (nl t)) \<le> buffer_room (mc_wb s)" using len(2) inv(2) by (simp add: nl_def)
  have "dispatch_body env ws (store, s\<lparr>mc_line := ?l\<rparr>) = Inr (store1, ?s\<lparr>mc_wb := ?b\<rparr>)"
    using run [of "s\<lparr>mc_line := ?l\<rparr>"] inv(1,4) by (simp add: answer_eq)
  then have "dispatch_line env ?l (store, s\<lparr>mc_line := ?l\<rparr>) = Inr (store1, ?s\<lparr>mc_wb := wb_put ?b (bytes_of (nl ''.''))\<rparr>)"
    using split ws inv by (simp add: dispatch_line_body answer_eq wb_put_props)
  moreover have "buffer_pending (wb_put ?b (bytes_of (nl ''.''))) = bytes_of (nl t @ nl ''.'')"
    using inv fit len(2) by (simp add: pending_put wb_put_props(1) nl_def)
  ultimately show ?thesis
    using feed_line [of ?l s env store] p ne len inv by (auto simp: serves_def line_text_plain plain_def)
qed

lemma served:
  assumes s: "idle_session s" and ws: "ws \<noteq> []" "\<forall>w \<in> set ws. word w" "length ws \<le> 8" "hd ws \<noteq> ''AUTH''"
    and len: "length (spaced ws) < MONITOR_LINE_MAX" "length t < 250"
    and run: "\<And>s. run_command env (hd ws) ws (store, s) = answer (nl t) (store1, s) \<or>
      run_command env (hd ws) ws (store, s) = answerf (nl t) (store1, s)"
  shows "serves env (nl (spaced ws)) (store, s) store1 MONITOR_ST_AUTHENTICATED t"
proof (rule served_body [OF s ws(1-3) len])
  fix s :: monitor_commands_session assume st: "mc_state s = MONITOR_ST_AUTHENTICATED"
  have "answerf (nl t) (store1, s) = answer (nl t) (store1, s)"
    using len(2) by (simp add: answerf_def answer_def replyf_def reply_def commands_wb_appendf_def nl_def MONITOR_BUFFER_SIZE_def)
  moreover have same: "s\<lparr>mc_state := MONITOR_ST_AUTHENTICATED\<rparr> = s" using st by (cases s) simp
  ultimately show "dispatch_body env ws (store, s) = answer (nl t) (store1, s\<lparr>mc_state := MONITOR_ST_AUTHENTICATED\<rparr>)"
    unfolding same using run [of s] ws(1,4) st by (auto simp: dispatch_body_def hd_conv_nth)
qed

lemma served_roundtrip:
  assumes "serves env cmd (store, s) store1 st t" "CHR 0x00 \<notin> set cmd" "reply_line t"
  shows "\<exists>s1. monitor_commands_feed env (bytes_of cmd) (store, s) = Inr (store1, s1) \<and>
    (\<forall>n c. writes_ok c \<longrightarrow> delivers (cn_in c) (chars_of (buffer_pending (mc_wb s1))) \<longrightarrow>
      (\<exists>c'. cmd_simple cmd n c = (\<not> err_reply t, if err_reply t then snprintf n (err_message t) else [], c') \<and>
         sent_over c cmd [] c'))"
proof -
  obtain s1 where s1: "monitor_commands_feed env (bytes_of cmd) (store, s) = Inr (store1, s1)"
    "buffer_pending (mc_wb s1) = bytes_of (nl t @ nl ''.'')"
    using assms(1) by (auto simp: serves_def)
  have "chars_of (buffer_pending (mc_wb s1)) = nl t @ nl ''.'' @ []"
    unfolding s1(2) chars_of_bytes_of by simp
  with s1 cmd_simple_reply [OF _ assms(2) _ assms(3), of _ "[]"] show ?thesis by auto
qed

section \<open>Round trips\<close>

text \<open>
  The client function \<open>f\<close> sends a command on which the server leaves the store \<open>store1\<close>, and the answer makes \<open>f\<close> return \<open>ok\<close>.
\<close>

definition roundtrip :: "cmd_env \<Rightarrow> (nat \<Rightarrow> conn \<Rightarrow> outcome) \<Rightarrow> mstate \<Rightarrow> monitor_store \<Rightarrow> bool \<Rightarrow> bool" where
  "roundtrip env f ms store1 ok \<longleftrightarrow>
     (\<exists>cmd s1. monitor_commands_feed env (bytes_of cmd) ms = Inr (store1, s1) \<and>
        (\<forall>n c. writes_ok c \<longrightarrow> delivers (cn_in c) (chars_of (buffer_pending (mc_wb s1))) \<longrightarrow>
          (\<exists>err c'. f n c = (ok, err, c') \<and> sent_over c cmd [] c')))"

lemma cmd_text_id: "length l < 4095 \<Longrightarrow> cmd_text (nl l) = nl l"
  by (simp add: cmd_text_def snprintf_def nl_def LINE_BUF_SIZE_def)

lemma simple_roundtrip:
  assumes s: "idle_session s" and ws: "ws \<noteq> []" "\<forall>w \<in> set ws. word w" "length ws \<le> 8" "hd ws \<noteq> ''AUTH''"
    and len: "length (spaced ws) < MONITOR_LINE_MAX" and t: "reply_line t" "length t < 250" "ok = (\<not> err_reply t)"
    and run: "\<And>s. run_command env (hd ws) ws (store, s) = answer (nl t) (store1, s) \<or>
      run_command env (hd ws) ws (store, s) = answerf (nl t) (store1, s)"
  shows "roundtrip env (cmd_simple (cmd_text (nl (spaced ws)))) (store, s) store1 ok"
proof -
  have cmd: "cmd_text (nl (spaced ws)) = nl (spaced ws)"
    using len by (intro cmd_text_id) (simp add: MONITOR_LINE_MAX_def)
  have nul: "CHR 0x00 \<notin> set (nl (spaced ws))" using plain_spaced [OF ws(2)] by (simp add: plain_def nl_def)
  from served [OF s ws len t(2) run] have "serves env (nl (spaced ws)) (store, s) store1 MONITOR_ST_AUTHENTICATED t" by blast
  from served_roundtrip [OF this nul t(1)] t(3) show ?thesis
    unfolding roundtrip_def cmd by blast
qed

lemma word_lits [simp]:
  "word ''ADD_USER''" "word ''DEL_USER''" "word ''SET_PASSWORD''" "word ''admin''" "word ''CONFIG''" "word ''DENY_HOST''"
  "word ''DENY_IP''" "word ''UNDENY''" "word ''STATS''"
  by (simp_all add: word_def plain_def)

text \<open>One of the two texts that a handler answers with, and that it fits a line.\<close>

definition user_texts :: "string list" where
  "user_texts = [''+OK'', ''-ERR user exists'', ''-ERR user table full'', ''-ERR syntax error'', ''-ERR user not found'',
     ''-ERR cannot delete last admin'', ''-ERR invalid value'', ''-ERR unknown param'', ''-ERR host already denied'',
     ''-ERR address already denied'', ''-ERR failed to add rule'', ''-ERR rule not present'']"

lemma user_texts_ok:
  assumes "t \<in> set user_texts"
  shows "reply_line t" "length t < 250" "(\<not> err_reply t) = (t = ''+OK'')"
proof -
  have "list_all (\<lambda>t. reply_line t \<and> length t < 250 \<and> (\<not> err_reply t) = (t = ''+OK'')) user_texts"
    unfolding user_texts_def reply_line_def plain_def err_reply_def MAX_RESP_LINE_LEN_def by code_simp
  then have "reply_line t \<and> length t < 250 \<and> (\<not> err_reply t) = (t = ''+OK'')"
    using assms unfolding list_all_iff by (rule bspec)
  then show "reply_line t" "length t < 250" "(\<not> err_reply t) = (t = ''+OK'')" by blast+
qed

text \<open>The commands whose handler answers one of these texts.\<close>

lemma text_roundtrip:
  assumes s: "idle_session s" and ws: "ws \<noteq> []" "\<forall>w \<in> set ws. word w" "length ws \<le> 8" "hd ws \<noteq> ''AUTH''"
    and len: "length (spaced ws) < MONITOR_LINE_MAX"
    and t: "t \<in> set user_texts" "ok = (t = ''+OK'')"
    and run: "\<And>s. run_command env (hd ws) ws (store, s) = answer (nl t) (store1, s)"
  shows "roundtrip env (cmd_simple (cmd_text (nl (spaced ws)))) (store, s) store1 ok"
  using simple_roundtrip [OF s ws len user_texts_ok(1,2) [OF t(1)], of ok env store store1] user_texts_ok(3) [OF t(1)] t(2) run
  by simp

lemma add_user_roundtrip:
  assumes "idle_session s" "word u" "word p" "length u + length p < 450"
    and add: "store_user_add store (Some u) (Some p) a = (st, store1)"
  shows "roundtrip env (cmd_add_user u p a) (store, s) store1 (st = STORE_USER_OK)"
proof -
  let ?ws = "[''ADD_USER'', u, p] @ (if a then [''admin''] else [])"
  define t where "t = (case st of STORE_USER_OK \<Rightarrow> ''+OK'' | STORE_USER_EXISTS \<Rightarrow> ''-ERR user exists''
      | STORE_USER_TABLE_FULL \<Rightarrow> ''-ERR user table full'' | _ \<Rightarrow> ''-ERR syntax error'')"
  have "roundtrip env (cmd_simple (cmd_text (nl (spaced ?ws)))) (store, s) store1 (st = STORE_USER_OK)"
  proof (rule text_roundtrip [where t = t])
    show "run_command env (hd ?ws) ?ws (store, s) = answer (nl t) (store1, s)" for s
      using add by (cases a; cases st) (simp_all add: run_command_def handle_add_user_def t_def)
  qed (use assms in \<open>auto simp: t_def user_texts_def MONITOR_LINE_MAX_def split: store_user_result.splits\<close>)
  then show ?thesis by (simp add: cmd_add_user_def split: if_splits)
qed

lemma del_user_roundtrip:
  assumes "idle_session s" "word u" "length u < 450" and del: "store_user_delete store (Some u) = (st, store1)"
  shows "roundtrip env (cmd_del_user u) (store, s) store1 (st = STORE_USER_OK)"
proof -
  let ?ws = "[''DEL_USER'', u]"
  define t where "t = (case st of STORE_USER_OK \<Rightarrow> ''+OK'' | STORE_USER_NOT_FOUND \<Rightarrow> ''-ERR user not found''
      | STORE_USER_LAST_ADMIN \<Rightarrow> ''-ERR cannot delete last admin'' | _ \<Rightarrow> ''-ERR syntax error'')"
  have "roundtrip env (cmd_simple (cmd_text (nl (spaced ?ws)))) (store, s) store1 (st = STORE_USER_OK)"
  proof (rule text_roundtrip [where t = t])
    show "run_command env (hd ?ws) ?ws (store, s) = answer (nl t) (store1, s)" for s
      using del by (cases st) (simp_all add: run_command_def handle_del_user_def t_def)
  qed (use assms in \<open>auto simp: t_def user_texts_def MONITOR_LINE_MAX_def split: store_user_result.splits\<close>)
  then show ?thesis by (simp add: cmd_del_user_def)
qed

lemma set_password_roundtrip:
  assumes "idle_session s" "word u" "word p" "length u + length p < 450"
    and st: "store_user_set_password store (Some u) (Some p) = (st, store1)"
  shows "roundtrip env (cmd_set_password u p) (store, s) store1 (st = STORE_USER_OK)"
proof -
  let ?ws = "[''SET_PASSWORD'', u, p]"
  define t where "t = (if st = STORE_USER_OK then ''+OK'' else ''-ERR user not found'')"
  have "roundtrip env (cmd_simple (cmd_text (nl (spaced ?ws)))) (store, s) store1 (st = STORE_USER_OK)"
  proof (rule text_roundtrip [where t = t])
    show "run_command env (hd ?ws) ?ws (store, s) = answer (nl t) (store1, s)" for s
      using st by (cases st) (simp_all add: run_command_def handle_set_password_def t_def)
  qed (use assms in \<open>auto simp: t_def user_texts_def MONITOR_LINE_MAX_def\<close>)
  then show ?thesis by (simp add: cmd_set_password_def)
qed

section \<open>Numbers over the wire\<close>

lemma takeWhile_dec:
  assumes "rest = [] \<or> \<not> is_digit (hd rest)"
  shows "takeWhile is_digit (dec n @ rest) = dec n" "dropWhile is_digit (dec n @ rest) = rest"
  using dec_digits [of n] assms by (cases rest; simp add: takeWhile_append2 dropWhile_append2)+

lemma sscanf_unsigned:
  assumes "n < 2 ^ 64" "n < 2 ^ w" "rest = [] \<or> \<not> is_digit (hd rest)"
  shows "sscanf (F_unsigned w # ds) (dec n @ rest) = n # sscanf ds rest"
proof -
  obtain d cs where d: "dec n = d # cs" "is_digit d" using dec_digits [of n] by (cases "dec n") auto
  have "dropWhile is_space (dec n @ rest) = dec n @ rest" using d digit_not_space by simp
  moreover have "strtol_sign (dec n @ rest) = (False, dec n @ rest)" using d digit_not_sign by (auto simp: strtol_sign_def)
  ultimately show ?thesis using takeWhile_dec [OF assms(3), of n] assms(1,2) by (simp add: unsigned_val_def)
qed

lemma sscanf_last: "n < 2 ^ 64 \<Longrightarrow> n < 2 ^ w \<Longrightarrow> sscanf [F_unsigned w] (dec n) = [n]"
  using sscanf_unsigned [of n w "[]" "[]"] by simp

lemma stats_scanned:
  fixes a b c d :: u64
  shows "sscanf stats_format (''+OK total_connections='' @ dec (unat a) @ '' concurrent_connections='' @ dec (unat b) @
      '' bytes_up='' @ dec (unat c) @ '' bytes_down='' @ dec (unat d)) = [unat a, unat b, unat c, unat d]"
proof -
  have u: "unat x < 2 ^ 64" for x :: u64 using unsigned_less [of x, where 'a = nat] by simp
  show ?thesis using u [of a] u [of b] u [of c] u [of d]
    by (simp add: stats_format_def lits_def sscanf_unsigned sscanf_last is_space_def is_digit_def del: sscanf.simps(4))
qed

definition stats_text :: "monitor_store \<Rightarrow> string" where
  "stats_text store = (let m = store_metrics_get store in
     ''+OK total_connections='' @ dec (unat (total_connections m)) @ '' concurrent_connections='' @
     dec (unat (concurrent_connections m)) @ '' bytes_up='' @ dec (unat (m_bytes_up m)) @ '' bytes_down='' @ dec (unat (m_bytes_down m)))"

lemma plain_dec: "plain (dec n)"
  using dec_digits [of n] by (auto simp: plain_def is_digit_def)

lemma length_dec_u64: "length (dec (unat (x :: u64))) \<le> 20"
proof -
  have "unat x < 2 ^ 64" using unsigned_less [of x, where 'a = nat] by simp
  also have "(2 :: nat) ^ 64 \<le> 10 ^ Suc 19" by simp
  finally show ?thesis using length_dec [of "unat x" 19] by simp
qed

lemma stats_line: "reply_line (stats_text store)" "length (stats_text store) < 250" "take 1 (stats_text store) \<noteq> ''-''"
proof -
  let ?m = "store_metrics_get store"
  have "plain (stats_text store)"
    using plain_dec [of "unat (total_connections ?m)"] plain_dec [of "unat (concurrent_connections ?m)"]
      plain_dec [of "unat (m_bytes_up ?m)"] plain_dec [of "unat (m_bytes_down ?m)"]
    by (simp add: stats_text_def plain_def Let_def)
  moreover have len: "length (stats_text store) < 250"
    using length_dec_u64 [of "total_connections ?m"] length_dec_u64 [of "concurrent_connections ?m"]
      length_dec_u64 [of "m_bytes_up ?m"] length_dec_u64 [of "m_bytes_down ?m"]
    by (simp add: stats_text_def Let_def)
  moreover have "stats_text store \<noteq> ''.''" by (simp add: stats_text_def Let_def)
  ultimately show "reply_line (stats_text store)" "length (stats_text store) < 250" "take 1 (stats_text store) \<noteq> ''-''"
    by (simp_all add: reply_line_def MAX_RESP_LINE_LEN_def) (simp add: stats_text_def Let_def)
qed

lemma stats_text_scanned:
  "sscanf stats_format (stats_text store) = [unat (total_connections (ms_metrics store)), unat (concurrent_connections (ms_metrics store)),
     unat (m_bytes_up (ms_metrics store)), unat (m_bytes_down (ms_metrics store))]"
  unfolding stats_text_def store_metrics_get_def Let_def by (rule stats_scanned)

lemma stats_served: "idle_session s \<Longrightarrow> serves env (nl ''STATS'') (store, s) store MONITOR_ST_AUTHENTICATED (stats_text store)"
  using served [of s "[''STATS'']" "stats_text store" env store store] stats_line(2) [of store]
  by (simp add: run_command_def handle_stats_def stats_text_def Let_def MONITOR_LINE_MAX_def)

lemma stats_roundtrip:
  assumes "idle_session s"
  shows "\<exists>s1. monitor_commands_feed env (bytes_of (nl ''STATS'')) (store, s) = Inr (store, s1) \<and>
    (\<forall>c v1 v2 v3 v4. writes_ok c \<longrightarrow> delivers (cn_in c) (chars_of (buffer_pending (mc_wb s1))) \<longrightarrow>
      (\<exists>c'. cmd_stats [v1, v2, v3, v4] c =
         (True, [total_connections (ms_metrics store), concurrent_connections (ms_metrics store), m_bytes_up (ms_metrics store),
            m_bytes_down (ms_metrics store)], c') \<and> sent_over c (nl ''STATS'') [] c'))"
proof -
  obtain s1 where s1: "monitor_commands_feed env (bytes_of (nl ''STATS'')) (store, s) = Inr (store, s1)"
    "buffer_pending (mc_wb s1) = bytes_of (nl (stats_text store) @ nl ''.'')"
    using stats_served [OF assms, of env store] by (auto simp: serves_def)
  have r: "chars_of (buffer_pending (mc_wb s1)) = nl (stats_text store) @ nl ''.'' @ []"
    unfolding s1(2) chars_of_bytes_of by simp
  have "\<exists>c'. cmd_stats [v1, v2, v3, v4] c =
         (True, [total_connections (ms_metrics store), concurrent_connections (ms_metrics store), m_bytes_up (ms_metrics store),
            m_bytes_down (ms_metrics store)], c') \<and> sent_over c (nl ''STATS'') [] c'"
    if pre: "writes_ok c" "delivers (cn_in c) (chars_of (buffer_pending (mc_wb s1)))" for c v1 v2 v3 v4
  proof -
    obtain c1 c' where "write_all (nl ''STATS'') c = (True, c1)" "read_response 2 c1 = (Some [stats_text store], c')"
      "sent_over c (nl ''STATS'') [] c'"
      using ask [OF pre(1), of "nl ''STATS''" "stats_text store" "[]"] pre(2) r stats_line(1) by (auto simp: nl_def)
    then show ?thesis using stats_line(3) [of store] stats_text_scanned [of store] by (simp add: cmd_stats_def Let_def)
  qed
  with s1(1) show ?thesis by blast
qed

text \<open>Setting and reading a configuration value.\<close>

lemma word_dec: "word (dec n)"
  using plain_dec [of n] dec_word [of n] by (simp add: word_def)

lemma word_key: "word (key_name key)"
  by (cases key) (simp_all add: word_def plain_def key_name_def)

lemma config_set_roundtrip:
  assumes "idle_session s" "sessions_inv store" "config_accepts (e_realloc env) store key v"
  shows "\<exists>store1. roundtrip env (cmd_config (key_name key) (of_nat v)) (store, s) store1 True \<and>
    unat (store_config_get store1 key) = v"
proof -
  have v: "v \<le> 86400" using assms(3) by (cases key) (auto simp: config_accepts_def)
  then have d: "unat (of_nat v :: u32) = v" by (simp add: unsigned_of_nat take_bit_nat_eq_self)
  obtain store1 where w: "\<And>s. handle_config env [''CONFIG'', key_name key, dec v] (store, s) = answer (nl ''+OK'') (store1, s)"
    "unat (store_config_get store1 key) = v"
    using config_write [OF assms(2,3)] by blast
  let ?ws = "[''CONFIG'', key_name key, dec v]"
  have "roundtrip env (cmd_simple (cmd_text (nl (spaced ?ws)))) (store, s) store1 True"
  proof (rule text_roundtrip [where t = "''+OK''"])
    show "length (spaced ?ws) < MONITOR_LINE_MAX"
      using length_dec [of v 4] v by (cases key) (simp_all add: key_name_def MONITOR_LINE_MAX_def)
    show "run_command env (hd ?ws) ?ws (store, s) = answer (nl ''+OK'') (store1, s)" for s
      using w(1) by (simp add: run_command_def)
  qed (use assms(1) in \<open>simp_all add: word_key word_dec user_texts_def\<close>)
  then show ?thesis using w(2) d by (auto simp: cmd_config_def)
qed

lemma config_scanned: "config_value (''+OK '' @ dec (unat (v :: u32))) = Some v"
proof -
  have u: "unat v < 2 ^ 32" using unsigned_less [of v, where 'a = nat] by simp
  have d: "dropWhile is_space (dec (unat v)) = dec (unat v)"
    using dec_digits [of "unat v"] digit_not_space by (cases "dec (unat v)") auto
  show ?thesis using u sscanf_last [of "unat v" 32] d
    by (simp add: config_value_def lits_def is_space_def [of "CHR '' ''"] del: sscanf.simps(4))
qed

lemma config_get_roundtrip:
  assumes "idle_session s"
  shows "\<exists>cmd s1. monitor_commands_feed env (bytes_of cmd) (store, s) = Inr (store, s1) \<and>
    (\<forall>n c. writes_ok c \<longrightarrow> delivers (cn_in c) (chars_of (buffer_pending (mc_wb s1))) \<longrightarrow>
      (\<exists>c'. cmd_config_get (key_name key) n c = (Some (store_config_get store key), [], c') \<and> sent_over c cmd [] c'))"
proof -
  let ?v = "store_config_get store key" and ?cmd = "nl (spaced [''CONFIG'', key_name key])"
  let ?t = "''+OK '' @ dec (unat ?v)"
  have len: "length (spaced [''CONFIG'', key_name key]) < MONITOR_LINE_MAX"
    by (cases key) (simp_all add: key_name_def MONITOR_LINE_MAX_def)
  have cmd: "cmd_text (nl (''CONFIG '' @ key_name key)) = ?cmd"
    using len cmd_text_id [of "''CONFIG '' @ key_name key"] by (simp add: MONITOR_LINE_MAX_def)
  have nul: "CHR 0x00 \<notin> set ?cmd" using word_key [of key] by (simp add: word_def plain_def nl_def)
  have "unat ?v < 2 ^ 32" using unsigned_less [of ?v, where 'a = nat] by simp
  then have l: "length (dec (unat ?v)) \<le> 10" using length_dec [of "unat ?v" 9] by simp
  then have t: "reply_line ?t" "length ?t < 250" "\<not> err_reply ?t"
    using plain_dec [of "unat ?v"] by (simp_all add: reply_line_def plain_def MAX_RESP_LINE_LEN_def err_reply_def)
  have "serves env ?cmd (store, s) store MONITOR_ST_AUTHENTICATED ?t"
    by (rule served) (use assms len t word_key in \<open>simp_all add: run_command_def config_read\<close>)
  then obtain s1 where s1: "monitor_commands_feed env (bytes_of ?cmd) (store, s) = Inr (store, s1)"
    "buffer_pending (mc_wb s1) = bytes_of (nl ?t @ nl ''.'')"
    by (auto simp: serves_def)
  have r: "chars_of (buffer_pending (mc_wb s1)) = nl ?t @ nl ''.'' @ []" unfolding s1(2) chars_of_bytes_of by simp
  have "\<exists>c'. cmd_config_get (key_name key) n c = (Some ?v, [], c') \<and> sent_over c ?cmd [] c'"
    if pre: "writes_ok c" "delivers (cn_in c) (chars_of (buffer_pending (mc_wb s1)))" for n c
  proof -
    obtain c1 c' where "write_all ?cmd c = (True, c1)" "read_response 2 c1 = (Some [?t], c')" "sent_over c ?cmd [] c'"
      using ask [OF pre(1) nul, of ?t "[]"] pre(2) r t(1) by auto
    then show ?thesis using t(3) config_scanned [of ?v] cmd unfolding cmd_config_get_def cmd by simp
  qed
  with s1(1) show ?thesis by blast
qed

section \<open>Access rules over the wire\<close>

lemma deny_ip_roundtrip:
  assumes "idle_session s" "acl_inv store" "calloc_fresh env" "word ip" "length ip < 450"
  defines "ok \<equiv> ip_target (e_net env) ip \<noteq> None \<and> the (ip_target (e_net env) ip) \<notin> set (addr_members store)"
  shows "\<exists>store1. roundtrip env (cmd_deny_ip ip) (store, s) store1 ok \<and> acl_inv store1 \<and>
    addr_members store1 = (if ok then addr_members store @ [the (ip_target (e_net env) ip)] else addr_members store) \<and>
    host_members store1 = host_members store"
proof -
  let ?ws = "[''DENY_IP'', ip]" and ?net = "e_net env"
  obtain a where a: "e_calloc env store = Some a" "map_of (ms_rules store) a = None" using assms(3) by (auto simp: calloc_fresh_def)
  obtain store2 where d: "store_deny_ip ?net (Some a) store (Some ip) = Inr (ok, store2)" "acl_inv store2"
    "addr_members store2 = (if ok then addr_members store @ [the (ip_target ?net ip)] else addr_members store)"
    "host_members store2 = host_members store"
    using deny_ip_law [OF assms(2) a(2), of ?net ip] by (auto simp: ok_def)
  define den where "den = (\<exists>t. ip_target ?net ip = Some t \<and> t \<in> set (addr_members store))"
  have q: "is_ip_denied ?net store (Some ip) = Inr den" using is_denied_members(2) [OF assms(2), of ?net ip] by (simp add: den_def)
  define t where "t = (if den then ''-ERR address already denied'' else if ok then ''+OK'' else ''-ERR failed to add rule'')"
  define store1 where "store1 = (if den then store else store2)"
  have "\<not> ok" if den using that by (auto simp: den_def ok_def)
  then have ok: "ok = (t = ''+OK'')" by (simp add: t_def)
  have "roundtrip env (cmd_simple (cmd_text (nl (spaced ?ws)))) (store, s) store1 ok"
  proof (rule text_roundtrip [where t = t])
    show "run_command env (hd ?ws) ?ws (store, s) = answer (nl t) (store1, s)" for s
      using q a d(1) by (simp add: run_command_def handle_deny_ip_def t_def store1_def)
  qed (use assms ok in \<open>auto simp: t_def user_texts_def MONITOR_LINE_MAX_def\<close>)
  then have "roundtrip env (cmd_deny_ip ip) (store, s) store1 ok" by (simp add: cmd_deny_ip_def)
  moreover have "ok \<Longrightarrow> \<not> den" by (auto simp: den_def ok_def)
  ultimately show ?thesis using d assms(2) by (auto simp: store1_def)
qed

lemma undeny_roundtrip:
  fixes env :: cmd_env
  assumes "idle_session s" "acl_inv store" "word x" "length x < 450"
  defines "host \<equiv> Acl_host x \<in> set (host_members store)"
  defines "ip \<equiv> (\<exists>t. ip_target (e_net env) x = Some t \<and> t \<in> set (addr_members store))"
  shows "\<exists>store1. roundtrip env (cmd_undeny x) (store, s) store1 (host \<or> ip) \<and> acl_inv store1 \<and>
    host_members store1 = remove1 (Acl_host x) (host_members store) \<and>
    addr_members store1 = (if host then addr_members store else case ip_target (e_net env) x of
        None \<Rightarrow> addr_members store | Some t \<Rightarrow> remove1 t (addr_members store))"
proof -
  let ?ws = "[''UNDENY'', x]" and ?net = "e_net env"
  obtain st1 where h: "store_undeny_host store (Some x) = Inr (host, st1)" "acl_inv st1"
    "host_members st1 = remove1 (Acl_host x) (host_members store)" "addr_members st1 = addr_members store"
    using undeny_host_law [OF assms(2), of x] by (auto simp: host_def)
  obtain st2 where i: "store_undeny_ip ?net st1 (Some x) = Inr (ip, st2)" "acl_inv st2"
    "addr_members st2 = (case ip_target ?net x of None \<Rightarrow> addr_members store | Some t \<Rightarrow> remove1 t (addr_members store))"
    "host_members st2 = host_members st1"
    using undeny_ip_law [OF h(2), of ?net x, unfolded h(4)] unfolding ip_def by blast
  define t where "t = (if host \<or> ip then ''+OK'' else ''-ERR rule not present'')"
  define store1 where "store1 = (if host then st1 else st2)"
  have "roundtrip env (cmd_simple (cmd_text (nl (spaced ?ws)))) (store, s) store1 (host \<or> ip)"
  proof (rule text_roundtrip [where t = t])
    show "run_command env (hd ?ws) ?ws (store, s) = answer (nl t) (store1, s)" for s
      using h(1) i(1) by (simp add: run_command_def handle_undeny_def t_def store1_def)
  qed (use assms in \<open>auto simp: t_def user_texts_def MONITOR_LINE_MAX_def\<close>)
  then have "roundtrip env (cmd_undeny x) (store, s) store1 (host \<or> ip)" by (simp add: cmd_undeny_def)
  then show ?thesis using h i by (intro exI [of _ store1]) (simp add: store1_def)
qed

lemma deny_host_roundtrip:
  assumes "idle_session s" "acl_inv store" "calloc_fresh env" "word h" "length h \<le> STORE_MAX_DEST_HOST"
  defines "ok \<equiv> inet_pton4 (e_net env) h = None \<and> inet_pton6 (e_net env) h = None \<and> Acl_host h \<notin> set (host_members store)"
  shows "\<exists>store1. roundtrip env (cmd_deny_host h) (store, s) store1 ok \<and> acl_inv store1 \<and>
    host_members store1 = (if ok then host_members store @ [Acl_host h] else host_members store) \<and>
    addr_members store1 = addr_members store"
proof -
  let ?ws = "[''DENY_HOST'', h]" and ?net = "e_net env"
  obtain a where a: "e_calloc env store = Some a" "map_of (ms_rules store) a = None" using assms(3) by (auto simp: calloc_fresh_def)
  obtain store2 where d: "store_deny_host ?net (Some a) store (Some h) = Inr (ok, store2)" "acl_inv store2"
    "host_members store2 = (if ok then host_members store @ [Acl_host h] else host_members store)"
    "addr_members store2 = addr_members store"
    using deny_host_law [OF assms(2) a(2) assms(5), of ?net] by (auto simp: ok_def)
  define den where "den = (Acl_host h \<in> set (host_members store))"
  have q: "is_host_denied store (Some h) = Inr den" using is_denied_members(1) [OF assms(2), of h] by (simp add: den_def)
  define t where "t = (if den then ''-ERR host already denied'' else if ok then ''+OK'' else ''-ERR failed to add rule'')"
  define store1 where "store1 = (if den then store else store2)"
  have nd: "ok \<Longrightarrow> \<not> den" by (simp add: den_def ok_def)
  have "roundtrip env (cmd_simple (cmd_text (nl (spaced ?ws)))) (store, s) store1 ok"
  proof (rule text_roundtrip [where t = t])
    show "run_command env (hd ?ws) ?ws (store, s) = answer (nl t) (store1, s)" for s
      using q a d(1) by (simp add: run_command_def handle_deny_host_def t_def store1_def)
  qed (use assms nd in \<open>auto simp: t_def user_texts_def MONITOR_LINE_MAX_def STORE_MAX_DEST_HOST_def\<close>)
  then have "roundtrip env (cmd_deny_host h) (store, s) store1 ok" by (simp add: cmd_deny_host_def)
  then show ?thesis using d assms(2) nd by (intro exI [of _ store1]) (auto simp: store1_def)
qed

section \<open>Logging in\<close>

lemma auth_roundtrip:
  fixes store :: monitor_store
  assumes "waiting MONITOR_ST_AWAIT_AUTH s" "word u" "word p" "length u + length p < 450"
  defines "r \<equiv> store_admin_authenticate store (Some u) (Some p)"
  shows "\<exists>cmd s1. monitor_commands_feed env (bytes_of cmd) (store, s) = Inr (store, s1) \<and>
    mc_state s1 = (if r = STORE_AUTH_OK then MONITOR_ST_AUTHENTICATED else MONITOR_ST_AWAIT_AUTH) \<and>
    (\<forall>n c. writes_ok c \<longrightarrow> delivers (cn_in c) (chars_of (buffer_pending (mc_wb s1))) \<longrightarrow>
      (\<exists>err c'. cmd_auth u p n c = (r = STORE_AUTH_OK, err, c') \<and> sent_over c cmd [] c'))"
proof -
  let ?ws = "[''AUTH'', u, p]" and ?st = "if r = STORE_AUTH_OK then MONITOR_ST_AUTHENTICATED else MONITOR_ST_AWAIT_AUTH"
  define t where "t = (case r of STORE_AUTH_OK \<Rightarrow> ''+OK'' | STORE_AUTH_NOT_ADMIN \<Rightarrow> ''-ERR not admin''
      | STORE_AUTH_INVALID \<Rightarrow> ''-ERR invalid credentials'')"
  have t: "reply_line t" "length t < 250" "(\<not> err_reply t) = (r = STORE_AUTH_OK)"
    by (cases r; simp add: t_def reply_line_def plain_def err_reply_def MAX_RESP_LINE_LEN_def)+
  have ws: "\<forall>w \<in> set ?ws. word w" "length (spaced ?ws) < MONITOR_LINE_MAX"
    using assms(2-4) by (auto simp: word_def plain_def MONITOR_LINE_MAX_def)
  have "serves env (nl (spaced ?ws)) (store, s) store ?st t"
  proof (rule served_body [OF assms(1) _ ws(1) _ ws(2) t(2)])
    fix s :: monitor_commands_session assume st: "mc_state s = MONITOR_ST_AWAIT_AUTH"
    then have same: "s\<lparr>mc_state := MONITOR_ST_AWAIT_AUTH\<rparr> = s" by (cases s) simp
    show "dispatch_body env ?ws (store, s) = answer (nl t) (store, s\<lparr>mc_state := ?st\<rparr>)"
      using st by (cases r) (simp_all only: same store_auth_result.distinct if_False if_True refl,
        simp_all add: dispatch_body_def handle_auth_def t_def r_def)
  qed simp_all
  then obtain s1 where s1: "monitor_commands_feed env (bytes_of (nl (spaced ?ws))) (store, s) = Inr (store, s1)" "mc_state s1 = ?st"
    by (auto simp: serves_def)
  have nul: "CHR 0x00 \<notin> set (nl (spaced ?ws))" using plain_spaced [OF ws(1)] by (simp add: plain_def nl_def)
  have cmd: "cmd_auth u p = cmd_simple (nl (spaced ?ws))"
    using cmd_text_id [of "spaced ?ws"] ws(2) by (simp add: cmd_auth_def MONITOR_LINE_MAX_def)
  obtain s2 where s2: "monitor_commands_feed env (bytes_of (nl (spaced ?ws))) (store, s) = Inr (store, s2)"
    and all: "\<forall>n c. writes_ok c \<longrightarrow> delivers (cn_in c) (chars_of (buffer_pending (mc_wb s2))) \<longrightarrow>
      (\<exists>c'. cmd_simple (nl (spaced ?ws)) n c = (\<not> err_reply t, if err_reply t then snprintf n (err_message t) else [], c') \<and>
         sent_over c (nl (spaced ?ws)) [] c')"
    using served_roundtrip [OF \<open>serves env (nl (spaced ?ws)) (store, s) store ?st t\<close> nul t(1)] by blast
  have "s2 = s1" using s1(1) s2 by simp
  with s1 all show ?thesis unfolding cmd t(3) by blast
qed

end
