(* ===== verification/Client_Terminal.thy ===== *)
theory Client_Terminal
  imports Client_Exchange Actions
begin

text \<open>
  The terminal of the administration client, the first half of \<^verbatim>\<open>src/client/ui.c\<close>: terminal attributes and raw mode, the
  interrupt handler, the standard input stream and keys. The bytes of standard input that are still to come are a finite
  list, then the end of the file. What the stream buffer of the C library takes at a time, and how much of what was typed
  ahead a flush discards, are answers of the environment. The characters that the terminal echoes are kept, so that it can be
  said which input is shown.
\<close>

unbundle bit_operations_syntax

section \<open>Terminals\<close>

record termios =
  c_lflag :: u32
  c_vmin :: byte
  c_vtime :: byte

definition ICANON :: u32 where "ICANON = 2"
definition ECHO :: u32 where "ECHO = 8"

text \<open>
  \<open>tm_tty\<close>: whether standard input is a terminal; \<open>tm_chunks\<close>: how much each refill of the stream buffer \<open>tm_buf\<close> reads;
  \<open>tm_flush\<close>: how much each flush discards; \<open>tm_shown\<close>: what has been echoed; \<open>tm_saved\<close>, \<open>tm_raw\<close>: the static variables
  \<^verbatim>\<open>saved_term\<close> (\<open>None\<close> when it has no determined value) and \<^verbatim>\<open>raw_active\<close>; \<open>tm_sigint\<close>: whether the interrupt handler is installed.
\<close>

record terminal =
  tm_in :: string
  tm_buf :: string
  tm_chunks :: "nat list"
  tm_flush :: "nat list"
  tm_out :: string
  tm_shown :: string
  tm_tty :: bool
  tm_attr :: termios
  tm_saved :: "termios option"
  tm_raw :: bool
  tm_sigint :: bool
  tm_conn :: conn
  tm_params :: "u32 list"

type_synonym 'a tact = "(terminal, 'a) action"

definition printf :: "string \<Rightarrow> unit tact" where
  "printf text = (\<lambda>t. Inr ((), t\<lparr>tm_out := tm_out t @ text\<rparr>))"

definition ESC :: char where "ESC = CHR 0x1B"

definition save_cursor :: string where "save_cursor = ESC # ''[s''"
definition restore_clear :: string where "restore_clear = [ESC] @ ''[u'' @ [ESC] @ ''[J''"

definition up_clear :: "nat \<Rightarrow> string" where
  "up_clear n = [ESC] @ ''['' @ dec n @ ''A'' @ [ESC] @ ''[J''"

section \<open>Attributes\<close>

text \<open>Both calls fail without effect when standard input is not a terminal.\<close>

definition tcgetattr :: "terminal \<Rightarrow> termios option" where
  "tcgetattr t = (if tm_tty t then Some (tm_attr t) else None)"

definition tcsetattr :: "bool \<Rightarrow> termios option \<Rightarrow> unit tact" where
  "tcsetattr flush attr = (\<lambda>t.
     if \<not> tm_tty t then Inr ((), t)
     else case attr of
            None \<Rightarrow> Inl Uninitialised
          | Some a \<Rightarrow>
              if flush
              then let k = (case tm_flush t of [] \<Rightarrow> 0 | n # _ \<Rightarrow> n)
                   in Inr ((), t\<lparr>tm_attr := a, tm_in := drop k (tm_in t), tm_flush := tl (tm_flush t)\<rparr>)
              else Inr ((), t\<lparr>tm_attr := a\<rparr>))"

definition raw_mode :: "termios \<Rightarrow> termios" where
  "raw_mode a = a\<lparr>c_lflag := c_lflag a AND NOT (ICANON OR ECHO), c_vmin := 1, c_vtime := 0\<rparr>"

definition term_enter_raw :: "unit tact" where
  "term_enter_raw =
     act_then (\<lambda>t. Inr ((), case tcgetattr t of None \<Rightarrow> t | Some a \<Rightarrow> t\<lparr>tm_saved := Some a\<rparr>))
     (act_then (\<lambda>t. tcsetattr True (map_option raw_mode (tm_saved t)) t)
     (\<lambda>t. Inr ((), t\<lparr>tm_raw := True, tm_sigint := True\<rparr>)))"

definition term_exit_raw :: "unit tact" where
  "term_exit_raw = (\<lambda>t.
     if tm_raw t then act_then (tcsetattr False (tm_saved t)) (\<lambda>t1. Inr ((), t1\<lparr>tm_raw := False\<rparr>)) t
     else Inr ((), t))"

text \<open>The handler ends the process; the result is the terminal it leaves behind.\<close>

definition sigint_handler :: "unit tact" where
  "sigint_handler = act_then (printf ([ESC] @ ''[?25h'')) (\<lambda>t. tcsetattr False (tm_saved t) t)"

section \<open>Input\<close>

text \<open>A character typed while \<open>ECHO\<close> is set is shown.\<close>

definition echoed :: "string \<Rightarrow> terminal \<Rightarrow> terminal" where
  "echoed cs t = (if tm_tty t \<and> c_lflag (tm_attr t) AND ECHO \<noteq> 0 then t\<lparr>tm_shown := tm_shown t @ cs\<rparr> else t)"

text \<open>A refill takes at least one byte unless the input has ended; without an answer of the environment it takes a line.\<close>

definition refill :: "terminal \<Rightarrow> terminal" where
  "refill t =
     (let k = (case tm_chunks t of [] \<Rightarrow> Suc (length (takeWhile (\<lambda>c. c \<noteq> CHR 0x0A) (tm_in t))) | n # _ \<Rightarrow> max 1 n);
          got = take k (tm_in t)
      in echoed got (t\<lparr>tm_buf := got, tm_in := drop k (tm_in t), tm_chunks := tl (tm_chunks t)\<rparr>))"

fun fgets_loop :: "nat \<Rightarrow> terminal \<Rightarrow> string \<times> terminal" where
  "fgets_loop 0 t = ([], t)"
| "fgets_loop (Suc m) t =
     (let t1 = (if tm_buf t = [] then refill t else t)
      in case tm_buf t1 of
           [] \<Rightarrow> ([], t1)
         | c # cs \<Rightarrow>
             let t2 = t1\<lparr>tm_buf := cs\<rparr>
             in if c = CHR 0x0A then ([c], t2) else let (s, t3) = fgets_loop m t2 in (c # s, t3))"

definition fgets :: "nat \<Rightarrow> terminal \<Rightarrow> string option \<times> terminal" where
  "fgets n t = (let (s, t1) = fgets_loop (n - 1) t in (if s = [] then None else Some s, t1))"

definition strip_eol :: "string \<Rightarrow> string" where
  "strip_eol s = rev (dropWhile (\<lambda>c. c = CHR 0x0A \<or> c = CHR 0x0D) (rev s))"

definition KEY_NONE :: nat where "KEY_NONE = 0"
definition KEY_UP :: nat where "KEY_UP = 1"
definition KEY_DOWN :: nat where "KEY_DOWN = 2"
definition KEY_ENTER :: nat where "KEY_ENTER = 3"
definition KEY_ESC :: nat where "KEY_ESC = 4"

fun getkey :: "string \<Rightarrow> nat \<times> string" where
  "getkey [] = (KEY_NONE, [])"
| "getkey (c # cs) =
     (if c = ESC
      then (case cs of
              [] \<Rightarrow> (KEY_ESC, [])
            | [_] \<Rightarrow> (KEY_ESC, [])
            | s0 # s1 # rest \<Rightarrow>
                (if s0 = CHR ''['' \<and> s1 = CHR ''A'' then KEY_UP
                 else if s0 = CHR ''['' \<and> s1 = CHR ''B'' then KEY_DOWN else KEY_ESC, rest))
      else if c = CHR 0x0A \<or> c = CHR 0x0D then (KEY_ENTER, cs)
      else (of_char c, cs))"

text \<open>Keys are read from the descriptor, past the stream buffer.\<close>

definition term_getkey :: "nat tact" where
  "term_getkey = (\<lambda>t. let (k, rest) = getkey (tm_in t)
     in Inr (k, echoed (take (length (tm_in t) - length rest) (tm_in t)) (t\<lparr>tm_in := rest\<rparr>)))"

section \<open>What reading changes\<close>

lemmas tm_defs = act_ret_def act_bind_def act_then_def printf_def

text \<open>The input that is left, in the stream buffer and in the terminal.\<close>

definition tm_left :: "terminal \<Rightarrow> nat" where
  "tm_left t = length (tm_buf t) + length (tm_in t)"

text \<open>Reading and printing touch neither modes nor connection, and show nothing of the input while there is no echo.\<close>

definition only_read :: "terminal \<Rightarrow> terminal \<Rightarrow> bool" where
  "only_read t t' \<longleftrightarrow> tm_tty t' = tm_tty t \<and> tm_attr t' = tm_attr t \<and> tm_saved t' = tm_saved t \<and> tm_raw t' = tm_raw t \<and>
     tm_sigint t' = tm_sigint t \<and> tm_conn t' = tm_conn t \<and> tm_params t' = tm_params t \<and>
     tm_flush t' = tm_flush t \<and> tm_left t' \<le> tm_left t \<and> (c_lflag (tm_attr t) AND ECHO = 0 \<longrightarrow> tm_shown t' = tm_shown t)"

lemma only_read_refl [simp]: "only_read t t"
  by (simp add: only_read_def)

lemma only_read_out [simp]: "only_read t (t\<lparr>tm_out := out\<rparr>)"
  by (simp add: only_read_def tm_left_def)

lemma only_read_trans: "only_read t t1 \<Longrightarrow> only_read t1 t2 \<Longrightarrow> only_read t t2"
  by (auto simp: only_read_def)

lemma refill_read: "tm_buf t = [] \<Longrightarrow> only_read t (refill t)" "tm_buf t = [] \<Longrightarrow> tm_left (refill t) = tm_left t"
  by (auto simp: only_read_def refill_def echoed_def Let_def tm_left_def)

lemma refill_gets: "tm_in t \<noteq> [] \<Longrightarrow> tm_buf (refill t) \<noteq> []"
  by (auto simp: refill_def echoed_def Let_def split: list.splits)

lemma fgets_loop_read:
  "fgets_loop m t = (s, t1) \<Longrightarrow> only_read t t1 \<and> length s \<le> m \<and> tm_left t1 + length s = tm_left t"
proof (induction m arbitrary: t s t1)
  case (Suc m)
  define t0 where "t0 = (if tm_buf t = [] then refill t else t)"
  have r: "only_read t t0" "tm_left t0 = tm_left t" using refill_read [of t] by (simp_all add: t0_def)
  show ?case
  proof (cases "tm_buf t0")
    case (Cons c cs)
    have left: "only_read t0 (t0\<lparr>tm_buf := cs\<rparr>)" "tm_left t0 = Suc (tm_left (t0\<lparr>tm_buf := cs\<rparr>))"
      using Cons by (simp_all add: only_read_def tm_left_def)
    obtain s1 t2 where rest: "fgets_loop m (t0\<lparr>tm_buf := cs\<rparr>) = (s1, t2)" by (cases "fgets_loop m (t0\<lparr>tm_buf := cs\<rparr>)")
    show ?thesis
      using Suc.prems Cons left r rest Suc.IH [OF rest] by (auto simp: t0_def [symmetric] Let_def split: if_splits intro: only_read_trans)
  qed (use Suc.prems r in \<open>auto simp: t0_def [symmetric] Let_def\<close>)
qed simp

lemma fgets_read:
  assumes "fgets n t = (l, t1)" "1 < n"
  shows "only_read t t1" "l = Some got \<Longrightarrow> length got < n \<and> got \<noteq> []" "0 < tm_left t \<Longrightarrow> l \<noteq> None \<and> tm_left t1 < tm_left t"
    "tm_left t = 0 \<Longrightarrow> l = None"
proof -
  obtain m where m: "n - 1 = Suc m" using assms(2) by (metis Suc_diff_1 zero_less_diff)
  obtain s where s: "fgets_loop (n - 1) t = (s, t1)" "l = (if s = [] then None else Some s)"
    using assms(1) by (auto simp: fgets_def split: prod.splits)
  note r = fgets_loop_read [OF s(1)]
  show "only_read t t1" "l = Some got \<Longrightarrow> length got < n \<and> got \<noteq> []" "tm_left t = 0 \<Longrightarrow> l = None"
    using r s(2) assms(2) by (auto split: if_splits)
  show "l \<noteq> None \<and> tm_left t1 < tm_left t" if "0 < tm_left t"
  proof -
    define t0 where "t0 = (if tm_buf t = [] then refill t else t)"
    have "tm_buf t0 \<noteq> []" using refill_gets [of t] that by (auto simp: t0_def tm_left_def)
    then have "s \<noteq> []" using s(1) [unfolded m] by (auto simp: t0_def [symmetric] Let_def split: list.splits if_splits prod.splits)
    then show ?thesis using r s(2) by (cases s) auto
  qed
qed

lemma fgets_eof: "tm_left t = 0 \<Longrightarrow> fgets n t = (l, t1) \<Longrightarrow> l = None \<and> tm_left t1 = 0"
  using fgets_loop_read [of "n - 1" t] by (auto simp: fgets_def split: prod.splits)

lemma getkey_shorter: "ins \<noteq> [] \<Longrightarrow> length (snd (getkey ins)) < length ins"
  by (cases ins) (auto split: list.splits)

lemma term_getkey_read:
  assumes "term_getkey t = Inr (k, t1)"
  shows "only_read t t1" "k \<noteq> KEY_NONE \<Longrightarrow> tm_left t1 < tm_left t" "tm_in t \<noteq> [] \<Longrightarrow> length (tm_in t1) < length (tm_in t)"
    "tm_in t = [] \<Longrightarrow> k = KEY_NONE \<and> tm_in t1 = []"
proof -
  obtain rest where k: "getkey (tm_in t) = (k, rest)" and t1: "t1 = echoed (take (length (tm_in t) - length rest) (tm_in t)) (t\<lparr>tm_in := rest\<rparr>)"
    using assms by (auto simp: term_getkey_def split: prod.splits)
  have in1: "tm_in t1 = rest" "tm_buf t1 = tm_buf t" by (simp_all add: t1 echoed_def)
  have len: "tm_in t \<noteq> [] \<Longrightarrow> length rest < length (tm_in t)" using getkey_shorter [of "tm_in t"] k by simp
  have nil: "tm_in t = [] \<Longrightarrow> k = KEY_NONE \<and> rest = []" using k by simp
  show "tm_in t \<noteq> [] \<Longrightarrow> length (tm_in t1) < length (tm_in t)" "tm_in t = [] \<Longrightarrow> k = KEY_NONE \<and> tm_in t1 = []"
    "k \<noteq> KEY_NONE \<Longrightarrow> tm_left t1 < tm_left t"
    using len nil in1 by (auto simp: tm_left_def)
  have "length rest \<le> length (tm_in t)" using len nil by (cases "tm_in t = []") auto
  then show "only_read t t1" using in1 by (simp add: only_read_def tm_left_def) (simp add: t1 echoed_def)
qed

section \<open>Modes\<close>

lemma tcsetattr_run:
  assumes "tcsetattr flush a t = Inr (u, t1)"
  shows "tm_tty t1 = tm_tty t \<and> tm_saved t1 = tm_saved t \<and> tm_sigint t1 = tm_sigint t \<and> tm_shown t1 = tm_shown t \<and> tm_raw t1 = tm_raw t \<and>
    tm_conn t1 = tm_conn t \<and> tm_params t1 = tm_params t \<and> tm_left t1 \<le> tm_left t \<and>
    tm_attr t1 = (if tm_tty t then the a else tm_attr t)"
  using assms by (auto simp: tcsetattr_def Let_def tm_left_def split: if_splits option.splits)

text \<open>Entering raw mode saves the attributes and installs the handler; an interrupt or leaving the mode restores them.\<close>

lemma enter_raw_run:
  "\<exists>t1. term_enter_raw t = Inr ((), t1) \<and> tm_raw t1 \<and> tm_sigint t1 \<and> tm_tty t1 = tm_tty t \<and> tm_conn t1 = tm_conn t \<and>
    tm_params t1 = tm_params t \<and> tm_out t1 = tm_out t \<and> tm_buf t1 = tm_buf t \<and> tm_shown t1 = tm_shown t \<and>
    length (tm_in t1) \<le> length (tm_in t) \<and>
    (if tm_tty t then tm_attr t1 = raw_mode (tm_attr t) \<and> tm_saved t1 = Some (tm_attr t) else tm_attr t1 = tm_attr t \<and> tm_saved t1 = tm_saved t)"
  by (auto simp: term_enter_raw_def tcgetattr_def tcsetattr_def tm_defs Let_def)

lemma exit_raw_run:
  assumes "tm_raw t" "tm_tty t \<Longrightarrow> tm_saved t \<noteq> None"
  shows "term_exit_raw t = Inr ((), t\<lparr>tm_raw := False, tm_attr := if tm_tty t then the (tm_saved t) else tm_attr t\<rparr>)"
  using assms by (cases "tm_saved t") (auto simp: term_exit_raw_def tcsetattr_def tm_defs)

text \<open>Between the two calls an interrupt restores the attributes of before.\<close>

lemma raw_interrupted:
  assumes "term_enter_raw t = Inr ((), t1)" "only_read t1 t2" "tm_tty t"
  shows "tm_sigint t2 \<and> (\<exists>t3. sigint_handler t2 = Inr ((), t3) \<and> tm_attr t3 = tm_attr t)"
  using enter_raw_run [of t] assms by (auto simp: only_read_def sigint_handler_def tcsetattr_def tm_defs)

lemma raw_restored:
  assumes "term_enter_raw t = Inr ((), t1)" "only_read t1 t2" "term_exit_raw t2 = Inr ((), t3)"
  shows "\<not> tm_raw t3 \<and> tm_tty t3 = tm_tty t \<and> tm_attr t3 = tm_attr t \<and> tm_conn t3 = tm_conn t \<and> tm_params t3 = tm_params t"
proof -
  note e = enter_raw_run [of t]
  have "tm_raw t2" "tm_tty t2 \<Longrightarrow> tm_saved t2 \<noteq> None" using e assms(1,2) by (auto simp: only_read_def split: if_splits)
  from exit_raw_run [OF this] show ?thesis using e assms by (auto simp: only_read_def split: if_splits)
qed

end
