(* ===== verification/Client_Ui.thy ===== *)
theory Client_Ui
  imports Client_Terminal
begin

text \<open>
  The second half of \<^verbatim>\<open>src/client/ui.c\<close>: line, password and number input, the menu, sizes and lists of lines. A loop
  takes the number of bytes left plus one as its fuel: every round but one at the end of the input takes a byte, so the fuel
  runs out only where the program loops forever.
\<close>

section \<open>Lines\<close>

definition read_stdin_line :: "nat \<Rightarrow> string tact" where
  "read_stdin_line mx = (\<lambda>t. let (l, t1) = fgets mx t
     in Inr (case l of None \<Rightarrow> [] | Some buf \<Rightarrow> strip_eol (cstr buf), t1))"

definition input_line :: "string \<Rightarrow> nat \<Rightarrow> string tact" where
  "input_line prompt mx = act_then (printf prompt) (read_stdin_line mx)"

definition no_echo :: "termios \<Rightarrow> termios" where
  "no_echo a = a\<lparr>c_lflag := c_lflag a AND NOT ECHO\<rparr>"

text \<open>The end of line characters are removed after the attributes have been restored, which makes no difference.\<close>

definition input_password :: "string \<Rightarrow> nat \<Rightarrow> string tact" where
  "input_password prompt mx = act_bind (act_get tcgetattr) (\<lambda>old.
     act_then (act_mod (\<lambda>t. t\<lparr>tm_saved := old, tm_sigint := True\<rparr>))
     (act_then (tcsetattr True (map_option no_echo old))
     (act_then (printf prompt) (act_bind (read_stdin_line mx) (\<lambda>buf.
     (act_then (tcsetattr True old) (act_then (printf [CHR 0x0A]) (act_ret buf))))))))"

fun input_number_loop :: "nat \<Rightarrow> string \<Rightarrow> int \<Rightarrow> int \<Rightarrow> int tact" where
  "input_number_loop 0 prompt mn mx = (\<lambda>_. Inl No_return)"
| "input_number_loop (Suc fuel) prompt mn mx = act_bind (input_line prompt 64) (\<lambda>buf.
     let (val, end) = strtol buf
     in if end = [] \<and> val \<ge> mn \<and> val \<le> mx then act_ret val
        else act_then (printf (nl (''  Invalid (range '' @ int_text mn @ ''-'' @ int_text mx @ '')'')))
             (input_number_loop fuel prompt mn mx))"

definition input_number :: "string \<Rightarrow> int \<Rightarrow> int \<Rightarrow> int tact" where
  "input_number prompt mn mx = (\<lambda>t. input_number_loop (Suc (tm_left t)) prompt mn mx t)"

definition wait_enter :: "unit tact" where
  "wait_enter = act_then (printf (CHR 0x0A # ''Press Enter to continue...'')) (\<lambda>t. Inr ((), snd (fgets 64 t)))"

section \<open>The menu\<close>

definition menu_items :: "string \<Rightarrow> string list \<Rightarrow> int \<Rightarrow> string" where
  "menu_items prefix items sel =
     concat (map (\<lambda>i. nl (prefix @ (if int i = sel then ''> '' else ''  '') @ items ! i)) [0..<length items])"

definition menu_help :: "string \<Rightarrow> string" where
  "menu_help quit_label = nl (''[Enter] Select  ['' @ [CHR 0xE2, CHR 0x86, CHR 0x91, CHR 0xE2, CHR 0x86, CHR 0x93] @
     ''] Navigate  [q] '' @ quit_label)"

definition erase_line :: string where
  "erase_line = [CHR 0x0D, ESC] @ ''[K''"

definition redraw_menu :: "string list \<Rightarrow> string \<Rightarrow> int \<Rightarrow> string" where
  "redraw_menu items quit_label sel =
     [ESC] @ ''['' @ dec (length items + 3) @ ''A'' @ nl erase_line @ menu_items erase_line items sel @
     nl erase_line @ erase_line @ menu_help quit_label"

fun menu_loop :: "nat \<Rightarrow> string list \<Rightarrow> string \<Rightarrow> int \<Rightarrow> int tact" where
  "menu_loop 0 items quit_label sel = (\<lambda>_. Inl No_return)"
| "menu_loop (Suc fuel) items quit_label sel = act_bind term_getkey (\<lambda>k.
     let count = int (length items); again = (\<lambda>sel'. act_then (printf (redraw_menu items quit_label sel')) (menu_loop fuel items quit_label sel'))
     in if k = KEY_UP then again ((sel - 1 + count) mod count)
        else if k = KEY_DOWN then again ((sel + 1) mod count)
        else if k = KEY_ENTER then act_then term_exit_raw (act_ret sel)
        else if k = KEY_ESC \<or> k = of_char (CHR ''q'') then act_then term_exit_raw (act_ret (count - 1))
        else menu_loop fuel items quit_label sel)"

definition select_menu :: "string list \<Rightarrow> string \<Rightarrow> int tact" where
  "select_menu items quit_label =
     act_then (printf (CHR 0x0A # menu_items [] items 0 @ CHR 0x0A # menu_help quit_label))
     (act_then term_enter_raw (\<lambda>t. menu_loop (Suc (length (tm_in t))) items quit_label 0 t))"

definition show_lines :: "string \<Rightarrow> string list \<Rightarrow> nat \<Rightarrow> unit tact" where
  "show_lines title lines skip =
     printf (CHR 0x0A # nl title @ concat (map (\<lambda>l. nl (''  '' @ (if take 4 l = ''+OK '' then drop 4 l else l))) (drop skip lines)))"

section \<open>Sizes\<close>

text \<open>
  \<open>to_double\<close> is the conversion of a 64 bit number to the nearest double, which keeps 53 bits and takes the even one of two
  that are equally near; the division by a power of two is exact, and one decimal is rounded in the same way.
\<close>

definition half_even :: "nat \<Rightarrow> nat \<Rightarrow> nat" where
  "half_even n d = (let q = n div d; r = n mod d in if 2 * r < d \<or> 2 * r = d \<and> even q then q else q + 1)"

definition to_double :: "u64 \<Rightarrow> nat" where
  "to_double n = (let e = length (filter (\<lambda>i. 2 ^ (53 + i) \<le> unat n) [0..<11]) in half_even (unat n) (2 ^ e) * 2 ^ e)"

definition one_decimal :: "nat \<Rightarrow> nat \<Rightarrow> string" where
  "one_decimal x unit = (let tenths = half_even (10 * x) unit in dec (tenths div 10) @ ''.'' @ dec (tenths mod 10))"

definition fmt_bytes :: "u64 \<Rightarrow> string" where
  "fmt_bytes bytes = snprintf 32
     (if bytes \<ge> 1073741824 then one_decimal (to_double bytes) 1073741824 @ '' GiB''
      else if bytes \<ge> 1048576 then one_decimal (to_double bytes) 1048576 @ '' MiB''
      else if bytes \<ge> 1024 then one_decimal (to_double bytes) 1024 @ '' KiB''
      else dec (unat bytes) @ '' B'')"

section \<open>What the input functions return\<close>

lemma read_stdin_line_run:
  assumes "read_stdin_line mx t = Inr (buf, t1)" "1 < mx"
  shows "only_read t t1" "0 < tm_left t \<Longrightarrow> tm_left t1 < tm_left t" "tm_left t = 0 \<Longrightarrow> buf = [] \<and> tm_left t1 = 0" "length buf < mx"
proof -
  obtain l where l: "fgets mx t = (l, t1)" and buf: "buf = (case l of None \<Rightarrow> [] | Some b \<Rightarrow> strip_eol (cstr b))"
    using assms(1) by (auto simp: read_stdin_line_def split: prod.splits)
  note f = fgets_read [OF l assms(2)] fgets_eof [OF _ l]
  show "only_read t t1" "0 < tm_left t \<Longrightarrow> tm_left t1 < tm_left t" "tm_left t = 0 \<Longrightarrow> buf = [] \<and> tm_left t1 = 0"
    using f buf by auto
  have "length (strip_eol (cstr b)) \<le> length b" for b
  proof -
    have "length (strip_eol x) \<le> length x" for x using length_dropWhile_le [of _ "rev x"] by (simp add: strip_eol_def)
    moreover have "length (cstr b) \<le> length b" by (simp add: cstr_def length_takeWhile_le)
    ultimately show ?thesis by (meson le_trans)
  qed
  then show "length buf < mx" using f(2) buf assms(2) by (cases l) (auto intro: le_less_trans)
qed

lemma input_line_run:
  assumes "input_line prompt mx t = Inr (buf, t1)" "1 < mx"
  shows "only_read t t1" "0 < tm_left t \<Longrightarrow> tm_left t1 < tm_left t" "tm_left t = 0 \<Longrightarrow> buf = [] \<and> tm_left t1 = 0" "length buf < mx"
proof -
  have r: "read_stdin_line mx (t\<lparr>tm_out := tm_out t @ prompt\<rparr>) = Inr (buf, t1)" using assms(1) by (simp add: input_line_def tm_defs)
  have "tm_left (t\<lparr>tm_out := tm_out t @ prompt\<rparr>) = tm_left t" by (simp add: tm_left_def)
  with read_stdin_line_run [OF r assms(2)]
  show "only_read t t1" "0 < tm_left t \<Longrightarrow> tm_left t1 < tm_left t" "tm_left t = 0 \<Longrightarrow> buf = [] \<and> tm_left t1 = 0" "length buf < mx"
    using only_read_trans [OF only_read_out] by auto
qed

text \<open>A number that is returned is in its range, and reading it always comes to an end unless the input ends first.\<close>

lemma input_number_loop_range:
  "input_number_loop fuel prompt mn mx t = Inr (v, t1) \<Longrightarrow> mn \<le> v \<and> v \<le> mx \<and> only_read t t1"
proof (induction fuel arbitrary: t)
  case (Suc fuel)
  obtain buf t2 where l: "input_line prompt 64 t = Inr (buf, t2)"
    using Suc.prems by (auto simp: act_bind_def run_simps)
  obtain val e where st: "strtol buf = (val, e)" by (cases "strtol buf") auto
  have r: "only_read t t2" using input_line_run [OF l] by simp
  show ?case
  proof (cases "e = [] \<and> mn \<le> val \<and> val \<le> mx")
    case False
    then obtain out where "input_number_loop fuel prompt mn mx (t2\<lparr>tm_out := out\<rparr>) = Inr (v, t1)"
      using Suc.prems l st by (auto simp: tm_defs split: if_splits)
    from Suc.IH [OF this] show ?thesis using r only_read_trans only_read_out by blast
  qed (use Suc.prems l st r in auto)
qed simp

lemma input_number_eof:
  "tm_left t = 0 \<Longrightarrow> mn > 0 \<or> mx < 0 \<Longrightarrow> input_number_loop fuel prompt mn mx t = Inl No_return"
proof (induction fuel arbitrary: t)
  case (Suc fuel)
  obtain buf t2 where l: "input_line prompt 64 t = Inr (buf, t2)"
    by (cases "fgets 64 (t\<lparr>tm_out := tm_out t @ prompt\<rparr>)") (simp add: input_line_def read_stdin_line_def tm_defs)
  have b: "buf = []" "tm_left t2 = 0" using input_line_run [OF l] Suc.prems(1) by auto
  have "tm_left (t2\<lparr>tm_out := out\<rparr>) = 0" for out using b(2) by (simp add: tm_left_def)
  moreover have "strtol [] = (0, [])" by (simp add: strtol_def strtol_sign_def)
  ultimately show ?case using Suc.IH Suc.prems(2) l b(1) by (auto simp: tm_defs)
qed simp

text \<open>
  The menu returns one of its items, and until it leaves raw mode it only reads and prints.
\<close>

lemma menu_loop_run:
  assumes "0 \<le> sel" "sel < int (length items)" "menu_loop fuel items q sel t = Inr (r, t1)"
  shows "0 \<le> r \<and> r < int (length items) \<and> (\<exists>t0. only_read t t0 \<and> tm_left t0 < tm_left t \<and> term_exit_raw t0 = Inr ((), t1))"
  using assms
proof (induction fuel arbitrary: sel t)
  case (Suc fuel)
  note key_defs = KEY_NONE_def KEY_UP_def KEY_DOWN_def KEY_ENTER_def KEY_ESC_def
  let ?n = "int (length items)"
  obtain k t2 where k: "term_getkey t = Inr (k, t2)" using Suc.prems(3) by (auto simp: act_bind_def run_simps)
  note g = term_getkey_read [OF k]
  have left: "tm_left t2 \<le> tm_left t" using g(1) by (simp add: only_read_def)
  have pos: "0 < ?n" using Suc.prems(1,2) by linarith
  have m: "0 \<le> (sel - 1 + ?n) mod ?n \<and> (sel - 1 + ?n) mod ?n < ?n" "0 \<le> (sel + 1) mod ?n \<and> (sel + 1) mod ?n < ?n"
    using pos_mod_sign [OF pos] pos_mod_bound [OF pos] by blast+
  have again: ?case if "menu_loop fuel items q sel' (t2\<lparr>tm_out := out\<rparr>) = Inr (r, t1)" "0 \<le> sel' \<and> sel' < ?n" for sel' out
  proof -
    have "tm_left (t2\<lparr>tm_out := out\<rparr>) = tm_left t2" by (simp add: tm_left_def)
    moreover have "only_read t (t2\<lparr>tm_out := out\<rparr>)" using g(1) only_read_trans only_read_out by blast
    ultimately show ?thesis using Suc.IH [OF _ _ that(1)] that(2) left only_read_trans by (metis order.strict_trans2)
  qed
  consider "k = KEY_UP" | "k = KEY_DOWN" | "k = KEY_ENTER" | "k = KEY_ESC \<or> k = of_char (CHR ''q'')"
    | "k \<noteq> KEY_UP" "k \<noteq> KEY_DOWN" "k \<noteq> KEY_ENTER" "k \<noteq> KEY_ESC" "k \<noteq> of_char (CHR ''q'')" by blast
  then show ?case
  proof cases
    case 1
    then show ?thesis using Suc.prems(3) k m(1) by (intro again) (auto simp: tm_defs Let_def)
  next
    case 2
    then show ?thesis using Suc.prems(3) k m(2) by (intro again) (auto simp: tm_defs Let_def key_defs)
  next
    case 3
    then have "term_exit_raw t2 = Inr ((), t1)" "r = sel" using Suc.prems(3) k by (auto simp: tm_defs Let_def key_defs run_simps)
    then show ?thesis using g Suc.prems(1,2) 3 by (auto simp: key_defs)
  next
    case 4
    then have "term_exit_raw t2 = Inr ((), t1)" "r = ?n - 1" using Suc.prems(3) k by (auto simp: tm_defs Let_def key_defs run_simps)
    then show ?thesis using g pos 4 by (auto simp: key_defs)
  next
    case 5
    then have "menu_loop fuel items q sel (t2\<lparr>tm_out := tm_out t2\<rparr>) = Inr (r, t1)" using Suc.prems(3) k by (auto simp: tm_defs Let_def)
    from again [OF this] show ?thesis using Suc.prems(1,2) by blast
  qed
qed simp

text \<open>At the end of the input the menu loops forever; with more fuel than bytes left nothing else changes.\<close>

lemma menu_loop_eof: "tm_in t = [] \<Longrightarrow> menu_loop fuel items q sel t = Inl No_return"
proof (induction fuel arbitrary: t)
  case (Suc fuel)
  obtain k t2 where k: "term_getkey t = Inr (k, t2)" by (cases "getkey (tm_in t)") (simp add: term_getkey_def)
  then have "k = KEY_NONE" "tm_in t2 = []" using term_getkey_read(4) [OF k] Suc.prems by auto
  then show ?case
    using k Suc.IH by (simp add: tm_defs Let_def KEY_NONE_def KEY_UP_def KEY_DOWN_def KEY_ENTER_def KEY_ESC_def)
qed simp

lemma menu_loop_fuel: "length (tm_in t) < fuel \<Longrightarrow> menu_loop (fuel + n) items q sel t = menu_loop fuel items q sel t"
proof (induction fuel arbitrary: t sel)
  case (Suc fuel)
  obtain k t2 where k: "term_getkey t = Inr (k, t2)" by (cases "getkey (tm_in t)") (simp add: term_getkey_def)
  show ?case
  proof (cases "tm_in t = []")
    case True
    then show ?thesis by (simp only: menu_loop_eof)
  next
    case False
    then have "length (tm_in t2) < fuel" using term_getkey_read(3) [OF k] Suc.prems by simp
    then show ?thesis using k Suc.IH by (simp add: tm_defs Let_def)
  qed
qed simp

lemma select_menu_run:
  assumes "items \<noteq> []" "select_menu items q t = Inr (r, t3)"
  shows "0 \<le> r \<and> r < int (length items) \<and> (\<exists>out t1 t2. term_enter_raw (t\<lparr>tm_out := out\<rparr>) = Inr ((), t1) \<and> only_read t1 t2 \<and>
    term_exit_raw t2 = Inr ((), t3))"
proof -
  obtain out t1 where e: "term_enter_raw (t\<lparr>tm_out := out\<rparr>) = Inr ((), t1)" "menu_loop (Suc (length (tm_in t1))) items q 0 t1 = Inr (r, t3)"
    using assms(2) by (auto simp: select_menu_def act_then_def act_bind_def printf_def run_simps simp del: menu_loop.simps)
  then show ?thesis using menu_loop_run [OF _ _ e(2)] assms(1) by fastforce
qed

text \<open>A password is read without echo, and the attributes are those of before in the end.\<close>

lemma input_password_run:
  assumes "input_password prompt mx t = Inr (buf, t3)" "1 < mx"
  shows "\<exists>t1 t2. only_read t1 t2 \<and> (tm_tty t \<longrightarrow> tm_attr t1 = no_echo (tm_attr t) \<and> tm_saved t1 = Some (tm_attr t)) \<and> tm_sigint t1 \<and>
    tm_shown t1 = tm_shown t \<and> tm_tty t1 = tm_tty t \<and> tm_attr t3 = tm_attr t \<and> tm_tty t3 = tm_tty t \<and> tm_raw t3 = tm_raw t \<and>
    tm_shown t3 = tm_shown t2 \<and> tm_conn t3 = tm_conn t \<and> tm_params t3 = tm_params t \<and> length buf < mx"
proof -
  let ?old = "tcgetattr t"
  obtain ta t2 tb where a: "tcsetattr True (map_option no_echo ?old) (t\<lparr>tm_saved := ?old, tm_sigint := True\<rparr>) = Inr ((), ta)"
    and r: "read_stdin_line mx (ta\<lparr>tm_out := tm_out ta @ prompt\<rparr>) = Inr (buf, t2)"
    and b: "tcsetattr True ?old t2 = Inr ((), tb)" "t3 = tb\<lparr>tm_out := tm_out tb @ [CHR 0x0A]\<rparr>"
    using assms(1) by (auto simp: input_password_def act_then_def act_bind_def printf_def run_simps)
  note r' = read_stdin_line_run [OF r assms(2)]
  show ?thesis
    using r'(1,4) tcsetattr_run [OF a] tcsetattr_run [OF b(1)] b(2)
    by (intro exI [of _ "ta\<lparr>tm_out := tm_out ta @ prompt\<rparr>"] exI [of _ t2]) (auto simp: only_read_def tcgetattr_def)
qed

lemma password_hidden:
  assumes "1 < mx" "tm_tty t" "input_password prompt mx t = Inr (pass, t3)"
  shows "tm_shown t3 = tm_shown t"
proof -
  obtain t1 t2 where "only_read t1 t2" "tm_attr t1 = no_echo (tm_attr t)" "tm_shown t1 = tm_shown t" "tm_shown t3 = tm_shown t2"
    using input_password_run [OF assms(3,1)] assms(2) by blast
  moreover have "c_lflag (no_echo a) AND ECHO = 0" for a
    by (rule bit_eqI) (auto simp: no_echo_def bit_simps)
  ultimately show ?thesis by (simp add: only_read_def)
qed

text \<open>The text of a size fits its array, and below \<open>2\<^sup>53\<close> bytes the printed number is off by at most half a tenth of its unit.\<close>

lemma half_even_near: "0 < d \<Longrightarrow> 2 * (half_even n d * d) \<le> 2 * n + d \<and> 2 * n \<le> 2 * (half_even n d * d) + d"
proof -
  assume d: "0 < d"
  define q r where "q = n div d" and "r = n mod d"
  have n: "n = q * d + r" and r: "r < d" using d by (simp_all add: q_def r_def)
  have "half_even n d = (if 2 * r < d \<or> 2 * r = d \<and> even q then q else q + 1)" by (simp only: half_even_def Let_def q_def r_def)
  then show ?thesis using n r by (auto simp: algebra_simps)
qed

lemma to_double_exact: "unat n < 2 ^ 53 \<Longrightarrow> to_double n = unat n"
proof -
  assume n: "unat n < 2 ^ 53"
  have "\<not> 2 ^ (53 + i) \<le> unat n" for i :: nat
  proof -
    have "(2 :: nat) ^ 53 \<le> 2 ^ (53 + i)" by (rule power_increasing) simp_all
    then show ?thesis using n by linarith
  qed
  then show ?thesis by (simp add: to_double_def half_even_def Let_def)
qed

end
