(* ===== verification/Startup.thy ===== *)
theory Startup
  imports Server
begin

text \<open>
  The command line of the two programs, \<^verbatim>\<open>src/shared/flags.c\<close>, and the start of the server in
  \<^verbatim>\<open>src/server/main.c\<close> up to its loop: ports, required flags, the users and administrators given by flags and
  the signal handler. The options \<open>getopt\<close> reports are a list of option characters with their arguments.
\<close>

section \<open>Flags\<close>

definition MAX_FLAG_REPEATS :: nat where "MAX_FLAG_REPEATS = 256"

text \<open>\<open>fl_seq c\<close> holds the initialised entries of the row \<open>flag_values[c]\<close>.\<close>

record flag_table =
  fl_values :: "char \<Rightarrow> string option"
  fl_initialized :: bool
  fl_counts :: "char \<Rightarrow> nat"
  fl_seq :: "char \<Rightarrow> string option list"

definition no_flags :: flag_table where
  "no_flags = \<lparr>fl_values = (\<lambda>_. None), fl_initialized = False, fl_counts = (\<lambda>_. 0), fl_seq = (\<lambda>_. [])\<rparr>"

text \<open>Whether the option is followed by a colon in the list of options.\<close>

fun takes_argument :: "string \<Rightarrow> char \<Rightarrow> bool" where
  "takes_argument [] opt = False"
| "takes_argument (c # cs) opt = (if c = opt then cs \<noteq> [] \<and> hd cs = CHR '':'' else takes_argument cs opt)"

definition record_flag :: "string \<Rightarrow> char \<times> string option \<Rightarrow> flag_table \<Rightarrow> flag_table" where
  "record_flag flag_ids = (\<lambda>(opt, optarg) f.
     if opt = CHR ''?'' \<or> opt = CHR '':'' then f
     else let val = (if takes_argument flag_ids opt then optarg else Some [])
          in f\<lparr>fl_values := (fl_values f)(opt := val),
               fl_seq := (if fl_counts f opt < MAX_FLAG_REPEATS then (fl_seq f)(opt := fl_seq f opt @ [val]) else fl_seq f),
               fl_counts := (fl_counts f)(opt := fl_counts f opt + 1)\<rparr>)"

definition setup_flags :: "(char \<times> string option) list \<Rightarrow> string \<Rightarrow> flag_table \<Rightarrow> int \<times> flag_table" where
  "setup_flags opts flag_ids f =
     (if fl_initialized f then (-1, f)
      else (0, (fold (record_flag flag_ids) opts f)\<lparr>fl_initialized := True\<rparr>))"

definition get_flag_long :: "flag_table \<Rightarrow> char \<Rightarrow> int" where
  "get_flag_long f flag = (case fl_values f flag of None \<Rightarrow> 0 | Some v \<Rightarrow> fst (strtol v))"

definition get_flag_str :: "flag_table \<Rightarrow> char \<Rightarrow> string option" where
  "get_flag_str f flag = fl_values f flag"

definition get_flag_str_nth :: "flag_table \<Rightarrow> char \<Rightarrow> int \<Rightarrow> string option" where
  "get_flag_str_nth f flag n =
     (if n < 0 \<or> n \<ge> int (fl_counts f flag) \<or> n \<ge> int MAX_FLAG_REPEATS then None else fl_seq f flag ! nat n)"

definition has_flag :: "flag_table \<Rightarrow> char \<Rightarrow> bool" where
  "has_flag f flag \<longleftrightarrow> get_flag_str f flag \<noteq> None"

definition get_flag_count :: "flag_table \<Rightarrow> char \<Rightarrow> nat" where
  "get_flag_count f flag = fl_counts f flag"

text \<open>The table agrees with the occurrences \<open>getopt\<close> reported: the last argument, their number, the first 256 of them.\<close>

definition occurrences :: "string \<Rightarrow> (char \<times> string option) list \<Rightarrow> char \<Rightarrow> string option list" where
  "occurrences flag_ids opts c =
     map (\<lambda>(opt, optarg). if takes_argument flag_ids opt then optarg else Some []) (filter (\<lambda>(opt, _). opt = c) opts)"

definition flags_reflect :: "flag_table \<Rightarrow> (char \<Rightarrow> string option list) \<Rightarrow> bool" where
  "flags_reflect f occ \<longleftrightarrow> (\<forall>c. c \<noteq> CHR ''?'' \<longrightarrow> c \<noteq> CHR '':'' \<longrightarrow>
     fl_values f c = (if occ c = [] then None else last (occ c)) \<and> fl_counts f c = length (occ c) \<and>
     fl_seq f c = take MAX_FLAG_REPEATS (occ c))"

lemma occurrences_snoc:
  "occurrences flag_ids (opts @ [(opt, optarg)]) c =
     occurrences flag_ids opts c @ (if opt = c then [if takes_argument flag_ids opt then optarg else Some []] else [])"
  by (simp add: occurrences_def)

lemma flags_reflect_step:
  assumes "flags_reflect f (occurrences flag_ids opts)"
  shows "flags_reflect (record_flag flag_ids x f) (occurrences flag_ids (opts @ [x]))"
proof (cases x)
  case (Pair opt optarg)
  have "take MAX_FLAG_REPEATS (xs @ [v]) = (if length xs < MAX_FLAG_REPEATS then take MAX_FLAG_REPEATS xs @ [v] else take MAX_FLAG_REPEATS xs)"
    for xs and v :: "string option" by auto
  then show ?thesis
    using assms unfolding Pair flags_reflect_def occurrences_snoc record_flag_def Let_def by auto
qed

lemma setup_flags_reflect:
  "setup_flags opts flag_ids no_flags = (0, f) \<Longrightarrow> flags_reflect f (occurrences flag_ids opts)"
proof -
  have r: "flags_reflect (fold (record_flag flag_ids) opts no_flags) (occurrences flag_ids opts)"
  proof (induction opts rule: rev_induct)
    case Nil
    show ?case by (simp add: flags_reflect_def occurrences_def no_flags_def)
  next
    case (snoc x opts)
    from flags_reflect_step [OF this, of x] show ?case by simp
  qed
  assume "setup_flags opts flag_ids no_flags = (0, f)"
  moreover have "\<not> fl_initialized no_flags" by (simp add: no_flags_def)
  ultimately have "f = (fold (record_flag flag_ids) opts no_flags)\<lparr>fl_initialized := True\<rparr>" by (simp add: setup_flags_def)
  with r show ?thesis by (simp add: flags_reflect_def)
qed

lemma nth_flag:
  assumes "flags_reflect f occ" "c \<noteq> CHR ''?''" "c \<noteq> CHR '':''"
  shows "get_flag_str_nth f c (int i) = (if i < length (occ c) \<and> i < MAX_FLAG_REPEATS then occ c ! i else None)"
  using assms by (auto simp: get_flag_str_nth_def flags_reflect_def)

lemma count_flag: "flags_reflect f occ \<Longrightarrow> c \<noteq> CHR ''?'' \<Longrightarrow> c \<noteq> CHR '':'' \<Longrightarrow> get_flag_count f c = length (occ c)"
  unfolding flags_reflect_def get_flag_count_def by blast

section \<open>The start of the server\<close>

definition EXIT_SUCCESS :: int where "EXIT_SUCCESS = 0"
definition EXIT_FAILURE :: int where "EXIT_FAILURE = 1"

record signal_flags =
  shutdown_requested :: bool
  force_quit :: bool
  exited :: bool

definition on_signal :: "signal_flags \<Rightarrow> signal_flags" where
  "on_signal s = (if shutdown_requested s then s\<lparr>force_quit := True, exited := True\<rparr> else s\<lparr>shutdown_requested := True\<rparr>)"

datatype start = Exit_failure | Exit_success | Ports u16 u16

definition flag_port :: "flag_table \<Rightarrow> char \<Rightarrow> u16 \<Rightarrow> u16 option" where
  "flag_port f c default_port =
     (if has_flag f c
      then let v = get_flag_long f c in if v \<le> 0 \<or> v > 65535 then None else Some (word_of_int v)
      else Some default_port)"

definition server_flags :: "flag_table \<Rightarrow> start" where
  "server_flags f =
     (if has_flag f (CHR ''h'') then Exit_success
      else case flag_port f (CHR ''p'') 1080 of
             None \<Rightarrow> Exit_failure
           | Some socks_port \<Rightarrow> (case flag_port f (CHR ''m'') 8080 of
                 None \<Rightarrow> Exit_failure
               | Some monitor_port \<Rightarrow>
                   if get_flag_count f (CHR ''u'') < 1 \<or> get_flag_count f (CHR ''a'') < 1 then Exit_failure
                   else Ports socks_port monitor_port))"

text \<open>\<open>strchr\<close> in \<open>add_flag_user\<close> reads through the pointer \<open>get_flag_str_nth\<close> returns.\<close>

fun add_flag_users :: "flag_table \<Rightarrow> char \<Rightarrow> bool \<Rightarrow> nat list \<Rightarrow> monitor_store \<Rightarrow> (bool \<times> monitor_store) run" where
  "add_flag_users f c is_admin [] store = Inr (True, store)"
| "add_flag_users f c is_admin (i # rest) store = (case get_flag_str_nth f c (int i) of
      None \<Rightarrow> Inl Null_pointer
    | Some input \<Rightarrow>
        let (ok, store1) = add_flag_user store input is_admin
        in if ok then add_flag_users f c is_admin rest store1 else Inr (False, store1))"

definition main_users :: "flag_table \<Rightarrow> monitor_store \<Rightarrow> (bool \<times> monitor_store) run" where
  "main_users f store =
     run_bind (add_flag_users f (CHR ''u'') False [0..<get_flag_count f (CHR ''u'')] store) (\<lambda>(ok, store1).
       if ok then add_flag_users f (CHR ''a'') True [0..<get_flag_count f (CHR ''a'')] store1 else Inr (False, store1))"

section \<open>What a started server has\<close>

definition input_fits :: "string option \<Rightarrow> bool" where
  "input_fits x \<longleftrightarrow> (case x of None \<Rightarrow> True | Some input \<Rightarrow> name_fits (takeWhile (\<lambda>c. c \<noteq> CHR '':'') input))"

lemma add_flag_user_ok:
  assumes "users_inv store" "input_fits (Some input)" "add_flag_user store input adm = (True, store1)"
  shows "users_inv store1 \<and> (\<exists>n p. users_map store1 = (users_map store)(n \<mapsto> (p, role_of adm)) \<and> users_map store n = None)"
proof -
  let ?n = "takeWhile (\<lambda>c. c \<noteq> CHR '':'') input" and ?p = "tl (dropWhile (\<lambda>c. c \<noteq> CHR '':'') input)"
  have add: "store_user_add store (Some ?n) (Some ?p) adm = (STORE_USER_OK, store1)"
    using assms(3) by (auto simp: add_flag_user_def Let_def split: if_splits prod.splits)
  have fits: "name_fits ?n" using assms(2) by (simp add: input_fits_def)
  have none: "users_map store ?n = None" using add_exists [of store ?n ?p adm] add by (cases "users_map store ?n") auto
  have room: "ms_user_count store < STORE_MAX_USERS"
    using add_full [OF assms(1) none, of ?p adm] add user_count_le [OF assms(1)] by fastforce
  from add_new [OF assms(1) none room fits, of ?p adm] add none show ?thesis by auto
qed

lemma add_flag_users_ok:
  assumes "users_inv store" "\<forall>i \<in> set js. input_fits (get_flag_str_nth f c (int i))"
    and "add_flag_users f c adm js store = Inr (True, store1)"
  shows "users_inv store1 \<and> (\<forall>n x. users_map store n = Some x \<longrightarrow> users_map store1 n = Some x) \<and>
    (js \<noteq> [] \<longrightarrow> (\<exists>n p. users_map store1 n = Some (p, role_of adm)))"
  using assms
proof (induction js arbitrary: store)
  case (Cons i js)
  obtain input store2 where i: "get_flag_str_nth f c (int i) = Some input" "add_flag_user store input adm = (True, store2)"
    "add_flag_users f c adm js store2 = Inr (True, store1)"
    using Cons.prems(3) by (auto simp: Let_def split: option.splits prod.splits if_splits)
  have fits: "input_fits (Some input)" using Cons.prems(2) i(1) by (metis list.set_intros(1))
  obtain n p where u: "users_inv store2" "users_map store2 = (users_map store)(n \<mapsto> (p, role_of adm))" "users_map store n = None"
    using add_flag_user_ok [OF Cons.prems(1) fits i(2)] by blast
  have IH: "users_inv store1" "\<And>n x. users_map store2 n = Some x \<Longrightarrow> users_map store1 n = Some x"
    using Cons.IH [OF u(1) _ i(3)] Cons.prems(2) by auto
  have "users_map store1 n = Some (p, role_of adm)" using IH(2) [of n] u(2) by simp
  moreover have "users_map store1 m = Some x" if "users_map store m = Some x" for m x
    using IH(2) [of m x] that u(2,3) by (cases "m = n") auto
  ultimately show ?case using IH(1) by blast
qed simp

lemma add_flag_users_total:
  assumes "\<forall>i \<in> set js. get_flag_str_nth f c (int i) \<noteq> None"
  shows "\<exists>ok store1. add_flag_users f c adm js store = Inr (ok, store1)"
  using assms by (induction js arbitrary: store) (auto simp: Let_def split: prod.splits)

lemma add_flag_users_append:
  "add_flag_users f c adm (js @ ks) store = run_bind (add_flag_users f c adm js store) (\<lambda>(ok, store1).
     if ok then add_flag_users f c adm ks store1 else Inr (False, store1))"
  by (induction js arbitrary: store) (auto simp: Let_def split: option.splits prod.splits)

lemma main_users_ok:
  assumes "users_inv store" "\<forall>c i. input_fits (get_flag_str_nth f c i)" "0 < get_flag_count f (CHR ''a'')"
    and "main_users f store = Inr (True, store1)"
  shows "users_inv store1 \<and> (\<exists>n p. users_map store1 n = Some (p, STORE_ROLE_ADMIN))"
proof -
  obtain store2 where u: "add_flag_users f (CHR ''u'') False [0..<get_flag_count f (CHR ''u'')] store = Inr (True, store2)"
    "add_flag_users f (CHR ''a'') True [0..<get_flag_count f (CHR ''a'')] store2 = Inr (True, store1)"
    using assms(4) by (auto simp: main_users_def run_simps split: if_splits)
  have "users_inv store2" using add_flag_users_ok [OF assms(1) _ u(1)] assms(2) by simp
  from add_flag_users_ok [OF this _ u(2)] assms(2,3) show ?thesis by (auto simp: role_of_def)
qed

lemma main_users_total:
  assumes "flags_reflect f occ" "\<forall>c. None \<notin> set (occ c)" "\<forall>c. length (occ c) \<le> MAX_FLAG_REPEATS"
  shows "\<exists>ok store1. main_users f store = Inr (ok, store1)"
proof -
  have n: "\<forall>i \<in> set [0..<get_flag_count f c]. get_flag_str_nth f c (int i) \<noteq> None"
    if "c = CHR ''u'' \<or> c = CHR ''a''" for c
  proof
    fix i assume "i \<in> set [0..<get_flag_count f c]"
    then have "i < length (occ c)" using count_flag [OF assms(1), of c] that by auto
    moreover from this have m: "occ c ! i \<noteq> None" using assms(2) nth_mem [of i "occ c"] by metis
    moreover have le: "length (occ c) \<le> MAX_FLAG_REPEATS" using assms(3) by simp
    moreover have "c \<noteq> CHR ''?''" "c \<noteq> CHR '':''" using that by auto
    ultimately show "get_flag_str_nth f c (int i) \<noteq> None"
      using nth_flag [OF assms(1), of c i] m order_less_le_trans [OF _ le] by simp
  qed
  obtain ok store1 where u: "add_flag_users f (CHR ''u'') False [0..<get_flag_count f (CHR ''u'')] store = Inr (ok, store1)"
    using add_flag_users_total [OF n [OF disjI1 [OF refl]], of False store] by metis
  obtain ok2 store2 where "add_flag_users f (CHR ''a'') True [0..<get_flag_count f (CHR ''a'')] store1 = Inr (ok2, store2)"
    using add_flag_users_total [OF n [OF disjI2 [OF refl]], of True store1] by metis
  with u show ?thesis by (cases ok) (auto simp: main_users_def intro: exI [of _ False])
qed

lemma main_users_null:
  assumes "MAX_FLAG_REPEATS < get_flag_count f (CHR ''u'')"
    and "add_flag_users f (CHR ''u'') False [0..<MAX_FLAG_REPEATS] store = Inr (True, store1)"
  shows "main_users f store = Inl Null_pointer"
proof -
  let ?n = "get_flag_count f (CHR ''u'')"
  have "[0..<?n] = [0..<MAX_FLAG_REPEATS] @ [MAX_FLAG_REPEATS..<?n]"
    using assms(1) upt_add_eq_append [of 0 MAX_FLAG_REPEATS "?n - MAX_FLAG_REPEATS"] by simp
  moreover have "[MAX_FLAG_REPEATS..<?n] = MAX_FLAG_REPEATS # [Suc MAX_FLAG_REPEATS..<?n]"
    using assms(1) by (simp add: upt_conv_Cons)
  moreover have "get_flag_str_nth f (CHR ''u'') (int MAX_FLAG_REPEATS) = None" by (simp add: get_flag_str_nth_def)
  ultimately show ?thesis using assms(2) by (simp add: main_users_def add_flag_users_append)
qed

end
