(* ===== verification/Client_Main.thy ===== *)
theory Client_Main
  imports Client_Ui Startup
begin

text \<open>
  The screens of the administration client, \<^verbatim>\<open>src/client/main.c\<close>: the configuration parameters it shows, the login loop,
  one screen per command, the menu that dispatches to them and \<open>main\<close> itself. What goes to standard error is not modelled.
\<close>

section \<open>Parameters\<close>

definition MAX_INPUT_LEN :: nat where "MAX_INPUT_LEN = 200"

record config_param =
  cp_name :: string
  cp_label :: string
  cp_min :: u32
  cp_max :: u32

definition params :: "config_param list" where
  "params =
     [\<lparr>cp_name = ''timeout'', cp_label = ''Max idle time (seconds)'', cp_min = 0, cp_max = 86400\<rparr>,
      \<lparr>cp_name = ''max_connections'', cp_label = ''Max concurrent conns'', cp_min = 1, cp_max = 16384\<rparr>,
      \<lparr>cp_name = ''io_buffer_size'', cp_label = ''I/O buffer size (bytes)'', cp_min = 1024, cp_max = 65536\<rparr>]"

definition default_values :: "u32 list" where
  "default_values = [0, 1024, 4096]"

definition config_count :: nat where "config_count = 3"

text \<open>An exchange with the server on the connection of the terminal.\<close>

definition on_conn :: "(conn \<Rightarrow> 'a \<times> conn) \<Rightarrow> 'a tact" where
  "on_conn f = (\<lambda>t. let (x, c) = f (tm_conn t) in Inr (x, t\<lparr>tm_conn := c\<rparr>))"

definition command :: "(nat \<Rightarrow> conn \<Rightarrow> outcome) \<Rightarrow> (bool \<times> string) tact" where
  "command f = on_conn (\<lambda>c. let (ok, err, c1) = f MAX_RESP_LINE_LEN c in ((ok, err), c1))"

definition set_param :: "nat \<Rightarrow> u32 \<Rightarrow> unit tact" where
  "set_param i v = (\<lambda>t. Inr ((), t\<lparr>tm_params := (tm_params t)[i := v]\<rparr>))"

fun fetch_values :: "nat list \<Rightarrow> bool tact" where
  "fetch_values [] = act_ret True"
| "fetch_values (i # rest) =
     act_bind (on_conn (\<lambda>c. let (v, err, c1) = cmd_config_get (cp_name (params ! i)) MAX_RESP_LINE_LEN c in (v, c1))) (\<lambda>v.
       case v of None \<Rightarrow> act_ret False | Some val \<Rightarrow> act_then (set_param i val) (fetch_values rest))"

definition fetch_config_values :: "bool tact" where
  "fetch_config_values = fetch_values [0..<config_count]"

section \<open>Screens\<close>

definition pad :: "nat \<Rightarrow> string \<Rightarrow> string" where
  "pad n s = s @ replicate (n - length s) (CHR '' '')"

definition show_error :: "string \<Rightarrow> unit tact" where
  "show_error err = printf (nl (''  Error: '' @ err))"

text \<open>A result reported with the two messages of a screen.\<close>

definition report :: "string \<Rightarrow> bool \<times> string \<Rightarrow> unit tact" where
  "report success = (\<lambda>(ok, err). act_then (if ok then printf (nl success) else show_error err) wait_enter)"

fun login_loop :: "nat \<Rightarrow> bool tact" where
  "login_loop 0 = (\<lambda>_. Inl No_return)"
| "login_loop (Suc fuel) = act_then (printf [CHR 0x0A]) (act_bind (input_line ''Username: '' MAX_INPUT_LEN) (\<lambda>user.
     if user = [] then act_then (printf restore_clear) (act_ret False)
     else act_bind (input_password ''Password: '' MAX_INPUT_LEN) (\<lambda>pass.
       act_then (printf (nl ''Authenticating...'')) (act_bind (command (cmd_auth user pass)) (\<lambda>(ok, err).
         if ok then act_then (printf restore_clear) (act_then (printf (nl (''User: '' @ user))) (act_ret True))
         else act_then (printf (nl (''Error: '' @ err))) (act_then (printf (nl ''[Enter] Retry  [q] Quit''))
              (act_then term_enter_raw (act_bind term_getkey (\<lambda>k. act_then term_exit_raw
                (if k = of_char (CHR ''q'') \<or> k = KEY_ESC then act_ret False
                 else act_then (printf restore_clear) (login_loop fuel)))))))))))"

definition screen_login :: "bool tact" where
  "screen_login = act_then (printf save_cursor) (\<lambda>t. login_loop (Suc (tm_left t)) t)"

definition screen_stats :: "unit tact" where
  "screen_stats = act_then (printf (CHR 0x0A # nl ''Stats''))
     (act_bind (on_conn (\<lambda>c. let (ok, vs, c1) = cmd_stats [0, 0, 0, 0] c in ((ok, vs), c1))) (\<lambda>(ok, vs).
      act_then (if \<not> ok then printf (nl ''  Error fetching stats'')
               else printf (nl (''  '' @ pad 22 ''Total connections:'' @ '' '' @ dec (unat (vs ! 0))) @
                            nl (''  '' @ pad 22 ''Active connections:'' @ '' '' @ dec (unat (vs ! 1))) @
                            nl (''  '' @ pad 22 ''Bytes uploaded:'' @ '' '' @ dec (unat (vs ! 2))) @
                            nl (''  '' @ pad 22 ''Bytes downloaded:'' @ '' '' @ dec (unat (vs ! 3)))))
        wait_enter))"

definition screen_connections :: "unit tact" where
  "screen_connections = act_bind (on_conn (cmd_connections MAX_RESP_LINES)) (\<lambda>r.
     act_then (case r of
                None \<Rightarrow> printf (CHR 0x0A # nl ''  Error fetching connections'')
              | Some lines \<Rightarrow>
                  if length lines = 1 \<and> lines ! 0 = ''+OK''
                  then printf (CHR 0x0A # nl ''Active connections'' @ nl ''  No active connections o7'')
                  else show_lines ''Active connections'' lines 0) wait_enter)"

definition screen_users :: "unit tact" where
  "screen_users = act_bind (on_conn (cmd_users MAX_RESP_LINES)) (\<lambda>r.
     act_then (case r of
                None \<Rightarrow> printf (CHR 0x0A # nl ''  Error fetching users'')
              | Some lines \<Rightarrow> show_lines ''Registered users'' lines 0) wait_enter)"

definition config_labels :: "u32 list \<Rightarrow> string list" where
  "config_labels vals = map (\<lambda>i. snprintf 64 (pad 30 (cp_label (params ! i)) @ '' ['' @ dec (unat (vals ! i)) @ '']''))
     [0..<config_count] @ [''Back'']"

text \<open>Setting one parameter: \<open>sel\<close> is the selected item.\<close>

definition edit_param :: "nat \<Rightarrow> unit tact" where
  "edit_param sel =
     act_then (printf (up_clear (config_count + 4))) (act_then (printf (CHR 0x0A # nl (cp_label (params ! sel))))
     (act_bind (input_number ''  New value: '' (uint (cp_min (params ! sel))) (uint (cp_max (params ! sel)))) (\<lambda>val.
      act_then (printf [CHR 0x0A]) (act_bind (command (cmd_config (cp_name (params ! sel)) (word_of_int val))) (\<lambda>(ok, err).
       act_then (if ok then act_then (set_param sel (word_of_int val)) (printf (nl ''  Configuration updated o7''))
                else show_error err) (act_then wait_enter (printf restore_clear)))))))"

fun config_loop :: "nat \<Rightarrow> unit tact" where
  "config_loop 0 = (\<lambda>_. Inl No_return)"
| "config_loop (Suc fuel) = (\<lambda>t.
     act_then (printf save_cursor) (act_bind (select_menu (config_labels (tm_params t)) ''Back'') (\<lambda>sel.
       if sel < 0 \<or> sel \<ge> int config_count then printf restore_clear
       else act_then (edit_param (nat sel)) (config_loop fuel))) t)"

definition screen_config :: "unit tact" where
  "screen_config = act_bind fetch_config_values (\<lambda>ok.
     if \<not> ok
     then act_then (printf (CHR 0x0A # nl ''  Warning: could not refresh configuration from server'')) wait_enter
     else (\<lambda>t. config_loop (Suc (tm_left t)) t))"

definition screen_add_user :: "unit tact" where
  "screen_add_user = act_then (printf (CHR 0x0A # nl ''Add user'')) (act_bind (input_line ''  Username: '' MAX_INPUT_LEN) (\<lambda>user.
     if user = [] then act_ret ()
     else act_bind (input_password ''  Password: '' MAX_INPUT_LEN) (\<lambda>pass.
       if pass = [] then act_ret ()
       else act_bind (input_line ''Admin? (y/n): '' MAX_RESP_LINE_LEN) (\<lambda>ans.
         let admin = (take 1 ans = ''y'' \<or> take 1 ans = ''Y'')
         in act_then (printf [CHR 0x0A]) (act_bind (command (cmd_add_user user pass admin)) (report ''  User created o7''))))))"

text \<open>The array \<open>buf\<close> is read without looking at the result of \<open>fgets\<close>.\<close>

definition confirm :: "bool tact" where
  "confirm = (\<lambda>t. case fgets 64 t of
      (None, t1) \<Rightarrow> Inl Uninitialised
    | (Some buf, t1) \<Rightarrow> Inr (take 1 buf = ''y'' \<or> take 1 buf = ''Y'', t1))"

definition screen_del_user :: "unit tact" where
  "screen_del_user = act_then (printf (CHR 0x0A # nl ''Delete user'')) (act_bind (input_line ''  Username: '' MAX_INPUT_LEN) (\<lambda>user.
     if user = [] then act_ret ()
     else act_then (printf (''  Delete '' @ [CHR 0x27] @ user @ [CHR 0x27] @ ''? (y/N): '')) (act_bind confirm (\<lambda>yes.
       if \<not> yes then printf (nl ''  Cancelled.'')
       else act_then (printf [CHR 0x0A]) (act_bind (command (cmd_del_user user)) (report ''  User deleted o7''))))))"

definition screen_set_password :: "unit tact" where
  "screen_set_password = act_then (printf (CHR 0x0A # nl ''Change password'')) (act_bind (input_line ''  Username: '' MAX_INPUT_LEN) (\<lambda>user.
     if user = [] then act_ret ()
     else act_bind (input_password ''  New password: '' MAX_INPUT_LEN) (\<lambda>pass.
       if pass = [] then act_ret ()
       else act_then (printf [CHR 0x0A]) (act_bind (command (cmd_set_password user pass)) (report ''  Password updated o7'')))))"

definition screen_access_log :: "unit tact" where
  "screen_access_log = act_bind (on_conn (cmd_access_log None MAX_RESP_LINES)) (\<lambda>r.
     act_then (case r of
                None \<Rightarrow> printf (CHR 0x0A # nl ''  Error fetching access log'')
              | Some lines \<Rightarrow> show_lines ''Access log'' lines 1) wait_enter)"

text \<open>The three screens of the access rules differ in their texts and the command.\<close>

definition rule_screen :: "string \<Rightarrow> string \<Rightarrow> (string \<Rightarrow> nat \<Rightarrow> conn \<Rightarrow> outcome) \<Rightarrow> string \<Rightarrow> unit tact" where
  "rule_screen title prompt cmd success = act_then (printf (CHR 0x0A # nl title)) (act_bind (input_line prompt MAX_INPUT_LEN) (\<lambda>target.
     if target = [] then act_ret ()
     else act_then (printf [CHR 0x0A]) (act_bind (command (cmd target)) (report success))))"

definition screen_deny_host :: "unit tact" where
  "screen_deny_host = rule_screen ''Deny host'' ''  Hostname: '' cmd_deny_host ''  Host denied o7''"

definition screen_deny_ip :: "unit tact" where
  "screen_deny_ip = rule_screen ''Deny IP'' ''  IP address: '' cmd_deny_ip ''  IP denied o7''"

definition screen_undeny :: "unit tact" where
  "screen_undeny = rule_screen ''Undeny'' ''  Hostname or IP: '' cmd_undeny ''  Rule removed o7''"

definition screen_deny_list :: "unit tact" where
  "screen_deny_list = act_bind (on_conn (cmd_deny_list MAX_RESP_LINES)) (\<lambda>r.
     act_then (case r of
                None \<Rightarrow> printf (CHR 0x0A # nl ''  Error fetching deny list'')
              | Some lines \<Rightarrow> show_lines ''Denied hosts and IPs'' lines 0) wait_enter)"

section \<open>The menu and the program\<close>

definition main_menu :: "(string \<times> unit tact option) list" where
  "main_menu = [(''Stats'', Some screen_stats), (''Active connections'', Some screen_connections),
     (''Registered users'', Some screen_users), (''Configuration'', Some screen_config), (''Add user'', Some screen_add_user),
     (''Delete user'', Some screen_del_user), (''Change password'', Some screen_set_password), (''Access log'', Some screen_access_log),
     (''Deny host'', Some screen_deny_host), (''Deny IP'', Some screen_deny_ip), (''Undeny'', Some screen_undeny),
     (''Deny list'', Some screen_deny_list), (''Quit'', None)]"

definition menu_count :: nat where
  "menu_count = length main_menu"

fun main_menu_loop :: "nat \<Rightarrow> unit tact" where
  "main_menu_loop 0 = (\<lambda>_. Inl No_return)"
| "main_menu_loop (Suc fuel) = act_then (printf save_cursor) (act_bind (select_menu (map fst main_menu) ''Quit'') (\<lambda>opt.
     if opt \<ge> int menu_count \<or> opt < 0 then act_ret ()
     else case snd (main_menu ! nat opt) of
            None \<Rightarrow> act_ret ()
          | Some handler \<Rightarrow> act_then (printf (up_clear (menu_count + 3))) (act_then handler
              (act_then (printf restore_clear) (main_menu_loop fuel)))))"

definition screen_main_menu :: "unit tact" where
  "screen_main_menu = (\<lambda>t. main_menu_loop (Suc (tm_left t)) t)"

text \<open>The outcome of connecting to each address of the server is an argument.\<close>

definition client_main :: "(char \<times> string option) list \<Rightarrow> (int \<times> bool) list option \<Rightarrow> flag_table \<Rightarrow> int tact" where
  "client_main opts addrs flags = (let (rc, f) = setup_flags opts ''p:h'' flags
     in if rc \<noteq> 0 then act_ret EXIT_FAILURE
        else if has_flag f (CHR ''h'') then act_ret EXIT_SUCCESS
        else case flag_port f (CHR ''p'') 8080 of
               None \<Rightarrow> act_ret EXIT_FAILURE
             | Some port \<Rightarrow> act_then (printf (nl (''Connecting to 127.0.0.1:'' @ dec (unat port) @ ''...'')))
                 (if connect_server addrs < 0 then act_ret EXIT_FAILURE
                  else act_then (on_conn (\<lambda>c. ((), skip_reply c)))
                    (act_then (printf (nl ''Connected.'' @ [CHR 0x0A] @ up_clear 3 @
                       nl (''ChungusMonitor v1.0 - 127.0.0.1:'' @ dec (unat port)) @ [ESC] @ ''[?25l''))
                    (act_bind screen_login (\<lambda>ok.
                      if \<not> ok then act_ret EXIT_SUCCESS
                      else act_then fetch_config_values (act_then screen_main_menu
                        (act_then (printf ([ESC] @ ''[?25h'' @ CHR 0x0A # nl ''Disconnecting...''))
                        (act_then (on_conn (\<lambda>c. ((), cmd_quit c))) (act_ret EXIT_SUCCESS)))))))))"

end
