(* ===== verification/Client_Modes.thy ===== *)
theory Client_Modes
  imports Client_Main Action_Order
begin

text \<open>
  What the administration client does to the terminal: every screen and the whole program leave the terminal
  attributes as they were. The rules for sequencing are those of \<open>action_order\<close>, on terminals.
\<close>

section \<open>The relation\<close>

definition tidy :: "terminal \<Rightarrow> terminal \<Rightarrow> bool" where
  "tidy t t' \<longleftrightarrow> (\<not> tm_raw t \<longrightarrow> \<not> tm_raw t' \<and> tm_attr t' = tm_attr t \<and> tm_tty t' = tm_tty t)"

interpretation td: action_order tidy "\<lambda>_ :: unit. \<lambda>_. True"
  by unfold_locales (auto simp: tidy_def)

abbreviation tidies :: "'a tact \<Rightarrow> bool" where
  "tidies \<equiv> td.keeps {}"

lemma tidies_read: "(\<And>t x t'. m t = Inr (x, t') \<Longrightarrow> only_read t t') \<Longrightarrow> tidies m"
  by (fastforce simp: td.keeps_def tidy_def only_read_def)

section \<open>Input and output\<close>

lemma tidies_output [keeps_rules]:
  "tidies (printf text)" "tidies (on_conn f)" "tidies (command g)" "tidies (set_param i v)" "tidies (show_error err)"
  "tidies (show_lines title lines skip)"
  by (auto simp: td.keeps_def tidy_def printf_def on_conn_def command_def set_param_def show_error_def show_lines_def split: prod.splits)

lemma tidies_input [keeps_rules]:
  "1 < mx \<Longrightarrow> tidies (input_line prompt mx)" "1 < mx \<Longrightarrow> tidies (input_password prompt mx)" "tidies (input_number prompt mn mn')"
  "tidies confirm" "tidies wait_enter"
proof -
  show "1 < mx \<Longrightarrow> tidies (input_line prompt mx)" by (rule tidies_read) (rule input_line_run(1))
  show "tidies (input_number prompt mn mn')"
    by (rule tidies_read) (auto simp: input_number_def dest: input_number_loop_range simp del: input_number_loop.simps)
  have f: "only_read t t1" if "fgets 64 t = (l, t1)" for t l t1 using fgets_read(1) [OF that] by simp
  then show "tidies confirm" by (intro tidies_read) (auto simp: confirm_def split: prod.splits option.splits)
  have "tidies (\<lambda>t. Inr ((), snd (fgets 64 t)))"
    by (rule tidies_read) (use f [OF surjective_pairing] in auto)
  then show "tidies wait_enter" unfolding wait_enter_def by (intro keeps_rules)
  show "tidies (input_password prompt mx)" if "1 < mx"
    using input_password_run [OF _ that] by (fastforce simp: td.keeps_def tidy_def)
qed

lemma tidies_menu [keeps_rules]: "items \<noteq> [] \<Longrightarrow> tidies (select_menu items q)"
  unfolding td.keeps_def tidy_def using select_menu_run raw_restored by fastforce

lemma tidies_key:
  assumes "\<And>k. tidies (f k)"
  shows "tidies (act_then term_enter_raw (act_bind term_getkey (\<lambda>k. act_then term_exit_raw (f k))))"
proof -
  have "tidy t t'" if run: "act_then term_enter_raw (act_bind term_getkey (\<lambda>k. act_then term_exit_raw (f k))) t = Inr (x, t')" for t x t'
  proof -
    obtain t1 k t2 t3 where r: "term_enter_raw t = Inr ((), t1)" "term_getkey t1 = Inr (k, t2)" "term_exit_raw t2 = Inr ((), t3)"
      "f k t3 = Inr (x, t')"
      using run by (auto simp: act_then_def act_bind_def run_simps)
    have "tidy t t3" using raw_restored [OF r(1) term_getkey_read(1) [OF r(2)] r(3)] by (simp add: tidy_def)
    moreover have "tidy t3 t'" using assms r(4) by (auto simp: td.keeps_def)
    ultimately show ?thesis by (rule td.R_trans)
  qed
  then show ?thesis by (auto simp: td.keeps_def)
qed

section \<open>Screens\<close>

lemma tidies_fetch [keeps_rules]: "tidies fetch_config_values"
proof -
  have "tidies (fetch_values js)" for js by (induction js; simp only: fetch_values.simps; intro keeps_rules)
  then show ?thesis by (simp add: fetch_config_values_def)
qed

lemma tidies_report [keeps_rules]: "tidies (report success r)"
  unfolding report_def by (intro keeps_rules)

lemma input_len [keeps_rules]: "1 < MAX_INPUT_LEN" "1 < MAX_RESP_LINE_LEN"
  by (simp_all add: MAX_INPUT_LEN_def MAX_RESP_LINE_LEN_def)

lemma tidies_login: "tidies screen_login"
proof -
  have "tidies (login_loop fuel)" for fuel
  proof (induction fuel)
    case (Suc fuel)
    show ?case unfolding login_loop.simps by (intro tidies_key Suc.IH keeps_rules)
  qed (simp add: td.keeps_def)
  then have "tidies (\<lambda>t. login_loop (Suc (tm_left t)) t)" unfolding td.keeps_def by blast
  then show ?thesis unfolding screen_login_def by (intro keeps_rules)
qed

lemma tidies_config: "tidies screen_config"
proof -
  have "tidies (config_loop fuel)" for fuel
  proof (induction fuel)
    case (Suc fuel)
    have "tidies (act_then (printf save_cursor) (act_bind (select_menu (config_labels vals) ''Back'') (\<lambda>sel.
       if sel < 0 \<or> sel \<ge> int config_count then printf restore_clear else act_then (edit_param (nat sel)) (config_loop fuel))))" for vals
      unfolding edit_param_def by (intro Suc.IH keeps_rules) (simp add: config_labels_def)
    then show ?case unfolding config_loop.simps td.keeps_def by blast
  qed (simp add: td.keeps_def)
  then have "tidies (\<lambda>t. config_loop (Suc (tm_left t)) t)" unfolding td.keeps_def by blast
  then show ?thesis unfolding screen_config_def by (intro keeps_rules)
qed

lemma tidies_screens:
  "tidies screen_stats" "tidies screen_connections" "tidies screen_users" "tidies screen_add_user" "tidies screen_del_user"
  "tidies screen_set_password" "tidies screen_access_log" "tidies screen_deny_host" "tidies screen_deny_ip" "tidies screen_undeny"
  "tidies screen_deny_list"
  unfolding screen_stats_def screen_connections_def screen_users_def screen_add_user_def screen_del_user_def screen_set_password_def
    screen_access_log_def screen_deny_host_def screen_deny_ip_def screen_undeny_def screen_deny_list_def rule_screen_def
  by (intro keeps_rules)+

lemma tidies_main_menu: "tidies screen_main_menu"
proof -
  have handler: "tidies h" if "(name, Some h) \<in> set main_menu" for name h
    using that tidies_screens tidies_config by (auto simp: main_menu_def)
  have "tidies (main_menu_loop fuel)" for fuel
  proof (induction fuel)
    case (Suc fuel)
    have item: "tidies (case snd (main_menu ! nat opt) of None \<Rightarrow> act_ret ()
        | Some handler \<Rightarrow> act_then (printf (up_clear (menu_count + 3))) (act_then handler (act_then (printf restore_clear) (main_menu_loop fuel))))"
      if "0 \<le> opt" "opt < int menu_count" for opt
    proof (cases "snd (main_menu ! nat opt)")
      case (Some h)
      have "nat opt < length main_menu" using that by (simp add: menu_count_def nat_less_iff)
      then have "main_menu ! nat opt \<in> set main_menu" by (rule nth_mem)
      then have "(fst (main_menu ! nat opt), Some h) \<in> set main_menu" using Some by (metis prod.collapse)
      then show ?thesis using Some handler by (auto intro: keeps_rules Suc.IH)
    qed (auto intro: keeps_rules)
    have "tidies (if opt \<ge> int menu_count \<or> opt < 0 then act_ret () else (case snd (main_menu ! nat opt) of None \<Rightarrow> act_ret ()
        | Some handler \<Rightarrow> act_then (printf (up_clear (menu_count + 3))) (act_then handler (act_then (printf restore_clear) (main_menu_loop fuel)))))" for opt
      using item [of opt] by (auto intro: keeps_rules)
    then show ?case
      unfolding main_menu_loop.simps by (intro td.keeps_then td.keeps_bind tidies_output(1) tidies_menu) (simp_all add: main_menu_def)
  qed (simp add: td.keeps_def)
  then show ?thesis unfolding screen_main_menu_def td.keeps_def by blast
qed

lemma tidies_client: "tidies (client_main opts addrs flags)"
  unfolding client_main_def by (intro tidies_login tidies_main_menu keeps_rules)

end
