(* ===== verification/Shutdown.thy ===== *)
theory Shutdown
  imports Startup
begin

text \<open>
  \<open>main\<close> of \<^verbatim>\<open>src/server/main.c\<close> from end to end: the start with its failure branches, the loop of \<open>Server\<close> and the exit
  sequence, with the functions of \<^verbatim>\<open>socks.c\<close> and \<^verbatim>\<open>monitor.c\<close> that free a server. At the end of \<open>main\<close> the two servers and the
  store are freed before the selector is destroyed, so the close handlers that \<open>selector_destroy\<close> then runs find them gone.
\<close>

section \<open>Freeing the servers\<close>

definition socks_server_destroy :: "unit act" where
  "socks_server_destroy = act_bind (act_get w_socks) (\<lambda>srv.
     if sv_listen_fd srv \<ge> 0
     then act_then (unregister (sv_listen_fd srv)) (act_mod (\<lambda>w. w\<lparr>w_socks := (w_socks w)\<lparr>sv_listen_fd := -1\<rparr>\<rparr>))
     else act_ret ())"

definition monitor_server_destroy :: "unit act" where
  "monitor_server_destroy = act_bind (act_get w_monitor) (\<lambda>srv.
     if mv_listen_fd srv \<ge> 0
     then act_then (unregister (mv_listen_fd srv)) (act_mod (\<lambda>w. w\<lparr>w_monitor := (w_monitor w)\<lparr>mv_listen_fd := -1\<rparr>\<rparr>))
     else act_ret ())"

definition socks_server_run_once :: "nat \<Rightarrow> epoll_result \<Rightarrow> selector_status act" where
  "socks_server_run_once backlog res = act_bind (act_get (\<lambda>w. w_stop w \<and> sv_listen_fd (w_socks w) \<ge> 0)) (\<lambda>stopping.
     act_then (act_when stopping socks_server_stop_accepting) (selector_select w_sel put_sel (handlers backlog) res))"

definition monitor_server_run_once :: "nat \<Rightarrow> epoll_result \<Rightarrow> selector_status act" where
  "monitor_server_run_once backlog res = act_bind (act_get (\<lambda>w. w_stop w \<and> mv_listen_fd (w_monitor w) \<ge> 0)) (\<lambda>stopping.
     act_then (act_when stopping monitor_server_stop_accepting) (selector_select w_sel put_sel (handlers backlog) res))"

section \<open>The exit sequence\<close>

text \<open>
  The close handlers once servers and store are freed: the one of an origin only touches its session, every other one reads the
  server its data points to.
\<close>

definition freed_closer :: "handler_id \<Rightarrow> (key \<Rightarrow> world \<Rightarrow> world run) option" where
  "freed_closer h = Some (\<lambda>key w.
     if h = H_socks_origin \<or> key_data key = None then (case closer h of None \<Rightarrow> Inr w | Some f \<Rightarrow> f key w)
     else Inl Use_after_free)"

definition release :: "world \<Rightarrow> world run" where
  "release w = run_bind (store_destroy (Some (w_store w))) (\<lambda>_. selector_destroy w_sel put_sel freed_closer w)"

definition main_exit :: "world \<Rightarrow> world run" where
  "main_exit w = run_bind (act_then monitor_server_destroy socks_server_destroy w) (\<lambda>(_, w1). release w1)"

section \<open>The whole program\<close>

text \<open>The answers of the allocations and system calls of \<open>selector_new\<close> and \<open>store_create\<close>, and the environment of the run.\<close>

record boot =
  bo_mem :: bool
  bo_epfd :: int
  bo_evfd :: int
  bo_events :: bool
  bo_ctl :: bool
  bo_fds :: "(handler_id, key_data) alloc"
  bo_store :: bool
  bo_slots :: bool
  bo_env :: cmd_env
  bo_os :: "nat \<Rightarrow> os_answer"

definition boot_world :: "boot \<Rightarrow> (handler_id, key_data) fdselector \<Rightarrow> monitor_store \<Rightarrow> world" where
  "boot_world b sel store = \<lparr>w_sel = sel, w_store = store, w_env = bo_env b, w_sessions = (\<lambda>_. None), w_monitors = (\<lambda>_. None),
     w_next = 0, w_socks = \<lparr>sv_listen_fd = -1, sv_port = 0, sv_active_sessions = 0, sv_idle_head = None, sv_idle_tail = None\<rparr>,
     w_monitor = \<lparr>mv_listen_fd = -1, mv_port = 0, mv_active_sessions = 0\<rparr>, w_stop = False, w_dns = [], w_os = bo_os b,
     w_calls = 0, w_open = [0, 1, 2, bo_epfd b, bo_evfd b], w_trace = []\<rparr>"

text \<open>The exit code and, where there was one, the world at the end.\<close>

definition server_run :: "nat \<Rightarrow> (bool \<times> bool \<times> epoll_result) list \<Rightarrow> u16 \<Rightarrow> u16 \<Rightarrow> world \<Rightarrow> (int \<times> world) run" where
  "server_run backlog rounds socks_port monitor_port w =
     run_bind (socks_server_init socks_port w) (\<lambda>(st, w1).
       if st \<noteq> SELECTOR_SUCCESS then run_bind (release w1) (\<lambda>w2. Inr (EXIT_FAILURE, w2))
       else run_bind (monitor_server_init monitor_port w1) (\<lambda>(st2, w2).
         if st2 \<noteq> SELECTOR_SUCCESS
         then run_bind (socks_server_destroy w2) (\<lambda>(_, w3). run_bind (release w3) (\<lambda>w4. Inr (EXIT_FAILURE, w4)))
         else run_bind (main_loop backlog rounds w2) (\<lambda>(_, w3). run_bind (main_exit w3) (\<lambda>w4. Inr (EXIT_SUCCESS, w4)))))"

definition server_main ::
  "boot \<Rightarrow> nat \<Rightarrow> (bool \<times> bool \<times> epoll_result) list \<Rightarrow> (char \<times> string option) list \<Rightarrow> flag_table \<Rightarrow> (int \<times> world option) run" where
  "server_main b backlog rounds opts flags = (let (rc, f) = setup_flags opts ''p:m:hu:a:'' flags
     in if rc \<noteq> 0 then Inr (EXIT_FAILURE, None)
        else case server_flags f of
               Exit_failure \<Rightarrow> Inr (EXIT_FAILURE, None)
             | Exit_success \<Rightarrow> Inr (EXIT_SUCCESS, None)
             | Ports socks_port monitor_port \<Rightarrow>
                 run_bind (selector_new (bo_mem b) (bo_epfd b) (bo_evfd b) (bo_events b) (bo_ctl b) (bo_fds b) 1024) (\<lambda>sel.
                   case sel of
                     None \<Rightarrow> Inr (EXIT_FAILURE, None)
                   | Some s \<Rightarrow> (case store_create (bo_store b) (bo_slots b) of
                       None \<Rightarrow> run_bind (selector_destroy w_sel put_sel freed_closer (boot_world b s zero_store))
                                 (\<lambda>w. Inr (EXIT_FAILURE, Some w))
                     | Some store \<Rightarrow> run_bind (main_users f store) (\<lambda>(ok, store1).
                         if \<not> ok then run_bind (release (boot_world b s store1)) (\<lambda>w. Inr (EXIT_FAILURE, Some w))
                         else run_bind (server_run backlog rounds socks_port monitor_port (boot_world b s store1))
                                (\<lambda>(code, w). Inr (code, Some w))))))"

section \<open>Destroying the selector\<close>

lemma unregister_all_unused:
  assumes "sel_ok F (w_sel w)" "\<forall>i \<in> set is. i < fd_size (w_sel w) \<and> registered (w_sel w) (int i) = None"
  shows "unregister_all w_sel put_sel clo (is @ rest) w = unregister_all w_sel put_sel clo rest w"
  using assms(2)
proof (induction "is")
  case (Cons i "is")
  obtain b where b: "sel_base (w_sel w) = Some b" "fds_base (w_sel w) = Inr b" "length (sel_fds (w_sel w)) = fd_size (w_sel w)"
    using assms(1) by (rule sel_invD)
  have "\<not> ITEM_USED (sel_fds (w_sel w) ! i)" "i < length (sel_fds (w_sel w))"
    using Cons.prems b(3) by (auto simp: registered_def split: if_splits)
  then show ?case using b Cons by (simp add: item_get_def)
qed simp

lemma selector_destroy_unused:
  assumes "sel_ok F (w_sel w)" "registered (w_sel w) = (\<lambda>_. None)"
  shows "\<exists>w'. selector_destroy w_sel put_sel clo w = Inr w' \<and> sel_base (w_sel w') = None \<and> sel_fds (w_sel w') = [] \<and>
    w_sessions w' = w_sessions w \<and> w_monitors w' = w_monitors w \<and> w_open w' = w_open w \<and> w_trace w' = w_trace w"
proof -
  have "unregister_all w_sel put_sel clo ([0..<fd_size (w_sel w)] @ []) w = unregister_all w_sel put_sel clo [] w"
    by (rule unregister_all_unused [OF assms(1)]) (simp add: assms(2))
  moreover have "sel_base (w_sel w) \<noteq> None" using assms(1) by (simp add: sel_ok_def)
  ultimately show ?thesis by (auto simp: selector_destroy_def put_sel_def)
qed

text \<open>The first registered descriptor, unless it is an origin, makes the destruction use a freed server.\<close>

lemma selector_destroy_freed:
  assumes inv: "sel_ok F (w_sel w)" and reg: "registered (w_sel w) (int i) = Some (h, intr, Some d)" and h: "h \<noteq> H_socks_origin"
    and first: "\<forall>j < i. registered (w_sel w) (int j) = None"
  shows "selector_destroy w_sel put_sel freed_closer w = Inl Use_after_free"
proof -
  let ?n = "fd_size (w_sel w)"
  obtain b where b: "sel_base (w_sel w) = Some b" "fds_base (w_sel w) = Inr b" "length (sel_fds (w_sel w)) = ?n"
    using inv by (rule sel_invD)
  have i: "i < ?n" using registered_range [OF reg] by simp
  have ok: "item_ok F (w_sel w) i" using inv i by (simp add: sel_ok_def)
  have it: "ITEM_USED (sel_fds (w_sel w) ! i)" "it_handler (sel_fds (w_sel w) ! i) = Some h" "it_data (sel_fds (w_sel w) ! i) = Some d"
    "\<not> INVALID_FD (int i)"
    using reg ok by (auto simp: registered_def item_ok_def INVALID_FD_def split: if_splits)
  have parts: "[0..<?n] = [0..<i] @ i # [Suc i..<?n]" using i by (metis append_Cons append_Nil less_imp_add_positive upt_add_eq_append upt_conv_Cons zero_le)
  have "selector_unregister_fd w_sel put_sel freed_closer (int i) w = Inl Use_after_free"
    using it b i h by (simp add: selector_unregister_fd_def item_get_def item_put_def epoll_del_def freed_closer_def Let_def)
  then have "unregister_all w_sel put_sel freed_closer (i # [Suc i..<?n]) w = Inl Use_after_free"
    using it(1) b i by (simp add: item_get_def)
  moreover have "unregister_all w_sel put_sel freed_closer ([0..<i] @ i # [Suc i..<?n]) w =
      unregister_all w_sel put_sel freed_closer (i # [Suc i..<?n]) w"
    by (rule unregister_all_unused [OF inv]) (use first i in auto)
  ultimately have "unregister_all w_sel put_sel freed_closer [0..<?n] w = Inl Use_after_free" unfolding parts by simp
  then show ?thesis using b(1) by (simp add: selector_destroy_def)
qed

lemma main_exit_stopped:
  assumes "sv_listen_fd (w_socks w) < 0" "mv_listen_fd (w_monitor w) < 0"
  shows "main_exit w = release w"
  using assms by (simp add: main_exit_def monitor_server_destroy_def socks_server_destroy_def act_then_def act_bind_def)

lemma main_exit_clean:
  assumes "sv_listen_fd (w_socks w) < 0" "mv_listen_fd (w_monitor w) < 0" "acl_inv (w_store w)"
    and "sel_inv (w_sel w)" "registered (w_sel w) = (\<lambda>_. None)"
  shows "\<exists>w'. main_exit w = Inr w' \<and> store_destroy (Some (w_store w)) = Inr [] \<and> sel_base (w_sel w') = None \<and>
    w_open w' = w_open w \<and> w_trace w' = w_trace w"
  using main_exit_stopped [OF assms(1,2)] selector_destroy_unused [OF assms(4,5), of freed_closer] destroy_frees_all [OF assms(3)]
  by (auto simp: release_def)

lemma main_exit_freed:
  assumes "sv_listen_fd (w_socks w) < 0" "mv_listen_fd (w_monitor w) < 0" "acl_inv (w_store w)"
    and "sel_inv (w_sel w)" "registered (w_sel w) (int i) = Some (h, intr, Some d)" "h \<noteq> H_socks_origin"
    and "\<forall>j < i. registered (w_sel w) (int j) = None"
  shows "main_exit w = Inl Use_after_free"
  using main_exit_stopped [OF assms(1,2)] selector_destroy_freed [OF assms(4-7)] destroy_frees_all [OF assms(3)]
  by (simp add: release_def)

end
