(* ===== verification/Server_Run.thy ===== *)
theory Server_Run
  imports Effects Shutdown
begin

text \<open>
  The server as a transition system: a round of the loop of \<^verbatim>\<open>main\<close> with whatever events \<^verbatim>\<open>epoll_wait\<close> reports, or a
  resolver thread that finishes. What holds of every handler is lifted to every reachable state: the handlers of SOCKS sessions
  and of the listening sockets by the calculus of \<open>Effects\<close>, those of the administration port here, where the interpreter of
  \<open>Monitor_Commands\<close> may change users, configuration and access lists.
\<close>

section \<open>The invariant of the process\<close>

text \<open>
  Live sessions and their counter, the ring of the log, the access lists and an administrator; the buffers and the line of
  every monitor session.
\<close>

definition monitor_ok :: "monitor_session \<Rightarrow> bool" where
  "monitor_ok m \<longleftrightarrow> buffer_inv (mo_rb m) \<and> buffer_inv (mc_wb (mo_commands m)) \<and> length (mc_line (mo_commands m)) \<le> MONITOR_LINE_MAX"

definition store_safe :: "monitor_store \<Rightarrow> bool" where
  "store_safe store \<longleftrightarrow> tables_inv store \<and> acl_inv store \<and> 0 < store_admin_count store"

definition server_inv :: "world \<Rightarrow> bool" where
  "server_inv w \<longleftrightarrow> calloc_fresh (w_env w) \<and> store_safe (w_store w) \<and> (\<forall>mid m. w_monitors w mid = Some m \<longrightarrow> monitor_ok m)"

text \<open>What a SOCKS session may do to the store.\<close>

definition policy_kept :: "monitor_store \<Rightarrow> monitor_store \<Rightarrow> bool" where
  "policy_kept store store' \<longleftrightarrow> store_policy store' = store_policy store \<and> (store_safe store \<longrightarrow> store_safe store')"

lemma policy_keptI:
  assumes "store_policy store' = store_policy store" "tables_inv store \<Longrightarrow> tables_inv store'"
  shows "policy_kept store store'"
proof -
  have "acl_inv store'" if "acl_inv store"
    using that by (rule acl_inv_cong) (use assms(1) in \<open>simp_all add: store_policy_def\<close>)
  moreover have "store_admin_count store' = store_admin_count store"
    using assms(1) by (simp add: store_policy_def store_admin_count_def)
  ultimately show ?thesis using assms by (auto simp: policy_kept_def store_safe_def)
qed

lemma policy_kept_ops:
  "policy_kept store (snd (store_session_begin store))" "policy_kept store (store_session_set_user store i u)"
  "policy_kept store (snd (store_session_set_dest now store i h p))" "policy_kept store (store_session_set_phase store i ph)"
  "policy_kept store (store_session_add_bytes store i up down)" "policy_kept store (store_session_mark_failed now store i)"
  "policy_kept store (store_session_end store i)" "policy_kept store (store_session_mark_ttl_expired now store i)"
  by (auto intro!: policy_keptI tables_begin tables_session tables_set_dest tables_add_bytes tables_close)

section \<open>Handlers of SOCKS sessions\<close>

definition socks_kept :: "world \<Rightarrow> world \<Rightarrow> bool" where
  "socks_kept w w' \<longleftrightarrow> within_policy w w' \<and> (server_inv w \<longrightarrow> server_inv w')"

lemma server_inv_store: "policy_kept (w_store w) st \<Longrightarrow> server_inv w \<Longrightarrow> server_inv (w\<lparr>w_store := st\<rparr>)"
  by (simp add: server_inv_def policy_kept_def)

lemma server_inv_free: "server_inv w \<Longrightarrow> server_inv (w\<lparr>w_monitors := (w_monitors w)(mid := None)\<rparr>)"
  by (simp add: server_inv_def)

interpretation sk: socks_effects socks_kept policy_kept
proof
  fix w0 w1 w2 assume "socks_kept w0 w1" "socks_kept w1 w2"
  then show "socks_kept w0 w2" using pe.R_trans [of w0 w1 w2] by (simp add: socks_kept_def)
next
  fix w w' a assume "socks_kept w w'" "addr_clear a w"
  then show "addr_clear a w'" using pe.R_clear [of w w' a] by (simp add: socks_kept_def)
next
  fix w :: world and st assume p: "policy_kept (w_store w) st"
  then have "within_policy w (w\<lparr>w_store := st\<rparr>)" by (intro pe.R_store) (simp add: policy_kept_def)
  then show "socks_kept w (w\<lparr>w_store := st\<rparr>)" using server_inv_store [OF p] by (simp add: socks_kept_def)
next
  fix w :: world and a fd assume "addr_clear a w"
  then show "socks_kept w (w\<lparr>w_trace := w_trace w @ [Connecting fd a (w_store w)]\<rparr>)"
    using pe.R_connect by (simp add: socks_kept_def server_inv_def)
next
  fix w :: world and e assume "\<And>fd a st. e \<noteq> Connecting fd a st"
  then show "socks_kept w (w\<lparr>w_trace := w_trace w @ [e]\<rparr>)" using pe.R_event by (simp add: socks_kept_def server_inv_def)
qed (auto simp: socks_kept_def within_policy_def policy_kept_ops server_inv_free server_inv_def)

section \<open>Two relations over any step\<close>

text \<open>Every connection attempt of a list of effects was to an address that the store of that moment did not deny.\<close>

definition guarded :: "net_lib \<Rightarrow> effect list \<Rightarrow> bool" where
  "guarded net es \<longleftrightarrow> (\<forall>fd a st. Connecting fd a st \<in> set es \<longrightarrow> socks_dest_addr_is_denied net st (Some a) = Inr False)"

definition traced :: "world \<Rightarrow> world \<Rightarrow> bool" where
  "traced w w' \<longleftrightarrow> w_env w' = w_env w \<and> (\<exists>new. w_trace w' = w_trace w @ new \<and> guarded (e_net (w_env w)) new)"

definition inv_kept :: "world \<Rightarrow> world \<Rightarrow> bool" where
  "inv_kept w w' \<longleftrightarrow> (server_inv w \<longrightarrow> server_inv w')"

lemma guarded_append [simp]: "guarded net (es @ fs) \<longleftrightarrow> guarded net es \<and> guarded net fs"
  by (auto simp: guarded_def)

lemma traced_event: "(\<And>fd a st. e \<noteq> Connecting fd a st) \<Longrightarrow> traced w (w\<lparr>w_trace := w_trace w @ [e]\<rparr>)"
  by (auto simp: traced_def guarded_def)

lemma traced_same: "w_env w' = w_env w \<Longrightarrow> w_trace w' = w_trace w \<Longrightarrow> traced w w'"
  by (auto simp: traced_def guarded_def)

lemma socks_kept_traced: "socks_kept w w' \<Longrightarrow> traced w w'"
proof -
  assume "socks_kept w w'"
  then obtain new where env: "w_env w' = w_env w" and new: "w_trace w' = w_trace w @ new"
    and c: "\<And>fd a st. Connecting fd a st \<in> set new \<Longrightarrow> addr_clear a w \<and> store_policy st = store_policy (w_store w)"
    by (auto simp: socks_kept_def within_policy_def)
  have "guarded (e_net (w_env w)) new"
    unfolding guarded_def
  proof (intro allI impI)
    fix fd a st assume "Connecting fd a st \<in> set new"
    then have "addr_clear a w" "store_policy st = store_policy (w_store w)" using c by blast+
    then show "socks_dest_addr_is_denied (e_net (w_env w)) st (Some a) = Inr False"
      using denied_policy [of st "w_store w" "e_net (w_env w)" "Some a"] by (simp add: addr_clear_def)
  qed
  then show ?thesis using env new by (auto simp: traced_def)
qed

lemma socks_kept_inv: "socks_kept w w' \<Longrightarrow> inv_kept w w'"
  by (simp add: socks_kept_def inv_kept_def)

interpretation tr: system_order traced "\<lambda>_ :: unit. \<lambda>_. True" "\<lambda>_ _. True"
proof
  fix w0 w1 w2 assume "traced w0 w1" "traced w1 w2"
  then show "traced w0 w2" by (auto simp: traced_def)
qed (auto intro: traced_event traced_same)

interpretation iv: system_order inv_kept "\<lambda>_ :: unit. \<lambda>_. True" policy_kept
  by unfold_locales (auto simp: inv_kept_def policy_kept_ops server_inv_store server_inv_free, auto simp: server_inv_def)

lemma tr_socks: "sk.keeps {} m \<Longrightarrow> tr.keeps {} m" "sk.keeps {} m \<Longrightarrow> iv.keeps {} m"
  using socks_kept_traced socks_kept_inv by (auto simp: sk.keeps_def tr.keeps_def iv.keeps_def)

section \<open>The dispatcher\<close>

context system_order
begin

definition handlers_keep :: "('a \<Rightarrow> (key_data, world) fd_handler) \<Rightarrow> bool" where
  "handlers_keep H \<longleftrightarrow> (\<forall>h f key. handle_read (H h) = Some f \<or> handle_write (H h) = Some f \<or> handle_block (H h) = Some f \<longrightarrow>
     keeps_w {} (f key))"

lemma handlers_keepD:
  assumes "handlers_keep H" and "handle_read (H h) = Some f \<or> handle_write (H h) = Some f \<or> handle_block (H h) = Some f"
    and "f key w = Inr w'"
  shows "R w w'"
proof -
  have "keeps_w {} (f key)" using assms(1,2) unfolding handlers_keep_def by blast
  then show ?thesis using assms(3) by (simp add: keeps_w_def)
qed

lemma R_put_sel: "R w (put_sel s w)"
  by (simp add: put_sel_def R_sel)

lemma called_read:
  assumes "handlers_keep H"
    and "(if c then run_bind (handler_of H it) (\<lambda>h. call_handler (handle_read h) key w) else Inr w) = Inr w'"
  shows "R w w'"
  using assms(2) handlers_keepD [OF assms(1) disjI1] R_refl
  by (auto simp: run_simps handler_of_def call_handler_def split: if_splits option.splits)

lemma called_write:
  assumes "handlers_keep H"
    and "(if c then run_bind (item_get b n (w_sel w)) (\<lambda>it. if i it then
      run_bind (handler_of H it) (\<lambda>h. call_handler (handle_write h) key w) else Inr w) else Inr w) = Inr w'"
  shows "R w w'"
  using assms(2) handlers_keepD [OF assms(1) disjI2 [OF disjI1]] R_refl
  by (auto simp: run_simps handler_of_def call_handler_def split: if_splits option.splits)

lemma keeps_event:
  assumes H: "handlers_keep H" and ev: "handle_event w_sel put_sel H ev w = Inr w'"
  shows "R w w'"
proof -
  obtain fd events where e: "ev = (fd, events)" by fastforce
  show ?thesis
  proof (cases "fd = event_fd (w_sel w)")
    case True
    then show ?thesis using ev R_put_sel by (auto simp: e handle_event_def)
  next
    case False
    note run = ev [unfolded e handle_event_def prod.case if_not_P [OF False] Let_def run_bind_eq_Inr]
    from run obtain base it where it: "(if \<not> ITEM_USED it then Inr w else
        run_bind (if events AND (EPOLLIN OR EPOLLERR OR EPOLLHUP) \<noteq> 0 \<and> OP_READ AND it_interest it \<noteq> 0
          then run_bind (handler_of H it) (\<lambda>h. call_handler (handle_read h) \<lparr>key_fd = fd, key_data = it_data it\<rparr> w) else Inr w) (\<lambda>w1.
        if events AND (EPOLLOUT OR EPOLLERR OR EPOLLHUP) \<noteq> 0
        then run_bind (item_get base (nat fd) (w_sel w1)) (\<lambda>it1. if OP_WRITE AND it_interest it1 \<noteq> 0
               then run_bind (handler_of H it1) (\<lambda>h. call_handler (handle_write h) \<lparr>key_fd = fd, key_data = it_data it\<rparr> w1)
               else Inr w1)
        else Inr w1)) = Inr w'" by blast
    show ?thesis
    proof (cases "ITEM_USED it")
      case True
      then show ?thesis
        using it R_trans [OF called_read [OF H] called_write [OF H]] by (auto simp only: not_True_eq_False if_False run_bind_eq_Inr)
    qed (use it R_refl in simp)
  qed
qed

lemma keeps_iteration:
  assumes "handlers_keep H" shows "handle_iteration w_sel put_sel H evs w = Inr w' \<Longrightarrow> R w w'"
proof (induction evs arbitrary: w)
  case (Cons ev evs)
  then obtain w1 where "handle_event w_sel put_sel H ev w = Inr w1" "handle_iteration w_sel put_sel H evs w1 = Inr w'"
    by (auto simp: run_simps)
  then show ?case using keeps_event [OF assms] Cons.IH R_trans by blast
qed (simp add: R_refl)

lemma keeps_jobs:
  assumes "handlers_keep H" shows "handle_jobs w_sel H fds w = Inr w' \<Longrightarrow> R w w'"
proof (induction fds arbitrary: w)
  case (Cons fd fds)
  then obtain w1 where "R w w1" "handle_jobs w_sel H fds w1 = Inr w'"
    using handlers_keepD [OF assms] R_refl by (fastforce simp: run_simps handler_of_def split: if_splits option.splits)
  then show ?case using Cons.IH R_trans by blast
qed (simp add: R_refl)

lemma keeps_notifications:
  assumes "handlers_keep H" and "handle_block_notifications w_sel put_sel H w = Inr w'"
  shows "R w w'"
proof -
  obtain w1 where "handle_jobs w_sel H (resolution_jobs (w_sel w)) w = Inr w1" "w' = put_sel ((w_sel w1)\<lparr>resolution_jobs := []\<rparr>) w1"
    using assms(2) by (auto simp: handle_block_notifications_def run_simps)
  then show ?thesis using keeps_jobs [OF assms(1)] R_put_sel R_trans by blast
qed

lemma keeps_select:
  assumes "handlers_keep H" shows "keeps {} (selector_select w_sel put_sel H res)"
  unfolding keeps_def
proof (intro allI impI)
  fix w st w' assume r: "selector_select w_sel put_sel H res w = Inr (st, w')"
  note it = keeps_iteration [OF assms] and bl = keeps_notifications [OF assms]
  show "R w w'" using r it bl R_trans [OF it bl] R_refl by (cases res) (auto simp: selector_select_def run_simps)
qed

lemma keeps_stop:
  "keeps S socks_server_stop_accepting" "keeps S monitor_server_stop_accepting"
  unfolding socks_server_stop_accepting_def monitor_server_stop_accepting_def by (intro keeps_rules)+

end

section \<open>Handlers of the administration port\<close>

text \<open>They connect to nothing, whatever the interpreter does to the store.\<close>

lemma tr_sys: "tr.keeps S (sys_read fd n)" "tr.keeps S (sys_write fd bs)" "tr.keeps S sys_open"
  unfolding sys_read_def sys_write_def sys_open_def record_effect_def Let_def
  by (intro keeps_rules traced_event; simp)+

lemma tr_heap: "tr.keeps S (monitor_mod mid f)" "tr.keeps S (act_mod (\<lambda>w. w\<lparr>w_next := Suc (w_next w), w_monitors := h w\<rparr>))"
  by (auto simp: tr.keeps_def monitor_mod_def intro: traced_same split: option.splits)

lemma tr_feed: "tr.keeps S (feed_rb_to_commands mid)" "tr.keeps S (monitor_flush_on_eof mid)"
proof -
  have "tr.keeps S (feed_rb_loop fuel mid)" for fuel
    by (induction fuel; simp only: feed_rb_loop.simps; intro keeps_rules tr_heap; simp)
  then show "tr.keeps S (feed_rb_to_commands mid)" by (simp only: feed_rb_to_commands_def)
  show "tr.keeps S (monitor_flush_on_eof mid)"
    unfolding monitor_flush_on_eof_def by (intro keeps_rules tr_heap; simp)
qed

lemma tr_monitor:
  "tr.keeps S (monitor_client_read key mid)" "tr.keeps S (monitor_client_write key mid)" "tr.keeps S (monitor_passive_read backlog key)"
proof -
  have fl: "tr.keeps S (monitor_flush key mid)"
    unfolding monitor_flush_def monitor_unregister_session_def by (intro keeps_rules tr_sys tr_heap)
  show "tr.keeps S (monitor_client_write key mid)"
    unfolding monitor_client_write_def rearm_def by (intro keeps_rules fl)
  show "tr.keeps S (monitor_client_read key mid)"
    unfolding monitor_client_read_def rearm_def monitor_unregister_session_def by (intro keeps_rules fl tr_sys tr_heap tr_feed)
  have "tr.keeps S (monitor_passive_loop fuel)" for fuel
    by (induction fuel; simp only: monitor_passive_loop.simps; intro keeps_rules tr_sys tr_heap)
  then show "tr.keeps S (monitor_passive_read backlog key)" unfolding monitor_passive_read_def .
qed

text \<open>They keep the invariant.\<close>

lemma iv_get: "(\<And>m. monitor_ok m \<Longrightarrow> iv.keeps {} (f m)) \<Longrightarrow> iv.keeps {} (act_bind (monitor_get mid) f)"
proof -
  assume f: "\<And>m. monitor_ok m \<Longrightarrow> iv.keeps {} (f m)"
  have "inv_kept w w'" if r: "act_bind (monitor_get mid) f w = Inr (x, w')" for w x w'
  proof -
    obtain m where m: "w_monitors w mid = Some m" "f m w = Inr (x, w')"
      using r by (auto simp: act_bind_def monitor_get_def split: option.splits)
    have "server_inv w \<Longrightarrow> monitor_ok m" using m(1) by (auto simp: server_inv_def)
    then show ?thesis using f [of m] m(2) by (auto simp: iv.keeps_def inv_kept_def)
  qed
  then show ?thesis by (simp add: iv.keeps_def)
qed

lemma iv_lift: "(\<And>x. r = Inr x \<Longrightarrow> iv.keeps S (f x)) \<Longrightarrow> iv.keeps S (act_bind (act_lift r) f)"
  by (cases r) (auto simp: iv.keeps_def act_bind_def act_lift_def)

lemma iv_mod: "(\<And>m. monitor_ok m \<Longrightarrow> monitor_ok (f m)) \<Longrightarrow> iv.keeps S (monitor_mod mid f)"
  by (auto simp: iv.keeps_def monitor_mod_def inv_kept_def server_inv_def split: option.splits)

lemma iv_sys: "iv.keeps S (sys_read fd n)" "iv.keeps S (sys_write fd bs)" "iv.keeps S sys_open"
  unfolding sys_read_def sys_write_def sys_open_def record_effect_def Let_def
  by (intro keeps_rules; simp add: inv_kept_def server_inv_def)+

lemma buffer_read_adv_inv: "buffer_inv b \<Longrightarrow> buffer_read_adv b n = Inr b' \<Longrightarrow> buffer_inv b'"
  by (auto simp: buffer_read_adv_def Let_def run_simps buffer_inv_def buffer_compact_def split: if_splits)

lemma server_inv_fed:
  assumes inv: "server_inv w" and m: "w_monitors w mid = Some m" and run: "mon_run (w_store w, mo_commands m) (Inr (store1, s1))"
    and rb: "buffer_inv rb"
  shows "server_inv (w\<lparr>w_store := store1, w_monitors := (w_monitors w)(mid \<mapsto> m\<lparr>mo_rb := rb, mo_commands := s1\<rparr>)\<rparr>)"
proof -
  have "mon_rel (w_store w, mo_commands m) (store1, s1)" using run by (simp add: mon_run_def)
  then have "store_safe store1" "buffer_inv (mc_wb s1)" "length (mc_line s1) \<le> MONITOR_LINE_MAX"
    using inv by (auto simp: server_inv_def store_safe_def mon_rel_def mon_inv_def)
  then show ?thesis using inv rb by (simp add: server_inv_def monitor_ok_def)
qed

lemma iv_feed: "iv.keeps {} (feed_rb_to_commands mid)" "iv.keeps {} (monitor_flush_on_eof mid)"
proof -
  have fed: "server_inv w \<Longrightarrow> w_monitors w mid = Some m \<Longrightarrow> mon_inv (w_store w, mo_commands m) \<and> calloc_fresh (w_env w) \<and>
      buffer_inv (mo_rb m)" for w m
    by (auto simp: server_inv_def store_safe_def monitor_ok_def mon_inv_def)
  have loop: "inv_kept w w'" if "feed_rb_loop fuel mid w = Inr (x, w')" for fuel w w' x
    using that
  proof (induction fuel arbitrary: w)
    case (Suc fuel)
    show ?case
      unfolding inv_kept_def
    proof
      assume inv: "server_inv w"
      obtain m where m: "w_monitors w mid = Some m"
        using Suc.prems by (auto simp: act_bind_def monitor_get_def split: option.splits)
      note f = fed [OF inv m]
      show "server_inv w'"
      proof (cases "buffer_can_read (mo_rb m)")
        case True
        then obtain store1 s1 rb where run: "monitor_commands_feed (w_env w) (buffer_pending (mo_rb m)) (w_store w, mo_commands m) = Inr (store1, s1)"
          and rb: "buffer_read_adv (mo_rb m) (int (length (buffer_pending (mo_rb m)))) = Inr rb"
          and go: "feed_rb_loop fuel mid (w\<lparr>w_store := store1, w_monitors := (w_monitors w)(mid \<mapsto> m\<lparr>mo_rb := buffer_compact rb, mo_commands := s1\<rparr>)\<rparr>) = Inr (x, w')"
          using Suc.prems m f
          by (auto simp: act_bind_def act_then_def act_lift_def store_mod_def monitor_mod_def run_simps buffer_read_ptr_ok split: prod.splits)
        have "mon_run (w_store w, mo_commands m) (Inr (store1, s1))" using feed_mon [of "(w_store w, mo_commands m)" "w_env w"] f run by metis
        then show ?thesis using Suc.IH [OF go] server_inv_fed [OF inv m] buffer_read_adv_inv [OF _ rb] f by (simp add: inv_kept_def)
      qed (use Suc.prems m inv in \<open>simp add: act_bind_def\<close>)
    qed
  qed simp
  then show "iv.keeps {} (feed_rb_to_commands mid)" by (simp add: iv.keeps_def feed_rb_to_commands_def)
  have "inv_kept w w'" if r: "monitor_flush_on_eof mid w = Inr (x, w')" for w w' x
    unfolding inv_kept_def
  proof
    assume inv: "server_inv w"
    obtain m store1 s1 where m: "w_monitors w mid = Some m"
      and run: "monitor_commands_flush_on_eof (w_env w) (w_store w, mo_commands m) = Inr (store1, s1)"
      and w': "w' = w\<lparr>w_store := store1, w_monitors := (w_monitors w)(mid \<mapsto> m\<lparr>mo_rb := mo_rb m, mo_commands := s1\<rparr>)\<rparr>"
      using r by (auto simp: monitor_flush_on_eof_def act_bind_def act_then_def act_lift_def monitor_get_def store_mod_def monitor_mod_def run_simps
          split: option.splits)
    note f = fed [OF inv m]
    have "mon_run (w_store w, mo_commands m) (Inr (store1, s1))" using flush_on_eof_mon [of "(w_store w, mo_commands m)" "w_env w"] f run by metis
    then show "server_inv w'" unfolding w' using server_inv_fed [OF inv m] f by blast
  qed
  then show "iv.keeps {} (monitor_flush_on_eof mid)" by (simp add: iv.keeps_def)
qed

lemma iv_flush: "iv.keeps {} (monitor_flush key mid)"
  unfolding monitor_flush_def monitor_unregister_session_def
  by (intro iv_get iv_lift keeps_rules iv_sys iv_mod; auto simp: monitor_ok_def dest: buffer_read_adv_inv)

lemma session_init_ok:
  assumes "monitor_session_init monitor_zeroed = Inr m" shows "monitor_ok m"
proof -
  have d: "b_data (buffer_init 0 (replicate n 0)) = replicate n 0" for n by (simp add: buffer_defs)
  show ?thesis
    using assms
    by (auto simp: monitor_session_init_def monitor_zeroed_def monitor_commands_queue_greeting_def monitor_commands_session_init_def
        Let_def run_simps d reply_eq wb_put_props monitor_ok_def)
qed

lemma iv_monitor:
  "iv.keeps {} (monitor_client_read key mid)" "iv.keeps {} (monitor_client_write key mid)" "iv.keeps {} (monitor_passive_read backlog key)"
proof -
  show "iv.keeps {} (monitor_client_write key mid)"
    unfolding monitor_client_write_def rearm_def by (intro keeps_rules iv_flush)
  show "iv.keeps {} (monitor_client_read key mid)"
    unfolding monitor_client_read_def rearm_def monitor_unregister_session_def buffer_push_def [symmetric]
    by (intro iv_get iv_lift keeps_rules iv_flush iv_sys iv_mod iv_feed; auto simp: monitor_ok_def dest: buffer_pushD)
  have new: "iv.keeps {} (act_mod (\<lambda>w. w\<lparr>w_next := Suc (w_next w), w_monitors := (w_monitors w)(mid \<mapsto> m)\<rparr>))" if "monitor_ok m" for mid m
    using that by (auto simp: iv.keeps_def inv_kept_def server_inv_def)
  have "iv.keeps {} (monitor_passive_loop fuel)" for fuel
    by (induction fuel; simp only: monitor_passive_loop.simps; intro iv_lift keeps_rules iv_sys new session_init_ok)
  then show "iv.keeps {} (monitor_passive_read backlog key)" unfolding monitor_passive_read_def .
qed

section \<open>All handlers\<close>

lemma keeps_handler_table: "tr.handlers_keep (handlers backlog)" "iv.handlers_keep (handlers backlog)"
proof -
  note s = tr_socks [OF sk.keeps_client(1)] tr_socks [OF sk.keeps_client(2)] tr_socks [OF sk.keeps_client(3)]
    tr_socks [OF sk.keeps_origin(1)] tr_socks [OF sk.keeps_origin(2)] tr_socks [OF sk.keeps_passive]
  have "tr.keeps_w {} (f key) \<and> iv.keeps_w {} (f key)" if "handle_read (handlers backlog h) = Some f \<or>
      handle_write (handlers backlog h) = Some f \<or> handle_block (handlers backlog h) = Some f" for h f key
    using that
    by (cases h) (auto simp: handlers_def on_session_def on_monitor_def
        intro!: tr.keeps_as_handler iv.keeps_as_handler keeps_rules s tr_monitor iv_monitor)
  then show "tr.handlers_keep (handlers backlog)" "iv.handlers_keep (handlers backlog)"
    by (simp_all add: tr.handlers_keep_def iv.handlers_keep_def)
qed

lemma keeps_main_iteration:
  "tr.keeps {} (main_iteration backlog shutdown force res)" "iv.keeps {} (main_iteration backlog shutdown force res)"
proof -
  have m: "tr.keeps {} (act_mod (\<lambda>w. w\<lparr>w_stop := True\<rparr>))" "iv.keeps {} (act_mod (\<lambda>w. w\<lparr>w_stop := True\<rparr>))"
    by (simp_all add: tr.keeps_def iv.keeps_def traced_same inv_kept_def server_inv_def)
  note e = tr_socks [OF sk.keeps_expire]
  show "tr.keeps {} (main_iteration backlog shutdown force res)" unfolding main_iteration_def
    by (intro m e keeps_rules tr.keeps_stop tr.keeps_select keeps_handler_table)
  show "iv.keeps {} (main_iteration backlog shutdown force res)" unfolding main_iteration_def
    by (intro m e keeps_rules iv.keeps_stop iv.keeps_select keeps_handler_table)
qed

section \<open>Reachable states\<close>

text \<open>
  A step of the process: a round of the loop of \<open>main\<close>, with any flags set by signals and any answer of \<open>epoll_wait\<close>, or
  the end of a resolver thread, with any outcome.
\<close>

inductive server_step :: "nat \<Rightarrow> world \<Rightarrow> world \<Rightarrow> bool" for backlog where
  round: "main_iteration backlog shutdown force res w = Inr (go, w') \<Longrightarrow> server_step backlog w w'"
| resolver: "ctx \<in> set (w_dns w) \<Longrightarrow> socks_dns_thread ctx rc result w = Inr ((), w') \<Longrightarrow> server_step backlog w w'"

inductive_cases server_stepE: "server_step backlog w w'"

inductive server_reach :: "boot \<Rightarrow> nat \<Rightarrow> flag_table \<Rightarrow> world \<Rightarrow> bool" for b backlog f where
  start: "server_flags f = Ports socks_port monitor_port \<Longrightarrow>
    selector_new (bo_mem b) (bo_epfd b) (bo_evfd b) (bo_events b) (bo_ctl b) (bo_fds b) 1024 = Inr (Some s) \<Longrightarrow>
    store_create (bo_store b) (bo_slots b) = Some store \<Longrightarrow> main_users f store = Inr (True, store1) \<Longrightarrow>
    socks_server_init socks_port (boot_world b s store1) = Inr (SELECTOR_SUCCESS, w1) \<Longrightarrow>
    monitor_server_init monitor_port w1 = Inr (SELECTOR_SUCCESS, w2) \<Longrightarrow> server_reach b backlog f w2"
| step: "server_reach b backlog f w \<Longrightarrow> server_step backlog w w' \<Longrightarrow> server_reach b backlog f w'"

lemma step_kept:
  assumes "server_step backlog w w'" shows "traced w w'" "inv_kept w w'"
proof -
  have dns: "traced w w'" "inv_kept w w'" if "socks_dns_thread ctx rc result w = Inr ((), w')" for ctx rc result
    using tr_socks [OF sk.keeps_dns_thread] that by (auto simp: tr.keeps_def iv.keeps_def)
  show "traced w w'" "inv_kept w w'"
    using assms dns keeps_main_iteration by (auto elim!: server_stepE simp: tr.keeps_def iv.keeps_def)
qed

text \<open>The loop of \<open>main\<close> is made of such steps.\<close>

lemma main_loop_steps:
  "main_loop backlog rounds w = Inr ((), w') \<Longrightarrow> (server_step backlog)\<^sup>*\<^sup>* w w'"
proof (induction rounds arbitrary: w)
  case (Cons r rounds)
  obtain shutdown force res where r: "r = (shutdown, force, res)" by (cases r) auto
  show ?case
  proof (cases "servers_is_empty w")
    case False
    then obtain go w1 where w1: "main_iteration backlog shutdown force res w = Inr (go, w1)"
      "(if go then main_loop backlog rounds else act_ret ()) w1 = Inr ((), w')"
      using Cons.prems by (auto simp: r act_bind_def run_simps)
    have "server_step backlog w w1" using w1(1) by (rule server_step.round)
    moreover have "(server_step backlog)\<^sup>*\<^sup>* w1 w'" using w1(2) Cons.IH by (cases go) auto
    ultimately show ?thesis by (rule converse_rtranclp_into_rtranclp)
  qed (use Cons.prems in \<open>simp add: r act_bind_def\<close>)
qed simp

section \<open>The start\<close>

lemma admin_count_added:
  assumes "store_user_add store (Some n) (Some p) True = (STORE_USER_OK, store1)"
  shows "0 < store_admin_count store1"
proof -
  let ?u = "\<lparr>u_used = True, u_username = strncpy_term STORE_MAX_USERNAME n, u_password = strncpy_term STORE_MAX_PASSWORD p,
    u_role = STORE_ROLE_ADMIN\<rparr>"
  obtain i where i: "first_idx (\<lambda>u. \<not> u_used u) (ms_users store) = Some i" and u: "ms_users store1 = (ms_users store)[i := ?u]"
    using assms by (auto simp: store_user_add_def role_of_def split: if_splits option.splits)
  have "?u \<in> set (ms_users store1)" unfolding u using first_idx_SomeD [OF i] by (intro set_update_memI) simp
  moreover have "is_admin_user ?u" by (simp add: is_admin_user_def)
  ultimately have "filter is_admin_user (ms_users store1) \<noteq> []" unfolding filter_empty_conv by blast
  then show ?thesis by (simp add: store_admin_count_def)
qed

text \<open>What the users of the command line do to the store.\<close>

definition started :: "monitor_store \<Rightarrow> monitor_store \<Rightarrow> bool" where
  "started store store1 \<longleftrightarrow> (tables_inv store \<longrightarrow> tables_inv store1) \<and> (acl_inv store \<longrightarrow> acl_inv store1) \<and>
     store_admin_count store \<le> store_admin_count store1"

lemma add_flag_user_started:
  assumes "add_flag_user store input adm = (ok, store1)"
  shows "started store store1 \<and> (ok \<and> adm \<longrightarrow> 0 < store_admin_count store1)"
proof (cases "store1 = store \<and> \<not> ok")
  case False
  then obtain n p r where add: "store_user_add store (Some n) (Some p) adm = (r, store1)" and ok: "ok = (r = STORE_USER_OK)"
    using assms by (auto simp: add_flag_user_def Let_def split: if_splits prod.splits)
  obtain us c where f: "store1 = store\<lparr>ms_users := us, ms_user_count := c\<rparr>"
    using users_ops_frame(1) [of store n p adm] add by auto
  have "started store store1"
    using admin_count_add [of store n p adm] add
    by (auto simp: started_def f tables_inv_def intro: sessions_inv_cong log_inv_cong acl_inv_cong)
  then show ?thesis using admin_count_added add ok by auto
qed (simp add: started_def)

lemma add_flag_users_started:
  assumes "add_flag_users f c adm js store = Inr (ok, store1)"
  shows "started store store1 \<and> (ok \<and> adm \<and> js \<noteq> [] \<longrightarrow> 0 < store_admin_count store1)"
  using assms
proof (induction js arbitrary: store)
  case (Cons i js)
  obtain input ok1 store2 where a: "add_flag_user store input adm = (ok1, store2)"
    and r: "(if ok1 then add_flag_users f c adm js store2 else Inr (False, store2)) = Inr (ok, store1)"
    using Cons.prems by (auto simp: Let_def split: option.splits prod.splits)
  have s: "started store store2" "ok1 \<Longrightarrow> adm \<Longrightarrow> 0 < store_admin_count store2" using add_flag_user_started [OF a] by auto
  show ?case
  proof (cases ok1)
    case True
    then have "started store2 store1" using r Cons.IH by simp
    then show ?thesis using s True by (auto simp: started_def)
  qed (use r s in simp)
qed (simp add: started_def)

lemma main_users_started:
  assumes "main_users f store = Inr (True, store1)" "0 < get_flag_count f (CHR ''a'')" "tables_inv store" "acl_inv store"
  shows "store_safe store1"
proof -
  obtain store2 where u: "add_flag_users f (CHR ''u'') False [0..<get_flag_count f (CHR ''u'')] store = Inr (True, store2)"
    "add_flag_users f (CHR ''a'') True [0..<get_flag_count f (CHR ''a'')] store2 = Inr (True, store1)"
    using assms(1) by (auto simp: main_users_def run_simps split: if_splits)
  show ?thesis
    using add_flag_users_started [OF u(1)] add_flag_users_started [OF u(2)] assms(2-4) by (auto simp: store_safe_def started_def)
qed

lemma keeps_init:
  "tr.keeps {} (socks_server_init port)" "tr.keeps {} (monitor_server_init port)"
  "iv.keeps {} (socks_server_init port)" "iv.keeps {} (monitor_server_init port)"
  unfolding socks_server_init_def monitor_server_init_def create_monitor_socket_def create_listen_socket_def by (intro keeps_rules tr_sys iv_sys)+

lemma reach_traced: "server_reach b backlog f w \<Longrightarrow> w_env w = bo_env b \<and> guarded (e_net (bo_env b)) (w_trace w)"
proof (induction rule: server_reach.induct)
  case (start socks_port monitor_port s store store1 w1 w2)
  then have "traced (boot_world b s store1) w1" "traced w1 w2" using keeps_init by (auto simp: tr.keeps_def)
  then show ?case by (auto simp: traced_def boot_world_def)
next
  case (step w w')
  then show ?case using step_kept(1) [OF step.hyps(2)] by (auto simp: traced_def)
qed

lemma reach_inv:
  assumes "server_reach b backlog f w" "calloc_fresh (bo_env b)" shows "server_inv w"
  using assms
proof (induction rule: server_reach.induct)
  case (start socks_port monitor_port s store store1 w1 w2)
  have "store_create True True = Some store" using start(3) by (cases "bo_store b"; cases "bo_slots b") (simp_all add: store_create_def Let_def)
  then have "tables_inv store" "acl_inv store" using tables_create store_create_inv by (auto simp: store_inv_def)
  moreover have "0 < get_flag_count f (CHR ''a'')" using start(1) by (auto simp: server_flags_def split: if_splits option.splits)
  ultimately have "store_safe store1" using main_users_started start(4) by blast
  then have "server_inv (boot_world b s store1)" using start(7) by (simp add: server_inv_def boot_world_def)
  then show ?case using start(5,6) keeps_init by (auto simp: iv.keeps_def inv_kept_def)
next
  case (step w w')
  then show ?case using step_kept(2) by (auto simp: inv_kept_def)
qed

end
