(* ===== verification/Demo_Store.thy ===== *)
theory Demo_Store
  imports Monitor_Commands
begin

text \<open>
  A concrete store, the functions of the C library the commands use and a monitor session, on which the theorems about
  the store and the protocol are exercised.
\<close>

text \<open>A store as \<open>store_create\<close> leaves it.\<close>

definition demo_store :: monitor_store where
  "demo_store = the (store_create True True)"

lemma demo_create: "store_create True True = Some demo_store"
  by (simp add: demo_store_def store_create_def Let_def)

lemmas demo_inv = store_create_inv [OF demo_create]

lemma demo_parts: "users_inv demo_store" "registry_inv demo_store" "acl_inv demo_store" "sessions_inv demo_store"
    "log_inv demo_store"
  using demo_inv by (simp_all add: store_inv_def registry_inv_def)

lemma demo_users: "users_map demo_store = (\<lambda>_. None)"
  using store_create_users [OF demo_create] by simp

lemma demo_count: "ms_user_count demo_store = 0"
  by (simp add: demo_store_def store_create_def zero_store_def Let_def)

text \<open>The functions of the C library the commands use.\<close>

definition demo_net :: net_lib where
  "demo_net = \<lparr>inet_pton4 = (\<lambda>t. if t = ''10.0.0.1'' then Some [10, 0, 0, 1] else None),
     inet_pton6 = (\<lambda>t. if t = ''::1'' \<or> t = ''0::1'' then Some (replicate 15 0 @ [1]) else None),
     inet_ntop4 = (\<lambda>_. Some ''10.0.0.1''), inet_ntop6 = (\<lambda>_. Some ''::1'')\<rparr>"

definition demo_env :: cmd_env where
  "demo_env = \<lparr>e_net = demo_net, e_calloc = (\<lambda>store. Some (Suc (foldr max (map fst (ms_rules store)) 0))),
     e_realloc = True\<rparr>"

lemma demo_fresh: "calloc_fresh demo_env"
proof -
  have le: "k \<le> foldr max ks 0" if "k \<in> set ks" for k :: nat and ks using that by (induction ks) auto
  have "map_of al (Suc (foldr max (map fst al) 0)) = None" for al :: "(nat \<times> acl_rule) list"
    using le [of _ "map fst al"] by (fastforce simp: map_of_eq_None_iff)
  then show ?thesis by (simp add: calloc_fresh_def demo_env_def)
qed

lemma demo_acl: "host_members demo_store = []" "addr_members demo_store = []" "ms_rules demo_store = []"
  using store_create_acl [OF demo_create]
  by simp_all (simp add: demo_store_def store_create_def zero_store_def Let_def)

text \<open>A new monitor session, not yet authenticated.\<close>

definition demo_session :: monitor_commands_session where
  "demo_session = monitor_commands_session_init
     \<lparr>mc_state = MONITOR_ST_AWAIT_AUTH, mc_wb = buffer_init 0 (replicate MONITOR_BUFFER_SIZE 0), mc_line = [],
      mc_close_after_flush = False\<rparr>"

lemma demo_session_simps [simp]:
  "mc_state demo_session = MONITOR_ST_AWAIT_AUTH" "mc_line demo_session = []" "buffer_inv (mc_wb demo_session)"
  "buffer_room (mc_wb demo_session) = MONITOR_BUFFER_SIZE" "buffer_pending (mc_wb demo_session) = []"
  by (simp_all add: demo_session_def monitor_commands_session_init_def buffer_init_def buffer_inv_def
      buffer_room_def buffer_pending_def)

lemma demo_mon_inv: "mon_inv (demo_store, demo_session)"
  by (simp add: mon_inv_def demo_parts)

end
