(* ===== verification/Demo_Boot.thy ===== *)
theory Demo_Boot
  imports Server_Run Demo_Store
begin

text \<open>
  A server started on a concrete command line with one user and one administrator, on a system where every call succeeds.
\<close>

section \<open>The command line\<close>

definition demo_flags :: flag_table where
  "demo_flags = snd (setup_flags [(CHR ''u'', Some ''ana:pw''), (CHR ''a'', Some ''root:x'')] ''p:m:hu:a:'' no_flags)"

lemma demo_flags_fields:
  "fl_values demo_flags = (\<lambda>_. None)(CHR ''u'' \<mapsto> ''ana:pw'', CHR ''a'' \<mapsto> ''root:x'')"
  "fl_counts demo_flags = (\<lambda>_. 0)(CHR ''u'' := 1, CHR ''a'' := 1)"
  "fl_seq demo_flags = (\<lambda>_. [])(CHR ''u'' := [Some ''ana:pw''], CHR ''a'' := [Some ''root:x''])"
  by (simp_all add: demo_flags_def setup_flags_def no_flags_def record_flag_def Let_def MAX_FLAG_REPEATS_def)

lemma demo_flags_start:
  "server_flags demo_flags = Ports 1080 8080" "\<forall>c i. input_fits (get_flag_str_nth demo_flags c i)"
  by (auto simp: server_flags_def flag_port_def has_flag_def get_flag_str_def get_flag_count_def get_flag_str_nth_def
      demo_flags_fields input_fits_def name_fits_def STORE_MAX_USERNAME_def)

lemma add_demo_user:
  assumes "users_inv store" "users_map store n = None" "ms_user_count store < 256" "name_fits n" "CHR '':'' \<notin> set n" "n \<noteq> []" "p \<noteq> []"
  shows "\<exists>store1. add_flag_user store (n @ CHR '':'' # p) adm = (True, store1) \<and> users_inv store1 \<and>
    ms_user_count store1 = Suc (ms_user_count store) \<and> dom (users_map store1) = insert n (dom (users_map store))"
proof -
  obtain store1 where st: "store_user_add store (Some n) (Some p) adm = (STORE_USER_OK, store1)" "users_inv store1"
    "users_map store1 = (users_map store)(n \<mapsto> (strncpy_term STORE_MAX_PASSWORD p, role_of adm))"
    using add_new [OF assms(1,2) _ assms(4), of p adm] assms(3) by (auto simp: STORE_MAX_USERS_def)
  have "\<forall>c \<in> set n. c \<noteq> CHR '':''" using assms(5) by auto
  then have "takeWhile (\<lambda>c. c \<noteq> CHR '':'') (n @ CHR '':'' # p) = n" "dropWhile (\<lambda>c. c \<noteq> CHR '':'') (n @ CHR '':'' # p) = CHR '':'' # p"
    by (simp_all add: takeWhile_append2 dropWhile_append2)
  moreover have "ms_user_count store1 = Suc (ms_user_count store)"
    using st(1) by (auto simp: store_user_add_def split: if_splits option.splits)
  ultimately show ?thesis using st assms(6,7) by (simp add: add_flag_user_def)
qed

lemma demo_main_users: "\<exists>store1. main_users demo_flags demo_store = Inr (True, store1)"
proof -
  have fits: "name_fits ''ana''" "name_fits ''root''" by (simp_all add: name_fits_def STORE_MAX_USERNAME_def)
  obtain s1 where s1: "add_flag_user demo_store ''ana:pw'' False = (True, s1)" "users_inv s1" "ms_user_count s1 = 1"
    "dom (users_map s1) = {''ana''}"
    using add_demo_user [OF demo_parts(1), of "''ana''" "''pw''" False] fits by (auto simp: demo_users demo_count)
  have "''root'' \<notin> {''ana''}" by simp
  then have "''root'' \<notin> dom (users_map s1)" by (simp only: s1(4) not_False_eq_True)
  then have "users_map s1 ''root'' = None" by (simp only: domIff not_not)
  then obtain s2 where s2: "add_flag_user s1 ''root:x'' True = (True, s2)"
    using add_demo_user [OF s1(2), of "''root''" "''x''" True] fits s1(3) by auto
  have "main_users demo_flags demo_store = Inr (True, s2)"
    using s1(1) s2 by (simp add: main_users_def get_flag_count_def get_flag_str_nth_def demo_flags_fields MAX_FLAG_REPEATS_def)
  then show ?thesis by blast
qed

section \<open>The start\<close>

definition demo_boot :: boot where
  "demo_boot = \<lparr>bo_mem = True, bo_epfd = 3, bo_evfd = 4, bo_events = True, bo_ctl = True, bo_fds = Some (1, \<lambda>_. zero_item),
     bo_store = True, bo_slots = True, bo_env = demo_env,
     bo_os = (\<lambda>_. \<lparr>o_ret = 0, o_err = E_other, o_data = [], o_alloc = None\<rparr>)\<rparr>"

lemma demo_lowest: "lowest_fd [0, 1, 2, 3, 4] = 5" "lowest_fd [5, 0, 1, 2, 3, 4] = 6"
  by (simp_all add: lowest_fd_def upt_rec)

text \<open>A listening socket is opened and registered whenever the system answers every call with success.\<close>

lemma init_ok:
  assumes os: "w_os w = bo_os demo_boot" and low: "lowest_fd (w_open w) = fd" "0 \<le> fd"
    and reg: "selector_register None (w_sel w) fd (Some h) OP_READ (Some d) = Inr (SELECTOR_SUCCESS, s)"
  shows "h = H_socks_passive \<Longrightarrow> d = D_socks_server \<Longrightarrow> \<exists>w'. socks_server_init port w = Inr (SELECTOR_SUCCESS, w') \<and>
      w_sel w' = s \<and> w_os w' = w_os w \<and> w_open w' = fd # w_open w"
    and "h = H_monitor_passive \<Longrightarrow> d = D_monitor_server \<Longrightarrow> \<exists>w'. monitor_server_init port w = Inr (SELECTOR_SUCCESS, w')"
  using assms
  by (auto simp: socks_server_init_def monitor_server_init_def create_listen_socket_def create_monitor_socket_def selector_fd_set_nio_def sys_ok_def sys_open_def syscall_def
      record_effect_def register_fd_def act_bind_def act_then_def put_sel_def demo_boot_def Let_def)

lemma demo_reach: "\<exists>w. server_reach demo_boot backlog demo_flags w"
proof -
  obtain store1 where u: "main_users demo_flags demo_store = Inr (True, store1)" using demo_main_users by blast
  obtain s :: "(handler_id, key_data) fdselector" where s: "selector_new True 3 4 True True (Some (1, \<lambda>_. zero_item)) 1024 = Inr (Some s)"
    "sel_inv s" "registered s = (\<lambda>_. None)" "1024 < fd_size s" "event_fd s = 4"
    using selector_new_ok [of 3 4 1024 1 "\<lambda>_. zero_item"] by (auto simp: SELECTOR_ITEMS_MAX_SIZE_def)
  let ?w = "boot_world demo_boot s store1"
  obtain s1 where s1: "selector_register None s 5 (Some H_socks_passive) OP_READ (Some D_socks_server) = Inr (SELECTOR_SUCCESS, s1)"
    "sel_inv s1" "registered s1 = [5 \<mapsto> (H_socks_passive, OP_READ, Some D_socks_server)]" "event_fd s1 = 4" "1024 < fd_size s1"
    using register_below [OF s(2), of 5 None H_socks_passive OP_READ "Some D_socks_server"] s(3-5) by (auto simp: SELECTOR_ITEMS_MAX_SIZE_def)
  obtain s2 where s2: "selector_register None s1 6 (Some H_monitor_passive) OP_READ (Some D_monitor_server) = Inr (SELECTOR_SUCCESS, s2)"
    using register_below [OF s1(2), of 6 None H_monitor_passive OP_READ "Some D_monitor_server"] s1(3-5) by (auto simp: SELECTOR_ITEMS_MAX_SIZE_def)
  obtain w1 where w1: "socks_server_init 1080 ?w = Inr (SELECTOR_SUCCESS, w1)" "w_sel w1 = s1" "w_os w1 = bo_os demo_boot"
    "w_open w1 = [5, 0, 1, 2, 3, 4]"
    using init_ok(1) [of ?w 5 H_socks_passive D_socks_server s1 1080] s1(1) demo_lowest by (auto simp: boot_world_def demo_boot_def)
  obtain w2 where "monitor_server_init 8080 w1 = Inr (SELECTOR_SUCCESS, w2)"
    using init_ok(2) [of w1 6 H_monitor_passive D_monitor_server s2 8080] s2 w1(2-4) demo_lowest by auto
  moreover have "store_create (bo_store demo_boot) (bo_slots demo_boot) = Some demo_store" by (simp add: demo_boot_def demo_create)
  moreover have "selector_new (bo_mem demo_boot) (bo_epfd demo_boot) (bo_evfd demo_boot) (bo_events demo_boot) (bo_ctl demo_boot)
      (bo_fds demo_boot) 1024 = Inr (Some s)" using s(1) by (simp add: demo_boot_def)
  ultimately show ?thesis using server_reach.start [OF demo_flags_start(1) _ _ u w1(1)] by blast
qed

end
