(* ===== verification/Client_Properties.thy ===== *)
theory Client_Properties
  imports Client_Modes Demo_Boot
begin

text \<open>
  The theorems about the administration client, alone and against the server it talks to, and about the start of the server.
\<close>

section \<open>The client against the server\<close>


text \<open>An authenticated session with all its replies sent.\<close>

definition admin_session :: monitor_commands_session where
  "admin_session = demo_session\<lparr>mc_state := MONITOR_ST_AUTHENTICATED\<rparr>"

lemma admin_idle: "idle_session admin_session" "waiting MONITOR_ST_AWAIT_AUTH demo_session"
  by (simp_all add: waiting_def admin_session_def MONITOR_BUFFER_SIZE_def)

lemma demo_words: "word ''ana''" "word ''pw''" "word ''10.0.0.1''"
  by (simp_all add: word_def plain_def)








text \<open>
  \<^bold>\<open>C37\<close>. The client does not check the password it sends for blanks: adding an ordinary user with
  a password that ends in \<open> admin\<close> creates an administrator with the first part as the password.
\<close>

theorem password_grants_admin:
  assumes "idle_session s" and "word u" and "word p" and "length u + length p < 450"
    and "store_user_add store (Some u) (Some p) True = (st, store1)"
  shows "roundtrip env (cmd_add_user u (p @ '' admin'') False) (store, s) store1 (st = STORE_USER_OK)"
  using add_user_roundtrip [OF assms, of env] by (simp add: cmd_add_user_def)

theorem password_grants_admin_witness:
  "\<exists>store1. roundtrip demo_env (cmd_add_user ''ana'' ''pw admin'' False) (demo_store, admin_session) store1 True \<and>
     users_map store1 ''ana'' = Some (''pw'', STORE_ROLE_ADMIN)"
proof -
  have "name_fits ''ana''" by (simp add: name_fits_def STORE_MAX_USERNAME_def)
  then obtain store1 where st: "store_user_add demo_store (Some ''ana'') (Some ''pw'') True = (STORE_USER_OK, store1)"
    "users_map store1 = (users_map demo_store)(''ana'' \<mapsto> (strncpy_term STORE_MAX_PASSWORD ''pw'', role_of True))"
    using add_new [OF demo_parts(1), of "''ana''" "''pw''" True] by (auto simp: demo_users demo_count STORE_MAX_USERS_def)
  have "strncpy_term STORE_MAX_PASSWORD ''pw'' = ''pw''"
    by (rule strncpy_term_fits) (simp_all add: STORE_MAX_PASSWORD_def)
  with st password_grants_admin [OF admin_idle(1) demo_words(1,2) _ st(1), of demo_env] show ?thesis
    by (auto simp: role_of_def)
qed

section \<open>The start of the server\<close>



text \<open>
  With at most 256 occurrences of each flag the users are added or refused without a fault; the 257th
  \<^verbatim>\<open>-u\<close> makes \<^verbatim>\<open>get_flag_str_nth\<close> return the null pointer, which \<^verbatim>\<open>add_flag_user\<close> then reads through.
\<close>

theorem too_many_users_null:
  assumes "setup_flags opts ids no_flags = (0, f)" and "\<forall>c. None \<notin> set (occurrences ids opts c)"
  shows "((\<forall>c. length (occurrences ids opts c) \<le> MAX_FLAG_REPEATS) \<longrightarrow> (\<exists>ok store1. main_users f store = Inr (ok, store1))) \<and>
    (MAX_FLAG_REPEATS < length (occurrences ids opts (CHR ''u'')) \<and>
       (\<exists>store1. add_flag_users f (CHR ''u'') False [0..<MAX_FLAG_REPEATS] store = Inr (True, store1)) \<longrightarrow>
     main_users f store = Inl Null_pointer)"
proof -
  have r: "flags_reflect f (occurrences ids opts)" using assms(1) by (rule setup_flags_reflect)
  have "get_flag_count f (CHR ''u'') = length (occurrences ids opts (CHR ''u''))" by (rule count_flag [OF r]) simp_all
  then show ?thesis using main_users_total [OF r assms(2), of store] main_users_null [of f store] by auto
qed

definition many_opts :: "(char \<times> string option) list" where
  "many_opts = map (\<lambda>i. (CHR ''u'', Some (dec i @ '':p''))) [0..<257]"

definition many_flags :: flag_table where
  "many_flags = snd (setup_flags many_opts ''p:m:hu:a:'' no_flags)"

lemma many_setup: "setup_flags many_opts ''p:m:hu:a:'' no_flags = (0, many_flags)"
  by (simp add: many_flags_def setup_flags_def no_flags_def)

lemma many_occurrences:
  "occurrences ''p:m:hu:a:'' many_opts c = (if c = CHR ''u'' then map (\<lambda>i. Some (dec i @ '':p'')) [0..<257] else [])"
  by (simp add: occurrences_def many_opts_def filter_map o_def del: upt_rec_numeral)

lemma many_nth: "i < 257 \<Longrightarrow> i < MAX_FLAG_REPEATS \<Longrightarrow> get_flag_str_nth many_flags (CHR ''u'') (int i) = Some (dec i @ '':p'')"
  using nth_flag [OF setup_flags_reflect [OF many_setup], of "CHR ''u''" i]
  by (simp add: many_occurrences del: upt_rec_numeral)

lemma many_added:
  "k \<le> 256 \<Longrightarrow> \<exists>store1. add_flag_users many_flags (CHR ''u'') False [0..<k] demo_store = Inr (True, store1) \<and> users_inv store1 \<and>
     ms_user_count store1 = k \<and> dom (users_map store1) = dec ` {..<k}"
proof (induction k)
  case 0
  show ?case using demo_parts(1) demo_users demo_count by auto
next
  case (Suc k)
  then obtain s1 where s1: "add_flag_users many_flags (CHR ''u'') False [0..<k] demo_store = Inr (True, s1)" "users_inv s1"
    "ms_user_count s1 = k" "dom (users_map s1) = dec ` {..<k}" by auto
  have "dec k \<notin> dec ` {..<k}"
  proof
    assume "dec k \<in> dec ` {..<k}"
    then obtain i where "i < k" "dec i = dec k" by auto
    then show False using digits_val_dec [of i] digits_val_dec [of k] by simp
  qed
  then have none: "users_map s1 (dec k) = None" using s1(4) by (metis domIff)
  have d: "CHR '':'' \<notin> set (dec k)" "CHR 0x00 \<notin> set (dec k)" using dec_digits [of k] by (auto simp: is_digit_def)
  have "length (dec k) \<le> 3" using length_dec [of k 2] Suc.prems by simp
  then have fits: "name_fits (dec k)" using d(2) by (simp add: name_fits_def STORE_MAX_USERNAME_def)
  obtain s2 where s2: "add_flag_user s1 (dec k @ '':p'') False = (True, s2)" "users_inv s2" "ms_user_count s2 = Suc k"
    "dom (users_map s2) = insert (dec k) (dec ` {..<k})"
    using add_demo_user [OF s1(2) none _ fits d(1), of "''p''" False] s1(3,4) Suc.prems by auto
  have "get_flag_str_nth many_flags (CHR ''u'') (int k) = Some (dec k @ '':p'')"
    using Suc.prems by (intro many_nth) (simp_all add: MAX_FLAG_REPEATS_def)
  then have "add_flag_users many_flags (CHR ''u'') False [0..<Suc k] demo_store = Inr (True, s2)"
    using s1(1) s2(1) by (simp add: add_flag_users_append)
  moreover have "insert (dec k) (dec ` {..<k}) = dec ` {..<Suc k}" by (simp add: lessThan_Suc)
  ultimately show ?case using s2 by auto
qed

theorem too_many_users_null_witness: "main_users many_flags demo_store = Inl Null_pointer"
proof -
  have "\<forall>c. None \<notin> set (occurrences ''p:m:hu:a:'' many_opts c)" by (auto simp: many_occurrences)
  moreover have "MAX_FLAG_REPEATS < length (occurrences ''p:m:hu:a:'' many_opts (CHR ''u''))"
    by (simp add: many_occurrences MAX_FLAG_REPEATS_def del: upt_rec_numeral)
  moreover have "\<exists>store1. add_flag_users many_flags (CHR ''u'') False [0..<MAX_FLAG_REPEATS] demo_store = Inr (True, store1)"
    using many_added [of 256] by (auto simp: MAX_FLAG_REPEATS_def)
  ultimately show ?thesis using too_many_users_null [OF many_setup, of demo_store] by blast
qed

section \<open>The terminal\<close>

text \<open>
  \<^bold>\<open>C35\<close>. Whatever is typed and whatever the server answers, when the administration client
  returns the terminal has the attributes it had at the start, on every path through the login, the menus and the screens; and no
  character of a password that is read from a terminal is echoed.
\<close>

theorem client_restores_terminal:
  assumes "client_main opts addrs flags t = Inr (rc, t')" and "\<not> tm_raw t"
  shows "tm_attr t' = tm_attr t \<and> \<not> tm_raw t' \<and>
    (\<forall>prompt mx t1 pass t2. 1 < mx \<longrightarrow> tm_tty t1 \<longrightarrow> input_password prompt mx t1 = Inr (pass, t2) \<longrightarrow> tm_shown t2 = tm_shown t1)"
proof -
  have "tidy t t'" using tidies_client assms(1) by (auto simp: td.keeps_def)
  then show ?thesis using assms(2) password_hidden by (auto simp: tidy_def)
qed

definition start_terminal :: "string \<Rightarrow> terminal" where
  "start_terminal typed = \<lparr>tm_in = typed, tm_buf = [], tm_chunks = [], tm_flush = [], tm_out = [], tm_shown = [], tm_tty = True,
     tm_attr = \<lparr>c_lflag = 0x8A3B, c_vmin = 1, c_vtime = 0\<rparr>, tm_saved = Some \<lparr>c_lflag = 0, c_vmin = 0, c_vtime = 0\<rparr>, tm_raw = False,
     tm_sigint = False, tm_conn = \<lparr>cn_in = [], cn_wr = [], cn_out = []\<rparr>, tm_params = default_values\<rparr>"

lemma start_terminal_fields [simp]:
  "tm_in (start_terminal typed) = typed" "tm_tty (start_terminal typed)" "tm_raw (start_terminal typed) = False"
  "tm_conn (start_terminal typed) = \<lparr>cn_in = [], cn_wr = [], cn_out = []\<rparr>" "tm_left (start_terminal typed) = length typed"
  by (simp_all add: start_terminal_def tm_left_def)

lemma client_quits:
  "\<exists>t'. client_main [] (Some [(3, True)]) no_flags (start_terminal []) = Inr (EXIT_SUCCESS, t')"
proof -
  have f: "fgets n t = (None, t)" if "tm_buf t = []" "tm_in t = []" "tm_chunks t = []" for n t
    using that by (cases "n - 1") (simp_all add: fgets_def refill_def echoed_def)
  let ?f = "no_flags\<lparr>fl_initialized := True\<rparr>"
  have flags: "setup_flags [] ''p:h'' no_flags = (0, ?f)" "\<not> has_flag ?f (CHR ''h'')" "flag_port ?f (CHR ''p'') 8080 = Some 8080"
    by (simp_all add: setup_flags_def no_flags_def has_flag_def get_flag_str_def flag_port_def)
  have "connect_server (Some [(3, True)]) = 3" by (simp add: connect_server_def)
  then show ?thesis
    using f by (simp add: client_main_def flags tm_defs on_conn_def screen_login_def input_line_def read_stdin_line_def start_terminal_def)
qed

theorem client_restores_terminal_witness:
  "\<exists>t'. client_main [] (Some [(3, True)]) no_flags (start_terminal []) = Inr (EXIT_SUCCESS, t') \<and> tm_attr t' = tm_attr (start_terminal [])"
proof -
  obtain t' where t': "client_main [] (Some [(3, True)]) no_flags (start_terminal []) = Inr (EXIT_SUCCESS, t')" using client_quits by blast
  from client_restores_terminal [OF t'] t' show ?thesis by simp
qed

text \<open>
  When the menu returns, it returns the index of one of its items, so that the table of handlers is never
  read outside its bounds, in normal terminal mode and with the connection untouched; at the end of the input it never returns.
\<close>

theorem menu_selection:
  assumes "items \<noteq> []"
  shows "(\<forall>r t1. select_menu items q t = Inr (r, t1) \<longrightarrow>
      0 \<le> r \<and> r < int (length items) \<and> \<not> tm_raw t1 \<and> tm_conn t1 = tm_conn t \<and> tm_params t1 = tm_params t) \<and>
    (tm_in t = [] \<longrightarrow> select_menu items q t = Inl No_return)"
proof -
  have "select_menu items q t = Inl No_return" if "tm_in t = []"
  proof -
    let ?t = "t\<lparr>tm_out := tm_out t @ CHR 0x0A # menu_items [] items 0 @ CHR 0x0A # menu_help q\<rparr>"
    obtain t1 where t1: "term_enter_raw ?t = Inr ((), t1)" "length (tm_in t1) \<le> length (tm_in ?t)"
      using enter_raw_run [of ?t] by auto
    then have "tm_in t1 = []" using that by simp
    then show ?thesis using t1(1) menu_loop_eof by (simp add: select_menu_def tm_defs del: menu_loop.simps)
  qed
  moreover have "0 \<le> r \<and> r < int (length items) \<and> \<not> tm_raw t1 \<and> tm_conn t1 = tm_conn t \<and> tm_params t1 = tm_params t"
    if "select_menu items q t = Inr (r, t1)" for r t1
    using select_menu_run [OF assms that] raw_restored by fastforce
  ultimately show ?thesis by blast
qed

theorem menu_selection_witness:
  "\<exists>t1. select_menu [''a'', ''b''] ''Quit'' (start_terminal [ESC, CHR ''['', CHR ''B'', CHR 0x0A]) = Inr (1, t1) \<and> \<not> tm_raw t1"
proof -
  let ?t = "start_terminal [ESC, CHR ''['', CHR ''B'', CHR 0x0A]"
  have "\<exists>t1. select_menu [''a'', ''b''] ''Quit'' ?t = Inr (1, t1)"
    by (simp add: select_menu_def tm_defs term_enter_raw_def tcgetattr_def tcsetattr_def term_getkey_def term_exit_raw_def ESC_def
        KEY_UP_def KEY_DOWN_def KEY_ENTER_def Let_def echoed_def start_terminal_def)
  with menu_selection [of "[''a'', ''b'']" "''Quit''" ?t] show ?thesis by auto
qed

end
