(* ===== verification/Blocking_Io.thy ===== *)
theory Blocking_Io
  imports C_Prelude
begin

text \<open>
  Blocking sockets, as the helpers of \<^verbatim>\<open>src/shared/netutils.c\<close> and the load tools under \<^verbatim>\<open>src/stress\<close> use them.
  A socket carries the answers of the reads and writes to come: a read gives some bytes (none at the end of the stream) or
  an error, a write takes some bytes or fails. Data a read has no room for stays for the next one. When the answers are used
  up, a read reports the end of the stream and a write takes everything. \<open>so_out\<close> collects the bytes written.
\<close>

section \<open>Sockets\<close>

datatype rd_answer = R_data "byte list" | R_errno int

datatype wr_answer = Took nat | W_errno int

definition EINTR :: int where "EINTR = 4"

record sock =
  so_rd :: "rd_answer list"
  so_wr :: "wr_answer list"
  so_out :: "byte list"
  so_closed :: bool

definition close_sock :: "sock \<Rightarrow> sock" where
  "close_sock s = s\<lparr>so_closed := True\<rparr>"

text \<open>What is left of an answer of a read when only \<open>n\<close> bytes of it fit.\<close>

definition leftover :: "nat \<Rightarrow> byte list \<Rightarrow> rd_answer list \<Rightarrow> rd_answer list" where
  "leftover n bs rest = (if length bs \<le> n then rest else R_data (drop n bs) # rest)"

section \<open>Streams\<close>

text \<open>The answers deliver exactly the bytes \<open>bs\<close>, in pieces of any size and with interruptions in between.\<close>

fun answer_bytes :: "rd_answer \<Rightarrow> byte list" where
  "answer_bytes (R_data bs) = bs"
| "answer_bytes (R_errno e) = []"

fun undisturbed :: "rd_answer \<Rightarrow> bool" where
  "undisturbed (R_data bs) = (bs \<noteq> [])"
| "undisturbed (R_errno e) = (e = EINTR)"

definition streams :: "rd_answer list \<Rightarrow> byte list \<Rightarrow> bool" where
  "streams rs bs \<longleftrightarrow> list_all undisturbed rs \<and> concat (map answer_bytes rs) = bs"

lemma streams_simps [simp]:
  "streams [] bs = (bs = [])"
  "streams (R_data xs # rs) bs = (xs \<noteq> [] \<and> (\<exists>ys. bs = xs @ ys \<and> streams rs ys))"
  "streams (R_errno e # rs) bs = (e = EINTR \<and> streams rs bs)"
  by (auto simp: streams_def)

text \<open>No write fails for good, and each takes something.\<close>

fun takes :: "wr_answer \<Rightarrow> bool" where
  "takes (Took n) = (0 < n)"
| "takes (W_errno e) = (e = EINTR)"

abbreviation accepts :: "wr_answer list \<Rightarrow> bool" where
  "accepts ws \<equiv> list_all takes ws"

lemma prefix_split:
  assumes "xs @ ys = us @ vs" "length xs \<le> length us"
  shows "us = xs @ drop (length xs) us" "ys = drop (length xs) us @ vs"
proof -
  show eq: "us = xs @ drop (length xs) us"
    using assms by (metis append_eq_append_conv_if append_take_drop_id)
  have "xs @ ys = xs @ drop (length xs) us @ vs" using assms(1) by (subst (asm) eq) simp
  then show "ys = drop (length xs) us @ vs" by simp
qed

end
