(* ===== verification/Netutils.thy ===== *)
theory Netutils
  imports Blocking_Io Byte_Buffer Handshake Store_Acl Request
begin

text \<open>
  \<^verbatim>\<open>src/shared/netutils.c\<close>: the text of a socket address, written into an array of the caller, and two loops of blocking
  I/O. An array is the list of its characters, terminators included, and may be longer than the size the caller passes;
  every access is checked against the array.
\<close>

section \<open>String functions on arrays\<close>

abbreviation NUL :: char where "NUL \<equiv> CHR 0x00"

definition store_at :: "nat \<Rightarrow> string \<Rightarrow> string \<Rightarrow> string run" where
  "store_at i s buff = (if i + length s \<le> length buff then Inr (write_at i s buff) else Inl Out_of_bounds)"

definition strncpy :: "nat \<Rightarrow> string \<Rightarrow> string \<Rightarrow> string run" where
  "strncpy n s buff = store_at 0 (take n (s @ replicate n NUL)) buff"

definition strlen :: "string \<Rightarrow> nat run" where
  "strlen buff = (if NUL \<in> set buff then Inr (length (cstr buff)) else Inl Out_of_bounds)"

definition strncat :: "nat \<Rightarrow> string \<Rightarrow> string \<Rightarrow> string run" where
  "strncat n s buff = run_bind (strlen buff) (\<lambda>l. store_at l (take n s @ [NUL]) buff)"

text \<open>\<open>snprintf\<close> to \<open>buff + i\<close> with room for \<open>n\<close> characters.\<close>

definition snprintf_at :: "nat \<Rightarrow> nat \<Rightarrow> string \<Rightarrow> string \<Rightarrow> string run" where
  "snprintf_at i n s buff = (if n = 0 then Inr buff else store_at i (take (n - 1) s @ [NUL]) buff)"

text \<open>\<open>buff[n - 1] = 0\<close>.\<close>

definition terminate :: "nat \<Rightarrow> string \<Rightarrow> string run" where
  "terminate n buff = (if n = 0 then Inl Out_of_bounds else store_at (n - 1) [NUL] buff)"

text \<open>\<open>inet_ntop\<close> refuses an array that is too small for the text.\<close>

definition inet_ntop :: "string option \<Rightarrow> nat \<Rightarrow> string \<Rightarrow> (bool \<times> string) run" where
  "inet_ntop shown n buff = (case shown of
      None \<Rightarrow> Inr (False, buff)
    | Some text \<Rightarrow> if n \<le> length text then Inr (False, buff)
                   else run_bind (store_at 0 (text @ [NUL]) buff) (\<lambda>b. Inr (True, b)))"

section \<open>Addresses as text\<close>

definition addr_text :: "net_lib \<Rightarrow> sockaddr_storage \<Rightarrow> string option" where
  "addr_text net a = (if ss_family a = AF_INET then inet_ntop4 net (ss_addr4 a) else inet_ntop6 net (ss_addr6 a))"

definition sockaddr_to_human :: "net_lib \<Rightarrow> nat \<Rightarrow> sockaddr_storage option \<Rightarrow> string \<Rightarrow> string run" where
  "sockaddr_to_human net buffsize addr buff = (case addr of
      None \<Rightarrow> strncpy buffsize ''null'' buff
    | Some a \<Rightarrow>
        let handled = (ss_family a = AF_INET \<or> ss_family a = AF_INET6)
        in run_bind (if handled
                     then run_bind (inet_ntop (addr_text net a) buffsize buff) (\<lambda>(ok, b).
                            if ok then Inr b
                            else run_bind (strncpy buffsize ''unknown ip'' b) (terminate buffsize))
                     else strncpy buffsize ''unknown'' buff) (\<lambda>b1.
           run_bind (strncat buffsize '':'' b1) (\<lambda>b2.
           run_bind (terminate buffsize b2) (\<lambda>b3.
           run_bind (strlen b3) (\<lambda>len.
           run_bind (if handled then snprintf_at len (buffsize - len) (dec (unat (ss_port a))) b3 else Inr b3)
             (terminate buffsize))))))"

section \<open>Blocking I/O\<close>

text \<open>
  The loop of \<open>sock_blocking_write\<close>; \<open>err\<close> is the value \<open>errno\<close> had before, which a \<open>send\<close> that takes nothing leaves as
  it is. The result is the return value, the remaining answers, the buffer and the bytes sent.
\<close>

fun blocking_write_loop ::
  "int \<Rightarrow> wr_answer list \<Rightarrow> buffer \<Rightarrow> byte list \<Rightarrow> (int \<times> wr_answer list \<times> buffer \<times> byte list) run" where
  "blocking_write_loop err [] b out = run_bind (buffer_read_ptr b) (\<lambda>(ptr, n).
     if n = 0 then Inr (err, [], b, out)
     else run_bind (buffer_read_adv b (int n)) (\<lambda>b1.
       if buffer_can_read b1 then Inl No_return else Inr (0, [], b1, out @ buffer_pending b)))"
| "blocking_write_loop err (W_errno e # ws) b out = run_bind (buffer_read_ptr b) (\<lambda>_. Inr (e, ws, b, out))"
| "blocking_write_loop err (Took k # ws) b out = run_bind (buffer_read_ptr b) (\<lambda>(ptr, n).
     let nwritten = min k n in
     if nwritten = 0 then Inr (err, ws, b, out)
     else run_bind (buffer_read_adv b (int nwritten)) (\<lambda>b1.
       let out1 = out @ take nwritten (buffer_pending b) in
       if buffer_can_read b1 then blocking_write_loop err ws b1 out1 else Inr (0, ws, b1, out1)))"

definition sock_blocking_write :: "int \<Rightarrow> buffer \<Rightarrow> sock \<Rightarrow> (int \<times> buffer \<times> sock) run" where
  "sock_blocking_write err b s = run_bind (blocking_write_loop err (so_wr s) b (so_out s)) (\<lambda>(ret, ws, b1, out).
     Inr (ret, b1, s\<lparr>so_wr := ws, so_out := out\<rparr>))"

text \<open>The inner loop of \<open>sock_blocking_copy\<close>: the error, if any, that ended it.\<close>

fun send_all :: "int \<Rightarrow> wr_answer list \<Rightarrow> byte list \<Rightarrow> byte list \<Rightarrow> int option \<times> wr_answer list \<times> byte list" where
  "send_all err ws [] out = (None, ws, out)"
| "send_all err [] (d # ds) out = (None, [], out @ d # ds)"
| "send_all err (W_errno e # ws) (d # ds) out = (Some e, ws, out)"
| "send_all err (Took k # ws) (d # ds) out =
     (if k = 0 then (Some err, ws, out) else send_all err ws (drop k (d # ds)) (out @ take k (d # ds)))"

definition COPY_BUFFER :: nat where "COPY_BUFFER = 4096"

definition answer_size :: "rd_answer \<Rightarrow> nat" where
  "answer_size r = Suc (length (answer_bytes r))"

function copy_loop :: "int \<Rightarrow> rd_answer list \<Rightarrow> wr_answer list \<Rightarrow> byte list \<Rightarrow>
    int \<times> rd_answer list \<times> wr_answer list \<times> byte list" where
  "copy_loop err [] ws out = (0, [], ws, out)"
| "copy_loop err (R_errno e # rs) ws out = (0, rs, ws, out)"
| "copy_loop err (R_data bs # rs) ws out =
     (if bs = [] then (0, rs, ws, out)
      else case send_all err ws (take COPY_BUFFER bs) out of
             (Some e, ws1, out1) \<Rightarrow> (e, leftover COPY_BUFFER bs rs, ws1, out1)
           | (None, ws1, out1) \<Rightarrow> copy_loop err (leftover COPY_BUFFER bs rs) ws1 out1)"
  by pat_completeness auto
termination
  by (relation "measure (\<lambda>(_, rs, _). sum_list (map answer_size rs))")
    (auto simp: leftover_def answer_size_def COPY_BUFFER_def)

definition sock_blocking_copy :: "int \<Rightarrow> sock \<Rightarrow> sock \<Rightarrow> int \<times> sock \<times> sock" where
  "sock_blocking_copy err source dest = (let (ret, rs, ws, out) = copy_loop err (so_rd source) (so_wr dest) (so_out dest)
     in (ret, source\<lparr>so_rd := rs\<rparr>, dest\<lparr>so_wr := ws, so_out := out\<rparr>))"

section \<open>The text of an address\<close>

text \<open>The array holds the C string \<open>s\<close>.\<close>

definition holds :: "string \<Rightarrow> string \<Rightarrow> bool" where
  "holds buff s \<longleftrightarrow> NUL \<notin> set s \<and> (\<exists>rest. buff = s @ NUL # rest)"

lemma holds_length: "holds buff s \<Longrightarrow> length s < length buff"
  by (auto simp: holds_def)

lemma holds_cstr: "holds buff s \<Longrightarrow> cstr buff = s"
proof -
  have "takeWhile (\<lambda>c. c \<noteq> NUL) (s @ NUL # rest) = s" if "NUL \<notin> set s" for rest
    using that by (induction s) auto
  then show "holds buff s \<Longrightarrow> cstr buff = s" by (auto simp: holds_def cstr_def)
qed

lemma holds_strlen: "holds buff s \<Longrightarrow> strlen buff = Inr (length s)"
proof -
  assume h: "holds buff s"
  then have "NUL \<in> set buff" by (auto simp: holds_def)
  then show ?thesis using holds_cstr [OF h] by (simp add: strlen_def)
qed

lemma holds_append:
  assumes "holds buff s" "NUL \<notin> set t" "length s + length t < length buff"
  shows "\<exists>b. store_at (length s) (t @ [NUL]) buff = Inr b \<and> holds b (s @ t) \<and> length b = length buff"
proof -
  obtain rest where b: "buff = s @ NUL # rest" "NUL \<notin> set s" using assms(1) by (auto simp: holds_def)
  have "write_at (length s) (t @ [NUL]) buff = (s @ t) @ NUL # drop (length t) rest"
    using b by (simp add: write_at_def)
  moreover have "length ((s @ t) @ NUL # drop (length t) rest) = length buff" using assms(3) b by simp
  ultimately show ?thesis using assms b by (auto simp: store_at_def holds_def)
qed

lemma holds_terminate:
  assumes "holds buff s" "0 < n" "n \<le> length buff"
  shows "\<exists>b. terminate n buff = Inr b \<and> holds b (take (n - 1) s) \<and> length b = length buff"
proof -
  obtain rest where b: "buff = s @ NUL # rest" "NUL \<notin> set s" using assms(1) by (auto simp: holds_def)
  define b' where "b' = write_at (n - 1) [NUL] buff"
  have t: "terminate n buff = Inr b'" using assms(2,3) by (simp add: terminate_def store_at_def b'_def)
  have "NUL \<notin> set (take (n - 1) s)" using b(2) by (meson in_set_takeD)
  moreover have "\<exists>rest. b' = take (n - 1) s @ NUL # rest"
  proof (cases "n - 1 \<le> length s")
    case True
    then show ?thesis using b by (auto simp: b'_def write_at_def)
  next
    case False
    then have "take (n - 1) buff = s @ NUL # take (n - 2 - length s) rest"
      using b by (simp add: take_Cons' numeral_2_eq_2)
    then show ?thesis using False by (auto simp: b'_def write_at_def)
  qed
  moreover have "length b' = length buff" using assms(2,3) by (auto simp: b'_def)
  ultimately show ?thesis using t by (auto simp: holds_def)
qed

lemma store_text:
  assumes "NUL \<notin> set s" "length s < length buff"
  shows "\<exists>b. store_at 0 (s @ [NUL]) buff = Inr b \<and> holds b s \<and> length b = length buff"
  using assms by (auto simp: store_at_def write_at_def holds_def)

text \<open>The steps behind the text of the address, on an array with one character more than the text and the colon need.\<close>

lemma human_tail:
  assumes "holds b1 s" "length s < n" "n \<le> length b1" "length s + 2 \<le> length b1" "NUL \<notin> set digits"
  shows "\<exists>b. run_bind (strncat n '':'' b1) (\<lambda>b2. run_bind (terminate n b2) (\<lambda>b3. run_bind (strlen b3) (\<lambda>len.
      run_bind (snprintf_at len (n - len) digits b3) (terminate n)))) = Inr b \<and>
    holds b (take (n - 1) (s @ '':'' @ digits)) \<and> length b = length b1"
proof -
  have n: "take n '':'' = '':''" using assms(2) by (cases n) auto
  obtain b2 where b2: "store_at (length s) ('':'' @ [NUL]) b1 = Inr b2" "holds b2 (s @ '':'')" "length b2 = length b1"
    using holds_append [OF assms(1), of "'':''"] assms(4) by auto
  define u where "u = take (n - 1) (s @ '':'')"
  define d where "d = take (n - length u - 1) digits"
  obtain b3 where b3: "terminate n b2 = Inr b3" "holds b3 u" "length b3 = length b1"
    using holds_terminate [OF b2(2), of n] assms(2,3) b2(3) unfolding u_def by auto
  have room: "length u < n" "length u + length d < n" using assms(2) by (auto simp: u_def d_def)
  have d: "NUL \<notin> set d" using assms(5) unfolding d_def by (meson in_set_takeD)
  have "length u + length d < length b3" using room(2) assms(3) b3(3) by simp
  then obtain b4 where b4: "store_at (length u) (d @ [NUL]) b3 = Inr b4" "holds b4 (u @ d)" "length b4 = length b1"
    using holds_append [OF b3(2) d] b3(3) by auto
  obtain b where b: "terminate n b4 = Inr b" "holds b (take (n - 1) (u @ d))" "length b = length b1"
    using holds_terminate [OF b4(2), of n] assms(2,3) b4(3) by auto
  have "take m (take m xs @ take (Suc m - length (take m xs) - 1) ys) = take m (xs @ ys)" for m and xs ys :: string
    by (cases "m \<le> length xs") simp_all
  from this [of "n - 1" "s @ '':''" digits] assms(2)
  have "take (n - 1) (u @ d) = take (n - 1) (s @ '':'' @ digits)"
    unfolding u_def d_def by (simp del: take_append)
  moreover have "strncat n '':'' b1 = Inr b2" using b2(1) holds_strlen [OF assms(1)] n by (simp add: strncat_def)
  moreover have "snprintf_at (length u) (n - length u) digits b3 = Inr b4"
    using b4(1) room(1) by (simp add: snprintf_at_def d_def)
  ultimately show ?thesis using b3 b holds_strlen [OF b3(2)] by simp
qed

lemma dec_no_nul: "NUL \<notin> set (dec n)"
  using dec_digits [of n] by (auto simp: is_digit_def)

lemma sockaddr_to_human_text:
  assumes "ss_family a = AF_INET \<or> ss_family a = AF_INET6" "addr_text net a = Some s" "NUL \<notin> set s"
    and "length s < n" "n \<le> length buff" "length s + 2 \<le> length buff"
  shows "\<exists>b. sockaddr_to_human net n (Some a) buff = Inr b \<and> cstr b = take (n - 1) (s @ '':'' @ dec (unat (ss_port a)))"
proof -
  obtain b1 where b1: "store_at 0 (s @ [NUL]) buff = Inr b1" "holds b1 s" "length b1 = length buff"
    using store_text [OF assms(3), of buff] assms(6) by auto
  have "inet_ntop (addr_text net a) n buff = Inr (True, b1)"
    using assms(2,4) b1(1) by (simp add: inet_ntop_def)
  with human_tail [OF b1(2) assms(4) _ _ dec_no_nul [of "unat (ss_port a)"]] assms b1(3) show ?thesis
    by (auto simp: sockaddr_to_human_def Let_def dest!: holds_cstr)
qed

text \<open>An array that the text fills to the end has no room for the colon.\<close>

lemma sockaddr_to_human_overrun:
  assumes "ss_family a = AF_INET \<or> ss_family a = AF_INET6" "addr_text net a = Some s" "NUL \<notin> set s"
    and "length buff = n" "n = length s + 1"
  shows "sockaddr_to_human net n (Some a) buff = Inl Out_of_bounds"
proof -
  obtain b1 where b1: "store_at 0 (s @ [NUL]) buff = Inr b1" "holds b1 s" "length b1 = length buff"
    using store_text [OF assms(3), of buff] assms(4,5) by auto
  have "inet_ntop (addr_text net a) n buff = Inr (True, b1)"
    using assms(2,5) b1(1) by (simp add: inet_ntop_def)
  moreover have "strncat n '':'' b1 = Inl Out_of_bounds"
    using holds_strlen [OF b1(2)] b1(3) assms(4,5) by (simp add: strncat_def store_at_def)
  ultimately show ?thesis using assms(1) by (auto simp: sockaddr_to_human_def Let_def)
qed

section \<open>What the loops send\<close>

lemma read_adv_part:
  assumes "buffer_inv b" "k \<le> length (buffer_pending b)"
  shows "\<exists>b1. buffer_read_adv b (int k) = Inr b1 \<and> buffer_inv b1 \<and> buffer_pending b1 = drop k (buffer_pending b)"
  using buffer_read_adv_ok [OF assms] by blast

text \<open>
  Whatever the answers, the bytes sent and those still in the buffer are the bytes there were; success means that nothing is
  left, and a nonempty buffer whose writes all take something is sent completely.
\<close>

lemma blocking_write_loop_spec:
  assumes "buffer_inv b"
  shows "\<exists>ret ws' b1 out1. blocking_write_loop err ws b out = Inr (ret, ws', b1, out1) \<and> buffer_inv b1 \<and>
    out1 @ buffer_pending b1 = out @ buffer_pending b \<and>
    (buffer_pending b \<noteq> [] \<and> (\<forall>w \<in> set ws. \<exists>k. w = Took (Suc k)) \<longrightarrow> ret = 0 \<and> buffer_pending b1 = []) \<and>
    (buffer_pending b = [] \<and> ws = [] \<longrightarrow> ret = err)"
  using assms
proof (induction ws arbitrary: b out)
  case Nil
  show ?case
  proof (cases "buffer_pending b = []")
    case False
    obtain b1 where b1: "buffer_read_adv b (int (length (buffer_pending b))) = Inr b1" "buffer_inv b1" "buffer_pending b1 = []"
      using read_adv_part [OF Nil, of "length (buffer_pending b)"] by auto
    then show ?thesis using False buffer_read_ptr_ok [OF Nil] buffer_can_read_iff [OF b1(2)] by auto
  qed (use Nil buffer_read_ptr_ok [OF Nil] in auto)
next
  case (Cons w ws)
  show ?case
  proof (cases w)
    case (W_errno e)
    then show ?thesis using Cons.prems buffer_read_ptr_ok [OF Cons.prems] by auto
  next
    case (Took k)
    let ?p = "buffer_pending b" and ?n = "min k (length (buffer_pending b))"
    show ?thesis
    proof (cases "?n = 0")
      case True
      then have "k = 0 \<or> ?p = []" by (simp only: min_def split: if_splits) auto
      then show ?thesis using True Took Cons.prems buffer_read_ptr_ok [OF Cons.prems] by (elim disjE) auto
    next
      case False
      obtain b1 where b1: "buffer_read_adv b (int ?n) = Inr b1" "buffer_inv b1" "buffer_pending b1 = drop ?n ?p"
        using read_adv_part [OF Cons.prems, of ?n] by auto
      have step: "blocking_write_loop err (w # ws) b out =
          (if buffer_can_read b1 then blocking_write_loop err ws b1 (out @ take ?n ?p) else Inr (0, ws, b1, out @ take ?n ?p))"
        by (simp only: Took blocking_write_loop.simps buffer_read_ptr_ok [OF Cons.prems] run_bind.simps prod.case Let_def
            if_not_P [OF False] b1(1))
      have keep: "(out @ take ?n ?p) @ buffer_pending b1 = out @ ?p" unfolding b1(3) append_assoc append_take_drop_id ..
      have ne: "?p \<noteq> []" using False by auto
      show ?thesis
      proof (cases "buffer_can_read b1")
        case True
        from Cons.IH [OF b1(2), of "out @ take ?n ?p"] obtain ret ws' b2 out2 where
          r: "blocking_write_loop err ws b1 (out @ take ?n ?p) = Inr (ret, ws', b2, out2)" "buffer_inv b2"
            "out2 @ buffer_pending b2 = (out @ take ?n ?p) @ buffer_pending b1"
            "buffer_pending b1 \<noteq> [] \<and> (\<forall>w \<in> set ws. \<exists>k. w = Took (Suc k)) \<longrightarrow> ret = 0 \<and> buffer_pending b2 = []"
          by blast
        have "buffer_pending b1 \<noteq> []" using True buffer_can_read_iff [OF b1(2)] by simp
        then show ?thesis using r keep ne unfolding step by (simp add: True)
      next
        case no_more: False
        then have "buffer_pending b1 = []" using buffer_can_read_iff [OF b1(2)] by simp
        then show ?thesis using b1(2) keep ne no_more unfolding step by simp
      qed
    qed
  qed
qed

text \<open>The same for copying: a stream that is delivered without error and taken by its destination arrives complete.\<close>

lemma send_all_prefix:
  "send_all err ws data out = (r, ws', out1) \<Longrightarrow> \<exists>done rest. data = done @ rest \<and> out1 = out @ done \<and> (r = None \<longrightarrow> rest = [])"
proof (induction err ws data out rule: send_all.induct)
  case (4 err k ws d ds out)
  show ?case
  proof (cases "k = 0")
    case False
    with "4.prems" have "send_all err ws (drop k (d # ds)) (out @ take k (d # ds)) = (r, ws', out1)" by simp
    with "4.IH" [OF False] obtain dn rest where
      "drop k (d # ds) = dn @ rest" "out1 = (out @ take k (d # ds)) @ dn" "r = None \<longrightarrow> rest = []" by blast
    then show ?thesis by (metis append_assoc append_take_drop_id)
  qed (use "4.prems" in auto)
qed auto

lemma send_all_ok:
  "\<forall>w \<in> set ws. \<exists>k. w = Took (Suc k) \<Longrightarrow>
    \<exists>ws'. send_all err ws data out = (None, ws', out @ data) \<and> set ws' \<subseteq> set ws"
proof (induction err ws data out rule: send_all.induct)
  case (4 err k ws d ds out)
  then have "k \<noteq> 0" "\<forall>w \<in> set ws. \<exists>k. w = Took (Suc k)" by auto
  with "4.IH" obtain ws' where "send_all err ws (drop k (d # ds)) (out @ take k (d # ds)) =
      (None, ws', (out @ take k (d # ds)) @ drop k (d # ds))" "set ws' \<subseteq> set ws" by blast
  then show ?case using \<open>k \<noteq> 0\<close> by (auto simp del: drop_Cons' take_Cons')
qed auto

lemma copy_loop_prefix:
  "copy_loop err rs ws out = (ret, rs', ws', out1) \<Longrightarrow>
    \<exists>copied. out1 = out @ copied \<and> (\<exists>rest. concat (map answer_bytes rs) = copied @ rest)"
proof (induction err rs ws out rule: copy_loop.induct)
  case (3 err bs rs ws out)
  have whole: "concat (map answer_bytes (R_data bs # rs)) = take COPY_BUFFER bs @ concat (map answer_bytes (leftover COPY_BUFFER bs rs))"
    by (auto simp: leftover_def)
  obtain r ws1 out2 where s: "send_all err ws (take COPY_BUFFER bs) out = (r, ws1, out2)" by (metis prod_cases3)
  obtain dn rest where d: "take COPY_BUFFER bs = dn @ rest" "out2 = out @ dn" "r = None \<longrightarrow> rest = []"
    using send_all_prefix [OF s] by blast
  show ?case
  proof (cases "bs = [] \<or> r \<noteq> None")
    case True
    then show ?thesis using "3.prems" s d whole by (cases "bs = []") auto
  next
    case False
    then have "copy_loop err (leftover COPY_BUFFER bs rs) ws1 out2 = (ret, rs', ws', out1)" using "3.prems" s by auto
    from "3.IH" [OF _ s [symmetric] _ refl this] False obtain copied rest' where
      "out1 = out2 @ copied" "concat (map answer_bytes (leftover COPY_BUFFER bs rs)) = copied @ rest'" by auto
    with d False whole show ?thesis by auto
  qed
qed auto

lemma copy_loop_ok:
  assumes "list_all (\<lambda>r. \<exists>bs. r = R_data bs \<and> bs \<noteq> []) rs" "\<forall>w \<in> set ws. \<exists>k. w = Took (Suc k)"
  shows "\<exists>ws'. copy_loop err rs ws out = (0, [], ws', out @ concat (map answer_bytes rs))"
  using assms
proof (induction err rs ws out rule: copy_loop.induct)
  case (3 err bs rs ws out)
  obtain ws1 where s: "send_all err ws (take COPY_BUFFER bs) out = (None, ws1, out @ take COPY_BUFFER bs)" "set ws1 \<subseteq> set ws"
    using send_all_ok [OF "3.prems"(2)] by blast
  have l: "list_all (\<lambda>r. \<exists>bs. r = R_data bs \<and> bs \<noteq> []) (leftover COPY_BUFFER bs rs)"
    using "3.prems"(1) by (auto simp: leftover_def)
  obtain ws' where "copy_loop err (leftover COPY_BUFFER bs rs) ws1 (out @ take COPY_BUFFER bs) =
      (0, [], ws', (out @ take COPY_BUFFER bs) @ concat (map answer_bytes (leftover COPY_BUFFER bs rs)))"
    using "3.IH" [OF _ s(1) [symmetric] refl refl l] "3.prems" s(2) by auto
  then show ?case using s(1) "3.prems"(1) by (auto simp: leftover_def)
qed auto

end
