(* ===== verification/Stress_Client.thy ===== *)
theory Stress_Client
  imports Client_Protocol Startup Netutils "HOL-Library.Multiset"
begin

text \<open>
  The load generator \<^verbatim>\<open>src/stress/stress_client.c\<close>: blocking I/O, a minimal SOCKS5 client, the query of the monitor, the
  transfer through a tunnel, the division of the clients among threads and the flags. Each client has its own socket. The
  threads touch shared state only through atomic additions, so a thread is the list of its additions and a run is any
  interleaving of these lists. Waiting and what is printed are in \<open>Stress_Report\<close>.
\<close>

section \<open>Configuration and results\<close>

datatype stress_mode = STRESS_MODE_CONNECTIONS | STRESS_MODE_THROUGHPUT | STRESS_MODE_LIVE

record stress_config =
  sc_proxy_host :: string
  sc_proxy_port :: u16
  sc_username :: string
  sc_password :: string
  sc_dest_host :: string
  sc_dest_port :: u16
  sc_monitor_port :: u16
  sc_admin :: "(string \<times> string) option"
  sc_mode :: stress_mode
  sc_clients :: int
  sc_bytes_per_client :: nat
  sc_hold_seconds :: int
  sc_query_monitor :: bool

record monitor_metrics =
  mm_total_connections :: u64
  mm_concurrent_connections :: u64
  mm_bytes_up :: u64
  mm_bytes_down :: u64

record worker_result =
  wr_successes :: u32
  wr_failures :: u32
  wr_bytes_sent :: u64
  wr_bytes_received :: u64

definition STRESS_BUF_SIZE :: nat where "STRESS_BUF_SIZE = 65536"

definition mode_name :: "stress_mode \<Rightarrow> string" where
  "mode_name mode = (case mode of
      STRESS_MODE_CONNECTIONS \<Rightarrow> ''connections'' | STRESS_MODE_THROUGHPUT \<Rightarrow> ''throughput'' | STRESS_MODE_LIVE \<Rightarrow> ''live'')"

section \<open>Blocking I/O\<close>

fun write_bytes :: "wr_answer list \<Rightarrow> byte list \<Rightarrow> byte list \<Rightarrow> bool \<times> wr_answer list \<times> byte list" where
  "write_bytes ws [] out = (True, ws, out)"
| "write_bytes [] (d # ds) out = (True, [], out @ d # ds)"
| "write_bytes (W_errno e # ws) (d # ds) out = (if e = EINTR then write_bytes ws (d # ds) out else (False, ws, out))"
| "write_bytes (Took n # ws) (d # ds) out =
     (if n = 0 then (False, ws, out) else write_bytes ws (drop n (d # ds)) (out @ take n (d # ds)))"

definition stress_write_all :: "byte list \<Rightarrow> sock \<Rightarrow> bool \<times> sock" where
  "stress_write_all data s = (let (ok, ws, out) = write_bytes (so_wr s) data (so_out s)
     in (ok, s\<lparr>so_wr := ws, so_out := out\<rparr>))"

fun read_bytes :: "rd_answer list \<Rightarrow> nat \<Rightarrow> byte list \<Rightarrow> byte list option \<times> rd_answer list" where
  "read_bytes rs n acc =
     (if n = 0 then (Some acc, rs)
      else case rs of
             [] \<Rightarrow> (None, [])
           | R_errno e # rest \<Rightarrow> if e = EINTR then read_bytes rest n acc else (None, rest)
           | R_data bs # rest \<Rightarrow>
               if bs = [] then (None, rest)
               else if length bs \<le> n then read_bytes rest (n - length bs) (acc @ bs)
               else (Some (acc @ take n bs), leftover n bs rest))"

declare read_bytes.simps [simp del]

text \<open>The bytes read, or \<open>None\<close> for the result \<open>-1\<close>.\<close>

definition read_all :: "nat \<Rightarrow> sock \<Rightarrow> byte list option \<times> sock" where
  "read_all n s = (let (r, rs) = read_bytes (so_rd s) n [] in (r, s\<lparr>so_rd := rs\<rparr>))"

section \<open>The SOCKS5 client\<close>

definition tcp_connect :: "(int \<times> bool) list option \<Rightarrow> int" where
  "tcp_connect addrs = (case addrs of None \<Rightarrow> -1 | Some cands \<Rightarrow> connect_cursor cands)"

text \<open>The text in front of the last colon and the number behind it.\<close>

definition parse_host_port :: "string \<Rightarrow> nat \<Rightarrow> (string \<times> u16) option" where
  "parse_host_port input host_len =
     (let port_text = rev (takeWhile (\<lambda>c. c \<noteq> CHR '':'') (rev input));
          host = take (length input - length port_text - 1) input;
          (val, end) = strtol port_text
      in if CHR '':'' \<notin> set input \<or> host = [] \<or> port_text = [] then None
         else if length host \<ge> host_len then None
         else if end = port_text \<or> val \<le> 0 \<or> val > 65535 then None
         else Some (host, word_of_int val))"

definition parse_user_pass :: "string \<Rightarrow> nat \<Rightarrow> nat \<Rightarrow> (string \<times> string) option" where
  "parse_user_pass input user_len pass_len =
     (let user = takeWhile (\<lambda>c. c \<noteq> CHR '':'') input; rest = dropWhile (\<lambda>c. c \<noteq> CHR '':'') input
      in if rest = [] \<or> user = [] \<or> tl rest = [] then None
         else if length user \<ge> user_len \<or> length (tl rest) \<ge> pass_len then None
         else Some (user, tl rest))"

text \<open>A step that closes the socket and gives up when it fails.\<close>

definition or_close :: "bool \<times> sock \<Rightarrow> (sock \<Rightarrow> int \<times> sock) \<Rightarrow> int \<times> sock" where
  "or_close r k = (case r of (ok, s) \<Rightarrow> if ok then k s else (-1, close_sock s))"

text \<open>Reading \<open>n\<close> bytes of which the first two must be \<open>x\<close> and \<open>y\<close>.\<close>

definition expect :: "nat \<Rightarrow> byte \<Rightarrow> byte \<Rightarrow> sock \<Rightarrow> bool \<times> sock" where
  "expect n x y s = (case read_all n s of
      (None, s1) \<Rightarrow> (False, s1)
    | (Some resp, s1) \<Rightarrow> (resp ! 0 = x \<and> resp ! 1 = y, s1))"

definition socks5_connect :: "net_lib \<Rightarrow> (int \<times> bool) list option \<Rightarrow> stress_config \<Rightarrow> sock \<Rightarrow> int \<times> sock" where
  "socks5_connect net addrs cfg s =
     (let fd = tcp_connect addrs in
      if fd < 0 then (-1, s)
      else or_close (stress_write_all [0x05, 0x01, 0x02] s) (\<lambda>s1.
        or_close (expect 2 0x05 0x02 s1) (\<lambda>s2.
        let ulen = of_nat (length (sc_username cfg)) :: byte; plen = of_nat (length (sc_password cfg)) :: byte in
        or_close (stress_write_all [0x01, ulen] s2) (\<lambda>s3.
        or_close (stress_write_all (take (unat ulen) (bytes_of (sc_username cfg))) s3) (\<lambda>s4.
        or_close (stress_write_all [plen] s4) (\<lambda>s5.
        or_close (stress_write_all (take (unat plen) (bytes_of (sc_password cfg))) s5) (\<lambda>s6.
        or_close (expect 2 0x01 0x00 s6) (\<lambda>s7.
        case inet_pton4 net (sc_dest_host cfg) of
          None \<Rightarrow> (-1, close_sock s7)
        | Some dest_ipv4 \<Rightarrow>
            or_close (stress_write_all ([0x05, 0x01, 0x00, 0x01] @ dest_ipv4 @
                [ucast (drop_bit 8 (sc_dest_port cfg)), ucast (sc_dest_port cfg AND 0xff)]) s7) (\<lambda>s8.
            or_close (expect 10 0x05 0x00 s8) (\<lambda>s9. (fd, s9)))))))))))"

section \<open>The monitor\<close>

text \<open>Unlike the line reader of the administration client, this one gives up when it is interrupted.\<close>

function stress_read_line_loop :: "nat \<Rightarrow> string \<Rightarrow> rd_answer list \<Rightarrow> string option \<times> rd_answer list" where
  "stress_read_line_loop buf_len acc rs =
     (if \<not> length acc + 1 < buf_len then (None, rs)
      else case rs of
             [] \<Rightarrow> (None, [])
           | R_errno e # rest \<Rightarrow> (None, rest)
           | R_data bs # rest \<Rightarrow>
               if bs = [] then (None, rest)
               else if hd bs = 0x0A
               then (Some (cstr (if acc \<noteq> [] \<and> last acc = CHR 0x0D then butlast acc else acc)), leftover 1 bs rest)
               else stress_read_line_loop buf_len (acc @ [char_of_byte (hd bs)]) (leftover 1 bs rest))"
  by pat_completeness auto
termination
  by (relation "measure (\<lambda>(n, acc, _). n - length acc)") auto

declare stress_read_line_loop.simps [simp del]

definition stress_read_line :: "nat \<Rightarrow> sock \<Rightarrow> string option \<times> sock" where
  "stress_read_line buf_len s = (let (l, rs) = stress_read_line_loop buf_len [] (so_rd s) in (l, s\<lparr>so_rd := rs\<rparr>))"

definition stream_size :: "rd_answer list \<Rightarrow> nat" where
  "stream_size rs = sum_list (map answer_size rs)"

lemma stream_size_simps [simp]:
  "stream_size [] = 0" "stream_size (r # rs) = answer_size r + stream_size rs" "0 < answer_size r"
  by (simp_all add: stream_size_def answer_size_def)

lemma leftover_smaller: "bs \<noteq> [] \<Longrightarrow> stream_size (leftover (Suc k) bs rest) < stream_size (R_data bs # rest)"
  by (cases bs) (auto simp: leftover_def answer_size_def)

lemma stress_read_line_smaller:
  "stress_read_line_loop n acc rs = (Some l, rs') \<Longrightarrow> stream_size rs' < stream_size rs"
proof (induction n acc rs rule: stress_read_line_loop.induct)
  case (1 n acc rs)
  note run = "1.prems" [unfolded stress_read_line_loop.simps [of n acc rs]]
  obtain bs rest where rs: "rs = R_data bs # rest" "bs \<noteq> []" "length acc + 1 < n"
    using run by (auto split: if_splits list.splits rd_answer.splits)
  have less: "stream_size (leftover 1 bs rest) < stream_size rs" using leftover_smaller [OF rs(2), of 0 rest] rs(1) by simp
  show ?case
  proof (cases "hd bs = 0x0A")
    case True
    then show ?thesis using run rs less by auto
  next
    case False
    then have "stress_read_line_loop n (acc @ [char_of_byte (hd bs)]) (leftover 1 bs rest) = (Some l, rs')"
      using run rs by simp
    with "1.IH" [OF _ rs(1) refl rs(2) False] rs(3) less show ?thesis by auto
  qed
qed

function read_until_dot :: "sock \<Rightarrow> bool \<times> sock" where
  "read_until_dot s = (case stress_read_line LINE_BUF_SIZE s of
      (None, s1) \<Rightarrow> (False, s1)
    | (Some l, s1) \<Rightarrow> if l = ''.'' then (True, s1) else read_until_dot s1)"
  by pat_completeness auto
termination
  by (relation "measure (\<lambda>s. stream_size (so_rd s))")
    (auto simp: stress_read_line_def dest!: stress_read_line_smaller split: prod.splits)

declare read_until_dot.simps [simp del]

text \<open>The metrics when they are valid, and the socket.\<close>

definition monitor_fetch_stats :: "(int \<times> bool) list option \<Rightarrow> stress_config \<Rightarrow> sock \<Rightarrow> monitor_metrics option \<times> sock" where
  "monitor_fetch_stats addrs cfg s = (case sc_admin cfg of
      None \<Rightarrow> (None, s)
    | Some (admin_user, admin_pass) \<Rightarrow>
        if \<not> sc_query_monitor cfg then (None, s)
        else if tcp_connect addrs < 0 then (None, s)
        else (case read_until_dot s of
          (False, s1) \<Rightarrow> (None, close_sock s1)
        | (True, s1) \<Rightarrow>
            (case stress_write_all (bytes_of (cmd_text (nl (''AUTH '' @ admin_user @ '' '' @ admin_pass)))) s1 of
               (False, s2) \<Rightarrow> (None, close_sock s2)
             | (True, s2) \<Rightarrow> (case read_until_dot s2 of
                 (False, s3) \<Rightarrow> (None, close_sock s3)
               | (True, s3) \<Rightarrow> (case stress_write_all (bytes_of (nl ''STATS'')) s3 of
                   (False, s4) \<Rightarrow> (None, close_sock s4)
                 | (True, s4) \<Rightarrow> (case stress_read_line LINE_BUF_SIZE s4 of
                     (None, s5) \<Rightarrow> (None, close_sock s5)
                   | (Some l, s5) \<Rightarrow>
                       let s6 = close_sock (snd (read_until_dot s5)); vs = sscanf stats_format l
                       in (if length vs \<noteq> 4 then None
                           else Some \<lparr>mm_total_connections = of_nat (vs ! 0), mm_concurrent_connections = of_nat (vs ! 1),
                                      mm_bytes_up = of_nat (vs ! 2), mm_bytes_down = of_nat (vs ! 3)\<rparr>, s6)))))))"

section \<open>Workers\<close>

text \<open>The loop of \<open>transfer_payload\<close>; \<open>buf\<close> is overwritten by what is read.\<close>

definition chunk_size :: nat where "chunk_size = 4096"

function transfer_loop :: "byte list \<Rightarrow> nat \<Rightarrow> sock \<Rightarrow> bool \<times> sock" where
  "transfer_loop buf remaining s =
     (if remaining = 0 then (True, s)
      else let chunk = (if remaining < chunk_size then remaining else chunk_size)
        in case stress_write_all (take chunk buf) s of
             (False, s1) \<Rightarrow> (False, s1)
           | (True, s1) \<Rightarrow> (case read_all chunk s1 of
               (None, s2) \<Rightarrow> (False, s2)
             | (Some bs, s2) \<Rightarrow> transfer_loop (bs @ drop chunk buf) (remaining - chunk) s2))"
  by pat_completeness auto
termination
  by (relation "measure (\<lambda>(_, n, _). n)") (auto simp: chunk_size_def split: if_splits)

declare transfer_loop.simps [simp del]

definition transfer_payload :: "nat \<Rightarrow> sock \<Rightarrow> bool \<times> sock" where
  "transfer_payload bytes s = transfer_loop (replicate STRESS_BUF_SIZE 0xA5) bytes s"

datatype atomic_add = Add_success | Add_failure | Add_sent nat | Add_received nat

definition apply_add :: "atomic_add \<Rightarrow> worker_result \<Rightarrow> worker_result" where
  "apply_add a r = (case a of
      Add_success \<Rightarrow> r\<lparr>wr_successes := wr_successes r + 1\<rparr>
    | Add_failure \<Rightarrow> r\<lparr>wr_failures := wr_failures r + 1\<rparr>
    | Add_sent n \<Rightarrow> r\<lparr>wr_bytes_sent := wr_bytes_sent r + of_nat n\<rparr>
    | Add_received n \<Rightarrow> r\<lparr>wr_bytes_received := wr_bytes_received r + of_nat n\<rparr>)"

definition run_single_client ::
  "net_lib \<Rightarrow> stress_config \<Rightarrow> (int \<times> bool) list option \<times> sock \<Rightarrow> atomic_add list \<times> sock" where
  "run_single_client net cfg = (\<lambda>(addrs, s). case socks5_connect net addrs cfg s of (fd, s1) \<Rightarrow>
     if fd < 0 then ([Add_failure], s1)
     else if sc_mode cfg = STRESS_MODE_CONNECTIONS \<or> sc_mode cfg = STRESS_MODE_LIVE then ([Add_success], close_sock s1)
     else if sc_bytes_per_client cfg = 0 then ([Add_success], close_sock s1)
     else case transfer_payload (sc_bytes_per_client cfg) s1 of
            (False, s2) \<Rightarrow> ([Add_failure], close_sock s2)
          | (True, s2) \<Rightarrow> ([Add_sent (sc_bytes_per_client cfg), Add_received (sc_bytes_per_client cfg), Add_success],
                           close_sock s2))"

text \<open>\<open>peers i\<close> is what the \<open>i\<close>-th client of the thread connects to.\<close>

definition worker_thread ::
  "net_lib \<Rightarrow> stress_config \<Rightarrow> (nat \<Rightarrow> (int \<times> bool) list option \<times> sock) \<Rightarrow> nat \<Rightarrow> atomic_add list" where
  "worker_thread net cfg peers clients_for_worker =
     concat (map (\<lambda>i. fst (run_single_client net cfg (peers i))) [0..<clients_for_worker])"

text \<open>The clients of each thread that was started; \<open>started i\<close> are the answers of \<open>malloc\<close> and \<open>pthread_create\<close>.\<close>

fun spawn_loop :: "(nat \<Rightarrow> bool \<times> bool) \<Rightarrow> nat \<Rightarrow> nat \<Rightarrow> nat \<Rightarrow> nat \<Rightarrow> nat list" where
  "spawn_loop started base extra i 0 = []"
| "spawn_loop started base extra i (Suc k) =
     (if fst (started i) \<and> snd (started i)
      then (base + (if i < extra then 1 else 0)) # spawn_loop started base extra (Suc i) k else [])"

definition thread_count :: "int \<Rightarrow> nat" where
  "thread_count clients = nat (if clients < 64 then clients else 64)"

definition run_stress_spawn :: "(nat \<Rightarrow> bool \<times> bool) \<Rightarrow> stress_config \<Rightarrow> int \<times> nat list" where
  "run_stress_spawn started cfg =
     (if sc_clients cfg \<le> 0 then (-1, [])
      else let n = thread_count (sc_clients cfg);
               workers = spawn_loop started (nat (sc_clients cfg) div n) (nat (sc_clients cfg) mod n) 0 n
           in (if length workers = n then 0 else -1, workers))"

text \<open>The orders in which the additions of the threads can happen.\<close>

inductive interleaves :: "'a list list \<Rightarrow> 'a list \<Rightarrow> bool" where
  all_done: "\<forall>xs \<in> set xss. xs = [] \<Longrightarrow> interleaves xss []"
| one_step: "i < length xss \<Longrightarrow> xss ! i = x # xs \<Longrightarrow> interleaves (xss[i := xs]) ys \<Longrightarrow> interleaves xss (x # ys)"

definition zero_result :: worker_result where
  "zero_result = \<lparr>wr_successes = 0, wr_failures = 0, wr_bytes_sent = 0, wr_bytes_received = 0\<rparr>"

definition stress_threads ::
  "net_lib \<Rightarrow> stress_config \<Rightarrow> (nat \<Rightarrow> nat \<Rightarrow> (int \<times> bool) list option \<times> sock) \<Rightarrow> nat list \<Rightarrow> atomic_add list list" where
  "stress_threads net cfg peers workers = map (\<lambda>(t, n). worker_thread net cfg (peers t) n) (enumerate 0 workers)"

text \<open>What the threads have left behind when they are joined, for one order of their additions.\<close>

definition run_stress :: "atomic_add list \<Rightarrow> worker_result" where
  "run_stress order = fold apply_add order zero_result"

section \<open>Flags\<close>

datatype stress_start = Stress_exit int | Stress_run stress_config

definition to_int :: "int \<Rightarrow> int" where
  "to_int v = sint (word_of_int v :: u32)"

definition default_config :: stress_config where
  "default_config = \<lparr>sc_proxy_host = ''127.0.0.1'', sc_proxy_port = 1080, sc_username = [], sc_password = [], sc_dest_host = [],
     sc_dest_port = 0, sc_monitor_port = 8080, sc_admin = None, sc_mode = STRESS_MODE_CONNECTIONS, sc_clients = 10,
     sc_bytes_per_client = 65536, sc_hold_seconds = 0, sc_query_monitor = False\<rparr>"

definition mode_of :: "string \<Rightarrow> stress_mode option" where
  "mode_of m = (if m = ''connections'' then Some STRESS_MODE_CONNECTIONS
     else if m = ''throughput'' then Some STRESS_MODE_THROUGHPUT
     else if m = ''live'' then Some STRESS_MODE_LIVE else None)"

text \<open>An optional step of the flags: \<open>None\<close> prints the usage and fails.\<close>

definition with_flag :: "flag_table \<Rightarrow> char \<Rightarrow> (stress_config \<Rightarrow> stress_config option) \<Rightarrow> stress_config \<Rightarrow> stress_config option" where
  "with_flag f c k cfg = (if has_flag f c then k cfg else Some cfg)"

definition flag_text :: "flag_table \<Rightarrow> char \<Rightarrow> string" where
  "flag_text f c = (case get_flag_str f c of None \<Rightarrow> [] | Some v \<Rightarrow> strncpy_term 299 v)"

definition stress_flags :: "flag_table \<Rightarrow> stress_config option" where
  "stress_flags f =
     (case flag_port f (CHR ''p'') (sc_proxy_port default_config) of None \<Rightarrow> None | Some proxy_port \<Rightarrow>
      if \<not> has_flag f (CHR ''u'') \<or> \<not> has_flag f (CHR ''d'') then None
      else case parse_user_pass (flag_text f (CHR ''u'')) 256 256 of None \<Rightarrow> None | Some (user, pass) \<Rightarrow>
      (case parse_host_port (flag_text f (CHR ''d'')) 256 of None \<Rightarrow> None | Some (host, port) \<Rightarrow>
       let cfg = default_config\<lparr>sc_proxy_host := (case get_flag_str f (CHR ''H'') of None \<Rightarrow> sc_proxy_host default_config | Some h \<Rightarrow> h),
                   sc_proxy_port := proxy_port, sc_username := user, sc_password := pass,
                   sc_dest_host := host, sc_dest_port := port\<rparr>
       in Option.bind (with_flag f (CHR ''n'') (\<lambda>c. let n = to_int (get_flag_long f (CHR ''n''))
              in if n \<le> 0 then None else Some (c\<lparr>sc_clients := n\<rparr>)) cfg) (\<lambda>c1.
          Option.bind (with_flag f (CHR ''b'') (\<lambda>c. let v = get_flag_long f (CHR ''b'')
              in if v < 0 then None else Some (c\<lparr>sc_bytes_per_client := nat v\<rparr>)) c1) (\<lambda>c2.
          Option.bind (with_flag f (CHR ''k'') (\<lambda>c. let k = to_int (get_flag_long f (CHR ''k''))
              in if k < 0 then None else Some (c\<lparr>sc_hold_seconds := k\<rparr>)) c2) (\<lambda>c3.
          Option.bind (with_flag f (CHR ''M'') (\<lambda>c. case Option.bind (get_flag_str f (CHR ''M'')) mode_of of
                None \<Rightarrow> None | Some m \<Rightarrow> Some (c\<lparr>sc_mode := m\<rparr>)) c3) (\<lambda>c4.
          Option.bind (flag_port f (CHR ''m'') (sc_monitor_port c4)) (\<lambda>mport.
          Option.bind (with_flag f (CHR ''A'') (\<lambda>c. case parse_user_pass (flag_text f (CHR ''A'')) 256 256 of
                None \<Rightarrow> None | Some cred \<Rightarrow> Some (c\<lparr>sc_admin := Some cred\<rparr>)) (c4\<lparr>sc_monitor_port := mport\<rparr>)) (\<lambda>c5.
          Some (let c6 = c5\<lparr>sc_query_monitor := has_flag f (CHR ''q'')\<rparr>
                in if sc_mode c6 = STRESS_MODE_LIVE
                   then c6\<lparr>sc_query_monitor := False,
                           sc_hold_seconds := (if has_flag f (CHR ''k'') then sc_hold_seconds c6 else 0)\<rparr>
                   else c6)))))))))"

definition stress_start_flags :: "(char \<times> string option) list \<Rightarrow> flag_table \<Rightarrow> stress_start" where
  "stress_start_flags opts flags = (let (rc, f) = setup_flags opts ''H:p:u:d:n:b:k:M:m:A:qh'' flags
     in if rc \<noteq> 0 then Stress_exit EXIT_FAILURE
        else if has_flag f (CHR ''h'') then Stress_exit EXIT_SUCCESS
        else case stress_flags f of None \<Rightarrow> Stress_exit EXIT_FAILURE | Some cfg \<Rightarrow> Stress_run cfg)"

text \<open>
  The exit code with the metrics fetched before and after the run; \<open>before\<close> and \<open>after\<close> are the two connections to the
  monitor, \<open>order\<close> the additions of the threads in the order they happened.
\<close>

definition stress_main ::
  "(char \<times> string option) list \<Rightarrow> flag_table \<Rightarrow> (int \<times> bool) list option \<times> sock \<Rightarrow> (int \<times> bool) list option \<times> sock \<Rightarrow>
   atomic_add list \<Rightarrow> int \<times> monitor_metrics option \<times> monitor_metrics option" where
  "stress_main opts flags before after order = (case stress_start_flags opts flags of
      Stress_exit code \<Rightarrow> (code, None, None)
    | Stress_run cfg \<Rightarrow>
        (if sint (wr_failures (run_stress order)) > 0 then EXIT_FAILURE else EXIT_SUCCESS,
         if sc_query_monitor cfg then fst (monitor_fetch_stats (fst before) cfg (snd before)) else None,
         if sc_query_monitor cfg then fst (monitor_fetch_stats (fst after) cfg (snd after)) else None))"

section \<open>I/O in pieces\<close>

lemma write_bytes_ok:
  "accepts ws \<Longrightarrow> \<exists>ws'. write_bytes ws data out = (True, ws', out @ data) \<and> accepts ws'"
proof (induction ws data out rule: write_bytes.induct)
  case (4 n ws d ds out)
  then have "n \<noteq> 0" "accepts ws" by auto
  with "4.IH" obtain ws' where "write_bytes ws (drop n (d # ds)) (out @ take n (d # ds)) =
      (True, ws', (out @ take n (d # ds)) @ drop n (d # ds))" "accepts ws'" by blast
  then show ?case using \<open>n \<noteq> 0\<close> by (auto simp del: drop_Cons' take_Cons')
qed auto

lemma stress_write_all_ok:
  assumes "accepts (so_wr s)"
  shows "\<exists>s1. stress_write_all data s = (True, s1) \<and> accepts (so_wr s1) \<and> so_out s1 = so_out s @ data \<and> so_rd s1 = so_rd s \<and>
    so_closed s1 = so_closed s"
  using write_bytes_ok [OF assms, of data "so_out s"] by (auto simp: stress_write_all_def)

lemma read_bytes_steps:
  "n \<noteq> 0 \<Longrightarrow> read_bytes (R_errno e # rest) n acc = (if e = EINTR then read_bytes rest n acc else (None, rest))"
  "n \<noteq> 0 \<Longrightarrow> read_bytes (R_data bs # rest) n acc =
     (if bs = [] then (None, rest) else if length bs \<le> n then read_bytes rest (n - length bs) (acc @ bs)
      else (Some (acc @ take n bs), leftover n bs rest))"
  "read_bytes rs 0 acc = (Some acc, rs)"
  by (subst read_bytes.simps, simp)+

lemma read_bytes_streams:
  "streams rs (xs @ ys) \<Longrightarrow> length xs = n \<Longrightarrow> \<exists>rs'. read_bytes rs n acc = (Some (acc @ xs), rs') \<and> streams rs' ys"
proof (induction rs n acc arbitrary: xs rule: read_bytes.induct)
  case (1 rs n acc)
  show ?case
  proof (cases "n = 0")
    case False
    then obtain r rest where rs: "rs = r # rest" using "1.prems" by (cases rs) auto
    show ?thesis
    proof (cases r)
      case (R_errno e)
      then show ?thesis using "1.IH"(2) [OF False rs R_errno] "1.prems" rs False by (simp add: read_bytes_steps)
    next
      case (R_data bs)
      then obtain zs where z: "bs \<noteq> []" "bs @ zs = xs @ ys" "streams rest zs" using "1.prems"(1) rs by auto
      show ?thesis
      proof (cases "length bs \<le> n")
        case True
        then have x: "xs = bs @ drop (length bs) xs" "zs = drop (length bs) xs @ ys"
          using prefix_split [OF z(2)] "1.prems"(2) by simp_all
        have "length (drop (length bs) xs) = n - length bs" using "1.prems"(2) by simp
        with "1.IH"(1) [OF False rs R_data z(1) True] z(3) x obtain rs' where
          "read_bytes rest (n - length bs) (acc @ bs) = (Some ((acc @ bs) @ drop (length bs) xs), rs')" "streams rs' ys"
          by metis
        then show ?thesis using x(1) True False z(1) rs R_data
          by (simp add: read_bytes_steps)
      next
        case more: False
        then have "bs = xs @ drop n bs" "ys = drop n bs @ zs"
          using prefix_split [OF z(2) [symmetric]] "1.prems"(2) by simp_all
        moreover from this have "take n bs = xs" using "1.prems"(2) by (metis append_eq_conv_conj)
        ultimately show ?thesis using more False z rs R_data
          by (simp add: read_bytes_steps leftover_def)
      qed
    qed
  qed (use "1.prems" in \<open>simp add: read_bytes_steps\<close>)
qed

lemma read_all_streams:
  assumes "streams (so_rd s) (xs @ ys)"
  shows "\<exists>s1. read_all (length xs) s = (Some xs, s1) \<and> streams (so_rd s1) ys \<and> so_wr s1 = so_wr s \<and> so_out s1 = so_out s \<and>
    so_closed s1 = so_closed s"
  using read_bytes_streams [OF assms refl, of "[]"] by (auto simp: read_all_def)

lemma expect_streams:
  assumes "streams (so_rd s) (x # y # zs @ ys)" "n = length zs + 2"
  shows "\<exists>s1. expect n x y s = (True, s1) \<and> streams (so_rd s1) ys \<and> so_wr s1 = so_wr s \<and> so_out s1 = so_out s \<and>
    so_closed s1 = so_closed s"
  using read_all_streams [of s "x # y # zs" ys] assms by (auto simp: expect_def)

lemma io_keeps_closed:
  "stress_write_all data s = (ok, s1) \<Longrightarrow> so_closed s1 = so_closed s"
  "read_all n s = (r, s1) \<Longrightarrow> so_closed s1 = so_closed s"
  "expect n x y s = (ok, s1) \<Longrightarrow> so_closed s1 = so_closed s"
  by (auto simp: stress_write_all_def read_all_def expect_def split: prod.splits option.splits)

section \<open>The handshake\<close>

text \<open>What the client has written once it is connected: greeting, credentials and request.\<close>

definition wire_greeting :: "byte list" where
  "wire_greeting = [5, 1, 2]"

definition wire_auth :: "stress_config \<Rightarrow> byte list" where
  "wire_auth cfg = [1, of_nat (length (sc_username cfg))] @ bytes_of (sc_username cfg) @
     [of_nat (length (sc_password cfg))] @ bytes_of (sc_password cfg)"

definition wire_request :: "stress_config \<Rightarrow> byte list \<Rightarrow> byte list" where
  "wire_request cfg ip = [5, 1, 0, 1] @ ip @ [ucast (drop_bit 8 (sc_dest_port cfg)), ucast (sc_dest_port cfg AND 0xff)]"

lemma socks5_connect_writes:
  assumes fd: "0 \<le> tcp_connect addrs" and ws: "accepts (so_wr s)"
    and u: "length (sc_username cfg) < 256" and p: "length (sc_password cfg) < 256"
    and ip: "inet_pton4 net (sc_dest_host cfg) = Some ip"
    and rs: "streams (so_rd s) ([5, 2] @ [1, 0] @ [5, 0] @ bound @ rest)" and b: "length bound = 8"
  shows "\<exists>s1. socks5_connect net addrs cfg s = (tcp_connect addrs, s1) \<and> streams (so_rd s1) rest \<and> accepts (so_wr s1) \<and>
    so_out s1 = so_out s @ wire_greeting @ wire_auth cfg @ wire_request cfg ip \<and> so_closed s1 = so_closed s"
proof -
  let ?u = "of_nat (length (sc_username cfg)) :: byte" and ?p = "of_nat (length (sc_password cfg)) :: byte"
  have len: "take (unat ?u) (bytes_of (sc_username cfg)) = bytes_of (sc_username cfg)"
    "take (unat ?p) (bytes_of (sc_password cfg)) = bytes_of (sc_password cfg)"
    using u p by (simp_all add: unat_of_nat_byte)
  obtain s1 where s1: "stress_write_all [5, 1, 2] s = (True, s1)" "accepts (so_wr s1)" "so_out s1 = so_out s @ [5, 1, 2]"
    "so_rd s1 = so_rd s" "so_closed s1 = so_closed s" using stress_write_all_ok [OF ws] by blast
  obtain s2 where s2: "expect 2 5 2 s1 = (True, s2)" "streams (so_rd s2) ([1, 0] @ [5, 0] @ bound @ rest)" "so_wr s2 = so_wr s1"
    "so_out s2 = so_out s1" "so_closed s2 = so_closed s"
    using expect_streams [of s1 5 2 "[]" _ 2] rs s1(4,5) by fastforce
  obtain s3 where s3: "stress_write_all [1, ?u] s2 = (True, s3)" "accepts (so_wr s3)" "so_out s3 = so_out s2 @ [1, ?u]"
    "so_rd s3 = so_rd s2" "so_closed s3 = so_closed s" using stress_write_all_ok [of s2] s1 s2 by metis
  obtain s4 where s4: "stress_write_all (bytes_of (sc_username cfg)) s3 = (True, s4)" "accepts (so_wr s4)"
    "so_out s4 = so_out s3 @ bytes_of (sc_username cfg)" "so_rd s4 = so_rd s3" "so_closed s4 = so_closed s"
    using stress_write_all_ok [of s3] s3 by metis
  obtain s5 where s5: "stress_write_all [?p] s4 = (True, s5)" "accepts (so_wr s5)" "so_out s5 = so_out s4 @ [?p]"
    "so_rd s5 = so_rd s4" "so_closed s5 = so_closed s" using stress_write_all_ok [of s4] s4 by metis
  obtain s6 where s6: "stress_write_all (bytes_of (sc_password cfg)) s5 = (True, s6)" "accepts (so_wr s6)"
    "so_out s6 = so_out s5 @ bytes_of (sc_password cfg)" "so_rd s6 = so_rd s5" "so_closed s6 = so_closed s"
    using stress_write_all_ok [of s5] s5 by metis
  obtain s7 where s7: "expect 2 1 0 s6 = (True, s7)" "streams (so_rd s7) ([5, 0] @ bound @ rest)" "so_wr s7 = so_wr s6"
    "so_out s7 = so_out s6" "so_closed s7 = so_closed s"
    using expect_streams [of s6 1 0 "[]" _ 2] s2(2) s3(4) s4(4) s5(4) s6(4,5) by fastforce
  obtain s8 where s8: "stress_write_all (wire_request cfg ip) s7 = (True, s8)" "accepts (so_wr s8)"
    "so_out s8 = so_out s7 @ wire_request cfg ip" "so_rd s8 = so_rd s7" "so_closed s8 = so_closed s"
    using stress_write_all_ok [of s7] s6 s7 by metis
  obtain s9 where s9: "expect 10 5 0 s8 = (True, s9)" "streams (so_rd s9) rest" "so_wr s9 = so_wr s8" "so_out s9 = so_out s8"
    "so_closed s9 = so_closed s"
    using expect_streams [of s8 5 0 bound rest 10] b s7(2) s8(4,5) by fastforce
  have "socks5_connect net addrs cfg s = (tcp_connect addrs, s9)"
    using fd s1(1) s2(1) s3(1) s4(1) s5(1) s6(1) s7(1) s8(1) s9(1) ip len
    by (simp add: socks5_connect_def or_close_def wire_request_def Let_def)
  moreover have "so_out s9 = so_out s @ wire_greeting @ wire_auth cfg @ wire_request cfg ip"
    unfolding s9(4) s8(3) s7(4) s6(3) s5(3) s4(3) s3(3) s2(4) s1(3) by (simp add: wire_greeting_def wire_auth_def)
  ultimately show ?thesis using s9 s8(2) by auto
qed

text \<open>The three messages as the server reads them.\<close>

lemma wire_greeting_read: "greeting_ref (wire_greeting @ bs) = Some (SOCKS_GREETING_ACCEPT, SOCKS_METHOD_USERPASS, bs)"
  by (simp add: wire_greeting_def method_choice_def)

lemma wire_auth_read:
  assumes "0 < length (sc_username cfg)" "length (sc_username cfg) < 256" "0 < length (sc_password cfg)" "length (sc_password cfg) < 256"
  shows "auth_ref (wire_auth cfg @ bs) = Some (SOCKS_AUTH_PARSED, Some (bytes_of (sc_username cfg), bytes_of (sc_password cfg)), bs)"
proof -
  have n: "of_nat k \<noteq> (0 :: byte)" if "0 < k" "k < 256" for k
    using that unat_of_nat_byte [of k] by (metis less_numeral_extra(3) unat_0)
  show ?thesis
    using assms n [OF assms(1,2)] n [OF assms(3,4)] by (simp add: wire_auth_def unat_of_nat_byte)
qed

lemma port_of_bytes: "256 * unat (ucast (drop_bit 8 p) :: byte) + unat (ucast (p AND 0xff) :: byte) = unat (p :: u16)"
proof -
  have "unat p < 65536" using unsigned_less [of p, where 'a = nat] by simp
  then have "unat (ucast (drop_bit 8 p) :: byte) = unat p div 256"
    by (simp add: unsigned_ucast_eq unsigned_drop_bit_eq drop_bit_eq_div take_bit_eq_mod unat_div)
  moreover have "p AND 0xff = take_bit 8 p" by (simp add: take_bit_eq_mask mask_eq_exp_minus_1)
  then have "unat (ucast (p AND 0xff) :: byte) = unat p mod 256"
    by (simp add: unsigned_ucast_eq unsigned_take_bit_eq take_bit_eq_mod unat_mod)
  ultimately show ?thesis by simp
qed

lemma wire_request_read:
  assumes "length ip = 4"
  shows "request_ref (wire_request cfg ip @ bs) =
    Some (SOCKS_REQUEST_PARSED_ADDR, Some (Dest_ipv4 ip (unat (sc_dest_port cfg))), bs)"
  using assms port_of_bytes [of "sc_dest_port cfg"] by (simp add: wire_request_def request_ref_addr_def)

section \<open>What the threads add up to\<close>

text \<open>A client that got a descriptor always closes it, and adds exactly one success or failure.\<close>

lemma socks5_connect_closed:
  assumes "socks5_connect net addrs cfg s = (fd, s1)" "0 \<le> tcp_connect addrs"
  shows "fd < 0 \<longrightarrow> so_closed s1"
  using assms unfolding socks5_connect_def or_close_def Let_def
  by (auto simp: close_sock_def split: prod.splits if_splits option.splits)

lemma run_single_client_adds:
  assumes "run_single_client net cfg (addrs, s) = (adds, s1)"
  shows "length (filter (\<lambda>a. a = Add_success \<or> a = Add_failure) adds) = 1" "0 \<le> tcp_connect addrs \<longrightarrow> so_closed s1"
proof -
  obtain fd s2 where c: "socks5_connect net addrs cfg s = (fd, s2)" by (cases "socks5_connect net addrs cfg s") auto
  obtain ok s3 where t: "transfer_payload (sc_bytes_per_client cfg) s2 = (ok, s3)"
    by (cases "transfer_payload (sc_bytes_per_client cfg) s2") auto
  show "length (filter (\<lambda>a. a = Add_success \<or> a = Add_failure) adds) = 1"
    using assms c t by (auto simp: run_single_client_def split: if_splits bool.splits)
  show "0 \<le> tcp_connect addrs \<longrightarrow> so_closed s1"
    using assms c t socks5_connect_closed [OF c] by (auto simp: run_single_client_def close_sock_def split: if_splits bool.splits)
qed

lemma worker_adds:
  "length (filter (\<lambda>a. a = Add_success \<or> a = Add_failure) (worker_thread net cfg peers n)) = n"
proof (induction n)
  case (Suc n)
  obtain addrs s where p: "peers n = (addrs, s)" by (cases "peers n")
  obtain adds s1 where "run_single_client net cfg (addrs, s) = (adds, s1)" by (cases "run_single_client net cfg (addrs, s)")
  with run_single_client_adds(1) [OF this] p Suc show ?case by (simp add: worker_thread_def)
qed (simp add: worker_thread_def)

lemma threads_adds:
  "length (filter (\<lambda>a. a = Add_success \<or> a = Add_failure) (concat (stress_threads net cfg peers workers))) = sum_list workers"
proof -
  have "length (filter (\<lambda>a. a = Add_success \<or> a = Add_failure)
      (concat (map (\<lambda>(t, n). worker_thread net cfg (peers t) n) (enumerate k workers)))) = sum_list workers" for k
    by (induction workers arbitrary: k) (simp_all add: worker_adds)
  then show ?thesis by (simp add: stress_threads_def)
qed

lemma interleaves_mset: "interleaves xss ys \<Longrightarrow> mset ys = mset (concat xss)"
proof (induction rule: interleaves.induct)
  case (all_done xss)
  then show ?case by simp
next
  case (one_step i xss x xs ys)
  have s: "xss = take i xss @ xss ! i # drop (Suc i) xss" "xss[i := xs] = take i xss @ xs # drop (Suc i) xss"
    using one_step.hyps(1) by (rule id_take_nth_drop, rule upd_conv_take_nth_drop)
  have "mset (concat xss) = mset (concat (take i xss)) + mset (x # xs) + mset (concat (drop (Suc i) xss))"
    using arg_cong [OF s(1), of "\<lambda>l. mset (concat l)"] one_step.hyps(2) by simp
  moreover have "mset ys = mset (concat (take i xss)) + mset xs + mset (concat (drop (Suc i) xss))"
    using one_step.IH s(2) by simp
  ultimately show ?case by simp
qed

lemma run_stress_counts:
  "wr_successes (fold apply_add order r) = wr_successes r + of_nat (count (mset order) Add_success)"
  "wr_failures (fold apply_add order r) = wr_failures r + of_nat (count (mset order) Add_failure)"
  by (induction order arbitrary: r) (auto simp: apply_add_def split: atomic_add.splits)

lemma count_outcomes:
  "length (filter (\<lambda>a. a = Add_success \<or> a = Add_failure) order) = count (mset order) Add_success + count (mset order) Add_failure"
  by (induction order) auto

text \<open>The division of the clients among the threads.\<close>

lemma spawn_loop_all:
  assumes "length (spawn_loop started base extra i k) = k"
  shows "sum_list (spawn_loop started base extra i k) = k * base + (min (i + k) extra - min i extra)"
  using assms
proof (induction k arbitrary: i)
  case (Suc k)
  then have "fst (started i) \<and> snd (started i)" "length (spawn_loop started base extra (Suc i) k) = k" by (auto split: if_splits)
  then show ?case using Suc.IH [of "Suc i"] by auto
qed simp

lemma spawn_loop_length: "length (spawn_loop started base extra i k) \<le> k"
proof (induction k arbitrary: i)
  case (Suc k)
  from Suc [of "Suc i"] show ?case by simp
qed simp

lemma run_stress_spawn_sum:
  assumes "run_stress_spawn started cfg = (0, workers)"
  shows "sum_list workers = nat (sc_clients cfg)" "length workers \<le> 64" "length workers = thread_count (sc_clients cfg)"
proof -
  let ?c = "nat (sc_clients cfg)" and ?n = "thread_count (sc_clients cfg)"
  have pos: "0 < sc_clients cfg" and w: "workers = spawn_loop started (?c div ?n) (?c mod ?n) 0 ?n" "length workers = ?n"
    using assms by (auto simp: run_stress_spawn_def Let_def split: if_splits)
  then have "0 < ?n" by (simp add: thread_count_def)
  then have "?c mod ?n < ?n" by simp
  then have "sum_list workers = ?n * (?c div ?n) + ?c mod ?n" using spawn_loop_all [of started "?c div ?n" "?c mod ?n" 0 ?n] w by simp
  then show "sum_list workers = ?c" by simp
  show "length workers \<le> 64" "length workers = ?n" using w(2) by (auto simp: thread_count_def split: if_splits)
qed

section \<open>The transfer\<close>

text \<open>
  When the other end returns as many bytes as it was sent, the transfer succeeds and has sent exactly the requested number of
  bytes; with an end that returns what it got, these are all equal.
\<close>

lemma transfer_loop_echo:
  assumes "accepts (so_wr s)" "streams (so_rd s) (replicate n v @ rest)" "chunk_size \<le> length buf" "set buf = {v}"
  shows "\<exists>s1. transfer_loop buf n s = (True, s1) \<and> so_out s1 = so_out s @ replicate n v \<and> streams (so_rd s1) rest \<and>
    accepts (so_wr s1)"
  using assms
proof (induction buf n s rule: transfer_loop.induct)
  case (1 buf n s)
  show ?case
  proof (cases "n = 0")
    case False
    define chunk where "chunk = (if n < chunk_size then n else chunk_size)"
    have c: "chunk \<le> length buf" "chunk \<le> n" "0 < chunk" using "1.prems"(3) False by (auto simp: chunk_def chunk_size_def)
    have whole: "buf = replicate (length buf) v" using "1.prems"(4) by (simp add: replicate_length_same)
    have head: "take chunk buf = replicate chunk v" using c by (subst whole) (simp add: min_absorb1)
    have split: "replicate n v = replicate chunk v @ replicate (n - chunk) v" using c by (simp add: replicate_add [symmetric])
    obtain s1 where s1: "stress_write_all (take chunk buf) s = (True, s1)" "accepts (so_wr s1)"
      "so_out s1 = so_out s @ take chunk buf" "so_rd s1 = so_rd s" using stress_write_all_ok [OF "1.prems"(1)] by blast
    have "streams (so_rd s1) (replicate chunk v @ replicate (n - chunk) v @ rest)" using "1.prems"(2) s1(4) split by simp
    then obtain s2 where s2: "read_all chunk s1 = (Some (replicate chunk v), s2)" "streams (so_rd s2) (replicate (n - chunk) v @ rest)"
      "so_wr s2 = so_wr s1" "so_out s2 = so_out s1"
      using read_all_streams [of s1 "replicate chunk v"] by auto
    have buf2: "replicate chunk v @ drop chunk buf = buf" using head by (metis append_take_drop_id)
    have "\<exists>s3. transfer_loop buf (n - chunk) s2 = (True, s3) \<and> so_out s3 = so_out s2 @ replicate (n - chunk) v \<and>
        streams (so_rd s3) rest \<and> accepts (so_wr s3)"
      using "1.IH" [OF False chunk_def s1(1) [symmetric] refl s2(1) [symmetric] refl] "1.prems" s1(2) s2 buf2 by auto
    then show ?thesis
      using False s1 s2 split head buf2 by (subst transfer_loop.simps) (auto simp: Let_def chunk_def)
  qed (use "1.prems" in \<open>simp add: transfer_loop.simps [of buf 0 s]\<close>)
qed

end
