(* ===== verification/Stress_Report.thy ===== *)
theory Stress_Report
  imports Stress_Client
begin

text \<open>
  What the load generator prints and how long it waits: the live mode of \<^verbatim>\<open>stress_client.c\<close>, the usage, the instructions, the
  metrics and the summary, and the program as a whole. The measured time and the rates computed from it are texts chosen by
  the environment, as the C library prints them.
\<close>

section \<open>Waiting\<close>

text \<open>How long a connected client keeps its tunnel.\<close>

datatype hold = No_hold | Hold_seconds int | Hold_until_stopped

definition client_hold :: "stress_config \<Rightarrow> hold" where
  "client_hold cfg =
     (if sc_mode cfg = STRESS_MODE_LIVE
      then if sc_hold_seconds cfg > 0 then Hold_seconds (sc_hold_seconds cfg) else Hold_until_stopped
      else if sc_mode cfg = STRESS_MODE_CONNECTIONS \<and> sc_hold_seconds cfg > 0 then Hold_seconds (sc_hold_seconds cfg)
      else No_hold)"

text \<open>
  \<^verbatim>\<open>while (!live_stop) sleep(1)\<close>: \<open>stops\<close> are the values of the flag at each test, which the handler of the interrupt sets; the
  result is how often the loop slept, and \<open>None\<close> when it never ends.
\<close>

fun live_wait :: "bool list \<Rightarrow> nat option" where
  "live_wait [] = None"
| "live_wait (stop # stops) = (if stop then Some 0 else map_option Suc (live_wait stops))"

definition on_live_signal :: "bool \<Rightarrow> bool" where
  "on_live_signal live_stop = True"

definition run_stress_joined :: "stress_config \<Rightarrow> bool list \<Rightarrow> (nat \<Rightarrow> bool \<times> bool) \<Rightarrow> atomic_add list \<Rightarrow> (int \<times> worker_result) option" where
  "run_stress_joined cfg stops started order =
     (let rc = fst (run_stress_spawn started cfg); joined = Some (rc, run_stress order)
      in if sc_mode cfg = STRESS_MODE_LIVE \<and> sc_hold_seconds cfg = 0
         then case live_wait stops of None \<Rightarrow> None | Some _ \<Rightarrow> joined
         else joined)"

section \<open>Texts\<close>

definition stress_usage :: "string \<Rightarrow> string" where
  "stress_usage program =
     nl (''Usage: '' @ program @ '' -u user:pass -d host:port [options]'') @
     nl ''  -H <host>       SOCKS proxy host (default 127.0.0.1)'' @
     nl ''  -p <port>       SOCKS proxy port (default 1080)'' @
     nl ''  -u <user:pass>  SOCKS credentials (required)'' @
     nl ''  -d <host:port>  destination behind proxy (required)'' @
     nl ''  -n <count>      number of concurrent clients (default 10)'' @
     nl ''  -b <bytes>      bytes to send per client in throughput mode (default 65536)'' @
     nl ''  -k <seconds>    hold tunnels after connect (live: 0 = until Ctrl+C)'' @
     nl ''  -M <mode>       connections | throughput | live (default connections)'' @
     nl ''  -m <port>       monitor port for STATS (default 8080)'' @
     nl ''  -A <user:pass>  monitor admin credentials (enables STATS query)'' @
     nl ''  -q              query monitor STATS before and after the run'' @
     nl ''  -h              show this help''"

definition print_live_instructions :: "stress_config \<Rightarrow> string" where
  "print_live_instructions cfg =
     nl [] @ nl (''  '' @ int_text (sc_clients cfg) @ '' tunnel(s) opening. While they stay up, use the monitor in another terminal:'') @
     nl (''    ./bin/client -p '' @ dec (unat (sc_monitor_port cfg))) @
     nl ''    AUTH <admin> <pass>'' @ nl ''    STATS'' @ nl ''    CONNECTIONS'' @ nl [] @
     (if sc_hold_seconds cfg > 0
      then nl (''  Holding for '' @ int_text (sc_hold_seconds cfg) @ '' s (-k). No monitor queries from this tool.'') @ nl []
      else nl ''  Press Ctrl+C here to close all tunnels and print the summary.'' @ nl [])"

definition print_monitor_metrics :: "string \<Rightarrow> monitor_metrics option \<Rightarrow> string" where
  "print_monitor_metrics label m = (case m of
       None \<Rightarrow> nl (label @ '': monitor STATS unavailable'')
     | Some v \<Rightarrow> nl (label @ '': total='' @ dec (unat (mm_total_connections v)) @
         '' concurrent='' @ dec (unat (mm_concurrent_connections v)) @
         '' bytes_up='' @ dec (unat (mm_bytes_up v)) @ '' bytes_down='' @ dec (unat (mm_bytes_down v))))"

record figures =
  fg_elapsed :: string
  fg_mbps :: string
  fg_per_client :: string

definition stress_summary :: "figures \<Rightarrow> stress_config \<Rightarrow> worker_result \<Rightarrow> monitor_metrics option \<Rightarrow> monitor_metrics option \<Rightarrow> string" where
  "stress_summary fg cfg r before after =
     nl (''mode='' @ mode_name (sc_mode cfg) @ '' clients='' @ int_text (sc_clients cfg) @ '' elapsed='' @ fg_elapsed fg @
         ''s successes='' @ int_text (sint (wr_successes r)) @ '' failures='' @ int_text (sint (wr_failures r))) @
     (if sc_mode cfg = STRESS_MODE_THROUGHPUT
      then nl (''bytes_sent='' @ dec (unat (wr_bytes_sent r)) @ '' bytes_received='' @ dec (unat (wr_bytes_received r)) @
               '' throughput='' @ fg_mbps fg @ '' MiB/s aggregate ('' @ fg_per_client fg @ '' MiB/s per client)'')
      else []) @
     (case (before, after) of
        (Some b, Some a) \<Rightarrow>
          if sc_query_monitor cfg
          then nl (''monitor_delta_bytes_up='' @ dec (unat (mm_bytes_up a - mm_bytes_up b)) @
                   '' monitor_delta_bytes_down='' @ dec (unat (mm_bytes_down a - mm_bytes_down b)) @
                   '' peak_concurrent='' @ dec (unat (mm_concurrent_connections a)))
          else []
      | _ \<Rightarrow> [])"

section \<open>The program\<close>

record outputs =
  po_code :: int
  po_stdout :: string
  po_stderr :: string

text \<open>\<open>None\<close>: the program does not return.\<close>

definition stress_program ::
  "string \<Rightarrow> (char \<times> string option) list \<Rightarrow> flag_table \<Rightarrow> (int \<times> bool) list option \<times> sock \<Rightarrow> (int \<times> bool) list option \<times> sock \<Rightarrow>
   (nat \<Rightarrow> bool \<times> bool) \<Rightarrow> bool list \<Rightarrow> figures \<Rightarrow> atomic_add list \<Rightarrow> outputs option" where
  "stress_program program opts flags conn1 conn2 started stops fg order = (case stress_start_flags opts flags of
       Stress_exit code \<Rightarrow> Some \<lparr>po_code = code, po_stdout = [], po_stderr = stress_usage program\<rparr>
     | Stress_run cfg \<Rightarrow>
         (let f = snd (setup_flags opts ''H:p:u:d:n:b:k:M:m:A:qh'' flags);
              live = (if sc_mode cfg = STRESS_MODE_LIVE
                      then (if has_flag f (CHR ''q'') then nl ''note: -q ignored in live mode; use ./bin/client for monitor'' else []) @
                           print_live_instructions cfg
                      else []);
              fetch = (\<lambda>(addrs, s). if sc_query_monitor cfg then fst (monitor_fetch_stats addrs cfg s) else None);
              show_metrics = (\<lambda>label m. if sc_query_monitor cfg then print_monitor_metrics label m else []);
              before = fetch conn1; after = fetch conn2
          in case run_stress_joined cfg stops started order of
               None \<Rightarrow> None
             | Some (rc, r) \<Rightarrow>
                 Some \<lparr>po_code = (if sint (wr_failures r) > 0 then EXIT_FAILURE else EXIT_SUCCESS),
                       po_stdout = stress_summary fg cfg r before after,
                       po_stderr = live @ show_metrics ''STATS before'' before @ show_metrics ''STATS after'' after @
                         (if rc \<noteq> 0 then nl ''warning: worker spawn incomplete'' else [])\<rparr>))"

section \<open>Properties\<close>

text \<open>The waiting loop ends exactly when the interrupt has been seen, after as many seconds as tests before it.\<close>

lemma live_wait_iff: "live_wait stops = Some n \<longleftrightarrow> n < length stops \<and> stops ! n \<and> (\<forall>i < n. \<not> stops ! i)"
proof (induction stops arbitrary: n)
  case (Cons stop stops)
  show ?case
  proof (cases stop)
    case False
    then show ?thesis using Cons.IH by (cases n) (auto simp: All_less_Suc2)
  qed (auto simp: nth_Cons')
qed simp

text \<open>The exit code is that of \<open>stress_main\<close> whenever the program returns, and it returns unless it waits in vain.\<close>

lemma stress_program_code:
  "stress_program program opts flags conn1 conn2 started stops fg order = Some po \<Longrightarrow>
    po_code po = fst (stress_main opts flags conn1 conn2 order)"
  by (auto simp: stress_program_def stress_main_def run_stress_joined_def Let_def split: stress_start.splits option.splits if_splits)

lemma stress_program_returns:
  "stress_program program opts flags conn1 conn2 started stops fg order = None \<longleftrightarrow>
    (\<exists>cfg. stress_start_flags opts flags = Stress_run cfg \<and> client_hold cfg = Hold_until_stopped \<and> sc_hold_seconds cfg = 0 \<and>
      True \<notin> set stops)"
proof -
  have "live_wait stops = None \<longleftrightarrow> True \<notin> set stops" by (induction stops) auto
  moreover have "client_hold cfg = Hold_until_stopped \<longleftrightarrow> sc_mode cfg = STRESS_MODE_LIVE \<and> sc_hold_seconds cfg \<le> 0" for cfg
    by (auto simp: client_hold_def)
  ultimately show ?thesis
    by (cases "stress_start_flags opts flags")
      (auto simp: stress_program_def run_stress_joined_def Let_def split: option.splits if_splits)
qed

text \<open>However many clients are asked for, no more than 64 threads run, so no more than 64 tunnels are open at a time.\<close>

lemma at_most_64: "length (snd (run_stress_spawn started cfg)) \<le> 64"
proof -
  have l: "length (spawn_loop started base extra i k) \<le> k" for base extra i k
    by (induction k arbitrary: i) auto
  have "thread_count (sc_clients cfg) \<le> 64" by (auto simp: thread_count_def)
  then show ?thesis using le_trans [OF l] by (auto simp: run_stress_spawn_def Let_def)
qed

end
