(* ===== verification/Echo_Backend.thy ===== *)
theory Echo_Backend
  imports Startup Blocking_Io
begin

text \<open>
  The echo service behind the proxy in the load tests, \<^verbatim>\<open>src/stress/echo_backend.c\<close>: the loop of a client thread, the
  start of a thread per connection and the accept loop. The flag \<open>keep_running\<close> is cleared by a signal at any moment, so the
  loops take the number of times they still find it set: a loop with the number 0 sees the signal.
\<close>

section \<open>Operations\<close>

definition ECHO_BUF_SIZE :: nat where "ECHO_BUF_SIZE = 65536"

text \<open>The inner loop: whether everything was written, the remaining answers and the bytes written.\<close>

fun echo_write :: "wr_answer list \<Rightarrow> byte list \<Rightarrow> byte list \<Rightarrow> bool \<times> wr_answer list \<times> byte list" where
  "echo_write ws [] out = (True, ws, out)"
| "echo_write [] (d # ds) out = (True, [], out @ d # ds)"
| "echo_write (W_errno e # ws) (d # ds) out = (if e = EINTR then echo_write ws (d # ds) out else (False, ws, out))"
| "echo_write (Took n # ws) (d # ds) out = echo_write ws (drop n (d # ds)) (out @ take n (d # ds))"

text \<open>The bytes echoed, or \<open>None\<close> for the result \<open>-1\<close>, and the socket.\<close>

fun echo_rounds :: "nat \<Rightarrow> nat \<Rightarrow> sock \<Rightarrow> nat option \<times> sock" where
  "echo_rounds 0 tot s = (Some tot, s)"
| "echo_rounds (Suc k) tot s = (case so_rd s of
      [] \<Rightarrow> (Some tot, s)
    | R_errno e # rs \<Rightarrow> if e = EINTR then echo_rounds k tot (s\<lparr>so_rd := rs\<rparr>) else (None, s\<lparr>so_rd := rs\<rparr>)
    | R_data bs # rs \<Rightarrow>
        if bs = [] then (Some tot, s\<lparr>so_rd := rs\<rparr>)
        else let n = min (length bs) ECHO_BUF_SIZE; (ok, ws, out) = echo_write (so_wr s) (take n bs) (so_out s);
                 s1 = s\<lparr>so_rd := leftover ECHO_BUF_SIZE bs rs, so_wr := ws, so_out := out\<rparr>
             in if ok then echo_rounds k (tot + n) s1 else (None, s1))"

definition read_write_loop :: "nat \<Rightarrow> sock \<Rightarrow> nat option \<times> sock" where
  "read_write_loop rounds s = echo_rounds rounds 0 s"

definition client_thread :: "nat \<Rightarrow> sock \<Rightarrow> sock" where
  "client_thread rounds s = close_sock (snd (read_write_loop rounds s))"

text \<open>
  A connection handed to a thread: \<open>None\<close> when \<open>malloc\<close> or \<open>pthread_create\<close> fail, with the socket closed at once.
\<close>

datatype spawned = Running sock | Refused sock

definition spawn_client_handler :: "bool \<Rightarrow> bool \<Rightarrow> sock \<Rightarrow> spawned" where
  "spawn_client_handler mem created s = (if \<not> mem \<or> \<not> created then Refused (close_sock s) else Running s)"

datatype accepted = Client sock bool bool | Accept_error int

text \<open>The accept loop of \<open>main\<close>: the connections in the order they were accepted.\<close>

fun accept_loop :: "nat \<Rightarrow> accepted list \<Rightarrow> spawned list" where
  "accept_loop 0 conns = []"
| "accept_loop (Suc k) [] = []"
| "accept_loop (Suc k) (Accept_error e # rest) = (if e = EINTR then accept_loop k rest else [])"
| "accept_loop (Suc k) (Client s mem created # rest) = spawn_client_handler mem created s # accept_loop k rest"

text \<open>The exit code of \<open>main\<close> with the connections it served; \<open>setup\<close> are the answers of the calls that open the listening socket.\<close>

definition echo_backend_main ::
  "(char \<times> string option) list \<Rightarrow> flag_table \<Rightarrow> bool \<times> bool \<times> bool \<times> bool \<Rightarrow> nat \<Rightarrow> accepted list \<Rightarrow> int \<times> spawned list" where
  "echo_backend_main opts flags setup rounds conns = (let (rc, f) = setup_flags opts ''p:h'' flags
     in if rc \<noteq> 0 then (EXIT_FAILURE, [])
        else if has_flag f (CHR ''h'') then (EXIT_SUCCESS, [])
        else case flag_port f (CHR ''p'') 9999 of
               None \<Rightarrow> (EXIT_FAILURE, [])
             | Some port \<Rightarrow> (case setup of (socket_ok, reuse_ok, bind_ok, listen_ok) \<Rightarrow>
                 if \<not> socket_ok \<or> \<not> reuse_ok \<or> \<not> bind_ok \<or> \<not> listen_ok then (EXIT_FAILURE, [])
                 else (EXIT_SUCCESS, accept_loop rounds conns)))"

section \<open>What is echoed\<close>

lemma echo_write_prefix:
  "echo_write ws data out = (ok, ws', out1) \<Longrightarrow> \<exists>dn rest. data = dn @ rest \<and> out1 = out @ dn \<and> (ok \<longrightarrow> rest = [])"
proof (induction ws data out rule: echo_write.induct)
  case (4 n ws d ds out)
  then obtain dn rest where
    "drop n (d # ds) = dn @ rest" "out1 = (out @ take n (d # ds)) @ dn" "ok \<longrightarrow> rest = []" by fastforce
  then show ?case by (metis append_assoc append_take_drop_id)
qed (auto split: if_splits)

text \<open>
  In every run the bytes written are a prefix of the bytes received, whatever is read and written in pieces; a run that ends
  without an error has echoed everything it received and returns its length.
\<close>

lemma echo_rounds_prefix:
  assumes "echo_rounds k tot s = (r, s1)"
  shows "\<exists>got dn rest. concat (map answer_bytes (so_rd s)) = got @ concat (map answer_bytes (so_rd s1)) \<and> got = dn @ rest \<and>
    so_out s1 = so_out s @ dn \<and> (\<forall>n. r = Some n \<longrightarrow> rest = [] \<and> n = tot + length dn)"
  using assms
proof (induction k arbitrary: tot s)
  case (Suc k)
  show ?case
  proof (cases "so_rd s")
    case (Cons a rs)
    show ?thesis
    proof (cases a)
      case (R_errno e)
      then show ?thesis
        using Suc.prems Cons Suc.IH [of tot "s\<lparr>so_rd := rs\<rparr>"] by (cases "e = EINTR") auto
    next
      case (R_data bs)
      let ?n = "min (length bs) ECHO_BUF_SIZE" and ?l = "leftover ECHO_BUF_SIZE bs rs"
      have whole: "concat (map answer_bytes (so_rd s)) = take ?n bs @ concat (map answer_bytes ?l)"
        using Cons R_data by (auto simp: leftover_def min_def)
      obtain ok ws out where w: "echo_write (so_wr s) (take ?n bs) (so_out s) = (ok, ws, out)" by (metis prod_cases3)
      obtain dn rest where d: "take ?n bs = dn @ rest" "out = so_out s @ dn" "ok \<longrightarrow> rest = []"
        using echo_write_prefix [OF w] by blast
      let ?s = "s\<lparr>so_rd := ?l, so_wr := ws, so_out := out\<rparr>"
      consider "bs = []" | "bs \<noteq> []" "\<not> ok" | "bs \<noteq> []" ok by blast
      then show ?thesis
      proof cases
        case 1
        then show ?thesis using Suc.prems Cons R_data by auto
      next
        case 2
        then have "r = None" "s1 = ?s" using Suc.prems Cons R_data w by (auto simp: Let_def)
        then show ?thesis using whole d by auto
      next
        case 3
        then have run: "echo_rounds k (tot + ?n) ?s = (r, s1)" using Suc.prems Cons R_data w by (auto simp: Let_def)
        obtain got dn2 rest2 where IH: "concat (map answer_bytes ?l) = got @ concat (map answer_bytes (so_rd s1))"
          "got = dn2 @ rest2" "so_out s1 = out @ dn2" "\<forall>n. r = Some n \<longrightarrow> rest2 = [] \<and> n = tot + ?n + length dn2"
          using Suc.IH [OF run] by auto
        have dn: "dn = take ?n bs" using d 3 by simp
        then have "length dn = ?n" by simp
        then have fin: "\<forall>n. r = Some n \<longrightarrow> rest2 = [] \<and> n = tot + length (dn @ dn2)" using IH(4) by (simp add: add.assoc)
        have got: "concat (map answer_bytes (so_rd s)) = ((dn @ dn2) @ rest2) @ concat (map answer_bytes (so_rd s1))"
          unfolding whole IH(1) IH(2) dn by simp
        have "so_out s1 = so_out s @ dn @ dn2" unfolding IH(3) d(2) by simp
        with fin got show ?thesis by blast
      qed
    qed
  qed (use Suc.prems in auto)
qed auto

lemma echo_write_ok: "accepts ws \<Longrightarrow> \<exists>ws'. echo_write ws data out = (True, ws', out @ data) \<and> accepts ws'"
proof (induction ws data out rule: echo_write.induct)
  case (4 n ws d ds out)
  then obtain ws' where "echo_write ws (drop n (d # ds)) (out @ take n (d # ds)) =
      (True, ws', (out @ take n (d # ds)) @ drop n (d # ds))" "accepts ws'" by auto
  then show ?case by (auto simp del: drop_Cons' take_Cons')
qed auto

text \<open>A stream that is delivered and taken is echoed completely, given enough rounds.\<close>

lemma echo_rounds_streams:
  assumes "streams (so_rd s) bs" "accepts (so_wr s)" "sum_list (map (\<lambda>r. Suc (length (answer_bytes r))) (so_rd s)) \<le> k"
  shows "\<exists>s1. echo_rounds k tot s = (Some (tot + length bs), s1) \<and> so_out s1 = so_out s @ bs \<and> so_closed s1 = so_closed s"
  using assms
proof (induction k arbitrary: tot s bs)
  case 0
  then show ?case by (cases "so_rd s") auto
next
  case (Suc k)
  show ?case
  proof (cases "so_rd s")
    case (Cons a rs)
    show ?thesis
    proof (cases a)
      case (R_errno e)
      then show ?thesis using Suc.prems Cons Suc.IH [of "s\<lparr>so_rd := rs\<rparr>" bs tot] by auto
    next
      case (R_data xs)
      let ?n = "min (length xs) ECHO_BUF_SIZE" and ?l = "leftover ECHO_BUF_SIZE xs rs"
      obtain ys where y: "xs \<noteq> []" "bs = xs @ ys" "streams rs ys" using Suc.prems(1) Cons R_data by auto
      obtain ws where w: "echo_write (so_wr s) (take ?n xs) (so_out s) = (True, ws, so_out s @ take ?n xs)" "accepts ws"
        using echo_write_ok [OF Suc.prems(2)] by blast
      let ?s = "s\<lparr>so_rd := ?l, so_wr := ws, so_out := so_out s @ take ?n xs\<rparr>"
      have l: "streams ?l (drop ?n bs)" using y by (auto simp: leftover_def min_def)
      have "sum_list (map (\<lambda>r. Suc (length (answer_bytes r))) ?l) \<le> k"
        using Suc.prems(3) Cons R_data y(1) by (cases xs) (auto simp: leftover_def ECHO_BUF_SIZE_def)
      then obtain s1 where s1: "echo_rounds k (tot + ?n) ?s = (Some (tot + ?n + length (drop ?n bs)), s1)"
        "so_out s1 = (so_out s @ take ?n xs) @ drop ?n bs" "so_closed s1 = so_closed s"
        using Suc.IH [of ?s "drop ?n bs" "tot + ?n"] l w(2) by auto
      have "take ?n xs = take ?n bs" using y(2) by simp
      then have "(so_out s @ take ?n xs) @ drop ?n bs = so_out s @ bs" by (metis append_assoc append_take_drop_id)
      moreover have "tot + ?n + length (drop ?n bs) = tot + length bs" using y(2) by simp
      ultimately show ?thesis using s1 w Cons R_data y(1) by (simp add: Let_def)
    qed
  qed (use Suc.prems in auto)
qed

end
