(* ===== verification/Echo.thy ===== *)
theory Echo
  imports World
begin

text \<open>
  The echo server \<^verbatim>\<open>src/server/echo/echo.c\<close>, the scaffold the proxy was built from: the same selector and buffers, one
  descriptor per client. Its world is its own: the selector, the clients on the heap, the server (\<open>None\<close> once it is freed) and
  the answers of the operating system, which as in \<open>World\<close> are an arbitrary sequence.
\<close>

section \<open>The world of the server\<close>

definition ECHO_BUFFER_SIZE :: nat where "ECHO_BUFFER_SIZE = 4096"

datatype echo_handler_id = E_client | E_passive

datatype echo_data = ED_client nat | ED_server

record echo_client =
  ec_rb :: buffer

record echo_server =
  es_listen_fd :: int
  es_port :: u16
  es_active_clients :: nat

record echo_answer =
  ea_ret :: int
  ea_err :: errno
  ea_data :: "byte list"
  ea_alloc :: "(echo_handler_id, echo_data) alloc"

record echo_world =
  ew_sel :: "(echo_handler_id, echo_data) fdselector"
  ew_clients :: "nat \<Rightarrow> echo_client option"
  ew_next :: nat
  ew_srv :: "echo_server option"
  ew_stop :: bool
  ew_os :: "nat \<Rightarrow> echo_answer"
  ew_calls :: nat
  ew_open :: "int list"
  ew_trace :: "effect list"

type_synonym 'a eact = "(echo_world, 'a) action"
type_synonym ekey = "echo_data selector_key"

definition ew_put :: "(echo_handler_id, echo_data) fdselector \<Rightarrow> echo_world \<Rightarrow> echo_world" where
  "ew_put s w = w\<lparr>ew_sel := s\<rparr>"

definition ecall :: "echo_answer eact" where
  "ecall = (\<lambda>w. Inr (ew_os w (ew_calls w), w\<lparr>ew_calls := Suc (ew_calls w)\<rparr>))"

definition etrace :: "effect \<Rightarrow> unit eact" where
  "etrace e = act_mod (\<lambda>w. w\<lparr>ew_trace := ew_trace w @ [e]\<rparr>)"

definition eread :: "int \<Rightarrow> nat \<Rightarrow> (errno + byte list) eact" where
  "eread fd n = act_bind ecall (\<lambda>a.
     if ea_ret a < 0 then act_ret (Inl (ea_err a))
     else act_then (etrace (Received fd (take n (ea_data a)))) (act_ret (Inr (take n (ea_data a)))))"

definition ewrite :: "int \<Rightarrow> byte list \<Rightarrow> (errno + nat) eact" where
  "ewrite fd bs = act_bind ecall (\<lambda>a.
     if ea_ret a < 0 then act_ret (Inl (ea_err a))
     else let n = min (nat (ea_ret a)) (length bs) in act_then (etrace (Sent fd (take n bs))) (act_ret (Inr n)))"

definition eopen :: "(errno + int) eact" where
  "eopen = act_bind ecall (\<lambda>a.
     if ea_ret a < 0 then act_ret (Inl (ea_err a))
     else act_bind (act_get (\<lambda>w. lowest_fd (ew_open w))) (\<lambda>fd.
          act_then (act_mod (\<lambda>w. w\<lparr>ew_open := fd # ew_open w\<rparr>)) (act_then (etrace (Opened fd)) (act_ret (Inr fd)))))"

definition eclose :: "int \<Rightarrow> unit eact" where
  "eclose fd = act_then (act_mod (\<lambda>w. w\<lparr>ew_open := removeAll fd (ew_open w)\<rparr>)) (etrace (Closed fd))"

definition eok :: "bool eact" where
  "eok = act_bind ecall (\<lambda>a. act_ret (ea_ret a \<ge> 0))"

definition echo_set_nio :: "bool eact" where
  "echo_set_nio = act_bind eok (\<lambda>got. if got then eok else act_ret False)"

definition client_get :: "nat \<Rightarrow> echo_client eact" where
  "client_get cid = (\<lambda>w. case ew_clients w cid of None \<Rightarrow> Inl Use_after_free | Some c \<Rightarrow> Inr (c, w))"

definition client_set :: "nat \<Rightarrow> echo_client \<Rightarrow> unit eact" where
  "client_set cid c = (\<lambda>w. case ew_clients w cid of
     None \<Rightarrow> Inl Use_after_free
   | Some _ \<Rightarrow> Inr ((), w\<lparr>ew_clients := (ew_clients w)(cid \<mapsto> c)\<rparr>))"

definition srv_get :: "echo_server eact" where
  "srv_get = (\<lambda>w. case ew_srv w of None \<Rightarrow> Inl Use_after_free | Some srv \<Rightarrow> Inr (srv, w))"

definition srv_mod :: "(echo_server \<Rightarrow> echo_server) \<Rightarrow> unit eact" where
  "srv_mod f = act_bind srv_get (\<lambda>srv. act_mod (\<lambda>w. w\<lparr>ew_srv := Some (f srv)\<rparr>))"

definition einterest :: "ekey \<Rightarrow> fd_interest \<Rightarrow> unit eact" where
  "einterest key i = (\<lambda>w. run_bind (selector_set_interest_key (ew_sel w) key i) (\<lambda>(_, s). Inr ((), ew_put s w)))"

definition eregister :: "int \<Rightarrow> echo_handler_id \<Rightarrow> fd_interest \<Rightarrow> echo_data \<Rightarrow> selector_status eact" where
  "eregister fd h i d = act_bind ecall (\<lambda>a w.
     run_bind (selector_register (ea_alloc a) (ew_sel w) fd (Some h) i (Some d)) (\<lambda>(st, s). Inr (st, ew_put s w)))"

section \<open>Closing\<close>

definition echo_client_close :: "ekey \<Rightarrow> unit eact" where
  "echo_client_close key =
     act_then (case key_data key of
                 None \<Rightarrow> act_ret ()
               | Some (ED_client cid) \<Rightarrow> act_then (client_get cid) (srv_mod (\<lambda>srv.
                   if es_active_clients srv > 0 then srv\<lparr>es_active_clients := es_active_clients srv - 1\<rparr> else srv))
               | Some ED_server \<Rightarrow> act_fail Bad_argument)
     (act_then (act_when (key_fd key \<ge> 0) (eclose (key_fd key)))
       (case key_data key of
          Some (ED_client cid) \<Rightarrow> act_mod (\<lambda>w. w\<lparr>ew_clients := (ew_clients w)(cid := None)\<rparr>)
        | _ \<Rightarrow> act_ret ()))"

definition echo_passive_close :: "ekey \<Rightarrow> unit eact" where
  "echo_passive_close key =
     act_then (act_when (key_data key \<noteq> None) (srv_mod (\<lambda>srv. srv\<lparr>es_listen_fd := -1\<rparr>)))
       (act_when (key_fd key \<ge> 0) (eclose (key_fd key)))"

definition as_echo_handler :: "unit eact \<Rightarrow> echo_world \<Rightarrow> echo_world run" where
  "as_echo_handler m w = run_bind (m w) (\<lambda>(_, w1). Inr w1)"

definition echo_closer :: "echo_handler_id \<Rightarrow> (ekey \<Rightarrow> echo_world \<Rightarrow> echo_world run) option" where
  "echo_closer h = Some (case h of
      E_client \<Rightarrow> (\<lambda>key. as_echo_handler (echo_client_close key))
    | E_passive \<Rightarrow> (\<lambda>key. as_echo_handler (echo_passive_close key)))"

definition eunregister :: "int \<Rightarrow> unit eact" where
  "eunregister fd = (\<lambda>w. run_bind (selector_unregister_fd ew_sel ew_put echo_closer fd w) (\<lambda>(_, w1). Inr ((), w1)))"

section \<open>Clients\<close>

definition echo_client_interest :: "echo_client \<Rightarrow> fd_interest" where
  "echo_client_interest c =
     (if buffer_can_write (ec_rb c) then OP_READ else OP_NOOP) OR (if buffer_can_read (ec_rb c) then OP_WRITE else OP_NOOP)"

definition echo_unregister_client :: "ekey \<Rightarrow> unit eact" where
  "echo_unregister_client key = eunregister (key_fd key)"

definition echo_client_read :: "ekey \<Rightarrow> nat \<Rightarrow> unit eact" where
  "echo_client_read key cid = act_bind (client_get cid) (\<lambda>c.
     act_bind (act_lift (buffer_write_ptr (ec_rb c))) (\<lambda>(ptr, available).
     if available = 0 then einterest key (echo_client_interest c)
     else act_bind (eread (key_fd key) available) (\<lambda>r.
       case r of
         Inl e \<Rightarrow> if e = EAGAIN then einterest key (echo_client_interest c) else echo_unregister_client key
       | Inr bs \<Rightarrow>
           if bs = [] then echo_unregister_client key
           else act_bind (act_lift (run_bind (buffer_copy_in (ec_rb c) bs) (\<lambda>rb. buffer_write_adv rb (int (length bs))))) (\<lambda>rb.
                act_then (client_set cid (c\<lparr>ec_rb := rb\<rparr>)) (einterest key (echo_client_interest (c\<lparr>ec_rb := rb\<rparr>)))))))"

definition echo_client_write :: "ekey \<Rightarrow> nat \<Rightarrow> unit eact" where
  "echo_client_write key cid = act_bind (client_get cid) (\<lambda>c.
     act_bind (act_lift (buffer_read_ptr (ec_rb c))) (\<lambda>(ptr, pending).
     if pending = 0 then einterest key (echo_client_interest c)
     else act_bind (ewrite (key_fd key) (buffer_pending (ec_rb c))) (\<lambda>r.
       case r of
         Inl e \<Rightarrow> if e = EAGAIN then einterest key (echo_client_interest c) else echo_unregister_client key
       | Inr n \<Rightarrow>
           act_bind (act_lift (buffer_read_adv (ec_rb c) (int n))) (\<lambda>rb.
           act_then (client_set cid (c\<lparr>ec_rb := buffer_compact rb\<rparr>))
             (einterest key (echo_client_interest (c\<lparr>ec_rb := buffer_compact rb\<rparr>)))))))"

section \<open>The server\<close>

text \<open>A client that \<open>calloc\<close> has zeroed and \<open>buffer_init\<close> has set up.\<close>

definition new_client :: echo_client where
  "new_client = \<lparr>ec_rb = buffer_init ECHO_BUFFER_SIZE (replicate ECHO_BUFFER_SIZE 0)\<rparr>"

text \<open>The accept loop; \<open>fuel\<close> bounds the connections waiting.\<close>

fun echo_passive_loop :: "nat \<Rightarrow> unit eact" where
  "echo_passive_loop 0 = act_fail No_return"
| "echo_passive_loop (Suc fuel) = act_bind eopen (\<lambda>r.
     case r of
       Inl e \<Rightarrow> act_ret ()
     | Inr fd \<Rightarrow> act_bind echo_set_nio (\<lambda>nio.
         if \<not> nio then act_then (eclose fd) (echo_passive_loop fuel)
         else act_bind eok (\<lambda>mem.
           if \<not> mem then act_then (eclose fd) (echo_passive_loop fuel)
           else act_bind (act_get ew_next) (\<lambda>cid.
             act_then (act_mod (\<lambda>w. w\<lparr>ew_next := Suc (ew_next w), ew_clients := (ew_clients w)(cid \<mapsto> new_client)\<rparr>))
             (act_bind (eregister fd E_client OP_READ (ED_client cid)) (\<lambda>st.
               if st \<noteq> SELECTOR_SUCCESS
               then act_then (act_mod (\<lambda>w. w\<lparr>ew_clients := (ew_clients w)(cid := None)\<rparr>))
                      (act_then (eclose fd) (echo_passive_loop fuel))
               else act_then (srv_mod (\<lambda>srv. srv\<lparr>es_active_clients := Suc (es_active_clients srv)\<rparr>))
                      (echo_passive_loop fuel)))))))"

definition echo_passive_read :: "nat \<Rightarrow> ekey \<Rightarrow> unit eact" where
  "echo_passive_read backlog key = echo_passive_loop (Suc backlog)"

text \<open>The listening socket; the answer to \<open>getsockname\<close> carries the port in \<open>ea_ret\<close>.\<close>

definition echo_create_listen_socket :: "u16 \<Rightarrow> (int \<times> u16) eact" where
  "echo_create_listen_socket port = act_bind eopen (\<lambda>r.
     case r of
       Inl _ \<Rightarrow> act_ret (-1, port)
     | Inr fd \<Rightarrow>
         act_bind eok (\<lambda>reuse. if \<not> reuse then act_then (eclose fd) (act_ret (-1, port)) else
         act_bind eok (\<lambda>v6only. if \<not> v6only then act_then (eclose fd) (act_ret (-1, port)) else
         act_bind eok (\<lambda>bound. if \<not> bound then act_then (eclose fd) (act_ret (-1, port)) else
         act_bind eok (\<lambda>listening. if \<not> listening then act_then (eclose fd) (act_ret (-1, port)) else
         act_bind ecall (\<lambda>a.
         let port1 = (if ea_ret a \<ge> 0 then of_int (ea_ret a) else port) in
         act_bind echo_set_nio (\<lambda>nio. if \<not> nio then act_then (eclose fd) (act_ret (-1, port1)) else act_ret (fd, port1))))))))"

definition echo_server_init :: "u16 \<Rightarrow> selector_status eact" where
  "echo_server_init port = act_bind eok (\<lambda>mem.
     if \<not> mem then act_ret SELECTOR_ENOMEM
     else act_bind (echo_create_listen_socket port) (\<lambda>(fd, bound_port).
       if fd < 0 then act_ret SELECTOR_IO
       else act_bind (eregister fd E_passive OP_READ ED_server) (\<lambda>st.
         if st \<noteq> SELECTOR_SUCCESS then act_then (eclose fd) (act_ret st)
         else act_then (act_mod (\<lambda>w. w\<lparr>ew_srv := Some \<lparr>es_listen_fd = fd, es_port = bound_port, es_active_clients = 0\<rparr>\<rparr>))
                (act_ret SELECTOR_SUCCESS))))"

text \<open>A null server is the case \<open>ew_srv w = None\<close>.\<close>

definition echo_server_stop_accepting :: "unit eact" where
  "echo_server_stop_accepting = act_bind (act_get ew_srv) (\<lambda>s. case s of
      None \<Rightarrow> act_ret ()
    | Some srv \<Rightarrow> if es_listen_fd srv < 0 then act_ret ()
                  else act_then (eunregister (es_listen_fd srv)) (srv_mod (\<lambda>srv. srv\<lparr>es_listen_fd := -1\<rparr>)))"

definition echo_server_destroy :: "unit eact" where
  "echo_server_destroy = act_bind (act_get ew_srv) (\<lambda>s. case s of
      None \<Rightarrow> act_ret ()
    | Some srv \<Rightarrow> act_then echo_server_stop_accepting (act_mod (\<lambda>w. w\<lparr>ew_srv := None\<rparr>)))"

definition echo_server_is_empty :: "echo_world \<Rightarrow> bool" where
  "echo_server_is_empty w = (case ew_srv w of None \<Rightarrow> True | Some srv \<Rightarrow> es_listen_fd srv < 0 \<and> es_active_clients srv = 0)"

definition echo_server_port :: "echo_world \<Rightarrow> u16" where
  "echo_server_port w = (case ew_srv w of None \<Rightarrow> 0 | Some srv \<Rightarrow> es_port srv)"

definition on_client :: "(ekey \<Rightarrow> nat \<Rightarrow> unit eact) \<Rightarrow> ekey \<Rightarrow> echo_world \<Rightarrow> echo_world run" where
  "on_client f key = as_echo_handler (case key_data key of Some (ED_client cid) \<Rightarrow> f key cid | _ \<Rightarrow> act_fail Bad_argument)"

definition echo_handlers :: "nat \<Rightarrow> echo_handler_id \<Rightarrow> (echo_data, echo_world) fd_handler" where
  "echo_handlers backlog h = (case h of
      E_client \<Rightarrow> \<lparr>handle_read = Some (on_client echo_client_read), handle_write = Some (on_client echo_client_write),
        handle_block = None, handle_close = echo_closer E_client\<rparr>
    | E_passive \<Rightarrow> \<lparr>handle_read = Some (\<lambda>key. as_echo_handler (echo_passive_read backlog key)), handle_write = None,
        handle_block = None, handle_close = echo_closer E_passive\<rparr>)"

definition echo_server_run_once :: "nat \<Rightarrow> epoll_result \<Rightarrow> selector_status eact" where
  "echo_server_run_once backlog res = act_bind (act_get (\<lambda>w. (ew_srv w, ew_stop w))) (\<lambda>(s, stop). case s of
      None \<Rightarrow> act_ret SELECTOR_IARGS
    | Some srv \<Rightarrow> act_then (act_when (stop \<and> es_listen_fd srv \<ge> 0) echo_server_stop_accepting)
        (selector_select ew_sel ew_put (echo_handlers backlog) res))"

end
