(* ===== verification/Echo_Flow.thy ===== *)
theory Echo_Flow
  imports Echo
begin

text \<open>
  What an echo client gets back: under any sequence of readable and writable events and any answers of the system, the bytes
  sent to a client are the bytes received from it, in order, up to those still in its buffer, and the handlers never fault.
\<close>

section \<open>Live and closed clients\<close>

text \<open>The interest in the selector always is the one the buffer calls for, and it is never empty.\<close>

definition echo_live :: "int \<Rightarrow> nat \<Rightarrow> echo_client \<Rightarrow> echo_world \<Rightarrow> bool" where
  "echo_live fd cid c w \<longleftrightarrow> sel_inv (ew_sel w) \<and> ew_srv w \<noteq> None \<and> ew_clients w cid = Some c \<and>
     registered (ew_sel w) fd = Some (E_client, echo_client_interest c, Some (ED_client cid)) \<and>
     buffer_inv (ec_rb c) \<and> (buffer_pending (ec_rb c) = [] \<longrightarrow> 0 < buffer_room (ec_rb c))"

definition echo_gone :: "int \<Rightarrow> nat \<Rightarrow> echo_world \<Rightarrow> bool" where
  "echo_gone fd cid w \<longleftrightarrow> sel_inv (ew_sel w) \<and> ew_srv w \<noteq> None \<and> ew_clients w cid = None \<and> registered (ew_sel w) fd = None"

lemma echo_live_interest: "echo_live fd cid c w \<Longrightarrow> echo_client_interest c \<noteq> OP_NOOP"
  by (auto simp: echo_live_def echo_client_interest_def buffer_can_read_iff buffer_can_write_iff OP_NOOP_def OP_READ_def OP_WRITE_def)

lemma einterest_ok:
  assumes "sel_inv (ew_sel w)" "registered (ew_sel w) (key_fd key) = Some (h, i0, d)"
  shows "\<exists>s. einterest key i w = Inr ((), ew_put s w) \<and> sel_inv s \<and> registered s = (registered (ew_sel w))(key_fd key \<mapsto> (h, i, d))"
proof -
  have "\<not> INVALID_FD (key_fd key)"
  proof -
    have r: "0 \<le> key_fd key" "nat (key_fd key) < fd_size (ew_sel w)" using registered_range [OF assms(2)] by auto
    then have "item_ok {} (ew_sel w) (nat (key_fd key))" using assms(1) by (simp add: sel_ok_def)
    then show ?thesis using assms(2) r by (auto simp: registered_def item_ok_def INVALID_FD_def split: if_splits)
  qed
  with set_interest_ok [OF assms, of i] show ?thesis by (auto simp: einterest_def selector_set_interest_key_def)
qed

lemma close_client_run:
  assumes "ew_clients w cid = Some c" "ew_srv w = Some srv" "0 \<le> fd"
  shows "echo_client_close \<lparr>key_fd = fd, key_data = Some (ED_client cid)\<rparr> w = Inr ((), w\<lparr>
      ew_srv := Some (if es_active_clients srv > 0 then srv\<lparr>es_active_clients := es_active_clients srv - 1\<rparr> else srv),
      ew_open := removeAll fd (ew_open w), ew_trace := ew_trace w @ [Closed fd], ew_clients := (ew_clients w)(cid := None)\<rparr>)"
  using assms
  by (simp add: echo_client_close_def client_get_def srv_mod_def srv_get_def eclose_def etrace_def act_when_def
      act_bind_def act_then_def act_mod_def act_ret_def)

lemma echo_unregister:
  assumes "echo_live fd cid c w" "key_fd key = fd"
  shows "\<exists>w'. echo_unregister_client key w = Inr ((), w') \<and> echo_gone fd cid w' \<and> ew_trace w' = ew_trace w @ [Closed fd]"
proof -
  obtain srv where srv: "ew_srv w = Some srv" using assms(1) by (auto simp: echo_live_def)
  have inv: "sel_inv (ew_sel w)" and c: "ew_clients w cid = Some c"
    and reg: "registered (ew_sel w) fd = Some (E_client, echo_client_interest c, Some (ED_client cid))"
    using assms(1) by (simp_all add: echo_live_def)
  let ?w1 = "ew_put (closing fd (ew_sel w)) w"
  have fd: "0 \<le> fd" using registered_range [OF reg] by simp
  obtain w2 where w2: "echo_client_close \<lparr>key_fd = fd, key_data = Some (ED_client cid)\<rparr> ?w1 = Inr ((), w2)"
    "ew_sel w2 = closing fd (ew_sel w)" "ew_clients w2 cid = None" "ew_srv w2 \<noteq> None" "ew_trace w2 = ew_trace w @ [Closed fd]"
    using close_client_run [of ?w1 cid c srv fd] c srv fd by (simp add: ew_put_def)
  have ok: "sel_ok {fd} (closing fd (ew_sel w))"
    "registered (closing fd (ew_sel w)) = (registered (ew_sel w))(fd \<mapsto> (E_client, OP_NOOP, Some (ED_client cid)))"
    using closing_ok [OF inv reg] by simp_all
  have run: "(\<lambda>key. as_echo_handler (echo_client_close key)) \<lparr>key_fd = fd, key_data = Some (ED_client cid)\<rparr> ?w1 = Inr w2"
    using w2(1) by (simp add: as_echo_handler_def)
  have "selector_unregister_fd ew_sel ew_put echo_closer fd w = Inr (SELECTOR_SUCCESS, ew_put (cleared fd (ew_sel w2)) w2)"
    using unregister_run [where get = ew_sel and put = ew_put and closer = echo_closer and w = w and fd = fd and ?w2.0 = w2 and
        ?F2.0 = "{fd}" and f = "\<lambda>key. as_echo_handler (echo_client_close key)", OF inv reg _ run]
    by (simp add: echo_closer_def w2(2) ok)
  moreover have "sel_inv (cleared fd (ew_sel w2))" "registered (cleared fd (ew_sel w2)) fd = None"
    using cleared_ok [of fd "{}" "ew_sel w2"] w2(2) ok by simp_all
  ultimately show ?thesis using w2 assms(2)
    by (auto simp: echo_unregister_client_def eunregister_def echo_gone_def ew_put_def)
qed

section \<open>Events\<close>

text \<open>What one handler does to a live client.\<close>

definition echo_step :: "int \<Rightarrow> nat \<Rightarrow> echo_client \<Rightarrow> echo_world \<Rightarrow> echo_world \<Rightarrow> bool" where
  "echo_step fd cid c w w' \<longleftrightarrow> (\<exists>new. ew_trace w' = ew_trace w @ new \<and>
     ((\<exists>c'. echo_live fd cid c' w' \<and>
        buffer_pending (ec_rb c) @ received fd new = sent fd new @ buffer_pending (ec_rb c')) \<or>
      echo_gone fd cid w' \<and> buffer_pending (ec_rb c) @ received fd new = sent fd new @ buffer_pending (ec_rb c)))"

text \<open>Re-arming the interest for the client \<open>c'\<close>, after effects that keep the order.\<close>

lemma rearm_step:
  assumes "sel_inv (ew_sel w1)" "ew_srv w1 \<noteq> None" "ew_clients w1 cid = Some c'"
    and "registered (ew_sel w1) fd = Some (E_client, i, Some (ED_client cid))" "key_fd key = fd"
    and "buffer_inv (ec_rb c')" "buffer_pending (ec_rb c') = [] \<longrightarrow> 0 < buffer_room (ec_rb c')"
    and "ew_trace w1 = ew_trace w @ new"
    and "buffer_pending (ec_rb c) @ received fd new = sent fd new @ buffer_pending (ec_rb c')"
  shows "\<exists>w'. einterest key (echo_client_interest c') w1 = Inr ((), w') \<and> echo_step fd cid c w w'"
proof -
  obtain s where s: "einterest key (echo_client_interest c') w1 = Inr ((), ew_put s w1)" "sel_inv s"
    "registered s = (registered (ew_sel w1))(fd \<mapsto> (E_client, echo_client_interest c', Some (ED_client cid)))"
    using einterest_ok [OF assms(1), of key] assms(4,5) by blast
  then have "echo_live fd cid c' (ew_put s w1)" using assms by (simp add: echo_live_def ew_put_def)
  moreover have "ew_trace (ew_put s w1) = ew_trace w @ new" using assms(8) by (simp add: ew_put_def)
  ultimately have "echo_step fd cid c w (ew_put s w1)" using assms(9) unfolding echo_step_def by blast
  then show ?thesis using s(1) by blast
qed

lemma echo_unchanged:
  assumes "echo_live fd cid c w" "ew_sel w1 = ew_sel w" "ew_srv w1 = ew_srv w" "ew_clients w1 = ew_clients w"
  shows "echo_live fd cid c w1"
  using assms by (simp add: echo_live_def)

lemma close_step:
  assumes "echo_live fd cid c w1" "key_fd key = fd" "ew_trace w1 = ew_trace w @ new" "received fd new = []" "sent fd new = []"
  shows "\<exists>w'. echo_unregister_client key w1 = Inr ((), w') \<and> echo_step fd cid c w w'"
proof -
  obtain w' where "echo_unregister_client key w1 = Inr ((), w')" "echo_gone fd cid w'" "ew_trace w' = ew_trace w1 @ [Closed fd]"
    using echo_unregister [OF assms(1,2)] by blast
  moreover from this have "echo_step fd cid c w w'"
    unfolding echo_step_def using assms(3-5) by (intro exI [of _ "new @ [Closed fd]"]) simp
  ultimately show ?thesis by blast
qed

lemma echo_pop:
  assumes "buffer_inv b" "n \<le> length (buffer_pending b)" "buffer_pending b \<noteq> []"
  shows "\<exists>rb. buffer_pop b n = Inr rb \<and> buffer_inv rb \<and> buffer_pending rb = drop n (buffer_pending b) \<and>
    (buffer_pending rb = [] \<longrightarrow> 0 < buffer_room rb)"
proof -
  obtain rb where rb: "buffer_pop b n = Inr rb" "buffer_inv rb" "buffer_pending rb = drop n (buffer_pending b)"
    "buffer_room rb = b_limit b - (length (buffer_pending b) - n)" using buffer_pop_ok [OF assms(1,2)] by blast
  have "0 < length (buffer_pending b)" using assms(3) by simp
  then have "0 < b_limit b" unfolding length_buffer_pending [OF assms(1)] using assms(1) by (auto simp: buffer_inv_def)
  then show ?thesis using rb by auto
qed

lemma echo_read_step:
  assumes live: "echo_live fd cid c w" and key: "key_fd key = fd"
  shows "\<exists>w'. echo_client_read key cid w = Inr ((), w') \<and> echo_step fd cid c w w'"
proof -
  let ?b = "ec_rb c"
  have inv: "buffer_inv ?b" and c: "ew_clients w cid = Some c" using live by (simp_all add: echo_live_def)
  note l = live [unfolded echo_live_def]
  let ?a = "ew_os w (ew_calls w)" and ?w1 = "w\<lparr>ew_calls := Suc (ew_calls w)\<rparr>"
  let ?bs = "take (buffer_room ?b) (ea_data ?a)"
  let ?w2 = "?w1\<lparr>ew_trace := ew_trace w @ [Received fd ?bs]\<rparr>"
  have l1: "echo_live fd cid c ?w1" "echo_live fd cid c ?w2" using live by (rule echo_unchanged; simp)+
  have start: "echo_client_read key cid w = (if buffer_room ?b = 0 then einterest key (echo_client_interest c) w
      else if ea_ret ?a < 0
      then (if ea_err ?a = EAGAIN then einterest key (echo_client_interest c) else echo_unregister_client key) ?w1
      else if ?bs = [] then echo_unregister_client key ?w2
      else act_bind (act_lift (buffer_push ?b ?bs)) (\<lambda>rb. act_then (client_set cid (c\<lparr>ec_rb := rb\<rparr>))
             (einterest key (echo_client_interest (c\<lparr>ec_rb := rb\<rparr>)))) ?w2)"
    using c key by (simp add: echo_client_read_def client_get_def buffer_write_ptr_ok [OF inv] eread_def ecall_def etrace_def
        act_bind_def act_then_def act_lift_def act_ret_def act_mod_def buffer_push_def)
  consider "buffer_room ?b = 0" | "buffer_room ?b \<noteq> 0" "ea_ret ?a < 0" | "buffer_room ?b \<noteq> 0" "\<not> ea_ret ?a < 0" "?bs = []"
    | "buffer_room ?b \<noteq> 0" "\<not> ea_ret ?a < 0" "?bs \<noteq> []" by blast
  then show ?thesis
  proof cases
    case 1
    then show ?thesis using rearm_step [of w cid c fd _ key w "[]" c] l key unfolding start by auto
  next
    case 2
    then show ?thesis
      using rearm_step [of ?w1 cid c fd _ key w "[]" c] close_step [OF l1(1) key, of w "[]"] l key unfolding start by auto
  next
    case 3
    then show ?thesis using close_step [OF l1(2) key, of w "[Received fd []]"] unfolding start by auto
  next
    case 4
    obtain rb where rb: "buffer_push ?b ?bs = Inr rb" "buffer_inv rb" "buffer_pending rb = buffer_pending ?b @ ?bs"
      using buffer_push_ok [OF inv, of ?bs] by auto
    let ?w3 = "?w2\<lparr>ew_clients := (ew_clients w)(cid \<mapsto> c\<lparr>ec_rb := rb\<rparr>)\<rparr>"
    have "echo_client_read key cid w = einterest key (echo_client_interest (c\<lparr>ec_rb := rb\<rparr>)) ?w3"
      using 4 c rb(1) unfolding start by (simp add: act_bind_def act_then_def act_lift_def client_set_def)
    moreover have "\<exists>w'. einterest key (echo_client_interest (c\<lparr>ec_rb := rb\<rparr>)) ?w3 = Inr ((), w') \<and> echo_step fd cid c w w'"
      by (rule rearm_step [where new = "[Received fd ?bs]"]) (use l key rb 4 in simp_all)
    ultimately show ?thesis by simp
  qed
qed

lemma echo_write_step:
  assumes live: "echo_live fd cid c w" and key: "key_fd key = fd"
  shows "\<exists>w'. echo_client_write key cid w = Inr ((), w') \<and> echo_step fd cid c w w'"
proof -
  let ?b = "ec_rb c" and ?p = "buffer_pending (ec_rb c)"
  have inv: "buffer_inv ?b" and c: "ew_clients w cid = Some c" using live by (simp_all add: echo_live_def)
  note l = live [unfolded echo_live_def]
  let ?a = "ew_os w (ew_calls w)" and ?w1 = "w\<lparr>ew_calls := Suc (ew_calls w)\<rparr>"
  let ?n = "min (nat (ea_ret (ew_os w (ew_calls w)))) (length (buffer_pending (ec_rb c)))"
  let ?w2 = "?w1\<lparr>ew_trace := ew_trace w @ [Sent fd (take ?n ?p)]\<rparr>"
  have l1: "echo_live fd cid c ?w1" using live by (rule echo_unchanged) simp_all
  have start: "echo_client_write key cid w = (if ?p = [] then einterest key (echo_client_interest c) w
      else if ea_ret ?a < 0
      then (if ea_err ?a = EAGAIN then einterest key (echo_client_interest c) else echo_unregister_client key) ?w1
      else act_bind (act_lift (buffer_pop ?b ?n)) (\<lambda>rb. act_then (client_set cid (c\<lparr>ec_rb := rb\<rparr>))
             (einterest key (echo_client_interest (c\<lparr>ec_rb := rb\<rparr>)))) ?w2)"
    using c key by (simp add: echo_client_write_def client_get_def buffer_read_ptr_ok [OF inv] ewrite_def ecall_def etrace_def
        act_bind_def act_then_def act_lift_def act_ret_def act_mod_def buffer_pop_def Let_def run_bind_assoc)
  consider "?p = []" | "?p \<noteq> []" "ea_ret ?a < 0" | "?p \<noteq> []" "\<not> ea_ret ?a < 0" by blast
  then show ?thesis
  proof cases
    case 1
    then show ?thesis using rearm_step [of w cid c fd _ key w "[]" c] l key unfolding start by auto
  next
    case 2
    then show ?thesis
      using rearm_step [of ?w1 cid c fd _ key w "[]" c] close_step [OF l1 key, of w "[]"] l key unfolding start by auto
  next
    case 3
    obtain rb where rb: "buffer_pop ?b ?n = Inr rb" "buffer_inv rb" "buffer_pending rb = drop ?n ?p"
      "buffer_pending rb = [] \<longrightarrow> 0 < buffer_room rb"
      using echo_pop [OF inv, of ?n] 3 by auto
    let ?w3 = "?w2\<lparr>ew_clients := (ew_clients w)(cid \<mapsto> c\<lparr>ec_rb := rb\<rparr>)\<rparr>"
    have "echo_client_write key cid w = einterest key (echo_client_interest (c\<lparr>ec_rb := rb\<rparr>)) ?w3"
      using 3 c rb(1) unfolding start by (simp add: act_bind_def act_then_def act_lift_def client_set_def)
    moreover have "\<exists>w'. einterest key (echo_client_interest (c\<lparr>ec_rb := rb\<rparr>)) ?w3 = Inr ((), w') \<and> echo_step fd cid c w w'"
      by (rule rearm_step [where new = "[Sent fd (take ?n ?p)]"]) (use l key rb in simp_all)
    ultimately show ?thesis by simp
  qed
qed

section \<open>Any sequence of events\<close>

datatype echo_event = Readable | Writable

text \<open>The events of one client as the selector dispatches them, as long as the client is there.\<close>

fun echo_events :: "ekey \<Rightarrow> nat \<Rightarrow> echo_event list \<Rightarrow> unit eact" where
  "echo_events key cid [] = act_ret ()"
| "echo_events key cid (ev # evs) = act_bind (act_get (\<lambda>w. ew_clients w cid)) (\<lambda>c. case c of
      None \<Rightarrow> act_ret ()
    | Some _ \<Rightarrow> act_then (case ev of Readable \<Rightarrow> echo_client_read key cid | Writable \<Rightarrow> echo_client_write key cid)
        (echo_events key cid evs))"

lemma echo_event_step:
  assumes "echo_live fd cid c w" "key_fd key = fd"
  shows "\<exists>w'. (case ev of Readable \<Rightarrow> echo_client_read key cid | Writable \<Rightarrow> echo_client_write key cid) w = Inr ((), w') \<and>
    echo_step fd cid c w w'"
  using echo_read_step [OF assms] echo_write_step [OF assms] by (cases ev) simp_all

lemma echo_events_gone: "ew_clients w cid = None \<Longrightarrow> echo_events key cid evs w = Inr ((), w)"
  by (cases evs) (simp_all add: act_bind_def)

lemma echo_events_fifo:
  assumes "echo_live fd cid c w" "key_fd key = fd"
  shows "\<exists>w' new. echo_events key cid evs w = Inr ((), w') \<and> ew_trace w' = ew_trace w @ new \<and>
    (\<exists>left. buffer_pending (ec_rb c) @ received fd new = sent fd new @ left \<and>
      (echo_gone fd cid w' \<or> (\<exists>c'. echo_live fd cid c' w' \<and> left = buffer_pending (ec_rb c'))))"
  using assms
proof (induction evs arbitrary: c w)
  case Nil
  then show ?case by (intro exI [of _ w] exI [of _ "[]"]) auto
next
  case (Cons ev evs)
  obtain w1 where w1: "(case ev of Readable \<Rightarrow> echo_client_read key cid | Writable \<Rightarrow> echo_client_write key cid) w = Inr ((), w1)"
    "echo_step fd cid c w w1" using echo_event_step [OF Cons.prems] by blast
  have "ew_clients w cid = Some c" using Cons.prems(1) by (simp add: echo_live_def)
  then have run: "echo_events key cid (ev # evs) w = echo_events key cid evs w1"
    using w1(1) by (simp add: act_bind_def act_then_def)
  obtain new where new: "ew_trace w1 = ew_trace w @ new" "(\<exists>c'. echo_live fd cid c' w1 \<and>
        buffer_pending (ec_rb c) @ received fd new = sent fd new @ buffer_pending (ec_rb c')) \<or>
      echo_gone fd cid w1 \<and> buffer_pending (ec_rb c) @ received fd new = sent fd new @ buffer_pending (ec_rb c)"
    using w1(2) unfolding echo_step_def by blast
  from new(2) show ?case
  proof
    assume "echo_gone fd cid w1 \<and> buffer_pending (ec_rb c) @ received fd new = sent fd new @ buffer_pending (ec_rb c)"
    then show ?thesis using run new(1) echo_events_gone [of w1 cid key evs] by (auto simp: echo_gone_def)
  next
    assume "\<exists>c'. echo_live fd cid c' w1 \<and> buffer_pending (ec_rb c) @ received fd new = sent fd new @ buffer_pending (ec_rb c')"
    then obtain c' where c': "echo_live fd cid c' w1" "buffer_pending (ec_rb c) @ received fd new = sent fd new @ buffer_pending (ec_rb c')"
      by blast
    from Cons.IH [OF c'(1) Cons.prems(2)] obtain w2 more rest where
      w2: "echo_events key cid evs w1 = Inr ((), w2)" "ew_trace w2 = ew_trace w1 @ more"
        "buffer_pending (ec_rb c') @ received fd more = sent fd more @ rest"
        "echo_gone fd cid w2 \<or> (\<exists>c'. echo_live fd cid c' w2 \<and> rest = buffer_pending (ec_rb c'))" by blast
    have "buffer_pending (ec_rb c) @ received fd (new @ more) = sent fd (new @ more) @ rest"
      using c'(2) w2(3) by (metis append_assoc received_append sent_append)
    moreover have "ew_trace w2 = ew_trace w @ new @ more" using w2(2) new(1) by simp
    ultimately show ?thesis using run w2(1,4) by metis
  qed
qed

end
