(* ===== verification/Tool_Properties.thy ===== *)
theory Tool_Properties
  imports Stress_Report Echo_Backend Echo_Flow Shutdown Demo_Store Demo_World
begin

text \<open>
  The theorems about the load tools, the echo server, the network helpers and the end of the server, with instances.
\<close>

section \<open>The load generator\<close>

text \<open>
  \<^bold>\<open>C14\<close>. The SOCKS5 client of the load generator speaks the protocol of the proxy: when the three replies
  arrive, in pieces of any size and with interruptions, it returns the connected descriptor, and the bytes it has written are a
  greeting, an authentication and a request that the parsers of the server read as user/password, exactly the configured
  credentials and a connection to the configured address and port.
\<close>

theorem stress_handshake:
  assumes "0 \<le> tcp_connect addrs" and "accepts (so_wr s)"
    and "sc_username cfg \<noteq> []" and "length (sc_username cfg) < 256" and "sc_password cfg \<noteq> []" and "length (sc_password cfg) < 256"
    and "inet_pton4 net (sc_dest_host cfg) = Some ip" and "length ip = 4"
    and "streams (so_rd s) ([5, 2] @ [1, 0] @ [5, 0] @ bound @ rest)" and "length bound = 8"
    and "auth_arrays ap" and "request_arrays rp"
  shows "\<exists>s1 g a r. socks5_connect net addrs cfg s = (tcp_connect addrs, s1) \<and> so_closed s1 = so_closed s \<and>
    streams (so_rd s1) rest \<and> so_out s1 = so_out s @ g @ a @ r \<and>
    greeting_outcome (consume socks_greeting_parser_feed greeting_more socks_greeting_parser_init (g @ a @ r)) =
      Inr (Some (SOCKS_GREETING_ACCEPT, SOCKS_METHOD_USERPASS, a @ r)) \<and>
    auth_outcome (consume socks_auth_parser_feed auth_more (socks_auth_parser_init ap) (a @ r)) =
      Inr (Some (SOCKS_AUTH_PARSED, Some (bytes_of (sc_username cfg), bytes_of (sc_password cfg)), r)) \<and>
    request_outcome (consume socks_request_parser_feed request_more (socks_request_parser_init rp) r) =
      Inr (Some (SOCKS_REQUEST_PARSED_ADDR, Some (Dest_ipv4 ip (unat (sc_dest_port cfg))), []))"
proof -
  have len: "0 < length (sc_username cfg)" "0 < length (sc_password cfg)" using assms(3,5) by simp_all
  obtain s1 where s1: "socks5_connect net addrs cfg s = (tcp_connect addrs, s1)" "streams (so_rd s1) rest"
    "so_out s1 = so_out s @ wire_greeting @ wire_auth cfg @ wire_request cfg ip" "so_closed s1 = so_closed s"
    using socks5_connect_writes [OF assms(1,2,4,6,7,9,10)] by blast
  have "request_ref (wire_request cfg ip @ []) =
      Some (SOCKS_REQUEST_PARSED_ADDR, Some (Dest_ipv4 ip (unat (sc_dest_port cfg))), [])"
    by (rule wire_request_read [OF assms(8)])
  with s1 show ?thesis
    using greeting_equiv [of "wire_greeting @ wire_auth cfg @ wire_request cfg ip"]
      auth_equiv [OF assms(11), of "wire_auth cfg @ wire_request cfg ip"] request_equiv [OF assms(12), of "wire_request cfg ip"]
    by (intro exI [of _ s1] exI [of _ wire_greeting] exI [of _ "wire_auth cfg"] exI [of _ "wire_request cfg ip"])
      (simp add: wire_greeting_read wire_auth_read [OF len(1) assms(4) len(2) assms(6)])
qed

definition load_config :: stress_config where
  "load_config = default_config\<lparr>sc_username := ''ana'', sc_password := ''pw'', sc_dest_host := ''10.0.0.1'', sc_dest_port := 443,
     sc_clients := 1\<rparr>"

lemma load_config_fields [simp]:
  "sc_username load_config = ''ana''" "sc_password load_config = ''pw''" "sc_dest_host load_config = ''10.0.0.1''"
  "sc_dest_port load_config = 443" "sc_clients load_config = 1"
  by (simp_all add: load_config_def default_config_def)

theorem stress_handshake_witness:
  "\<exists>s1. socks5_connect demo_net (Some [(3, True)]) load_config
      \<lparr>so_rd = [R_data [5], R_errno EINTR, R_data [2, 1], R_data (0 # 5 # replicate 9 0)], so_wr = [Took 1, W_errno EINTR], so_out = [],
       so_closed = False\<rparr> = (3, s1) \<and>
    so_out s1 = [5, 1, 2, 1, 3, 97, 110, 97, 2, 112, 119, 5, 1, 0, 1, 10, 0, 0, 1, 1, 187]"
proof -
  let ?s = "\<lparr>so_rd = [R_data [5], R_errno EINTR, R_data [2, 1], R_data (0 # 5 # replicate 9 0)], so_wr = [Took 1, W_errno EINTR],
     so_out = [], so_closed = False\<rparr>"
  have io: "accepts (so_wr ?s)" "streams (so_rd ?s) ([5, 2] @ [1, 0] @ [5, 0] @ replicate 8 0 @ [])" by (simp_all add: numeral_eq_Suc)
  have c: "tcp_connect (Some [(3, True)]) = 3" by (simp add: tcp_connect_def)
  have net: "inet_pton4 demo_net (sc_dest_host load_config) = Some [10, 0, 0, 1]" by (simp add: demo_net_def)
  have arr: "auth_arrays auth_zeroed" "request_arrays request_zeroed" by (simp_all add: auth_zeroed_arrays request_zeroed_arrays)
  have "\<exists>s1 g a r. socks5_connect demo_net (Some [(3, True)]) load_config ?s = (3, s1)"
    using stress_handshake [of "Some [(3, True)]" ?s load_config demo_net "[10, 0, 0, 1]" "replicate 8 0" "[]", OF _ io(1) _ _ _ _ net _ io(2) _ arr] c
    by fastforce
  moreover have "\<exists>s1. socks5_connect demo_net (Some [(3, True)]) load_config ?s = (3, s1) \<and>
      so_out s1 = [] @ wire_greeting @ wire_auth load_config @ wire_request load_config [10, 0, 0, 1]"
    using socks5_connect_writes [of "Some [(3, True)]" ?s load_config demo_net "[10, 0, 0, 1]" "replicate 8 0" "[]", OF _ io(1) _ _ net io(2)] c
    by auto
  moreover have "[] @ wire_greeting @ wire_auth load_config @ wire_request load_config [10, 0, 0, 1] =
      [5, 1, 2, 1, 3, 97, 110, 97, 2, 112, 119, 5, 1, 0, 1, 10, 0, 0, 1, 1, 187]"
    by (simp add: wire_greeting_def wire_auth_def wire_request_def byte_of_char_def)
  ultimately show ?thesis by simp
qed







text \<open>
  The load generator and its echo service fit together: against an end that returns the bytes it is sent,
  a transfer of \<open>n\<close> bytes succeeds and has written exactly \<open>n\<close> bytes, and the echo service, given a stream of any bytes in any
  pieces, writes back exactly these bytes and reports their number.
\<close>

theorem load_round_trip:
  assumes "accepts (so_wr s)" and "streams (so_rd s) (replicate n 0xA5 @ rest)"
    and "streams (so_rd t) bs" and "accepts (so_wr t)" and "sum_list (map (\<lambda>r. Suc (length (answer_bytes r))) (so_rd t)) \<le> rounds"
  shows "(\<exists>s1. transfer_payload n s = (True, s1) \<and> so_out s1 = so_out s @ replicate n 0xA5 \<and> streams (so_rd s1) rest) \<and>
    (\<exists>t1. read_write_loop rounds t = (Some (length bs), t1) \<and> so_out t1 = so_out t @ bs \<and> so_closed (client_thread rounds t))"
proof -
  have "\<exists>s1. transfer_loop (replicate STRESS_BUF_SIZE 0xA5) n s = (True, s1) \<and> so_out s1 = so_out s @ replicate n 0xA5 \<and>
      streams (so_rd s1) rest \<and> accepts (so_wr s1)"
    by (rule transfer_loop_echo [OF assms(1,2)]) (simp_all add: STRESS_BUF_SIZE_def chunk_size_def)
  moreover have "\<exists>t1. echo_rounds rounds 0 t = (Some (0 + length bs), t1) \<and> so_out t1 = so_out t @ bs \<and> so_closed t1 = so_closed t"
    by (rule echo_rounds_streams [OF assms(3-5)])
  ultimately show ?thesis by (auto simp: transfer_payload_def read_write_loop_def client_thread_def close_sock_def)
qed

theorem load_round_trip_witness:
  "\<exists>s1. transfer_payload 3 \<lparr>so_rd = [R_data [0xA5, 0xA5], R_data [0xA5]], so_wr = [Took 2], so_out = [], so_closed = False\<rparr> = (True, s1) \<and>
     so_out s1 = [0xA5, 0xA5, 0xA5]"
proof -
  let ?s = "\<lparr>so_rd = [R_data [0xA5, 0xA5], R_data [0xA5]], so_wr = [Took 2], so_out = [], so_closed = False\<rparr>"
  let ?t = "\<lparr>so_rd = [R_data [0xA5]], so_wr = [], so_out = [], so_closed = False\<rparr>"
  have "replicate 3 (0xA5 :: byte) = [0xA5, 0xA5, 0xA5]" by (simp add: numeral_eq_Suc)
  then show ?thesis using load_round_trip [of ?s 3 "[]" ?t "[0xA5]" 2] by auto
qed

section \<open>The network helpers\<close>

text \<open>
  \<^verbatim>\<open>sock_blocking_write\<close> never loses or repeats a byte: what it sent and what is left in the buffer are what
  was there, and a nonempty buffer whose sends all take something is emptied with result 0. \<^verbatim>\<open>sock_blocking_copy\<close> sends a prefix
  of the bytes of its source, and all of them when neither end fails.
\<close>

theorem blocking_io:
  assumes "buffer_inv b"
  shows "(\<exists>ret b1 s1. sock_blocking_write err b s = Inr (ret, b1, s1) \<and> buffer_inv b1 \<and>
      so_out s1 @ buffer_pending b1 = so_out s @ buffer_pending b \<and>
      (buffer_pending b \<noteq> [] \<and> (\<forall>w \<in> set (so_wr s). \<exists>k. w = Took (Suc k)) \<longrightarrow> ret = 0 \<and> buffer_pending b1 = [])) \<and>
    (\<exists>copied rest. so_out (snd (snd (sock_blocking_copy err src s))) = so_out s @ copied \<and>
      concat (map answer_bytes (so_rd src)) = copied @ rest \<and>
      (list_all (\<lambda>r. \<exists>bs. r = R_data bs \<and> bs \<noteq> []) (so_rd src) \<and> (\<forall>w \<in> set (so_wr s). \<exists>k. w = Took (Suc k)) \<longrightarrow>
        fst (sock_blocking_copy err src s) = 0 \<and> rest = []))"
proof (intro conjI)
  obtain ret ws b1 out where "blocking_write_loop err (so_wr s) b (so_out s) = Inr (ret, ws, b1, out)" "buffer_inv b1"
    "out @ buffer_pending b1 = so_out s @ buffer_pending b"
    "buffer_pending b \<noteq> [] \<and> (\<forall>w \<in> set (so_wr s). \<exists>k. w = Took (Suc k)) \<longrightarrow> ret = 0 \<and> buffer_pending b1 = []"
    using blocking_write_loop_spec [OF assms, of err "so_wr s" "so_out s"] by blast
  then show "\<exists>ret b1 s1. sock_blocking_write err b s = Inr (ret, b1, s1) \<and> buffer_inv b1 \<and>
      so_out s1 @ buffer_pending b1 = so_out s @ buffer_pending b \<and>
      (buffer_pending b \<noteq> [] \<and> (\<forall>w \<in> set (so_wr s). \<exists>k. w = Took (Suc k)) \<longrightarrow> ret = 0 \<and> buffer_pending b1 = [])"
    by (simp add: sock_blocking_write_def)
next
  obtain ret rs ws out where c: "copy_loop err (so_rd src) (so_wr s) (so_out s) = (ret, rs, ws, out)" by (metis prod_cases4)
  obtain copied rest where p: "out = so_out s @ copied" "concat (map answer_bytes (so_rd src)) = copied @ rest"
    using copy_loop_prefix [OF c] by blast
  have "ret = 0 \<and> rest = []"
    if "list_all (\<lambda>r. \<exists>bs. r = R_data bs \<and> bs \<noteq> []) (so_rd src)" "\<forall>w \<in> set (so_wr s). \<exists>k. w = Took (Suc k)"
    using copy_loop_ok [OF that, of err "so_out s"] c p by auto
  then show "\<exists>copied rest. so_out (snd (snd (sock_blocking_copy err src s))) = so_out s @ copied \<and>
      concat (map answer_bytes (so_rd src)) = copied @ rest \<and>
      (list_all (\<lambda>r. \<exists>bs. r = R_data bs \<and> bs \<noteq> []) (so_rd src) \<and> (\<forall>w \<in> set (so_wr s). \<exists>k. w = Took (Suc k)) \<longrightarrow>
        fst (sock_blocking_copy err src s) = 0 \<and> rest = [])"
    using c p by (intro exI [of _ copied] exI [of _ rest]) (simp add: sock_blocking_copy_def)
qed

theorem blocking_io_witness:
  "\<exists>b1 s1. sock_blocking_write 0 \<lparr>b_data = [1, 2, 3], b_limit = 3, b_read = 0, b_write = 3\<rparr>
     \<lparr>so_rd = [], so_wr = [Took 1, Took 9], so_out = [], so_closed = False\<rparr> = Inr (0, b1, s1) \<and> so_out s1 = [1, 2, 3]"
proof -
  let ?b = "\<lparr>b_data = [1, 2, 3], b_limit = 3, b_read = 0, b_write = 3\<rparr>"
  let ?s = "\<lparr>so_rd = [], so_wr = [Took 1, Took 9], so_out = [], so_closed = False\<rparr>"
  have b: "buffer_inv ?b" "buffer_pending ?b = [1, 2, 3]" by (simp_all add: buffer_inv_def buffer_pending_def)
  have w: "\<forall>w \<in> set (so_wr ?s). \<exists>k. w = Took (Suc k)" by (auto intro: exI [of _ 8])
  from conjunct1 [OF blocking_io [OF b(1), of 0 ?s ?s]] b(2) w obtain ret b1 s1 where
    "sock_blocking_write 0 ?b ?s = Inr (ret, b1, s1)" "so_out s1 @ buffer_pending b1 = so_out ?s @ buffer_pending ?b"
    "ret = 0 \<and> buffer_pending b1 = []" by (metis list.distinct(1))
  then show ?thesis using b(2) by simp
qed



section \<open>The echo server\<close>

text \<open>
  \<^bold>\<open>C30\<close>. Whatever readable and writable events a client of the echo server has, and however the system answers its
  reads and writes, the handlers do not fault; the bytes sent to the client are the bytes received from it, in order, up to
  those still in its buffer, and as long as it is there it is registered for what its buffer calls for, which is never nothing.
\<close>

theorem echo_service:
  assumes "echo_live fd cid c w" and "key_fd key = fd"
  shows "\<exists>w' new rest. echo_events key cid evs w = Inr ((), w') \<and> ew_trace w' = ew_trace w @ new \<and>
    buffer_pending (ec_rb c) @ received fd new = sent fd new @ rest \<and>
    (ew_clients w' cid = None \<and> registered (ew_sel w') fd = None \<or>
     (\<exists>c'. ew_clients w' cid = Some c' \<and> rest = buffer_pending (ec_rb c') \<and>
       registered (ew_sel w') fd = Some (E_client, echo_client_interest c', Some (ED_client cid)) \<and>
       echo_client_interest c' \<noteq> OP_NOOP))"
proof -
  obtain w' new rest where r: "echo_events key cid evs w = Inr ((), w')" "ew_trace w' = ew_trace w @ new"
    "buffer_pending (ec_rb c) @ received fd new = sent fd new @ rest"
    "echo_gone fd cid w' \<or> (\<exists>c'. echo_live fd cid c' w' \<and> rest = buffer_pending (ec_rb c'))"
    using echo_events_fifo [OF assms, of evs] by blast
  from r(4) have "ew_clients w' cid = None \<and> registered (ew_sel w') fd = None \<or>
     (\<exists>c'. ew_clients w' cid = Some c' \<and> rest = buffer_pending (ec_rb c') \<and>
       registered (ew_sel w') fd = Some (E_client, echo_client_interest c', Some (ED_client cid)) \<and>
       echo_client_interest c' \<noteq> OP_NOOP)"
  proof
    assume "\<exists>c'. echo_live fd cid c' w' \<and> rest = buffer_pending (ec_rb c')"
    then obtain c' where c': "echo_live fd cid c' w'" "rest = buffer_pending (ec_rb c')" by blast
    with echo_live_interest [OF c'(1)] show ?thesis by (auto simp: echo_live_def)
  qed (simp add: echo_gone_def)
  with r(1-3) show ?thesis by blast
qed

definition echo_free :: "(echo_handler_id, echo_data) item" where
  "echo_free = item_init zero_item"

text \<open>A server with one client on descriptor 1, which sends two bytes and takes them back one at a time.\<close>

definition echo_demo :: echo_world where
  "echo_demo = \<lparr>ew_sel = \<lparr>sel_base = Some 1,
       sel_fds = [echo_free, \<lparr>it_fd = 1, it_interest = OP_READ, it_handler = Some E_client, it_data = Some (ED_client 0)\<rparr>],
       fd_size = 2, resolution_jobs = [], epoll_fd = 3, event_fd = 4, event_count = 0, events_capacity = 8,
       sel_epoll = [4 \<mapsto> EPOLLIN, 1 \<mapsto> interest_to_epoll OP_READ]\<rparr>,
     ew_clients = [0 \<mapsto> new_client], ew_next = 1, ew_srv = Some \<lparr>es_listen_fd = -1, es_port = 7, es_active_clients = 1\<rparr>,
     ew_stop = False, ew_os = (\<lambda>k. \<lparr>ea_ret = 1, ea_err = E_other, ea_data = [7, 8], ea_alloc = None\<rparr>), ew_calls = 0,
     ew_open = [0, 1, 2, 3, 4], ew_trace = []\<rparr>"

lemma echo_demo_live: "echo_live 1 0 new_client echo_demo"
proof -
  have "i = 0 \<or> i = 1" if "i < 2" for i :: nat using that by auto
  then have "sel_inv (ew_sel echo_demo)"
    by (fastforce simp: sel_ok_def echo_demo_def item_ok_def echo_free_def ITEM_USED_def FD_UNUSED_def item_init_def
        SELECTOR_ITEMS_MAX_SIZE_def split: if_splits)
  moreover have "echo_client_interest new_client = OP_READ"
    by (simp add: echo_client_interest_def new_client_def buffer_can_write_def buffer_can_read_def buffer_init_def
        ECHO_BUFFER_SIZE_def OP_READ_def OP_NOOP_def)
  ultimately show ?thesis
    by (simp add: echo_live_def echo_demo_def registered_def ITEM_USED_def FD_UNUSED_def new_client_def ECHO_BUFFER_SIZE_def)
qed

theorem echo_service_witness:
  "\<exists>w' new rest. echo_events \<lparr>key_fd = 1, key_data = Some (ED_client 0)\<rparr> 0 [Readable, Writable, Writable] echo_demo = Inr ((), w') \<and>
     ew_trace w' = new \<and> received 1 new = sent 1 new @ rest"
proof -
  have "buffer_pending (ec_rb new_client) = []" "ew_trace echo_demo = []" by (simp_all add: new_client_def echo_demo_def)
  with echo_service [OF echo_demo_live, of "\<lparr>key_fd = 1, key_data = Some (ED_client 0)\<rparr>" "[Readable, Writable, Writable]"]
  show ?thesis by fastforce
qed

section \<open>The end of the server\<close>




end
