(* ===== verification/Tunnel.thy ===== *)
theory Tunnel
  imports Session_Handshake Effects Session_Close Accepting
begin

text \<open>
  How a tunnel comes about: a request for a literal address that the access list allows starts a connection to exactly that
  address, and when the connection is established the client is told so and the session relays.
\<close>

section \<open>The address of a parsed request\<close>

text \<open>A parser past the type of the address has an address with a length, unless a name is expected.\<close>

definition addr_typed :: "socks_request_parser \<Rightarrow> bool" where
  "addr_typed p \<longleftrightarrow> r_state p \<in> {REQ_VER, REQ_CMD, REQ_RSV, REQ_ATYP} \<or> r_atyp p = SOCKS_ATYP_FQDN \<or>
     0 < r_dest_addr_len p \<and> (ss_family (r_dest_addr p) = AF_INET \<or> ss_family (r_dest_addr p) = AF_INET6)"

lemma feed_typed:
  assumes "socks_request_parser_feed p b = Inr (st, q)" "addr_typed p"
  shows "addr_typed q \<and> (st = SOCKS_REQUEST_PARSED_ADDR \<longrightarrow>
    0 < r_dest_addr_len q \<and> (ss_family (r_dest_addr q) = AF_INET \<or> ss_family (r_dest_addr q) = AF_INET6))"
proof -
  have name: "r_atyp q = r_atyp p \<and> r_dest_addr q = r_dest_addr p \<and> r_dest_addr_len q = r_dest_addr_len p \<and> st = SOCKS_REQUEST_NEED_MORE"
    if fq: "r_state p = REQ_FQDN"
  proof -
    obtain a where a: "arr_set (fqdn p) (uint (fqdn_len p) - uint (fqdn_remaining p)) b = Inr a"
      using assms(1) fq by (cases "arr_set (fqdn p) (uint (fqdn_len p) - uint (fqdn_remaining p)) b") (simp_all add: socks_request_parser_feed_def)
    show ?thesis
      using assms(1) fq a by (cases "arr_set a (uint (fqdn_len p)) 0") (auto simp: socks_request_parser_feed_def Let_def split: if_splits)
  qed
  have "r_state p = REQ_VER \<or> r_state p = REQ_CMD \<or> r_state p = REQ_RSV \<or> r_state p = REQ_ATYP \<or> r_state p = REQ_ADDR_IPV4 \<or>
      r_state p = REQ_ADDR_IPV6 \<or> r_state p = REQ_FQDN_LEN \<or> r_state p = REQ_PORT_HI \<or> r_state p = REQ_PORT_LO \<or>
      REQ_PORT_LO < r_state p" if "r_state p \<noteq> REQ_FQDN" using that by arith
  then have "?thesis" if "r_state p \<noteq> REQ_FQDN"
    using assms that unfolding addr_typed_def
    by (elim disjE) (auto simp: socks_request_parser_feed_def run_simps sizeof_sockaddr_in_def sizeof_sockaddr_in6_def Let_def split: if_splits)
  then show ?thesis using name assms(2) by (cases "r_state p = REQ_FQDN") (auto simp: addr_typed_def)
qed

lemma consume_typed:
  assumes "consume socks_request_parser_feed request_more p bs = Inr (Some SOCKS_REQUEST_PARSED_ADDR, q, rest)" "addr_typed p"
  shows "0 < r_dest_addr_len q \<and> (ss_family (r_dest_addr q) = AF_INET \<or> ss_family (r_dest_addr q) = AF_INET6)"
  using assms
proof (induction bs arbitrary: p)
  case (Cons b bs)
  obtain st p1 where f: "socks_request_parser_feed p b = Inr (st, p1)"
    and k: "(if st = SOCKS_REQUEST_NEED_MORE then consume socks_request_parser_feed request_more p1 bs else Inr (Some st, p1, bs)) =
      Inr (Some SOCKS_REQUEST_PARSED_ADDR, q, rest)"
    using Cons.prems(1) by (auto simp: run_simps)
  show ?case
    using feed_typed [OF f Cons.prems(2)] k Cons.IH [of p1] by (cases "st = SOCKS_REQUEST_NEED_MORE") auto
qed simp

text \<open>The destination an address stands for.\<close>

definition addr_dest :: "sockaddr_storage \<Rightarrow> destination" where
  "addr_dest a = (if ss_family a = AF_INET then Dest_ipv4 (ss_addr4 a) (unat (ss_port a)) else Dest_ipv6 (ss_addr6 a) (unat (ss_port a)))"

lemma request_addr:
  assumes "request_arrays p0" "consume socks_request_parser_feed request_more (socks_request_parser_init p0) bs = Inr (Some st, p, rest)"
    and "request_ref bs = Some (SOCKS_REQUEST_PARSED_ADDR, Some d, rest')"
  shows "st = SOCKS_REQUEST_PARSED_ADDR" "rest = rest'" "0 < r_dest_addr_len p" "addr_dest (r_dest_addr p) = d"
    "ss_family (r_dest_addr p) = AF_INET \<or> ss_family (r_dest_addr p) = AF_INET6"
proof -
  have r: "request_dest st p = Some d \<and> st = SOCKS_REQUEST_PARSED_ADDR \<and> rest = rest'"
    using request_equiv [OF assms(1), of bs] assms(2,3) by (auto simp: request_outcome_def)
  then show "st = SOCKS_REQUEST_PARSED_ADDR" "rest = rest'" "addr_dest (r_dest_addr p) = d"
    by (auto simp: request_dest_def addr_dest_def)
  have "addr_typed (socks_request_parser_init p0)" by (simp add: addr_typed_def socks_request_parser_init_def)
  from consume_typed [OF _ this] r assms(2) show "0 < r_dest_addr_len p"
    "ss_family (r_dest_addr p) = AF_INET \<or> ss_family (r_dest_addr p) = AF_INET6" by blast+
qed

section \<open>Starting to connect\<close>

text \<open>The system opens a socket, makes it non-blocking and starts to connect; the table has room for the descriptor.\<close>

definition connects :: "world \<Rightarrow> bool" where
  "connects w \<longleftrightarrow> (let a = (\<lambda>k. w_os w (w_calls w + k)); fd = lowest_fd (w_open w) in
     0 \<le> o_ret (a 0) \<and> 0 \<le> o_ret (a 1) \<and> 0 \<le> o_ret (a 2) \<and> (0 \<le> o_ret (a 3) \<or> o_err (a 3) = EINPROGRESS) \<and>
     sel_inv (w_sel w) \<and> 0 \<le> fd \<and> fd < int SELECTOR_ITEMS_MAX_SIZE \<and> fd < int (fd_size (w_sel w)) \<and> fd \<noteq> event_fd (w_sel w) \<and>
     registered (w_sel w) fd = None)"

definition connecting_to :: "nat \<Rightarrow> sockaddr_storage \<Rightarrow> world \<Rightarrow> world \<Rightarrow> bool" where
  "connecting_to sid a w w' \<longleftrightarrow> (let fd = lowest_fd (w_open w) in
     w_trace w' = w_trace w @ [Opened fd, Connecting fd a (w_store w)] \<and> w_store w' = w_store w \<and> sel_inv (w_sel w') \<and>
     registered (w_sel w') = (registered (w_sel w))(fd \<mapsto> (H_socks_origin, OP_WRITE, Some (D_session sid))))"

lemma connect_started:
  assumes s: "w_sessions w sid = Some se" and t: "connect_target se = Some (a, len)" "0 < len"
    and ok: "socks_dest_addr_is_denied (e_net (w_env w)) (w_store w) (Some a) = Inr False" and c: "connects w"
  shows "\<exists>w'. connect_loop (Suc fuel) key sid w = Inr (SOCKS_ST_ORIGIN_CONNECTING, w') \<and> connecting_to sid a w w' \<and>
    w_sessions w' sid = Some (se\<lparr>se_origin_fd := lowest_fd (w_open w), se_dest_addr := a, se_dest_addr_len := len\<rparr>)"
proof -
  define fd where "fd = lowest_fd (w_open w)"
  have os: "0 \<le> o_ret (w_os w (w_calls w))" "0 \<le> o_ret (w_os w (Suc (w_calls w)))" "0 \<le> o_ret (w_os w (Suc (Suc (w_calls w))))"
    "0 \<le> o_ret (w_os w (Suc (Suc (Suc (w_calls w))))) \<or> o_err (w_os w (Suc (Suc (Suc (w_calls w))))) = EINPROGRESS"
    and fd: "sel_inv (w_sel w)" "0 \<le> fd" "fd < int SELECTOR_ITEMS_MAX_SIZE" "fd < int (fd_size (w_sel w))" "fd \<noteq> event_fd (w_sel w)"
      "registered (w_sel w) fd = None"
    using c by (simp_all add: connects_def Let_def fd_def numeral_eq_Suc)
  obtain s1 where s1: "selector_register (o_alloc (w_os w (Suc (Suc (Suc (Suc (w_calls w))))))) (w_sel w) fd (Some H_socks_origin) OP_WRITE (Some (D_session sid)) =
      Inr (SELECTOR_SUCCESS, s1)" "sel_inv s1"
    "registered s1 = (registered (w_sel w))(fd \<mapsto> (H_socks_origin, OP_WRITE, Some (D_session sid)))"
    using register_below [OF fd(1-6)] by fastforce
  show ?thesis
    using s t ok os s1 unfolding connecting_to_def Let_def fd_def [symmetric]
    by (auto simp: act_bind_def act_then_def act_lift_def sys_open_def selector_fd_set_nio_def sys_ok_def syscall_def record_effect_def
        sys_connect_def register_fd_def put_sel_def session_mod_def fd_def [symmetric])
qed

lemma connects_frame [simp]:
  "connects (put_session sid se w) = connects w" "connects (w\<lparr>w_store := st\<rparr>) = connects w"
  by (simp_all add: connects_def put_session_def)

definition connecting_store :: "socks_session \<Rightarrow> monitor_store \<Rightarrow> monitor_store" where
  "connecting_store se store = store_session_set_phase store (se_store_id se) STORE_SESSION_CONNECTING"

text \<open>The request is complete: the callback of the state leaves a connection in progress.\<close>

lemma request_done_connects:
  assumes s: "w_sessions w sid = Some se" and a: "0 < r_dest_addr_len (se_request se)" "se_dns_cursor se = []"
    and ok: "socks_dest_addr_is_denied (e_net (w_env w)) (w_store w) (Some (r_dest_addr (se_request se))) = Inr False"
    and c: "connects w"
  shows "\<exists>w'. request_done key sid SOCKS_REQUEST_PARSED_ADDR w = Inr (SOCKS_ST_ORIGIN_CONNECTING, w') \<and>
    connecting_to sid (r_dest_addr (se_request se)) (w\<lparr>w_store := connecting_store se (w_store w)\<rparr>) w' \<and>
    w_sessions w' sid = Some (se\<lparr>se_origin_fd := lowest_fd (w_open w), se_dest_addr := r_dest_addr (se_request se),
      se_dest_addr_len := r_dest_addr_len (se_request se)\<rparr>)"
proof -
  let ?a = "r_dest_addr (se_request se)" and ?len = "r_dest_addr_len (se_request se)"
  let ?se = "se\<lparr>se_dest_addr_len := ?len, se_dest_addr := ?a\<rparr>"
  let ?w = "put_session sid ?se (w\<lparr>w_store := connecting_store se (w_store w)\<rparr>)"
  have pol: "store_policy (connecting_store se (w_store w)) = store_policy (w_store w)" by (simp add: connecting_store_def)
  have d: "socks_dest_addr_is_denied (e_net (w_env ?w)) (w_store ?w) (Some ?a) = Inr False"
    using ok denied_policy [OF pol, of "e_net (w_env w)" "Some ?a"] by simp
  have t: "connect_target ?se = Some (?a, ?len)" using a by (simp add: connect_target_def)
  obtain w' where w': "connect_loop (Suc (length (se_dns_cursor ?se))) key sid ?w = Inr (SOCKS_ST_ORIGIN_CONNECTING, w')" "connecting_to sid ?a ?w w'"
    "w_sessions w' sid = Some (?se\<lparr>se_origin_fd := lowest_fd (w_open ?w), se_dest_addr := ?a, se_dest_addr_len := ?len\<rparr>)"
    using connect_started [OF _ t a(1) d] c by (metis connects_frame put_session_simps(1))
  have "request_done key sid SOCKS_REQUEST_PARSED_ADDR w = socks_begin_origin_connect key sid ?w"
    using s a ok by (simp add: request_done_def act_bind_def act_then_def act_lift_def connecting_store_def socks_request_dest_addr_def
        socks_request_dest_addr_len_def session_mod_def put_session_def)
  also have "\<dots> = Inr (SOCKS_ST_ORIGIN_CONNECTING, w')" using w'(1) by (simp add: socks_begin_origin_connect_def del: connect_loop.simps)
  finally show ?thesis using w'(2,3) by (intro exI [of _ w']) (simp add: connecting_to_def put_session_def)
qed

lemma request_connects_run:
  assumes s: "w_sessions w sid = Some se" and c: "buffer_inv (se_c2o se)" and now: "session_now se = SOCKS_ST_REQUEST"
    and arr: "request_arrays p0"
    and seen: "consume socks_request_parser_feed request_more (socks_request_parser_init p0) seen = Inr (None, se_request se, [])"
    and ref: "request_ref (seen @ buffer_pending (se_c2o se)) = Some (SOCKS_REQUEST_PARSED_ADDR, Some d, rest)"
    and cur: "se_dns_cursor se = []" and cn: "connects w"
    and ok: "\<And>a. addr_dest a = d \<Longrightarrow> ss_family a = AF_INET \<or> ss_family a = AF_INET6 \<Longrightarrow>
      socks_dest_addr_is_denied (e_net (w_env w)) (w_store w) (Some a) = Inr False"
  shows "\<exists>w' se' a. session_stm_read key sid w = Inr ((), w') \<and> addr_dest a = d \<and>
    connecting_to sid a (w\<lparr>w_store := connecting_store se (w_store w)\<rparr>) w' \<and>
    w_sessions w' sid = Some se' \<and> se_cur se' = Some SOCKS_ST_ORIGIN_CONNECTING \<and> se_origin_fd se' = lowest_fd (w_open w) \<and>
    se_dest_addr se' = a \<and> se_client_fd se' = se_client_fd se \<and> buffer_inv (se_c2o se') \<and> buffer_pending (se_c2o se') = rest \<and>
    se_o2c se' = se_o2c se"
proof -
  let ?bs = "buffer_pending (se_c2o se)" and ?se0 = "se\<lparr>se_cur := Some (session_now se)\<rparr>"
  let ?w0 = "put_session sid ?se0 w"
  have all: "consume socks_request_parser_feed request_more (socks_request_parser_init p0) (seen @ ?bs) =
      consume socks_request_parser_feed request_more (se_request se) ?bs"
    by (simp add: consume_append seen)
  obtain st p rest1 where cons: "consume socks_request_parser_feed request_more (se_request se) ?bs = Inr (Some st, p, rest1)"
    using request_equiv [OF arr, of "seen @ ?bs"] all ref by (auto simp: request_outcome_def run_simps)
  note q = request_addr [OF arr cons [folded all] ref]
  obtain b where b: "buffer_inv b" "buffer_pending b = rest1" "b_limit b = b_limit (se_c2o se)"
    "socks_on_read_request key sid ?w0 = request_done key sid st (put_session sid (?se0\<lparr>se_request := p, se_c2o := b\<rparr>) ?w0)"
    using rs.callback_run [of ?w0 sid ?se0 "Some st" p rest1 key] c cons unfolding socks_on_read_request_def by auto
  let ?se1 = "?se0\<lparr>se_request := p, se_c2o := b\<rparr>"
  have d: "socks_dest_addr_is_denied (e_net (w_env w)) (w_store w) (Some (r_dest_addr p)) = Inr False" using ok q(4,5) by blast
  obtain w2 where w2: "socks_on_read_request key sid ?w0 = Inr (SOCKS_ST_ORIGIN_CONNECTING, w2)"
    "connecting_to sid (r_dest_addr p) (w\<lparr>w_store := connecting_store se (w_store w)\<rparr>) w2"
    "w_sessions w2 sid = Some (?se1\<lparr>se_origin_fd := lowest_fd (w_open w), se_dest_addr := r_dest_addr p, se_dest_addr_len := r_dest_addr_len p\<rparr>)"
    using request_done_connects [of "put_session sid ?se1 ?w0" sid ?se1 key] q(1,3) cur d cn b(4)
    by (auto simp: connecting_to_def connecting_store_def)
  have read: "on_read_ready (socks_state_table key sid ! session_now se) = Some (socks_on_read_request key sid)" and okc: "cur_ok se"
    using now by (simp_all add: socks_state_table_def cur_ok_def socks_st_defs)
  let ?se2 = "?se1\<lparr>se_origin_fd := lowest_fd (w_open w), se_dest_addr := r_dest_addr p, se_dest_addr_len := r_dest_addr_len p\<rparr>"
  have "session_stm_read key sid w = Inr ((), put_session sid (?se2\<lparr>se_cur := Some SOCKS_ST_ORIGIN_CONNECTING\<rparr>) w2)"
    using okc by (intro stm_read_run [OF s okc read w2(1,3)]) (simp_all add: cur_ok_def session_now_def socks_st_defs)
  then show ?thesis using w2(2) b q(2,4)
    by (intro exI [of _ "put_session sid (?se2\<lparr>se_cur := Some SOCKS_ST_ORIGIN_CONNECTING\<rparr>) w2"]
          exI [of _ "?se2\<lparr>se_cur := Some SOCKS_ST_ORIGIN_CONNECTING\<rparr>"] exI [of _ "r_dest_addr p"])
       (simp add: connecting_to_def)
qed

section \<open>The established connection\<close>

text \<open>A session apart from its activity and its place on the list of idle sessions; the rest of the world as it was.\<close>

definition touched :: "socks_session \<Rightarrow> socks_session \<Rightarrow> bool" where
  "touched se se' \<longleftrightarrow> se_cur se' = se_cur se \<and> se_client_fd se' = se_client_fd se \<and> se_origin_fd se' = se_origin_fd se \<and>
     se_c2o se' = se_c2o se \<and> se_o2c se' = se_o2c se"

lemma stm_write_run:
  assumes "w_sessions w sid = Some se" "se_cur se = Some c" "c \<le> SOCKS_ST_DONE"
  shows "session_stm_write sid w = Inr ((), w)"
proof -
  have l: "session_look sid w = Some c" "session_alive sid w" using assms by (simp_all add: session_look_def session_alive_def)
  then have v: "wm.valid sid w" "wm.state_of sid w = c" "wm.entered sid w = w"
    using assms(3) by (simp_all add: wm.valid_def wm.state_of_def wm.entered_def)
  have "socks_stub_stay sid w = Inr (c, w)"
    using session_state_run [OF assms(1)] assms by (simp add: socks_stub_stay_def session_now_def cur_ok_def)
  then have "stm_dispatch on_write_ready (session_cur sid) (session_set_cur sid) (socks_write_machine sid) w = Inr (c, w)"
    using v l assms(3) by (subst wm.dispatch_ok [where h = "socks_stub_stay sid" and ret = c and ?w2.0 = w]) simp_all
  then show ?thesis by (simp add: session_stm_write_def stm_handler_write_def)
qed

lemma idle_list_kept:
  assumes "idle_list w ids" "w_sessions w sid = Some se" "se_in_idle_list se' = se_in_idle_list se"
    "se_idle_prev se' = se_idle_prev se" "se_idle_next se' = se_idle_next se"
    "w_sessions w' = (w_sessions w)(sid \<mapsto> se')" "w_socks w' = w_socks w"
  shows "idle_list w' ids"
proof -
  have "dll ((w_sessions w)(sid \<mapsto> se')) p xs n = dll (w_sessions w) p xs n" for p xs n
    using assms(2-5) by (induction xs arbitrary: p) auto
  then show ?thesis using assms by (auto simp: idle_list_def)
qed

lemma touch_run:
  assumes "idle_list w ids" "w_sessions w sid = Some se"
  shows "\<exists>w' se' ids'. socks_session_touch sid w = Inr ((), w') \<and> w_sessions w' sid = Some se' \<and> touched se se' \<and> idle_list w' ids' \<and>
    w_sel w' = w_sel w \<and> w_store w' = w_store w \<and> w_trace w' = w_trace w \<and> w_os w' = w_os w \<and> w_calls w \<le> w_calls w'"
proof -
  let ?se = "se\<lparr>se_last_activity := o_ret (w_os w (w_calls w))\<rparr>"
  define w1 where "w1 = (put_session sid ?se w)\<lparr>w_calls := Suc (w_calls w)\<rparr>"
  have w1: "w_sessions w1 sid = Some ?se" "idle_list w1 ids" "w_sel w1 = w_sel w" "w_store w1 = w_store w" "w_trace w1 = w_trace w"
      "w_os w1 = w_os w" "w_calls w1 = Suc (w_calls w)"
    using assms idle_list_kept [OF assms, of ?se w1] by (simp_all add: w1_def put_session_def)
  have run: "socks_session_touch sid w = act_when (se_in_idle_list se) (idle_list_push_tail sid) w1"
    using assms(2) w1(1) by (simp add: socks_session_touch_def sys_time_def syscall_def act_bind_def act_then_def w1_def [symmetric])
  show ?thesis
  proof (cases "se_in_idle_list se")
    case True
    obtain w2 where w2: "idle_list_push_tail sid w1 = Inr ((), w2)" "idle_list w2 (remove1 sid ids @ [sid])" "idle_frame w1 w2"
      using idle_push_ok [OF w1(2,1)] by (auto simp: act_ok_iff)
    obtain se2 where se2: "w_sessions w2 sid = Some se2" "no_links se2 = no_links ?se" using idle_frame_session [OF w2(3) w1(1)] .
    have "touched se se2" using no_links_fields [OF se2(2)] by (simp add: touched_def)
    with w2 se2(1) idle_frame_fields [OF w2(3)] w1 True run show ?thesis
      by (intro exI [of _ w2] exI [of _ se2] exI [of _ "remove1 sid ids @ [sid]"]) (simp add: act_when_def)
  qed (use w1 run in \<open>intro exI [of _ w1] exI [of _ ?se] exI [of _ ids]; simp add: act_when_def touched_def\<close>)
qed

text \<open>A flush to a client that takes some of the bytes, or is not ready.\<close>

lemma flush_client_run:
  assumes il: "idle_list w ids" and s: "w_sessions w sid = Some se" and c: "se_cur se = Some c" "c \<le> SOCKS_ST_DONE"
    and fd: "0 \<le> se_client_fd se" and o: "buffer_inv (se_o2c se)"
    and os: "0 \<le> o_ret (w_os w (w_calls w)) \<or> o_err (w_os w (w_calls w)) = EAGAIN"
  shows "\<exists>w' se' ids' sent. socks_flush_client sid w = Inr (True, w') \<and> w_sessions w' sid = Some se' \<and>
    touched (se\<lparr>se_o2c := se_o2c se'\<rparr>) se' \<and> buffer_inv (se_o2c se') \<and> buffer_pending (se_o2c se) = sent @ buffer_pending (se_o2c se') \<and>
    idle_list w' ids' \<and> w_sel w' = w_sel w \<and> w_store w' = w_store w \<and>
    (w_trace w' = w_trace w \<and> sent = [] \<or> w_trace w' = w_trace w @ [Sent (se_client_fd se) sent])"
proof -
  let ?bs = "buffer_pending (se_o2c se)" and ?a = "w_os w (w_calls w)"
  consider "?bs = []" | "?bs \<noteq> []" "o_ret ?a < 0" "o_err ?a = EAGAIN" | "?bs \<noteq> []" "0 \<le> o_ret ?a" using os by fastforce
  then show ?thesis
  proof cases
    case 3
    define n where "n = min (nat (o_ret ?a)) (length ?bs)"
    obtain b where b: "buffer_read_adv (se_o2c se) (int n) = Inr b" "buffer_inv b" "buffer_pending b = drop n ?bs"
      using buffer_read_adv_ok [OF o, of n] by (auto simp: n_def)
    let ?se = "se\<lparr>se_o2c := buffer_compact b\<rparr>"
    define w0 where "w0 = w\<lparr>w_calls := Suc (w_calls w), w_trace := w_trace w @ [Sent (se_client_fd se) (take n ?bs)]\<rparr>"
    define w1 where "w1 = put_session sid ?se w0"
    have w1: "w_sessions w1 sid = Some ?se" "idle_list w1 ids" "w_sel w1 = w_sel w" "w_store w1 = w_store w"
        "w_trace w1 = w_trace w @ [Sent (se_client_fd se) (take n ?bs)]"
      using s il idle_list_kept [OF il s, of ?se w1] by (simp_all add: w1_def w0_def put_session_def)
    obtain w2 se2 ids' where w2: "socks_session_touch sid w1 = Inr ((), w2)" "w_sessions w2 sid = Some se2" "touched ?se se2" "idle_list w2 ids'"
      "w_sel w2 = w_sel w1" "w_store w2 = w_store w1" "w_trace w2 = w_trace w1" using touch_run [OF w1(2,1)] by blast
    have st: "session_stm_write sid w2 = Inr ((), w2)" using stm_write_run [OF w2(2)] w2(3) c by (simp add: touched_def)
    have wr: "sys_write (se_client_fd se) ?bs w = Inr (Inr n, w0)"
      using 3(2) unfolding n_def w0_def by (simp add: sys_write_def syscall_def record_effect_def act_bind_def act_then_def Let_def)
    have s0: "w_sessions w0 sid = Some se" using s by (simp add: w0_def)
    have "socks_flush_client sid w = Inr (True, w2)"
      unfolding socks_flush_client_def
      using s fd 3(1) b(1) w2(1) st s0
      by (simp add: act_bind_def act_then_def act_lift_def buffer_read_ptr_ok [OF o] wr w1_def del: length_buffer_pending)
    moreover have "buffer_inv (se_o2c se2)" "buffer_pending (se_o2c se2) = drop n ?bs"
      using w2(3) b by (simp_all add: touched_def)
    ultimately show ?thesis using w2 w1
      by (intro exI [of _ w2] exI [of _ se2] exI [of _ ids'] exI [of _ "take n ?bs"]) (simp add: touched_def)
  next
    case 2
    define w1 where "w1 = w\<lparr>w_calls := Suc (w_calls w)\<rparr>"
    have "socks_flush_client sid w = Inr (True, w1)"
      using s fd o 2 by (simp add: socks_flush_client_def act_bind_def act_lift_def buffer_read_ptr_ok sys_write_def syscall_def w1_def
          del: length_buffer_pending)
    moreover have "idle_list w1 ids" using il by (simp add: w1_def idle_list_def)
    ultimately show ?thesis using s o
      by (intro exI [of _ w1] exI [of _ se] exI [of _ ids] exI [of _ "[]"]) (simp add: w1_def touched_def)
  next
    case 1
    then have "socks_flush_client sid w = Inr (True, w)"
      using s fd o by (simp add: socks_flush_client_def act_bind_def act_lift_def buffer_read_ptr_ok)
    then show ?thesis using s o il by (intro exI [of _ w] exI [of _ se] exI [of _ ids] exI [of _ "[]"]) (simp add: touched_def)
  qed
qed

text \<open>The destination is entered in the store; nothing else of the session changes.\<close>

lemma record_dest_run:
  assumes il: "idle_list w ids" and s: "w_sessions w sid = Some se"
  shows "\<exists>w' se'. socks_session_record_dest sid w = Inr ((), w') \<and> w_sessions w' sid = Some se' \<and> touched se se' \<and> idle_list w' ids \<and>
    w_sel w' = w_sel w \<and> w_trace w' = w_trace w \<and> w_os w' = w_os w \<and> w_calls w \<le> w_calls w'"
proof (cases "se_dest_recorded se \<or> se_store_id se = STORE_SESSION_INVALID")
  case True
  then have "socks_session_record_dest sid w = Inr ((), w)" using s by (auto simp: socks_session_record_dest_def act_bind_def)
  then show ?thesis using s il by (intro exI [of _ w] exI [of _ se]) (simp add: touched_def)
next
  case False
  let ?se = "se\<lparr>se_dest_recorded := True\<rparr>"
  obtain st where run: "socks_session_record_dest sid w = Inr ((), put_session sid ?se (w\<lparr>w_calls := Suc (w_calls w), w_store := st\<rparr>))"
    using False s by (auto simp: socks_session_record_dest_def now_string_def syscall_def act_bind_def act_then_def session_mod_def put_session_def)
  have "idle_list (put_session sid ?se (w\<lparr>w_calls := Suc (w_calls w), w_store := st\<rparr>)) ids"
    using idle_list_kept [OF il s, of ?se] by (simp add: put_session_def)
  then show ?thesis
    unfolding run by (intro exI [of _ "put_session sid ?se (w\<lparr>w_calls := Suc (w_calls w), w_store := st\<rparr>)"] exI [of _ ?se])
      (simp add: touched_def put_session_def)
qed

definition connect_reply :: "byte list" where
  "connect_reply = [5, 0, 0, 1, 0, 0, 0, 0, 0, 0]"

lemma connect_completes_run:
  assumes so: "session_open sid se ids w" and cur: "se_cur se = Some SOCKS_ST_ORIGIN_CONNECTING"
    and fds: "0 \<le> se_client_fd se" "0 \<le> se_origin_fd se"
    and o: "buffer_inv (se_o2c se)" "10 \<le> buffer_room (se_o2c se)"
    and os: "o_ret (w_os w (w_calls w)) = 0" "\<forall>k > w_calls w. 0 \<le> o_ret (w_os w k) \<or> o_err (w_os w k) = EAGAIN"
  shows "\<exists>w' se' ids' sent. socks_origin_write key sid w = Inr ((), w') \<and> session_open sid se' ids' w' \<and> se_cur se' = Some SOCKS_ST_RELAY \<and>
    se_client_fd se' = se_client_fd se \<and> se_origin_fd se' = se_origin_fd se \<and> se_c2o se' = se_c2o se \<and>
    buffer_inv (se_o2c se') \<and> buffer_pending (se_o2c se) @ connect_reply = sent @ buffer_pending (se_o2c se') \<and>
    (w_trace w' = w_trace w \<and> sent = [] \<or> w_trace w' = w_trace w @ [Sent (se_client_fd se) sent]) \<and>
    registered (w_sel w') = (registered (w_sel w))
      (se_origin_fd se \<mapsto> (H_socks_origin, socks_origin_interest se', Some (D_session sid)),
       se_client_fd se \<mapsto> (H_socks_client, socks_client_interest se', Some (D_session sid)))"
proof -
  obtain i j where s: "w_sessions w sid = Some se" and il: "idle_list w ids" and sel: "sel_inv (w_sel w)"
    and rc: "registered (w_sel w) (se_client_fd se) = Some (H_socks_client, i, Some (D_session sid))"
    and ro: "registered (w_sel w) (se_origin_fd se) = Some (H_socks_origin, j, Some (D_session sid))" and ne: "se_origin_fd se \<noteq> se_client_fd se"
    using so fds(2) by (auto simp: session_open_def origin_ok_def)
  define w0 where "w0 = w\<lparr>w_calls := Suc (w_calls w)\<rparr>"
  have s0: "w_sessions w0 sid = Some se" and il0: "idle_list w0 ids" using s il by (simp_all add: w0_def idle_list_def)
  have e: "sys_so_error w = Inr (None, w0)" using os(1) by (simp add: sys_so_error_def syscall_def act_bind_def w0_def)
  have rep: "socks_send_connect_reply sid 0 = socks_o2c_append sid connect_reply" by (simp add: socks_send_connect_reply_def connect_reply_def)
  obtain b where b: "socks_o2c_append sid connect_reply w0 = Inr (True, put_session sid (se\<lparr>se_o2c := b\<rparr>) w0)" "buffer_inv b"
    "buffer_pending b = buffer_pending (se_o2c se) @ connect_reply"
    using append_ok [OF s0 o(1), of connect_reply] o(2) by (auto simp: connect_reply_def)
  define w1 where "w1 = put_session sid (se\<lparr>se_o2c := b\<rparr>) w0"
  have s1: "w_sessions w1 sid = Some (se\<lparr>se_o2c := b\<rparr>)" and il1: "idle_list w1 ids"
    using idle_list_kept [OF il0 s0, of "se\<lparr>se_o2c := b\<rparr>" w1] by (simp_all add: w1_def)
  obtain w2 se2 where w2: "socks_session_record_dest sid w1 = Inr ((), w2)" "w_sessions w2 sid = Some se2" "touched (se\<lparr>se_o2c := b\<rparr>) se2"
      "idle_list w2 ids" "w_sel w2 = w_sel w" "w_trace w2 = w_trace w" "w_os w2 = w_os w" "Suc (w_calls w) \<le> w_calls w2"
    using record_dest_run [OF il1 s1] by (auto simp: w1_def w0_def)
  let ?se3 = "se2\<lparr>se_cur := Some SOCKS_ST_RELAY\<rparr>"
  define w3 where "w3 = put_session sid ?se3 w2"
  have s3: "w_sessions w3 sid = Some ?se3" and il3: "idle_list w3 ids"
    using idle_list_kept [OF w2(4,2), of ?se3 w3] by (simp_all add: w3_def)
  have os3: "0 \<le> o_ret (w_os w3 (w_calls w3)) \<or> o_err (w_os w3 (w_calls w3)) = EAGAIN" using os(2) w2(7,8) by (simp add: w3_def)
  obtain w4 se4 ids4 sent where w4: "socks_flush_client sid w3 = Inr (True, w4)" "w_sessions w4 sid = Some se4"
      "touched (?se3\<lparr>se_o2c := se_o2c se4\<rparr>) se4" "buffer_inv (se_o2c se4)" "buffer_pending (se_o2c ?se3) = sent @ buffer_pending (se_o2c se4)"
      "idle_list w4 ids4" "w_sel w4 = w_sel w3" "w_trace w4 = w_trace w3 \<and> sent = [] \<or> w_trace w4 = w_trace w3 @ [Sent (se_client_fd ?se3) sent]"
    using flush_client_run [OF il3 s3, of SOCKS_ST_RELAY] w2(3) fds(1) b(2) os3 by (auto simp: touched_def socks_st_defs)
  have f: "se_client_fd se4 = se_client_fd se" "se_origin_fd se4 = se_origin_fd se" "se_c2o se4 = se_c2o se" "se_cur se4 = Some SOCKS_ST_RELAY"
    using w4(3) w2(3) by (simp_all add: touched_def)
  have sel4: "w_sel w4 = w_sel w" using w4(7) w2(5) by (simp add: w3_def)
  obtain t1 where t1: "selector_set_interest (w_sel w) (se_origin_fd se) (socks_origin_interest se4) = Inr (SELECTOR_SUCCESS, t1)" "sel_inv t1"
      "registered t1 = (registered (w_sel w))(se_origin_fd se \<mapsto> (H_socks_origin, socks_origin_interest se4, Some (D_session sid)))"
    using set_interest_ok [OF sel ro, of "socks_origin_interest se4"] by auto
  have rc1: "registered t1 (se_client_fd se) = Some (H_socks_client, i, Some (D_session sid))" using t1(3) rc ne by simp
  obtain t2 where t2: "selector_set_interest t1 (se_client_fd se) (socks_client_interest se4) = Inr (SELECTOR_SUCCESS, t2)" "sel_inv t2"
      "registered t2 = (registered t1)(se_client_fd se \<mapsto> (H_socks_client, socks_client_interest se4, Some (D_session sid)))"
    using set_interest_ok [OF t1(2) rc1, of "socks_client_interest se4"] by auto
  let ?w' = "put_sel t2 w4"
  have st: "session_state sid w = Inr (SOCKS_ST_ORIGIN_CONNECTING, w)"
    using session_state_run [OF s] cur by (simp add: session_now_def cur_ok_def socks_st_defs)
  have "socks_origin_write key sid w = Inr ((), ?w')"
    using st e b(1) w2(1,2) w4(1,2) t1(1) t2(1) f(1,2) sel4
    by (simp add: socks_origin_write_def socks_origin_connect_complete_def act_bind_def act_then_def rep
        w1_def [symmetric] w3_def [symmetric] set_interest_def put_sel_def)
  moreover have "session_open sid se4 ids4 ?w'"
    using w4(2,6) f t1(3) t2(2,3) ne so
    by (auto simp: session_open_def origin_ok_def cur_ok_def session_now_def put_sel_def socks_st_defs idle_list_def)
  moreover have "w_trace ?w' = w_trace w \<and> sent = [] \<or> w_trace ?w' = w_trace w @ [Sent (se_client_fd se) sent]"
    using w4(8) w2(3,6) by (auto simp: put_sel_def w3_def touched_def)
  moreover have "buffer_pending (se_o2c se) @ connect_reply = sent @ buffer_pending (se_o2c se4)"
    using w4(5) w2(3) b(3) by (simp add: touched_def)
  moreover have "registered (w_sel ?w') = (registered (w_sel w))
      (se_origin_fd se \<mapsto> (H_socks_origin, socks_origin_interest se4, Some (D_session sid)),
       se_client_fd se \<mapsto> (H_socks_client, socks_client_interest se4, Some (D_session sid)))"
    using t1(3) t2(3) by (simp add: put_sel_def)
  ultimately show ?thesis using f w4(4) by blast
qed

section \<open>A handshake in one read\<close>

lemma handshake_more:
  assumes "w_sessions w sid = Some se" "buffer_inv (se_c2o se)" "buffer_pending (se_c2o se) \<noteq> []" "session_now se = st"
    "st = SOCKS_ST_AUTH_GREETING \<or> st = SOCKS_ST_AUTH_USERPASS \<or> st = SOCKS_ST_REQUEST" "session_stm_read key sid w = Inr ((), w1)"
  shows "handshake_loop (Suc fuel) key sid w = handshake_loop fuel key sid w1"
proof -
  have "session_state sid w = Inr (st, w)"
    using session_state_run [OF assms(1)] assms(4,5) by (auto simp: cur_ok_def socks_st_defs)
  then show ?thesis using assms by (auto simp: buffer_can_read_iff act_bind_def act_then_def)
qed

lemma handshake_stops:
  assumes "w_sessions w sid = Some se" "se_cur se = Some SOCKS_ST_ORIGIN_CONNECTING"
  shows "handshake_loop (Suc fuel) key sid w = Inr ((), w)"
proof -
  have "session_state sid w = Inr (SOCKS_ST_ORIGIN_CONNECTING, w)"
    using session_state_run [OF assms(1)] assms(2) by (simp add: session_now_def cur_ok_def socks_st_defs)
  then show ?thesis using assms by (simp add: act_bind_def socks_st_defs)
qed

lemma ref_not_Nil: "greeting_ref bs = Some x \<Longrightarrow> bs \<noteq> []" "auth_ref bs = Some y \<Longrightarrow> bs \<noteq> []" "request_ref bs = Some z \<Longrightarrow> bs \<noteq> []"
  by auto

lemma greeting_ref_shorter: "greeting_ref bs = Some (st, m, rest) \<Longrightarrow> length rest < length bs"
  by (cases bs) (auto split: if_splits list.splits prod.splits)

lemma auth_ref_shorter: "auth_ref bs = Some (st, c, rest) \<Longrightarrow> length rest < length bs"
proof -
  have "length rest < length cs" if "auth_ref_passwd u cs = Some (st, c, rest)" for u cs using that by (cases cs) (auto split: if_splits)
  then have "length rest < length cs" if "auth_ref_uname cs = Some (st, c, rest)" for cs
    using that by (cases cs) (fastforce split: if_splits)+
  then show "auth_ref bs = Some (st, c, rest) \<Longrightarrow> length rest < length bs" by (cases bs) (fastforce split: if_splits)+
qed

text \<open>A session as the accept loop leaves it, with its parsers fresh.\<close>

definition greeting_awaited :: "socks_session \<Rightarrow> bool" where
  "greeting_awaited se \<longleftrightarrow> session_now se = SOCKS_ST_AUTH_GREETING \<and> se_greeting se = socks_greeting_parser_init \<and>
     (\<exists>pa. auth_arrays pa \<and> se_auth se = socks_auth_parser_init pa) \<and> (\<exists>pr. request_arrays pr \<and> se_request se = socks_request_parser_init pr) \<and>
     se_dns_cursor se = [] \<and> buffer_inv (se_c2o se) \<and> buffer_inv (se_o2c se) \<and> 4 \<le> buffer_room (se_o2c se)"

lemma accepted_awaits:
  assumes "fresh_client fd i n se" "4 \<le> n" "buffer_inv b"
  shows "greeting_awaited (se\<lparr>se_c2o := b\<rparr>)"
proof -
  have "request_arrays request_zeroed" by (simp add: request_arrays_def request_zeroed_def)
  then show ?thesis
    unfolding greeting_awaited_def
    by (intro conjI exI [of _ auth_zeroed] exI [of _ request_zeroed]) (use assms in \<open>simp_all add: fresh_client_def session_now_def\<close>)
qed

text \<open>The greeting and the credentials of a client the store knows: two turns of the loop that lead to the request.\<close>

lemma handshake_admits:
  assumes s: "w_sessions w sid = Some se" and fr: "greeting_awaited se"
    and g: "greeting_ref (buffer_pending (se_c2o se)) = Some (SOCKS_GREETING_ACCEPT, SOCKS_METHOD_USERPASS, r1)"
    and a: "auth_ref r1 = Some (SOCKS_AUTH_PARSED, Some cred, r2)" "known_user (w_store w) cred"
  obtains se2 st pr where "handshake_loop (Suc (Suc n)) key sid w = handshake_loop n key sid ((put_session sid se2 w)\<lparr>w_store := st\<rparr>)"
    "store_policy st = store_policy (w_store w)" "buffer_inv (se_c2o se2)" "buffer_pending (se_c2o se2) = r2" "buffer_inv (se_o2c se2)"
    "se_cur se2 = Some SOCKS_ST_REQUEST" "request_arrays pr" "se_request se2 = socks_request_parser_init pr" "se_dns_cursor se2 = []"
    "buffer_pending (se_o2c se2) = buffer_pending (se_o2c se) @ [5, 2] @ [1, 0]" "se_client_fd se2 = se_client_fd se"
proof -
  obtain pa pr where pa: "auth_arrays pa" "se_auth se = socks_auth_parser_init pa" and pr: "request_arrays pr" "se_request se = socks_request_parser_init pr"
    and f: "session_now se = SOCKS_ST_AUTH_GREETING" "se_greeting se = socks_greeting_parser_init" "se_dns_cursor se = []" "buffer_inv (se_c2o se)"
      "buffer_inv (se_o2c se)" "4 \<le> buffer_room (se_o2c se)"
    using fr by (auto simp: greeting_awaited_def)
  have gs: "greeting_step (greeting_ref ([] @ buffer_pending (se_c2o se))) = (SOCKS_ST_AUTH_USERPASS, [5, 2], r1, False)"
    using g by (simp add: greeting_step_def)
  obtain se1 where w1: "session_stm_read key sid w = Inr ((), (put_session sid se1 w)\<lparr>w_store := greeting_store SOCKS_ST_AUTH_USERPASS (se_store_id se) (w_store w)\<rparr>)"
    and r1: "step_result (SOCKS_ST_AUTH_USERPASS, [5, 2], r1, False) se se1" "se_auth se1 = se_auth se"
    using greeting_run [OF s f(4,5) _ f(1) _ gs, of key] f by auto
  define w1 where "w1 = put_session sid se1 w"
  have w1': "session_stm_read key sid w = Inr ((), w1)" using w1 by (simp add: w1_def greeting_store_def socks_st_defs)
  have s1: "w_sessions w1 sid = Some se1" and e1: "w_store w1 = w_store w" by (simp_all add: w1_def)
  have b1: "buffer_inv (se_c2o se1)" "buffer_pending (se_c2o se1) = r1" "buffer_inv (se_o2c se1)" "2 \<le> buffer_room (se_o2c se1)"
      "se_cur se1 = Some SOCKS_ST_AUTH_USERPASS"
    using r1(1) f(6) by (simp_all add: step_result_def)
  have as: "auth_step (known_user (w_store w1)) (auth_ref ([] @ buffer_pending (se_c2o se1))) = (SOCKS_ST_REQUEST, [1, 0], r2, False)"
    using a b1(2) e1 by (simp add: auth_step_def)
  obtain se2 u where w2: "session_stm_read key sid w1 = Inr ((), (put_session sid se2 w1)\<lparr>w_store := auth_store SOCKS_ST_REQUEST (se_store_id se1) u (w_store w1)\<rparr>)"
    and r2: "step_result (SOCKS_ST_REQUEST, [1, 0], r2, False) se1 se2"
    using auth_run [OF s1 b1(1,3,4) _ pa(1) _ as, of key] b1(5) pa(2) r1(2) by (auto simp: session_now_def)
  define st where "st = auth_store SOCKS_ST_REQUEST (se_store_id se1) u (w_store w)"
  have w2': "session_stm_read key sid w1 = Inr ((), (put_session sid se2 w)\<lparr>w_store := st\<rparr>)" using w2 by (simp add: st_def w1_def put_session_def)
  have "handshake_loop (Suc (Suc n)) key sid w = handshake_loop (Suc n) key sid w1"
    using ref_not_Nil(1) [OF g] by (rule handshake_more [OF s f(4) _ f(1) _ w1']) simp
  also have "\<dots> = handshake_loop n key sid ((put_session sid se2 w)\<lparr>w_store := st\<rparr>)"
    using ref_not_Nil(2) [OF a(1)] b1 by (intro handshake_more [OF s1 _ _ _ _ w2']) (auto simp: session_now_def)
  finally show thesis
    by (rule that [where pr = pr]) (use r2 r1(1) pr f(3) in \<open>simp_all add: step_result_def st_def auth_store_def\<close>)
qed

lemma handshake_connects:
  assumes s: "w_sessions w sid = Some se" and fr: "greeting_awaited se"
    and g: "greeting_ref (buffer_pending (se_c2o se)) = Some (SOCKS_GREETING_ACCEPT, SOCKS_METHOD_USERPASS, r1)"
    and a: "auth_ref r1 = Some (SOCKS_AUTH_PARSED, Some cred, r2)" "known_user (w_store w) cred"
    and q: "request_ref r2 = Some (SOCKS_REQUEST_PARSED_ADDR, Some d, rest)"
    and ok: "\<And>addr. addr_dest addr = d \<Longrightarrow> ss_family addr = AF_INET \<or> ss_family addr = AF_INET6 \<Longrightarrow>
      socks_dest_addr_is_denied (e_net (w_env w)) (w_store w) (Some addr) = Inr False"
    and cn: "connects w"
  shows "\<exists>w' se' addr st. handshake_loop (Suc (length (buffer_pending (se_c2o se)))) key sid w = Inr ((), w') \<and>
    addr_dest addr = d \<and> connecting_to sid addr (w\<lparr>w_store := st\<rparr>) w' \<and> store_policy st = store_policy (w_store w) \<and>
    w_sessions w' sid = Some se' \<and> se_cur se' = Some SOCKS_ST_ORIGIN_CONNECTING \<and> se_origin_fd se' = lowest_fd (w_open w) \<and>
    se_client_fd se' = se_client_fd se \<and> buffer_inv (se_c2o se') \<and> buffer_pending (se_c2o se') = rest \<and>
    buffer_inv (se_o2c se') \<and> buffer_pending (se_o2c se') = buffer_pending (se_o2c se) @ [5, 2] @ [1, 0]"
proof -
  have "3 \<le> length (buffer_pending (se_c2o se))"
    using greeting_ref_shorter [OF g] auth_ref_shorter [OF a(1)] ref_not_Nil(3) [OF q] by (cases r2) auto
  then obtain k where k: "length (buffer_pending (se_c2o se)) = Suc (Suc (Suc k))"
    using that [of "length (buffer_pending (se_c2o se)) - 3"] by linarith
  obtain se2 st pr where hs: "handshake_loop (Suc (Suc (Suc (Suc k)))) key sid w =
      handshake_loop (Suc (Suc k)) key sid ((put_session sid se2 w)\<lparr>w_store := st\<rparr>)"
    and p2: "store_policy st = store_policy (w_store w)"
    and b2: "buffer_inv (se_c2o se2)" "buffer_pending (se_c2o se2) = r2" "buffer_inv (se_o2c se2)"
      "se_cur se2 = Some SOCKS_ST_REQUEST" "request_arrays pr" "se_request se2 = socks_request_parser_init pr" "se_dns_cursor se2 = []"
      "buffer_pending (se_o2c se2) = buffer_pending (se_o2c se) @ [5, 2] @ [1, 0]" "se_client_fd se2 = se_client_fd se"
    by (rule handshake_admits [OF s fr g a]) 
  define w2 where "w2 = (put_session sid se2 w)\<lparr>w_store := st\<rparr>"
  have s2: "w_sessions w2 sid = Some se2" and e2: "w_env w2 = w_env w" "connects w2" "w_open w2 = w_open w" "w_store w2 = st"
    using cn by (simp_all add: w2_def)
  have ok2: "socks_dest_addr_is_denied (e_net (w_env w2)) (w_store w2) (Some addr) = Inr False"
    if "addr_dest addr = d" "ss_family addr = AF_INET \<or> ss_family addr = AF_INET6" for addr
    using ok [OF that] denied_policy [OF p2, of "e_net (w_env w)" "Some addr"] e2 by simp
  have now: "session_now se2 = SOCKS_ST_REQUEST" using b2(4) by (simp add: session_now_def)
  have seen: "consume socks_request_parser_feed request_more (socks_request_parser_init pr) [] = Inr (None, se_request se2, [])"
    using b2(6) by simp
  have ref: "request_ref ([] @ buffer_pending (se_c2o se2)) = Some (SOCKS_REQUEST_PARSED_ADDR, Some d, rest)" using q b2(2) by simp
  obtain w3 se3 addr where w3: "session_stm_read key sid w2 = Inr ((), w3)" "addr_dest addr = d"
      "connecting_to sid addr (w2\<lparr>w_store := connecting_store se2 (w_store w2)\<rparr>) w3" "w_sessions w3 sid = Some se3"
      "se_cur se3 = Some SOCKS_ST_ORIGIN_CONNECTING" "se_origin_fd se3 = lowest_fd (w_open w)" "se_client_fd se3 = se_client_fd se2"
      "buffer_inv (se_c2o se3)" "buffer_pending (se_c2o se3) = rest" "se_o2c se3 = se_o2c se2"
    using request_connects_run [OF s2 b2(1) now b2(5) seen ref b2(7) e2(2) ok2, of key] unfolding e2(3) by blast
  have "handshake_loop (Suc (Suc k)) key sid w2 = handshake_loop (Suc k) key sid w3"
    using ref_not_Nil(3) [OF q] b2 by (intro handshake_more [OF s2 _ _ now _ w3(1)]) auto
  also have "\<dots> = Inr ((), w3)" by (rule handshake_stops [OF w3(4,5)])
  finally have run: "handshake_loop (Suc (length (buffer_pending (se_c2o se)))) key sid w = Inr ((), w3)"
    using hs by (simp only: k w2_def)
  have "connecting_to sid addr (w\<lparr>w_store := connecting_store se2 st\<rparr>) w3"
    using w3(3) by (simp add: connecting_to_def w2_def)
  moreover have "store_policy (connecting_store se2 st) = store_policy (w_store w)" using p2 by (simp add: connecting_store_def)
  ultimately show ?thesis
    using run w3 b2 by (intro exI [of _ w3] exI [of _ se3] exI [of _ addr] exI [of _ "connecting_store se2 st"]) simp
qed

end
