(* ===== verification/Run_Properties.thy ===== *)
theory Run_Properties
  imports Demo_Boot Demo_World Tunnel
begin

text \<open>
  The theorems about whole runs of the server, with instances: any rounds of the loop of \<^verbatim>\<open>main\<close>, any events, any answers of the
  system and any outcome of the resolver threads; and the theorems on a tunnel, from the handshake to the relay.
\<close>

section \<open>The access list\<close>

text \<open>
  \<^bold>\<open>C1\<close>. However the server runs, every address that is handed to \<^verbatim>\<open>connect\<close>, given literally by a
  client or returned by a resolver, is allowed by the access list as it stands in the store at that moment, while
  administrators change that list in the same run.
\<close>

theorem run_respects_access_list:
  assumes "(server_step backlog)\<^sup>*\<^sup>* w w'"
  shows "\<exists>new. w_trace w' = w_trace w @ new \<and>
    (\<forall>fd a st. Connecting fd a st \<in> set new \<longrightarrow> socks_dest_addr_is_denied (e_net (w_env w)) st (Some a) = Inr False)"
proof -
  have "traced w w'"
    using assms by (induction rule: rtranclp_induct) (blast intro: tr.R_refl tr.R_trans step_kept(1))+
  then show ?thesis by (simp add: traced_def guarded_def)
qed

text \<open>A round in which the loop finds the resolution of session 0 finished, and the session connects.\<close>

lemma round_connects:
  "\<exists>w'. server_step 0 (world_of resolved_session connect_os) w' \<and> w_trace w' = [Opened 7, Connecting 7 origin_addr world_store]"
proof -
  let ?w = "world_of resolved_session connect_os"
  obtain w' se where b: "socks_client_block client_key 0 ?w = Inr ((), w')" and t: "w_trace w' = [Opened 7, Connecting 7 origin_addr world_store]"
    and os: "w_os w' = connect_os" "w_store w' = world_store" "sv_idle_head (w_socks w') = Some 0"
    and se: "w_sessions w' 0 = Some se" "se_last_activity se = 0"
    using block_connects by blast
  have item: "item_get 1 5 world_sel = Inr (used_item 5 H_socks_client OP_READ (D_session 0))" "fds_base world_sel = Inr 1"
    by (simp_all add: item_get_def fds_base_def world_sel_def)
  have jobs: "handle_jobs w_sel (handlers 0) [5] ?w = Inr w'"
    using item b
    by (simp add: run_simps used_item_def ITEM_USED_def FD_UNUSED_def handler_of_def handlers_def on_session_def as_handler_def client_key_def)
  have jobs_of: "resolution_jobs world_sel = [5]" by (simp add: world_sel_def)
  let ?w2 = "put_sel ((w_sel w')\<lparr>resolution_jobs := []\<rparr>) w'"
  have idle: "\<exists>w3. socks_server_expire_idle ?w2 = Inr ((), w3) \<and> w_trace w3 = w_trace w'"
    using os se
    by (auto simp: socks_server_expire_idle_def act_bind_def sys_time_def syscall_def put_sel_def store_config_get_def world_store_def
        connect_os_def answer_ok_def answer_err_def)
  then obtain w3 where w3: "socks_server_expire_idle ?w2 = Inr ((), w3)" "w_trace w3 = w_trace w'" by blast
  have "main_iteration 0 False False Epoll_EINTR ?w = Inr (True, w3)"
    using w3(1) jobs jobs_of
    by (simp add: main_iteration_def act_bind_def act_then_def act_when_def selector_select_def
        handle_block_notifications_def run_simps del: handle_jobs.simps)
  then show ?thesis using w3(2) t by (intro exI [of _ w3] conjI server_step.round) simp_all
qed

theorem run_respects_access_list_witness:
  "\<exists>w'. server_step 0 (world_of resolved_session connect_os) w' \<and> w_trace w' = [Opened 7, Connecting 7 origin_addr world_store] \<and>
     socks_dest_addr_is_denied world_net world_store (Some origin_addr) = Inr False"
proof -
  obtain w' where w': "server_step 0 (world_of resolved_session connect_os) w'" "w_trace w' = [Opened 7, Connecting 7 origin_addr world_store]"
    using round_connects by blast
  from run_respects_access_list [OF r_into_rtranclp, OF w'(1)] w' show ?thesis by (auto simp: world_env_def)
qed

section \<open>The state of the process\<close>

text \<open>
  \<^bold>\<open>C2\<close>. In every state that the server reaches from its start, there is an administrator, the counter of
  concurrent connections is the number of live sessions and within the configured cap, which is within the table, the
  configuration is within its limits, log and access lists are well formed, and the line and the buffers of every
  administration session are within their arrays.
\<close>

theorem server_invariant:
  assumes "server_reach b backlog f w" and "calloc_fresh (bo_env b)"
  shows "0 < store_admin_count (w_store w) \<and>
    unat (concurrent_connections (ms_metrics (w_store w))) = length (filter n_active (ms_sessions (w_store w))) \<and>
    concurrent_connections (ms_metrics (w_store w)) \<le> ucast (ms_sessions_cap (w_store w)) \<and>
    unat (ms_sessions_cap (w_store w)) \<le> length (ms_sessions (w_store w)) \<and>
    ms_timeout (w_store w) \<le> 86400 \<and> 1024 \<le> ms_io_buffer_size (w_store w) \<and> ms_io_buffer_size (w_store w) \<le> 65536 \<and>
    log_inv (w_store w) \<and> acl_inv (w_store w) \<and>
    (\<forall>mid m. w_monitors w mid = Some m \<longrightarrow>
      buffer_inv (mo_rb m) \<and> buffer_inv (mc_wb (mo_commands m)) \<and> length (mc_line (mo_commands m)) \<le> MONITOR_LINE_MAX)"
  using reach_inv [OF assms] by (auto simp: server_inv_def store_safe_def tables_inv_def sessions_inv_def monitor_ok_def)

theorem server_invariant_witness:
  "\<exists>w. server_reach demo_boot 5 demo_flags w \<and> 0 < store_admin_count (w_store w) \<and>
     unat (concurrent_connections (ms_metrics (w_store w))) = length (filter n_active (ms_sessions (w_store w)))"
proof -
  obtain w where w: "server_reach demo_boot 5 demo_flags w" using demo_reach by blast
  have "calloc_fresh (bo_env demo_boot)" using demo_fresh by (simp add: demo_boot_def)
  from server_invariant [OF w this] w show ?thesis by blast
qed

section \<open>A tunnel is opened\<close>

text \<open>
  \<^bold>\<open>C4\<close>. A client that sends its greeting, the credentials of a user of the store and a request for an
  allowed address together is served by one run of the loop of the read handler on its buffer: the loop takes the three messages
  one by one, answers method and authentication in order, opens one socket, hands exactly the requested address and port to
  \<^verbatim>\<open>connect\<close>, registers the socket for writing, waits for the connection, and keeps the bytes behind the request for the origin.
\<close>

theorem handshake_opens:
  assumes "w_sessions w sid = Some se" and "greeting_awaited se"
    and "greeting_ref (buffer_pending (se_c2o se)) = Some (SOCKS_GREETING_ACCEPT, SOCKS_METHOD_USERPASS, r1)"
    and "auth_ref r1 = Some (SOCKS_AUTH_PARSED, Some cred, r2)" and "known_user (w_store w) cred"
    and "request_ref r2 = Some (SOCKS_REQUEST_PARSED_ADDR, Some d, rest)"
    and "\<And>addr. addr_dest addr = d \<Longrightarrow> ss_family addr = AF_INET \<or> ss_family addr = AF_INET6 \<Longrightarrow>
      socks_dest_addr_is_denied (e_net (w_env w)) (w_store w) (Some addr) = Inr False"
    and "connects w"
  shows "\<exists>w' se' addr st. handshake_loop (Suc (length (buffer_pending (se_c2o se)))) key sid w = Inr ((), w') \<and>
    addr_dest addr = d \<and> connecting_to sid addr (w\<lparr>w_store := st\<rparr>) w' \<and> store_policy st = store_policy (w_store w) \<and>
    w_sessions w' sid = Some se' \<and> se_cur se' = Some SOCKS_ST_ORIGIN_CONNECTING \<and> se_origin_fd se' = lowest_fd (w_open w) \<and>
    se_client_fd se' = se_client_fd se \<and> buffer_inv (se_c2o se') \<and> buffer_pending (se_c2o se') = rest \<and>
    buffer_inv (se_o2c se') \<and> buffer_pending (se_o2c se') = buffer_pending (se_o2c se) @ [5, 2] @ [1, 0]"
  using assms by (rule handshake_connects)

text \<open>The user of the store asks for port 80 of the address and sends one byte of data along.\<close>

definition hello_bytes :: "byte list" where
  "hello_bytes = [5, 1, 2] @ [1, 3, 97, 110, 97, 2, 112, 119] @ [5, 1, 0, 1, 10, 0, 0, 2, 0, 80] @ [9]"

definition hello_session :: socks_session where
  "hello_session = (world_session SOCKS_ST_AUTH_GREETING)\<lparr>se_greeting := socks_greeting_parser_init,
     se_c2o := (case buffer_push (buffer_init 32 (replicate 32 0)) hello_bytes of Inr b \<Rightarrow> b | Inl _ \<Rightarrow> empty_buffer)\<rparr>"

lemma hello_fields:
  "buffer_pending (se_c2o hello_session) = hello_bytes" "greeting_awaited hello_session"
proof -
  have b: "buffer_inv (se_c2o hello_session)" "buffer_pending (se_c2o hello_session) = hello_bytes"
    using buffer_push_ok [of "buffer_init 32 (replicate 32 0)" hello_bytes] by (auto simp: hello_session_def hello_bytes_def)
  have "\<exists>pa. auth_arrays pa \<and> se_auth hello_session = socks_auth_parser_init pa"
    by (rule exI [of _ auth_zeroed]) (simp add: hello_session_def world_session_def)
  moreover have "\<exists>pr. request_arrays pr \<and> se_request hello_session = socks_request_parser_init pr"
    by (rule exI [of _ request_zeroed]) (simp add: hello_session_def world_session_def request_arrays_def request_zeroed_def)
  ultimately show "greeting_awaited hello_session"
    using b(1) unfolding greeting_awaited_def by (simp add: hello_session_def world_session_def session_zeroed_def session_now_def)
  show "buffer_pending (se_c2o hello_session) = hello_bytes" by (rule b(2))
qed

lemma hello_messages:
  "greeting_ref hello_bytes = Some (SOCKS_GREETING_ACCEPT, SOCKS_METHOD_USERPASS, drop 3 hello_bytes)"
  "auth_ref (drop 3 hello_bytes) = Some (SOCKS_AUTH_PARSED, Some ([97, 110, 97], [112, 119]), drop 11 hello_bytes)"
  "request_ref (drop 11 hello_bytes) = Some (SOCKS_REQUEST_PARSED_ADDR, Some (Dest_ipv4 [10, 0, 0, 2] 80), [9])"
  "known_user world_store ([97, 110, 97], [112, 119])"
  by code_simp+

lemma address_clear:
  assumes "addr_dest addr = Dest_ipv4 [10, 0, 0, 2] 80"
  shows "socks_dest_addr_is_denied world_net world_store (Some addr) = Inr False"
  using assms by (auto simp: addr_dest_def socks_dest_addr_is_denied_def world_net_def is_ip_denied_def world_store_def acl_search_def
      split: if_splits)

lemma world_connects: "connects (world_of se connect_os)"
  using world_sel_inv world_registered
  by (simp add: connects_def connect_os_def answer_ok_def answer_err_def SELECTOR_ITEMS_MAX_SIZE_def)

theorem handshake_opens_witness:
  "\<exists>w' se' addr. handshake_loop 23 client_key 0 (world_of hello_session connect_os) = Inr ((), w') \<and>
     addr_dest addr = Dest_ipv4 [10, 0, 0, 2] 80 \<and> w_sessions w' 0 = Some se' \<and> se_cur se' = Some SOCKS_ST_ORIGIN_CONNECTING \<and>
     se_origin_fd se' = 7 \<and> buffer_pending (se_c2o se') = [9] \<and> buffer_pending (se_o2c se') = [5, 2, 1, 0] \<and>
     registered (w_sel w') 7 = Some (H_socks_origin, OP_WRITE, Some (D_session 0))"
proof -
  let ?w = "world_of hello_session connect_os"
  have m: "greeting_ref (buffer_pending (se_c2o hello_session)) = Some (SOCKS_GREETING_ACCEPT, SOCKS_METHOD_USERPASS, drop 3 hello_bytes)"
    "known_user (w_store ?w) ([97, 110, 97], [112, 119])"
    using hello_messages hello_fields(1) by simp_all
  have n: "Suc (length (buffer_pending (se_c2o hello_session))) = 23" by (simp only: hello_fields(1)) (simp add: hello_bytes_def)
  have s: "w_sessions ?w 0 = Some hello_session" by simp
  have ok: "socks_dest_addr_is_denied (e_net (w_env ?w)) (w_store ?w) (Some addr) = Inr False"
    if "addr_dest addr = Dest_ipv4 [10, 0, 0, 2] 80" for addr using address_clear [OF that] by (simp add: world_env_def)
  have o: "buffer_pending (se_o2c hello_session) = []" by (simp add: hello_session_def)
  from handshake_opens [OF s hello_fields(2) m(1) hello_messages(2) m(2) hello_messages(3) ok world_connects, of client_key]
  show ?thesis unfolding n o by (auto simp: connecting_to_def)
qed

text \<open>
  \<^bold>\<open>C5\<close>. When the connection to the origin is made, the write event of its socket makes the session a relay: the
  success reply of RFC 1928 follows what is still to be sent to the client, the bytes that the client takes at once are the first
  ones of that, and both sockets are registered for what the state of the two buffers calls for.
\<close>

theorem connect_completes:
  assumes "session_open sid se ids w" and "se_cur se = Some SOCKS_ST_ORIGIN_CONNECTING"
    and "0 \<le> se_client_fd se" and "0 \<le> se_origin_fd se" and "buffer_inv (se_o2c se)" and "10 \<le> buffer_room (se_o2c se)"
    and "o_ret (w_os w (w_calls w)) = 0" and "\<forall>k > w_calls w. 0 \<le> o_ret (w_os w k) \<or> o_err (w_os w k) = EAGAIN"
  shows "\<exists>w' se' ids' sent. socks_origin_write key sid w = Inr ((), w') \<and> session_open sid se' ids' w' \<and> se_cur se' = Some SOCKS_ST_RELAY \<and>
    se_client_fd se' = se_client_fd se \<and> se_origin_fd se' = se_origin_fd se \<and> se_c2o se' = se_c2o se \<and>
    buffer_inv (se_o2c se') \<and> buffer_pending (se_o2c se) @ [5, 0, 0, 1, 0, 0, 0, 0, 0, 0] = sent @ buffer_pending (se_o2c se') \<and>
    (w_trace w' = w_trace w \<and> sent = [] \<or> w_trace w' = w_trace w @ [Sent (se_client_fd se) sent]) \<and>
    registered (w_sel w') = (registered (w_sel w))
      (se_origin_fd se \<mapsto> (H_socks_origin, socks_origin_interest se', Some (D_session sid)),
       se_client_fd se \<mapsto> (H_socks_client, socks_client_interest se', Some (D_session sid)))"
  using connect_completes_run [OF assms, of key] by (simp add: connect_reply_def)

theorem connect_completes_witness:
  "\<exists>w' se' sent. socks_origin_write \<lparr>key_fd = 6, key_data = Some (D_session 0)\<rparr> 0
       (world_of (world_session SOCKS_ST_ORIGIN_CONNECTING) (\<lambda>_. answer_ok 0 [])) = Inr ((), w') \<and>
     w_sessions w' 0 = Some se' \<and> se_cur se' = Some SOCKS_ST_RELAY \<and>
     sent @ buffer_pending (se_o2c se') = [5, 0, 0, 1, 0, 0, 0, 0, 0, 0]"
proof -
  let ?se = "world_session SOCKS_ST_ORIGIN_CONNECTING" and ?os = "\<lambda>_ :: nat. answer_ok 0 []"
  have so: "session_open 0 ?se [0] (world_of ?se ?os)" by (rule world_open) (simp add: socks_st_defs)
  from connect_completes [OF so, of "\<lparr>key_fd = 6, key_data = Some (D_session 0)\<rparr>"]
  show ?thesis by (auto simp: answer_ok_def session_open_def)
qed

end
