(* ===== verification/Spec2Isabelle.thy ===== *)
theory Spec2Isabelle
  imports Parser_Memory Server_Properties Client_Properties Tool_Properties Run_Properties
begin

text \<open>
  \<^bold>\<open>A verification of a SOCKS5 proxy with a monitoring server.\<close>

  The program is a single-threaded proxy server: an event loop over \<^verbatim>\<open>epoll\<close> (\<^verbatim>\<open>shared/selector.c\<close>) calls the
  handlers of two services, the SOCKS5 proxy (\<^verbatim>\<open>server/socks\<close>) and a line-oriented monitoring service
  (\<^verbatim>\<open>server/monitor\<close>), which share a store of users, configuration, live sessions, connection log and access
  lists (\<^verbatim>\<open>server/monitor/store.c\<close>). Names are resolved in detached threads that report back through the selector.

  \<^bold>\<open>Conventions.\<close> C integers keep their width as words where they can wrap; buffers and arrays are lists with
  checked accesses. A computation returns \<open>Inr\<close> its result or \<open>Inl\<close> a \<open>fault\<close>: an access outside an array,
  through a null or freed pointer, a failed \<^verbatim>\<open>assert\<close>, \<^verbatim>\<open>abort\<close>, a refused argument or a loop that runs out of
  fuel. A theorem whose conclusion is \<open>f x = Inr y\<close> therefore says that the code returns and does nothing undefined.

  \<^bold>\<open>Parsers and data structures.\<close>
  \<^item> \<open>C_Prelude\<close>: faults, C strings, decimal numbers, the generic lemmas and the \<open>queue\<close> interface;
    \<open>Byte_Buffer\<close>: \<^verbatim>\<open>shared/buffer.c\<close>, which implements it.
  \<^item> \<open>Parser_Engine\<close>: \<^verbatim>\<open>shared/parser.c\<close> and \<^verbatim>\<open>parser_utils.c\<close>; \<open>Stm\<close>: \<^verbatim>\<open>shared/stm.c\<close>, generic in the world
    the handlers of the states act on.
  \<^item> \<open>Handshake\<close>: the interface of a parser fed one byte at a time; \<open>Greeting\<close>, \<open>Auth\<close>, \<open>Request\<close>: the three parsers
    below \<^verbatim>\<open>server/socks\<close>, each proved equal to a parse of the whole message.

  \<^bold>\<open>The store and the monitor commands.\<close>
  \<^item> \<open>Slot_Table\<close>: tables of reusable slots; \<open>Store_Base\<close>, \<open>Store_Users\<close>, \<open>Store_Log\<close>, \<open>Store_Sessions\<close>,
    \<open>Store_Acl\<close>: \<^verbatim>\<open>store.c\<close>, the access lists as linked nodes on an explicit heap; \<open>Store_Tables\<close>: the invariant of the
    session table and the log that every operation of a session keeps.
  \<^item> \<open>Monitor_Commands\<close>: \<^verbatim>\<open>monitor_commands.c\<close>, from the framing of lines to every command and its replies.

  \<^bold>\<open>The running server.\<close>
  \<^item> \<open>Selector\<close>: \<^verbatim>\<open>selector.c\<close>: the table of descriptors and its growth by \<^verbatim>\<open>realloc\<close>, interests, dispatch of events
    and of finished blocking jobs. Each block of memory has an address, so that a pointer kept across a move is a fault.
  \<^item> \<open>World\<close>: the state of the process (selector, store, heap of sessions, open descriptors) and its actions. The
    answers of the system calls are an arbitrary sequence \<open>w_os\<close>, so a theorem covers short reads and writes,
    \<^verbatim>\<open>EAGAIN\<close>, errors and failing allocations in any order; \<open>w_trace\<close> records what is read, sent, connected and closed, a
    connection together with the store at that moment.
  \<^item> \<open>Socks_Idle\<close>, \<open>Close_Handlers\<close>, \<open>Socks_Session\<close>, \<open>Socks_Relay\<close>: \<^verbatim>\<open>socks.c\<close>: the list of idle sessions, the
    close handlers, the states of a session and the relay; \<open>Monitor_Server\<close>: \<^verbatim>\<open>monitor.c\<close>; \<open>Server\<close>: accepting,
    expiry, set-up, the table of handlers and the loop of \<^verbatim>\<open>main.c\<close>.

  \<^bold>\<open>The two ends of the administration protocol.\<close>
  \<^item> \<open>Startup\<close>, \<open>Shutdown\<close>: \<^verbatim>\<open>shared/flags.c\<close> and \<^verbatim>\<open>server/main.c\<close>: ports, users and administrators given by flags, the
    signal handler, the start with its failure branches and the exit sequence.
  \<^item> \<open>Client_Protocol\<close>, \<open>Client_Ui\<close>, \<open>Client_Main\<close>: \<^verbatim>\<open>client/protocol.c\<close>, \<^verbatim>\<open>ui.c\<close> and \<^verbatim>\<open>main.c\<close>: the commands
    the client sends and the replies it reads, its terminal input and its screens; \<open>Client_Terminal\<close>: terminal attributes,
    the input stream and keys of \<^verbatim>\<open>ui.c\<close>; \<open>Client_Modes\<close>: every screen leaves the terminal as it was. \<open>Client_Exchange\<close> joins the two ends: the
    bytes a client command writes are fed to the interpreter of \<open>Monitor_Commands\<close>, and the client reads what that leaves in
    its output buffer. \<open>Client_Properties\<close> holds the theorems on client and start, \<open>Demo_Store\<close> the store they are tried on.

  \<^bold>\<open>Tools.\<close>
  \<^item> \<open>Blocking_Io\<close>: blocking sockets as the answers of their reads and writes; \<open>Netutils\<close>: \<^verbatim>\<open>shared/netutils.c\<close>;
    \<open>Stress_Client\<close>, \<open>Stress_Report\<close>, \<open>Echo_Backend\<close>: \<^verbatim>\<open>stress/stress_client.c\<close> and \<^verbatim>\<open>echo_backend.c\<close>: the SOCKS5 client, the division of
    work among threads whose atomic additions interleave in any order, the echo loop.
  \<^item> \<open>Echo\<close>, \<open>Echo_Flow\<close>: \<^verbatim>\<open>server/echo/echo.c\<close>, on its own world over the same selector and buffers.
    \<open>Tool_Properties\<close> holds the theorems on these and on the exit sequence.

  \<^bold>\<open>What is shown.\<close>
  \<^item> The parsers refine message-level parses, are bounded and memory safe; the buffer is a bounded queue.
  \<^item> The store: exact behaviour of each operation, invariants of users, sessions, log and access lists under any
    sequence of operations, no leak. The monitor: no effect before authentication, the last admin survives.
  \<^item> \<open>Action_Calculus\<close> and \<open>Effects\<close>: a calculus for relations every handler keeps. \<open>Server_Run\<close>: the server as a
    transition system, a step being a round of the loop of \<^verbatim>\<open>main\<close> with any events or the end of a resolver thread; with the
    calculus, in every run no denied address is connected to, and every state reached from the start has an administrator and
    well-formed tables. A resolver thread is one step between two rounds; its steps inside a handler are not interleaved.
    \<open>Run_Properties\<close> states these theorems, \<open>Demo_Boot\<close> is a start that succeeds. \<open>Session_Facts\<close>, \<open>Session_Handshake\<close>: a
    session runs the handshake the parsers describe, however its messages are cut. \<open>Tunnel\<close>: a handshake that ends in a
    connection to the requested address, and the connection that becomes a relay; also stated in \<open>Run_Properties\<close>. \<open>Relay_Flow\<close>: the relay is a queue in each direction. \<open>Session_Close\<close>,
    \<open>Idle_Expiry\<close>, \<open>Accepting\<close>, \<open>Monitor_Flow\<close>: closing, expiring and accepting sessions, monitor reads.
    \<open>Session_Faults\<close>: the runs that end in a fault. \<open>Demo_World\<close>: a concrete server;
    \<open>Server_Properties\<close>: the theorems on the running server, with instances on it. This theory holds those on parsers, store
    and commands.

  \<^bold>\<open>Fuel.\<close> The loops of the handshake callbacks take the number of buffered bytes plus one, since each round consumes a
  byte; \<open>connect_loop\<close> the number of resolved addresses plus one; \<open>expire_loop\<close> the number of sessions ever made plus
  one, since each round takes one off the list. The theorems on sessions and on expiry conclude with a result, so they show
  that it is enough.

  \<^bold>\<open>Not modelled.\<close> The usage text of the server and its messages on standard error; the time of day and the rates that the load
  generator computes from it, which are answers of the environment. Allocation is an argument, time and the system calls are answers of the environment.
\<close>


section \<open>Shared data structures\<close>



text \<open>
  \<open>buffer_write_adv\<close> and the copy before it stay inside the buffer exactly when
  the bytes fit the space \<open>buffer_write_ptr\<close> reports: within it the write succeeds and the bytes are
  appended, beyond it the program stops.
\<close>

theorem buffer_push_exact:
  assumes "buffer_inv b"
  shows "(case buffer_push b xs of
      Inr b' \<Rightarrow> length xs \<le> buffer_room b \<and> buffer_inv b' \<and> buffer_pending b' = buffer_pending b @ xs
    | Inl e \<Rightarrow> buffer_room b < length xs)"
  using bq.pushD [OF assms, of xs] buffer_push_ok [OF assms, of xs] buffer_push_over [OF assms, of xs]
  by (cases "length xs \<le> buffer_room b") auto

theorem buffer_push_exact_witness:
  "(case buffer_push (buffer_init 2 [0, 0]) [7, 8] of
      Inr b' \<Rightarrow> length [7 :: byte, 8] \<le> buffer_room (buffer_init 2 [0, 0]) \<and> buffer_inv b' \<and>
                buffer_pending b' = buffer_pending (buffer_init 2 [0, 0]) @ [7, 8]
    | Inl e \<Rightarrow> buffer_room (buffer_init 2 [0, 0]) < length [7 :: byte, 8])"
  by (rule buffer_push_exact) simp



text \<open>
  \<open>parser_no_classes\<close> has 255 entries, so the lookup
  \<^verbatim>\<open>p->classes[c]\<close> of \<open>parser_feed\<close> leaves the array for the byte \<open>0xFF\<close> and for no other byte.
\<close>

theorem no_classes_short:
  assumes "p_classes p = parser_no_classes" and "p_def p = strcmpi_def s" and "p_state p = strcmpi_state s t"
    and "\<forall>c \<in> set s. (of_char c :: nat) < 128"
  shows "parser_feed p c = Inl Out_of_bounds \<longleftrightarrow> c = 0xFF"
proof
  assume f: "parser_feed p c = Inl Out_of_bounds"
  have "\<not> unat c < 255"
  proof
    assume "unat c < 255"
    from strcmpi_feed [OF assms(4,2,1,3) this] f show False by auto
  qed
  then have "unat c = 255" using unat_byte_less [of c] by simp
  then show "c = 0xFF" by (simp add: word_eq_iff_unsigned [where 'a = nat])
next
  assume "c = 0xFF"
  then show "parser_feed p c = Inl Out_of_bounds"
    using assms(1) by (intro parser_feed_OOB) (simp add: parser_no_classes_def)
qed

theorem no_classes_short_witness:
  "\<exists>p. parser_init True parser_no_classes (strcmpi_def ''a'') = Some p \<and>
     (parser_feed p 97 = Inl Out_of_bounds \<longleftrightarrow> (97 :: byte) = 0xFF)"
proof -
  obtain p where p: "parser_init True parser_no_classes (strcmpi_def ''a'') = Some p"
    "p_classes p = parser_no_classes" "p_def p = strcmpi_def ''a''" "p_state p = strcmpi_state ''a'' []"
    by (simp add: parser_init_def strcmpi_def_def strcmpi_state_def ci_eq_def)
  from no_classes_short [OF p(2-4)] p(1) show ?thesis by simp
qed

text \<open>
  \<open>stm_init\<close> returns exactly on the tables whose entries up to \<open>max_state\<close> are numbered
  by their position and whose initial state is below \<open>max_state\<close>, and then leaves the machine with no
  current state; on every other table it stops the program.
\<close>

theorem stm_init_exact:
  "(\<exists>w'. stm_init (\<lambda>c w. Inr (put c w)) m w = Inr w') \<longleftrightarrow>
     stm_max_state m < length (stm_states m) \<and>
     list_all (\<lambda>i. sd_state (stm_states m ! i) = i) [0..<Suc (stm_max_state m)] \<and>
     stm_initial m < stm_max_state m"
  by (auto simp: stm_init_iff stm_table_ok_def list_all_iff less_Suc_eq_le simp del: upt_Suc)

section \<open>The SOCKS handshake\<close>

text \<open>
  \<^bold>\<open>C10\<close>. Feeding the bytes of a client to the greeting parser one at a time, as
  \<^verbatim>\<open>socks.c\<close> does, gives the decision of RFC 1928 on the whole message: it waits while bytes are missing,
  rejects a wrong version or an empty method list, prefers user/password over no authentication, and
  leaves exactly the bytes behind the message.
\<close>

theorem greeting_refines:
  "greeting_outcome (consume socks_greeting_parser_feed greeting_more socks_greeting_parser_init bs) =
     Inr (greeting_ref bs)"
  by (rule greeting_equiv)

text \<open>
  \<^bold>\<open>C9\<close>. The RFC 1929 parser, whatever its arrays held before \<open>socks_auth_parser_init\<close>,
  never writes outside them and yields on any byte stream the credentials, the status and the remaining
  bytes of the message-level parse.
\<close>

theorem auth_refines:
  assumes "length (uname p) = 255" and "length (passwd p) = 255"
  shows "auth_outcome (consume socks_auth_parser_feed auth_more (socks_auth_parser_init p) bs) =
     Inr (auth_ref bs)"
  using assms by (intro auth_equiv) (simp add: auth_arrays_def SOCKS_AUTH_MAX_LEN_def)

theorem auth_refines_witness:
  "auth_outcome (consume socks_auth_parser_feed auth_more (socks_auth_parser_init auth_zeroed)
      [1, 2, 97, 98, 1, 99, 5]) = Inr (Some (SOCKS_AUTH_PARSED, Some ([97, 98], [99]), [5]))"
  by (subst auth_refines) (simp_all add: auth_zeroed_def SOCKS_AUTH_MAX_LEN_def)

text \<open>
  \<^bold>\<open>C8\<close>. The CONNECT request parser never writes outside its address and name arrays and
  yields on any byte stream the status, the destination (IPv4, IPv6 or host name, with the big-endian
  port) and the remaining bytes of the message-level parse, including the rejection of other commands,
  a non-zero reserved byte, an empty host name and unknown address types.
\<close>

theorem request_refines:
  assumes "request_arrays p"
  shows "request_outcome (consume socks_request_parser_feed request_more (socks_request_parser_init p) bs) =
     Inr (request_ref bs)"
  using assms by (rule request_equiv)

theorem request_refines_witness:
  "request_outcome (consume socks_request_parser_feed request_more (socks_request_parser_init request_zeroed)
      [5, 1, 0, 3, 2, 104, 105, 1, 187, 9]) =
     Inr (Some (SOCKS_REQUEST_PARSED_FQDN, Some (Dest_fqdn [104, 105] 443), [9]))"
  by (subst request_refines [OF request_zeroed_arrays]) (simp add: request_ref_addr_def)

text \<open>
  \<^bold>\<open>C28\<close>. Each handshake message is decided: at the latest after 257 bytes of greeting,
  513 of authentication and 262 of request, whatever the bytes are, so a client cannot keep a parser in
  \<open>NEED_MORE\<close> by sending more.
\<close>

theorem handshake_bounded:
  assumes "257 \<le> length gs" and "513 \<le> length as" and "262 \<le> length rs"
  shows "(\<exists>st p rest. consume socks_greeting_parser_feed greeting_more socks_greeting_parser_init gs = Inr (Some st, p, rest)) \<and>
    (\<exists>st p rest. consume socks_auth_parser_feed auth_more (socks_auth_parser_init auth_zeroed) as = Inr (Some st, p, rest)) \<and>
    (\<exists>st p rest. consume socks_request_parser_feed request_more (socks_request_parser_init request_zeroed) rs = Inr (Some st, p, rest))"
proof (intro conjI)
  show "\<exists>st p rest. consume socks_greeting_parser_feed greeting_more socks_greeting_parser_init gs = Inr (Some st, p, rest)"
    using assms by (intro gp.consume_decides) (simp_all add: greeting_inv_def greeting_bound_def socks_greeting_parser_init_def)
  show "\<exists>st p rest. consume socks_auth_parser_feed auth_more (socks_auth_parser_init auth_zeroed) as = Inr (Some st, p, rest)"
    using assms
    by (intro ap.consume_decides [OF auth_init_inv [OF auth_zeroed_arrays]])
       (simp add: auth_bound_def socks_auth_parser_init_def)
  show "\<exists>st p rest. consume socks_request_parser_feed request_more (socks_request_parser_init request_zeroed) rs = Inr (Some st, p, rest)"
    using assms
    by (intro rp.consume_decides [OF request_init_inv [OF request_zeroed_arrays]])
       (simp add: request_bound_def socks_request_parser_init_def)
qed

theorem handshake_bounded_witness:
  "\<exists>st p rest. consume socks_auth_parser_feed auth_more (socks_auth_parser_init auth_zeroed) (replicate 513 1) =
     Inr (Some st, p, rest)"
  using handshake_bounded [of "replicate 257 5" "replicate 513 1" "replicate 262 5"] by simp

text \<open>
  How the network cuts the request into reads does not matter: feeding the second
  chunk to the parser the first one left behind is the same as feeding both at once.
\<close>

theorem handshake_chunks:
  "consume socks_request_parser_feed request_more p (xs @ ys) =
     run_bind (consume socks_request_parser_feed request_more p xs) (\<lambda>(st, p', rest).
       case st of None \<Rightarrow> consume socks_request_parser_feed request_more p' ys
                | Some s \<Rightarrow> Inr (Some s, p', rest @ ys))"
  by (rule consume_append)

section \<open>The store\<close>

text \<open>The state after one operation on the user table.\<close>

fun apply_user_op :: "monitor_store \<Rightarrow> user_op \<Rightarrow> monitor_store" where
  "apply_user_op store (Op_add n p adm) = snd (store_user_add store (Some n) (Some p) adm)"
| "apply_user_op store (Op_delete n) = snd (store_user_delete store (Some n))"
| "apply_user_op store (Op_set_password n p) = snd (store_user_set_password store (Some n) (Some p))"

lemma apply_user_op_step: "apply_user_op = ut.step"
proof (intro ext)
  show "apply_user_op store oper = ut.step store oper" for store oper
    by (cases oper) simp_all
qed

fun op_name_fits :: "user_op \<Rightarrow> bool" where
  "op_name_fits (Op_add n p adm) = name_fits n"
| "op_name_fits _ = True"

lemma op_name_fits_eq: "op_name_fits = ut.op_fits"
proof (intro ext)
  show "op_name_fits oper = ut.op_fits oper" for oper by (cases oper) simp_all
qed

text \<open>
  Once the table has an admin, no sequence of additions, deletions and
  password changes can leave it without one, and the table invariant (256 slots, \<open>user_count\<close> right, names
  distinct) is kept, for names that fit their slot.
\<close>

theorem last_admin_survives:
  assumes "users_inv store" and "users_map store admin = Some (pw, STORE_ROLE_ADMIN)"
    and "list_all op_name_fits opers"
  shows "users_inv (foldl apply_user_op store opers) \<and>
    (\<exists>n p. users_map (foldl apply_user_op store opers) n = Some (p, STORE_ROLE_ADMIN))"
  using ut.ops_keep_admin [OF assms(1), of opers] assms(2,3)
  by (auto simp: apply_user_op_step op_name_fits_eq map_has_admin_def)

text \<open>
  \<open>store_user_add\<close> refuses a name that is present, then a full table, and otherwise
  adds exactly the binding of the name to its password (cut at 255 characters) and role.
\<close>

theorem user_add_exact:
  assumes "users_inv store" and "name_fits n"
  shows "(case store_user_add store (Some n) (Some p) adm of (r, store') \<Rightarrow>
     if users_map store n \<noteq> None then r = STORE_USER_EXISTS \<and> store' = store
     else if ms_user_count store = STORE_MAX_USERS then r = STORE_USER_TABLE_FULL \<and> store' = store
     else r = STORE_USER_OK \<and> users_inv store' \<and>
          users_map store' = (users_map store)(n \<mapsto> (strncpy_term STORE_MAX_PASSWORD p, role_of adm)))"
proof (cases "users_map store n = None")
  case True
  show ?thesis
  proof (cases "ms_user_count store = STORE_MAX_USERS")
    case False
    then have "ms_user_count store < STORE_MAX_USERS" using user_count_le [OF assms(1)] by simp
    from add_new [OF assms(1) True this assms(2), of p adm] True False show ?thesis by auto
  qed (use True add_full [OF assms(1) True, of p adm] in simp)
next
  case False
  then show ?thesis using add_exists [of store n p adm] by simp
qed

theorem user_add_exact_witness:
  "users_map (snd (store_user_add demo_store (Some ''ana'') (Some ''x'') True)) ''ana'' =
     Some (''x'', STORE_ROLE_ADMIN)"
proof -
  have "name_fits ''ana''" by (simp add: name_fits_def STORE_MAX_USERNAME_def)
  moreover have "strncpy_term STORE_MAX_PASSWORD ''x'' = ''x''"
    by (rule strncpy_term_fits) (simp_all add: STORE_MAX_PASSWORD_def)
  ultimately show ?thesis
    using user_add_exact [OF demo_parts(1), of "''ana''" "''x''" True]
    by (simp add: demo_users demo_count STORE_MAX_USERS_def role_of_def split: prod.splits)
qed

theorem last_admin_survives_witness:
  "\<exists>n p. users_map (foldl apply_user_op (snd (store_user_add demo_store (Some ''ana'') (Some ''x'') True))
      [Op_add ''bob'' ''y'' False, Op_delete ''ana'', Op_delete ''bob'']) n = Some (p, STORE_ROLE_ADMIN)"
proof -
  have f: "name_fits ''ana''" "name_fits ''bob''" by (simp_all add: name_fits_def STORE_MAX_USERNAME_def)
  let ?s = "snd (store_user_add demo_store (Some ''ana'') (Some ''x'') True)"
  obtain pw where "users_inv ?s" "users_map ?s ''ana'' = Some (pw, STORE_ROLE_ADMIN)"
    using add_new [OF demo_parts(1), of "''ana''" "''x''" True] f
    by (auto simp: demo_users demo_count STORE_MAX_USERS_def role_of_def)
  from last_admin_survives [OF this, of "[Op_add ''bob'' ''y'' False, Op_delete ''ana'', Op_delete ''bob'']"] f
  show ?thesis by simp
qed

text \<open>
  A SOCKS login is accepted exactly for a name bound to that password; the
  monitor login moreover distinguishes a wrong password from a user without the admin role.
\<close>

theorem credentials_exact:
  assumes "users_inv store"
  shows "store_user_validate store (Some n) (Some p) = (\<exists>r. users_map store n = Some (p, r)) \<and>
    store_admin_authenticate store (Some n) (Some p) =
      (case users_map store n of
         None \<Rightarrow> STORE_AUTH_INVALID
       | Some (q, r) \<Rightarrow> if q \<noteq> p then STORE_AUTH_INVALID
                       else if r = STORE_ROLE_ADMIN then STORE_AUTH_OK else STORE_AUTH_NOT_ADMIN)"
  using validate_map [OF assms] authenticate_map by blast

theorem credentials_exact_witness: "\<not> store_user_validate demo_store (Some ''admin'') (Some ''admin'')"
  using credentials_exact [OF demo_parts(1), of "''admin''" "''admin''"] by (simp add: demo_users)

text \<open>
  A name of more than 64 characters is compared whole but stored cut, so the
  duplicate check never sees it: adding it twice succeeds twice and the table holds the same name in two
  slots.
\<close>

theorem long_name_added_twice:
  assumes "users_inv store" and "ms_user_count store + 2 \<le> STORE_MAX_USERS"
    and "STORE_MAX_USERNAME < length n"
  shows "\<exists>s1 s2. store_user_add store (Some n) (Some p) adm = (STORE_USER_OK, s1) \<and>
    store_user_add s1 (Some n) (Some q) adm = (STORE_USER_OK, s2) \<and> \<not> users_distinct (ms_users s2)"
proof -
  let ?us = "ms_users store"
  have inv: "length (filter u_used ?us) + 2 \<le> length ?us"
    "\<forall>u \<in> set ?us. length (u_username u) \<le> STORE_MAX_USERNAME"
    using assms(1,2) by (simp_all add: users_inv_def)
  obtain i s1 where s1: "store_user_add store (Some n) (Some p) adm = (STORE_USER_OK, s1)" "i < length ?us"
    "\<not> u_used (?us ! i)" "ms_users s1 = ?us[i := stored_user n p adm]"
    using add_long_name [OF inv(2) _ assms(3), of p adm] inv(1) by auto
  have "\<forall>u \<in> set (ms_users s1). length (u_username u) \<le> STORE_MAX_USERNAME"
    using inv(2) length_strncpy_term [of STORE_MAX_USERNAME n] unfolding s1(4)
    by (auto dest!: set_update_subset_insert [THEN subsetD])
  moreover have "length (filter u_used (ms_users s1)) < length (ms_users s1)"
    using s1(2-4) inv(1) by simp
  ultimately obtain j s2 where s2: "store_user_add s1 (Some n) (Some q) adm = (STORE_USER_OK, s2)"
    "j < length (ms_users s1)" "\<not> u_used (ms_users s1 ! j)" "ms_users s2 = (ms_users s1)[j := stored_user n q adm]"
    using add_long_name [OF _ _ assms(3)] by blast
  have "i \<noteq> j" using s1(2,4) s2(3) by auto
  then have at_i: "ms_users s2 ! i = stored_user n p adm" and at_j: "ms_users s2 ! j = stored_user n q adm"
    and len: "i < length (ms_users s2)" "j < length (ms_users s2)"
    using s1(2,4) s2(2,4) by simp_all
  have "\<not> users_distinct (ms_users s2)"
  proof
    assume "users_distinct (ms_users s2)"
    with len at_i at_j have "i = j" unfolding slot_distinct_nth by (metis stored_user_simps)
    with \<open>i \<noteq> j\<close> show False ..
  qed
  with s1(1) s2(1) show ?thesis by blast
qed

theorem long_name_added_twice_witness:
  "\<exists>s1 s2. store_user_add demo_store (Some (replicate 65 (CHR ''a''))) (Some ''x'') True = (STORE_USER_OK, s1) \<and>
    store_user_add s1 (Some (replicate 65 (CHR ''a''))) (Some ''y'') True = (STORE_USER_OK, s2) \<and>
    \<not> users_distinct (ms_users s2)"
  using long_name_added_twice [OF demo_parts(1), of "replicate 65 (CHR ''a'')" "''x''" True "''y''"]
  by (simp add: demo_count STORE_MAX_USERS_def STORE_MAX_USERNAME_def)

text \<open>
  \<^bold>\<open>C24\<close>. The connection log is a ring of 4096 entries read newest first: appending puts the new
  entry in front and drops the oldest one only when the ring was full, and the identifiers the entries
  carry stay distinct.
\<close>

theorem log_append_ring:
  assumes "log_inv store" and "store_log_append now store u h p st = (lid, store')"
  shows "log_view store' = take STORE_LOG_CAPACITY (new_log_entry now store u h p st # log_view store) \<and>
    log_inv store' \<and> lid = ms_next_log_id store \<and>
    (\<forall>j < ms_log_count store'. \<forall>k < ms_log_count store'.
       l_id (log_view store' ! j) = l_id (log_view store' ! k) \<longrightarrow> j = k)"
  using append_view [OF assms] append_inv [OF assms] append_fields(1) [OF assms(2)]
    log_ids_distinct [OF append_inv [OF assms]] by blast

theorem log_append_ring_witness:
  "log_view (snd (store_log_append ''t'' demo_store ''ana'' ''h'' 80 STORE_LOG_CONNECTED)) =
     [new_log_entry ''t'' demo_store ''ana'' ''h'' 80 STORE_LOG_CONNECTED]"
proof -
  obtain lid store' where e: "store_log_append ''t'' demo_store ''ana'' ''h'' 80 STORE_LOG_CONNECTED = (lid, store')"
    by force
  have "log_view demo_store = []"
    by (simp add: log_view_def demo_store_def store_create_def zero_store_def Let_def)
  with log_append_ring [OF demo_parts(5) e] e show ?thesis by (simp add: STORE_LOG_CAPACITY_def)
qed

text \<open>
  Updating an entry by identifier rewrites the status and the byte counters of that entry
  and of no other one, whatever the position of the ring; an identifier that has been overwritten changes
  nothing.
\<close>

theorem log_update_exact:
  assumes "log_inv store" and "lid \<noteq> STORE_LOG_INVALID"
  shows "log_view (store_log_update store lid st up down) =
      map (\<lambda>e. if l_id e = lid then log_entry_close st up down e else e) (log_view store) \<and>
    log_inv (store_log_update store lid st up down)"
  using update_view [OF assms] update_inv [OF assms(1)] by blast

theorem log_update_exact_witness: "log_view (store_log_update demo_store 7 STORE_LOG_CLOSED 1 2) = []"
proof -
  have "log_view demo_store = []"
    by (simp add: log_view_def demo_store_def store_create_def zero_store_def Let_def)
  then show ?thesis
    using log_update_exact [OF demo_parts(5), of 7 STORE_LOG_CLOSED 1 2] by simp
qed




text \<open>The state after one operation on the session table.\<close>

datatype session_op =
  Session_begin
| Session_close string session_close store_session_id
| Session_bytes store_session_id u64 u64
| Session_user store_session_id string
| Session_dest string store_session_id string u16
| Session_phase store_session_id store_session_phase
| Session_config bool store_config_key u32

fun apply_session_op :: "monitor_store \<Rightarrow> session_op \<Rightarrow> monitor_store" where
  "apply_session_op store Session_begin = snd (store_session_begin store)"
| "apply_session_op store (Session_close now how sid) = close_session now how store sid"
| "apply_session_op store (Session_bytes sid up down) = store_session_add_bytes store sid up down"
| "apply_session_op store (Session_user sid name) = store_session_set_user store sid (Some name)"
| "apply_session_op store (Session_dest now sid host port) = snd (store_session_set_dest now store sid (Some host) port)"
| "apply_session_op store (Session_phase sid phase) = store_session_set_phase store sid phase"
| "apply_session_op store (Session_config mem key val) = snd (store_config_set mem store key val)"


lemma next_id_frame [simp]:
  "ms_next_session_id (put_node i node store) = ms_next_session_id store"
  "ms_next_session_id (store_session_remove store i) = ms_next_session_id store"
  "ms_next_session_id (snd (store_log_append now store u h p st)) = ms_next_session_id store"
  "ms_next_session_id (store_log_update store lid st up down) = ms_next_session_id store"
  "ms_next_session_id (snd (store_grow_sessions_slots mem store n)) = ms_next_session_id store"
  by (simp_all add: put_node_def store_session_remove_def store_grow_sessions_slots_def Let_def
      append_fields [OF prod.collapse [symmetric]])

lemma next_id_step: "oper \<noteq> Session_begin \<Longrightarrow> ms_next_session_id (apply_session_op store oper) = ms_next_session_id store"
  by (cases oper)
     (simp_all add: close_session_def store_session_end_def store_session_mark_failed_def
       store_session_mark_ttl_expired_def store_session_add_bytes_def store_session_set_user_def
       store_session_set_phase_def store_session_set_dest_def store_config_set_def Let_def case_prod_beta
       split: session_close.splits option.splits store_config_key.splits)

lemma apply_session_registry:
  assumes "registry_inv store" and "ms_next_session_id store + 1 \<noteq> 0"
  shows "registry_inv (apply_session_op store oper)"
    and "unat (ms_next_session_id (apply_session_op store oper)) \<le> Suc (unat (ms_next_session_id store))"
proof -
  have b: "registry_inv (snd (store_session_begin store))"
  proof (cases "concurrent_connections (ms_metrics store) < ucast (ms_sessions_cap store)")
    case True
    from sr.begin_ok [OF assms(1) True assms(2) prod.collapse [symmetric]] show ?thesis by blast
  qed (use assms(1) sr.begin_full in simp)
  show "registry_inv (apply_session_op store oper)"
    using b set_user_registry set_phase_registry add_bytes_registry set_dest_registry config_registry
      close_registry assms(1) by (cases oper) simp_all
  show "unat (ms_next_session_id (apply_session_op store oper)) \<le> Suc (unat (ms_next_session_id store))"
  proof (cases "oper = Session_begin")
    case True
    have "ms_next_session_id (snd (store_session_begin store)) \<in>
        {ms_next_session_id store, ms_next_session_id store + 1}"
      by (simp add: store_session_begin_def Let_def split: option.splits)
    with True show ?thesis using unatSuc [of "ms_next_session_id store"] assms(2) by (auto simp: add.commute)
  qed (simp add: next_id_step)
qed

lemma foldl_session_registry:
  "registry_inv store \<Longrightarrow> unat (ms_next_session_id store) + length opers < 2 ^ 32 \<Longrightarrow>
    registry_inv (foldl apply_session_op store opers)"
proof (induction opers arbitrary: store)
  case (Cons oper opers)
  have "ms_next_session_id store + 1 \<noteq> 0"
  proof
    assume "ms_next_session_id store + 1 = 0"
    then have "ms_next_session_id store = - 1" by (simp add: eq_neg_iff_add_eq_0)
    then show False using Cons.prems(2) by (simp add: unsigned_minus_1_eq_mask mask_eq_exp_minus_1)
  qed
  from apply_session_registry [OF Cons.prems(1) this, of oper] Cons.prems(2) show ?case
    by (auto intro!: Cons.IH)
qed simp

text \<open>
  From the store as created, whatever operations on sessions and on the
  configuration are applied in whatever order (fewer than \<open>2\<^sup>32 - 1\<close> of them, so that the session counter
  does not wrap), \<open>concurrent_connections\<close> is the number of live sessions, it never exceeds the configured
  cap, which stays between 1 and 16384 and within the allocated table, and live sessions have distinct
  non-zero identifiers.
\<close>

theorem session_table_bounded:
  assumes "store_create True True = Some store" and "length opers < 2 ^ 32 - 1"
    and "store' = foldl apply_session_op store opers"
  shows "unat (concurrent_connections (ms_metrics store')) = length (filter n_active (ms_sessions store')) \<and>
    concurrent_connections (ms_metrics store') \<le> ucast (ms_sessions_cap store') \<and>
    unat (ms_sessions_cap store') \<le> length (ms_sessions store') \<and>
    1 \<le> ms_sessions_cap store' \<and> ms_sessions_cap store' \<le> 16384 \<and>
    slot_distinct n_active node_id (ms_sessions store') \<and>
    (\<forall>node \<in> set (ms_sessions store'). n_active node \<longrightarrow> node_id node \<noteq> STORE_SESSION_INVALID)"
proof -
  have "ms_next_session_id store = 1"
    using assms(1) by (auto simp: store_create_def zero_store_def Let_def)
  then have "registry_inv store'"
    using store_create_registry [OF assms(1)] assms(2) unfolding assms(3)
    by (intro foldl_session_registry) simp_all
  then show ?thesis
    by (simp add: registry_inv_def sessions_inv_def ids_inv_def STORE_SESSIONS_CAP_MIN_def STORE_SESSIONS_CAP_MAX_def)
qed

theorem session_table_bounded_witness:
  "concurrent_connections (ms_metrics (foldl apply_session_op demo_store
      [Session_begin, Session_config True STORE_CFG_SESSIONS_CAP 0, Session_close ''t'' Close_end 1])) \<le> 16384"
proof -
  let ?s = "foldl apply_session_op demo_store
      [Session_begin, Session_config True STORE_CFG_SESSIONS_CAP 0, Session_close ''t'' Close_end 1]"
  have "concurrent_connections (ms_metrics ?s) \<le> ucast (ms_sessions_cap ?s)" "ms_sessions_cap ?s \<le> 16384"
    using session_table_bounded [OF demo_create _ refl, of "[Session_begin,
        Session_config True STORE_CFG_SESSIONS_CAP 0, Session_close ''t'' Close_end 1]"] by simp_all
  then show ?thesis by (simp only: word_le_nat_alt unat_ucast_u64) (simp add: order_trans)
qed

text \<open>
  A configuration value is accepted exactly in its documented range (and, for the
  session cap, when it is not below the number of live sessions and the table can grow); an accepted value
  is what the key reads afterwards and no other key changes; a refused one leaves the store as it was.
\<close>

theorem config_set_exact:
  assumes "sessions_inv store"
  shows "(fst (store_config_set mem store key val) = STORE_CFG_OK) = config_accepts mem store key (unat val) \<and>
    (if config_accepts mem store key (unat val)
     then \<forall>key'. store_config_get (snd (store_config_set mem store key val)) key' =
            (if key' = key then val else store_config_get store key')
     else snd (store_config_set mem store key val) = store)"
  using config_set_iff [OF assms] config_set_get config_set_error by auto

theorem config_set_exact_witness:
  "store_config_get (snd (store_config_set True demo_store STORE_CFG_IO_BUFFER_SIZE 2048)) STORE_CFG_IO_BUFFER_SIZE = 2048"
  using config_set_exact [OF demo_parts(4), of True STORE_CFG_IO_BUFFER_SIZE 2048] by (simp add: config_accepts_def)

text \<open>
  Ending a session that reached its destination closes its own log entry with the final
  byte counters, leaves the other entries alone, and removes the session.
\<close>

theorem session_end_logged:
  assumes "registry_inv store" and "store_find_session store sid = Some i"
    and "n_log_id (ms_sessions store ! i) \<noteq> STORE_LOG_INVALID"
  shows "sessions_map (store_session_end store sid) = (sessions_map store)(sid := None) \<and>
    log_view (store_session_end store sid) =
      map (\<lambda>e. if l_id e = n_log_id (ms_sessions store ! i)
               then log_entry_close STORE_LOG_CLOSED (s_bytes_up (n_info (ms_sessions store ! i)))
                      (s_bytes_down (n_info (ms_sessions store ! i))) e
               else e) (log_view store)"
  using end_view [OF assms] close_registry [OF assms(1), of _ Close_end sid] by (simp add: close_session_def)


text \<open>A store with one live session that has a log entry.\<close>

definition demo_entry :: store_log_entry where
  "demo_entry = \<lparr>l_id = 1, l_username = ''ana'', l_host = ''h'', l_port = 80, l_timestamp = ''t'',
     l_state = STORE_LOG_CONNECTED, l_bytes_up = 0, l_bytes_down = 0\<rparr>"

definition demo_live :: monitor_store where
  "demo_live = demo_store\<lparr>ms_sessions := [\<lparr>n_active = True, n_info = (fresh_session 1)\<lparr>s_bytes_up := 5\<rparr>, n_log_id = 1\<rparr>],
     ms_sessions_cap := 1, ms_next_session_id := 2,
     ms_metrics := (ms_metrics demo_store)\<lparr>concurrent_connections := 1\<rparr>,
     ms_log := (ms_log demo_store)[0 := demo_entry], ms_log_count := 1, ms_next_log_id := 2\<rparr>"

lemma demo_live_registry: "registry_inv demo_live"
proof -
  have "length (ms_log demo_store) = STORE_LOG_CAPACITY" "ms_log_head demo_store = 0"
    "ms_timeout demo_store \<le> 86400" "1024 \<le> ms_io_buffer_size demo_store" "ms_io_buffer_size demo_store \<le> 65536"
    using demo_parts(4,5) by (simp_all add: log_inv_def sessions_inv_def)
      (simp add: demo_store_def store_create_def zero_store_def Let_def)
  then show ?thesis
    by (simp add: registry_inv_def sessions_inv_def ids_inv_def slot_distinct_def log_inv_def demo_live_def
        demo_entry_def fresh_session_def log_idx_def STORE_SESSIONS_CAP_MIN_def STORE_SESSIONS_CAP_MAX_def
        STORE_LOG_CAPACITY_def)
qed

theorem session_end_logged_witness:
  "map l_state (log_view (store_session_end demo_live 1)) = [STORE_LOG_CLOSED] \<and>
    map l_bytes_up (log_view (store_session_end demo_live 1)) = [5]"
proof -
  have l: "length (ms_log demo_store) = STORE_LOG_CAPACITY" using demo_parts(5) by (simp add: log_inv_def)
  have v: "log_view demo_live = [demo_entry]"
    using l by (simp add: log_view_def demo_live_def log_idx_def STORE_LOG_CAPACITY_def)
  have f: "store_find_session demo_live 1 = Some 0"
    by (simp add: demo_live_def store_find_session_def session_has_id_def fresh_session_def)
  have n: "ms_sessions demo_live ! 0 = \<lparr>n_active = True, n_info = (fresh_session 1)\<lparr>s_bytes_up := 5\<rparr>, n_log_id = 1\<rparr>"
    by (simp add: demo_live_def)
  show ?thesis
    using session_end_logged [OF demo_live_registry f] by (simp add: n v log_entry_close_def demo_entry_def)
qed


text \<open>
  On the linked list of denied hosts, denying adds the name at the end exactly when it is not
  an IP literal and not yet there, undenying removes it, the test answers membership, and a name denied
  and then undenied leaves the lists as they were; no call touches a freed or missing node.
\<close>

theorem deny_host_exact:
  assumes "acl_inv s" and "map_of (ms_rules s) a = None" and "length h \<le> STORE_MAX_DEST_HOST"
    and "inet_pton4 net h = None" and "inet_pton6 net h = None"
    and "is_host_denied s (Some h) = Inr False"
  shows "\<exists>s1 s2. store_deny_host net (Some a) s (Some h) = Inr (True, s1) \<and>
    is_host_denied s1 (Some h) = Inr True \<and> host_members s1 = host_members s @ [Acl_host h] \<and>
    store_undeny_host s1 (Some h) = Inr (True, s2) \<and> is_host_denied s2 (Some h) = Inr False \<and>
    host_members s2 = host_members s \<and> acl_inv s2"
proof -
  have n: "Acl_host h \<notin> set (host_members s)" using assms(1,6) by (simp add: is_denied_members)
  obtain s1 s2 where s: "store_deny_host net (Some a) s (Some h) = Inr (True, s1)"
    "store_undeny_host s1 (Some h) = Inr (True, s2)" "acl_inv s2" "host_members s2 = host_members s"
    using dh.undeny_deny [OF assms(1-3), of net] assms(4-6) by blast
  have "acl_inv s1" "host_members s1 = host_members s @ [Acl_host h]"
    using deny_host_law [OF assms(1-3), of net] s(1) by auto
  with s n show ?thesis by (simp add: is_denied_members)
qed

text \<open>
  The same for addresses, which are compared in binary form: every text that
  \<open>inet_pton\<close> reads as the same address is denied with it and undenies it.
\<close>

theorem deny_ip_exact:
  assumes "acl_inv s" and "map_of (ms_rules s) a = None" and "ip_target net ip = Some t"
    and "ip_target net ip2 = Some t" and "is_ip_denied net s (Some ip) = Inr False"
  shows "\<exists>s1 s2. store_deny_ip net (Some a) s (Some ip) = Inr (True, s1) \<and>
    is_ip_denied net s1 (Some ip2) = Inr True \<and>
    store_undeny_ip net s1 (Some ip2) = Inr (True, s2) \<and> is_ip_denied net s2 (Some ip) = Inr False \<and>
    addr_members s2 = addr_members s \<and> host_members s2 = host_members s \<and> acl_inv s2"
proof -
  have n: "t \<notin> set (addr_members s)" using assms(1,3,5) by (simp add: is_denied_members)
  obtain s1 where s1: "store_deny_ip net (Some a) s (Some ip) = Inr (True, s1)" "acl_inv s1"
    "addr_members s1 = addr_members s @ [t]" "host_members s1 = host_members s"
    using deny_ip_law [OF assms(1,2), of net ip] assms(3) n by auto
  obtain s2 where "store_undeny_ip net s1 (Some ip2) = Inr (True, s2)" "acl_inv s2"
    "addr_members s2 = remove1 t (addr_members s1)" "host_members s2 = host_members s1"
    using undeny_ip_law [OF s1(2), of net ip2] assms(4) s1(3) by auto
  with s1 n assms(3,4) show ?thesis by (auto simp: is_denied_members remove1_append)
qed

theorem deny_host_exact_witness:
  "\<exists>s1. store_deny_host demo_net (Some 1) demo_store (Some ''evil.org'') = Inr (True, s1) \<and>
     is_host_denied s1 (Some ''evil.org'') = Inr True"
  using deny_host_exact [OF demo_parts(3), of 1 "''evil.org''" demo_net]
  by (auto simp: demo_acl demo_net_def STORE_MAX_DEST_HOST_def is_denied_members demo_parts)

theorem deny_ip_exact_witness:
  "\<exists>s1. store_deny_ip demo_net (Some 1) demo_store (Some ''::1'') = Inr (True, s1) \<and>
     is_ip_denied demo_net s1 (Some ''0::1'') = Inr True"
  using deny_ip_exact [OF demo_parts(3), of 1 demo_net "''::1''" "Acl_ipv6 (replicate 15 0 @ [1])" "''0::1''"]
  by (auto simp: demo_acl demo_net_def ip_target_def is_denied_members demo_parts)









section \<open>The monitor protocol\<close>

text \<open>
  \<^bold>\<open>C11\<close>. Before authentication no input changes the store: on any bytes the session either is still
  unauthenticated with the store untouched, or it has authenticated and the store has an admin. In a
  store without admins every input is harmless.
\<close>

theorem monitor_gate:
  assumes "mon_inv (store, s)" and "calloc_fresh env" and "mc_state s = MONITOR_ST_AWAIT_AUTH"
  shows "(case monitor_commands_feed env bs (store, s) of
      Inr (store', s') \<Rightarrow> mc_state s' = MONITOR_ST_AWAIT_AUTH \<and> store' = store \<or>
        mc_state s' = MONITOR_ST_AUTHENTICATED \<and> (\<exists>u p. users_map store u = Some (p, STORE_ROLE_ADMIN))
    | Inl f \<Rightarrow> f = Out_of_bounds \<and> (\<exists>u p. users_map store u = Some (p, STORE_ROLE_ADMIN)))"
  using feed_mon [OF assms(1,2), of bs] assms(3)
  by (auto simp: mon_run_def mon_rel_def admin_known_def run_ok_iff split: sum.splits)

theorem monitor_gate_witness:
  "\<exists>s'. monitor_commands_feed demo_env (bytes_of (nl ''DELETE_USER ana'')) (demo_store, demo_session) = Inr (demo_store, s')"
  using monitor_gate [OF demo_mon_inv demo_fresh, of "bytes_of (nl ''DELETE_USER ana'')"]
  by (auto simp: demo_users split: sum.splits)

text \<open>
  A line authenticates the session exactly when it is \<open>AUTH\<close> with a name and password the
  store accepts for an admin; any other line of an unauthenticated session changes neither its state nor
  the store, and its replies are only appended to the output.
\<close>

theorem monitor_auth_exact:
  assumes "buffer_inv (mc_wb s)" and "mc_state s = MONITOR_ST_AWAIT_AUTH"
  shows "\<exists>s'. dispatch_line env line (store, s) = Inr (store, s') \<and>
    (mc_state s' = MONITOR_ST_AUTHENTICATED \<longleftrightarrow> auth_line store (split_line line)) \<and>
    (\<exists>out. buffer_pending (mc_wb s') = buffer_pending (mc_wb s) @ out)"
  using await_dispatch [OF assms, of env line store] assms(2)
  by (auto simp: gate_step_def sess_step_def run_ok_iff)

theorem monitor_auth_exact_witness:
  "\<exists>s'. dispatch_line demo_env ''AUTH admin admin'' (demo_store, demo_session) = Inr (demo_store, s') \<and>
    mc_state s' \<noteq> MONITOR_ST_AUTHENTICATED"
  using monitor_auth_exact [of demo_session demo_env "''AUTH admin admin''" demo_store]
  by (auto simp: auth_line_def authenticate_map demo_users)




lemma demo_dispatch:
  "dispatch_line demo_env ''X'' (demo_store, demo_session) =
     Inr (demo_store, demo_session\<lparr>mc_wb := wb_put (wb_put (mc_wb demo_session)
       (bytes_of (nl ''-ERR not authenticated''))) (bytes_of (nl ''.''))\<rparr>)"
  "split_line ''X'' = [''X'']"
proof -
  show "split_line ''X'' = [''X'']" by code_simp
  then show "dispatch_line demo_env ''X'' (demo_store, demo_session) =
     Inr (demo_store, demo_session\<lparr>mc_wb := wb_put (wb_put (mc_wb demo_session)
       (bytes_of (nl ''-ERR not authenticated''))) (bytes_of (nl ''.''))\<rparr>)"
    by (simp add: dispatch_line_def answer_eq wb_put_props)
qed


text \<open>
  The reply to every non-blank line ends with the terminator line \<open>.\<close> whenever the output
  buffer has room for it at the end.
\<close>

theorem reply_terminated:
  assumes "mon_inv (store, s)" and "calloc_fresh env" and "split_line line \<noteq> []"
    and "dispatch_line env line (store, s) = Inr (store', s')" and "2 \<le> buffer_room (mc_wb s')"
  shows "\<exists>out. buffer_pending (mc_wb s') = buffer_pending (mc_wb s) @ out @ bytes_of (nl ''.'')"
  using assms by (rule dispatch_terminated)

theorem reply_terminated_witness:
  "\<exists>store' s' out. dispatch_line demo_env ''X'' (demo_store, demo_session) = Inr (store', s') \<and>
     buffer_pending (mc_wb s') = out @ bytes_of (nl ''.'')"
proof -
  have "2 \<le> buffer_room (wb_put (wb_put (mc_wb demo_session) (bytes_of (nl ''-ERR not authenticated'')))
      (bytes_of (nl ''.'')))"
    by (simp add: wb_put_props nl_def MONITOR_BUFFER_SIZE_def)
  with reply_terminated [OF demo_mon_inv demo_fresh _ demo_dispatch(1)] demo_dispatch show ?thesis by auto
qed

text \<open>
  Over the wire, \<open>CONFIG key v\<close> with an accepted value answers \<open>+OK\<close>, and the following
  \<open>CONFIG key\<close> prints that value back in decimal.
\<close>

theorem config_round_trip:
  assumes "sessions_inv store" and "buffer_inv (mc_wb s)" and "mc_state s = MONITOR_ST_AUTHENTICATED"
    and "config_accepts (e_realloc env) store key v" and "18 \<le> buffer_room (mc_wb s)"
  shows "\<exists>store' s1 s2.
    dispatch_line env (''CONFIG'' @ '' '' @ key_name key @ '' '' @ dec v) (store, s) = Inr (store', s1) \<and>
    dispatch_line env (''CONFIG'' @ '' '' @ key_name key) (store', s1) = Inr (store', s2) \<and>
    buffer_pending (mc_wb s2) = buffer_pending (mc_wb s) @
      bytes_of (nl ''+OK'' @ nl ''.'' @ nl (''+OK '' @ dec v) @ nl ''.'')"
  using assms by (rule config_over_wire)

theorem config_round_trip_witness:
  "\<exists>store' s1. dispatch_line demo_env (''CONFIG'' @ '' '' @ key_name STORE_CFG_TIMEOUT @ '' '' @ dec 30)
     (demo_store, demo_session\<lparr>mc_state := MONITOR_ST_AUTHENTICATED\<rparr>) = Inr (store', s1)"
  using config_round_trip [of demo_store "demo_session\<lparr>mc_state := MONITOR_ST_AUTHENTICATED\<rparr>" demo_env STORE_CFG_TIMEOUT 30]
  by (auto simp: demo_parts config_accepts_def MONITOR_BUFFER_SIZE_def)



text \<open>
  \<^bold>\<open>C33\<close>. \<open>DENY_HOST\<close> copies its argument with \<open>strcpy\<close> into an array of 256 bytes and the
  command line may hold up to 500 characters: a longer name that is not denied yet is written out of
  bounds.
\<close>

theorem deny_host_overruns:
  assumes "acl_inv store" and "e_calloc env store = Some a" and "2 \<le> length args"
    and "STORE_MAX_DEST_HOST < length (args ! 1)" and "Acl_host (args ! 1) \<notin> set (host_members store)"
    and "inet_pton4 (e_net env) (args ! 1) = None" and "inet_pton6 (e_net env) (args ! 1) = None"
  shows "handle_deny_host env args (store, s) = Inl Out_of_bounds"
  using assms by (rule deny_host_overflow)

theorem deny_host_overruns_witness:
  "handle_deny_host demo_env [''DENY_HOST'', replicate 300 (CHR ''a'')] (demo_store, demo_session) = Inl Out_of_bounds"
proof (rule deny_host_overruns [OF demo_parts(3)])
  show "e_calloc demo_env demo_store = Some 1" by (simp add: demo_env_def demo_acl)
qed (simp_all add: STORE_MAX_DEST_HOST_def demo_acl demo_env_def demo_net_def numeral_eq_Suc)


end
